(* ===== verification/Ardp_Prelude.thy ===== *)
theory Ardp_Prelude
  imports Main "HOL-Library.List_Lexorder" "HOL-Library.Product_Lexorder"
    "HOL-Library.Char_ord" "HOL-Library.Multiset" "HOL-Library.Countable" "HOL-Library.AList"
begin

text \<open>
  Shared vocabulary of the development.

  A Python \<open>str\<close> is a list of Unicode code points (\<open>pystr\<close>), so that \<open>len\<close>, slicing and
  comparison are the list operations; \<open>U ''abc''\<close> is the literal \<open>"abc"\<close>.  With
  \<open>List_Lexorder\<close> the order on \<open>pystr\<close> is Python's order on \<open>str\<close> and, for the text columns of
  the catalog, SQLite's \<open>BINARY\<close> collation.  A function that may raise returns a sum: \<open>Inl\<close> the
  exception, \<open>Inr\<close> the value; \<open>sbind\<close> sequences two such computations and \<open>ensure\<close> is a guard
  that raises.  \<open>first_by\<close> is \<open>ORDER BY key LIMIT 1\<close> and \<open>upd_where\<close> is
  \<open>UPDATE ... WHERE\<close> over a table held as a list of rows.
\<close>

named_theorems result_simps \<open>rewriting of computations that may raise\<close>
named_theorems result_elims \<open>elimination of computations that succeeded\<close>
named_theorems str_simps \<open>evaluation of string literals and string helpers\<close>

type_synonym pystr = "nat list"

definition U :: "string \<Rightarrow> pystr" where
  [str_simps]: "U s = map of_char s"

section \<open>Computations that may raise\<close>

definition sbind :: "'e + 'a \<Rightarrow> ('a \<Rightarrow> 'e + 'b) \<Rightarrow> 'e + 'b" where
  "sbind m f = (case m of Inl e \<Rightarrow> Inl e | Inr x \<Rightarrow> f x)"

definition ensure :: "bool \<Rightarrow> 'e \<Rightarrow> 'e + unit" where
  "ensure b e = (if b then Inr () else Inl e)"

definition need :: "'a option \<Rightarrow> 'e \<Rightarrow> 'e + 'a" where
  "need x e = (case x of None \<Rightarrow> Inl e | Some a \<Rightarrow> Inr a)"

lemma sbind_simps [simp]: "sbind (Inl e) f = Inl e" "sbind (Inr x) f = f x"
  by (simp_all add: sbind_def)

lemma sbind_Inr_iff [result_simps]: "sbind m f = Inr y \<longleftrightarrow> (\<exists>x. m = Inr x \<and> f x = Inr y)"
  by (cases m) auto

lemma sbind_Inl_iff: "sbind m f = Inl e \<longleftrightarrow> m = Inl e \<or> (\<exists>x. m = Inr x \<and> f x = Inl e)"
  by (cases m) auto

lemma sbind_assoc: "sbind (sbind m f) g = sbind m (\<lambda>x. sbind (f x) g)"
  by (cases m) simp_all

lemma ensure_Inr_iff [result_simps]: "ensure b e = Inr u \<longleftrightarrow> b"
  by (simp add: ensure_def)

lemma ensure_Inl_iff: "ensure b e = Inl e' \<longleftrightarrow> \<not> b \<and> e' = e"
  by (auto simp: ensure_def)

text \<open>Elimination of a successful computation, step by step.\<close>

lemma sbind_InrE [result_elims]:
  assumes "sbind m f = Inr y"
  obtains x where "m = Inr x" "f x = Inr y"
  using assms by (auto simp: sbind_Inr_iff)

lemma guard_InrE [result_elims]:
  assumes "(if b then Inl e else m) = Inr y"
  obtains "\<not> b" "m = Inr y"
  using assms by (auto split: if_splits)

lemma guard'_InrE [result_elims]:
  assumes "(if b then m else Inl e) = Inr y"
  obtains "b" "m = Inr y"
  using assms by (auto split: if_splits)

lemma need_InrE [result_elims]:
  assumes "need x e = Inr a"
  obtains "x = Some a"
  using assms by (cases x) (auto simp: need_def)

lemma if_InrE:
  assumes "(if b then m else n) = Inr y"
  obtains (yes) "b" "m = Inr y" | (no) "\<not> b" "n = Inr y"
  using assms by (auto split: if_splits)

text \<open>
  Evaluation by simplification: the weak congruence keeps the continuation of a computation
  unevaluated until the result it waits for is a value.
\<close>

lemma sbind_weak_cong: "m = m' \<Longrightarrow> sbind m f = sbind m' f"
  by simp

lemma ensure_simps [simp]: "b \<Longrightarrow> ensure b e = Inr ()" "\<not> b \<Longrightarrow> ensure b e = Inl e"
  by (simp_all add: ensure_def)

lemma need_Inr_iff [result_simps]: "need x e = Inr a \<longleftrightarrow> x = Some a"
  by (cases x) (auto simp: need_def)

lemma need_simps [simp]: "need None e = Inl e" "need (Some a) e = Inr a"
  by (simp_all add: need_def)

lemma isl_iff: "isl m \<longleftrightarrow> (\<exists>e. m = Inl e)"
  by (cases m) auto

section \<open>Tables as lists of rows\<close>

definition upd_where :: "('r \<Rightarrow> bool) \<Rightarrow> ('r \<Rightarrow> 'r) \<Rightarrow> 'r list \<Rightarrow> 'r list" where
  "upd_where p f rs = map (\<lambda>r. if p r then f r else r) rs"

definition first_by :: "('r \<Rightarrow> 'k::linorder) \<Rightarrow> 'r list \<Rightarrow> 'r option" where
  "first_by key rs = (case sort_key key rs of [] \<Rightarrow> None | r # _ \<Rightarrow> Some r)"

lemma set_upd_where: "set (upd_where p f rs) = (\<lambda>r. if p r then f r else r) ` set rs"
  by (simp add: upd_where_def)

lemma map_upd_where [simp]: "(\<And>r. k (f r) = k r) \<Longrightarrow> map k (upd_where p f rs) = map k rs"
  by (simp add: upd_where_def)

lemma length_upd_where [simp]: "length (upd_where p f rs) = length rs"
  by (simp add: upd_where_def)

lemma upd_where_cases:
  assumes "r' \<in> set (upd_where p f rs)"
  obtains r where "r \<in> set rs" "p r" "r' = f r" | "r' \<in> set rs" "\<not> p r'"
  using assms by (auto simp: set_upd_where split: if_splits)

lemma first_by_Some_iff_ne: "(\<exists>r. first_by key rs = Some r) \<longleftrightarrow> rs \<noteq> []"
  by (cases "sort_key key rs") (auto simp: first_by_def dest: arg_cong[where f = length])

lemma first_by_None: "first_by key rs = None \<longleftrightarrow> rs = []"
  using first_by_Some_iff_ne[of key rs] by (cases "first_by key rs") auto

lemma first_by_in: "first_by key rs = Some r \<Longrightarrow> r \<in> set rs"
  by (auto simp: first_by_def split: list.splits dest: arg_cong[where f = set])

lemma first_by_le:
  assumes "first_by key rs = Some r" "x \<in> set rs"
  shows "key r \<le> key x"
proof -
  from assms(1) obtain ys where ys: "sort_key key rs = r # ys"
    by (auto simp: first_by_def split: list.splits)
  have "sorted (map key (r # ys))" using sorted_sort_key[of key rs] ys by simp
  moreover have "x \<in> set (r # ys)" using assms(2) ys set_sort[of key rs] by simp
  ultimately show ?thesis by auto
qed

lemma find_in: "List.find p xs = Some x \<Longrightarrow> x \<in> set xs \<and> p x"
  by (auto simp: find_Some_iff)

lemma find_unique:
  assumes "distinct (map k xs)" "x \<in> set xs"
  shows "List.find (\<lambda>y. k y = k x) xs = Some x"
  using assms by (induction xs) (auto simp: rev_image_eqI)

lemma find_append:
  "List.find p (xs @ ys) = (case List.find p xs of None \<Rightarrow> List.find p ys | Some x \<Rightarrow> Some x)"
  by (induction xs) auto

lemma set_update_subset: "set (AList.update k v al) \<subseteq> insert (k, v) (set al)"
  by (induction al) auto

lemma foldr_max_upt: "foldr max [m..<n] 0 = (if m < n then n - 1 else (0::nat))"
proof (induction "n - m" arbitrary: m)
  case (Suc k)
  then have "m < n" by simp
  moreover from Suc have "foldr max [Suc m..<n] 0 = (if Suc m < n then n - 1 else 0)" by simp
  ultimately show ?case by (auto simp: upt_conv_Cons)
qed simp

section \<open>Sorted duplicate-free tuples\<close>

lemma length_remdups_iff: "length xs = length (remdups xs) \<longleftrightarrow> distinct xs"
  by (metis length_remdups_card_conv card_distinct distinct_card)

text \<open>The source's \<open>values == tuple(sorted(set(values)))\<close>.\<close>

definition sorted_unique :: "'a::linorder list \<Rightarrow> bool" where
  "sorted_unique xs \<longleftrightarrow> xs = remdups (sort xs)"

lemma sorted_unique_iff: "sorted_unique xs \<longleftrightarrow> sorted xs \<and> distinct xs"
proof
  assume "sorted_unique xs"
  then have "xs = remdups (sort xs)" by (simp add: sorted_unique_def)
  then show "sorted xs \<and> distinct xs"
    by (metis distinct_remdups sorted_remdups sorted_sort)
next
  assume "sorted xs \<and> distinct xs"
  then show "sorted_unique xs"
    by (simp add: sorted_unique_def sorted_sort_id distinct_remdups_id)
qed

lemma distinct_map_sort_key [simp]: "distinct (map f (sort_key k xs)) \<longleftrightarrow> distinct (map f xs)"
  by (rule mset_eq_imp_distinct_iff) (simp del: mset_map add: mset_map)

section \<open>JSON payloads\<close>

text \<open>
  The payloads the code hashes.  Canonical serialisation (RFC 8785, a third-party package) followed
  by SHA-256 is the parameter \<open>cs\<close> of every definition that computes an identity
  (\<open>canonical_sha256\<close> in \<open>domain/identity.py\<close>).
\<close>

datatype json =
    JNull | JBool bool | JInt int | JStr pystr | JArr "json list" | JObj "(pystr \<times> json) list"

definition j_opt :: "('a \<Rightarrow> json) \<Rightarrow> 'a option \<Rightarrow> json" where
  "j_opt f x = (case x of None \<Rightarrow> JNull | Some a \<Rightarrow> f a)"

lemma j_opt_eq_iff:
  assumes "\<And>a b. f a = f b \<longleftrightarrow> a = b" "\<And>a. f a \<noteq> JNull"
  shows "j_opt f x = j_opt f y \<longleftrightarrow> x = y"
  using assms(1) assms(2)[symmetric] assms(2) by (cases x; cases y) (auto simp: j_opt_def)

text \<open>Payloads are countable, so an injective hash exists: the assumption \<open>inj cs\<close> can be met.\<close>

instance json :: countable
  by countable_datatype

definition numbering :: "json \<Rightarrow> pystr" where
  "numbering j = [to_nat j]"

lemma inj_numbering: "inj numbering"
  by (rule injI) (simp add: numbering_def)

text \<open>A small executable stand-in for the canonical hash, for the concrete runs only.\<close>

fun flat :: "json \<Rightarrow> nat list" where
  "flat JNull = [1]"
| "flat (JBool b) = [2, if b then 1 else 0]"
| "flat (JInt i) = [3, nat i]"
| "flat (JStr s) = 4 # s"
| "flat (JArr js) = 5 # concat (map flat js)"
| "flat (JObj kvs) = 6 # concat (map (\<lambda>(k, v). k @ flat v) kvs)"

end
