(* ===== verification/Job_Domain.thy ===== *)
theory Job_Domain
  imports Ardp_Prelude
begin

text \<open>
  The pure job records of \<open>domain/storage.py\<close>: the job lifecycle, the immutable request
  (\<open>JobSpec\<close>), the durable projection (\<open>Job\<close>) and the append-only event (\<open>JobEvent\<close>), each with
  its pydantic validator as a bool-valued predicate, and the UUIDv7 constructor.  Instants are
  integers (microseconds): the code stores them as fixed-width RFC 3339 text, whose text order
  is the order of the instants.
\<close>

unbundle bit_operations_syntax

section \<open>UUIDv7\<close>

definition uuid7_from_parts :: "int \<Rightarrow> int \<Rightarrow> string + int" where
  "uuid7_from_parts timestamp_ms random_bits =
     (if \<not> (0 \<le> timestamp_ms \<and> timestamp_ms < push_bit 48 1)
      then Inl ''UUIDv7 timestamp must fit in 48 bits''
      else if \<not> (0 \<le> random_bits \<and> random_bits < push_bit 74 1)
      then Inl ''UUIDv7 random value must fit in 74 bits''
      else
        let random_a = drop_bit 62 random_bits;
            random_b = random_bits AND (push_bit 62 1 - 1)
        in Inr ((((push_bit 80 timestamp_ms OR push_bit 76 0x7) OR push_bit 64 random_a)
                OR push_bit 62 2) OR random_b))"

lemma or_shifted:
  fixes a b :: int
  assumes "0 \<le> b" "b < 2 ^ n"
  shows "push_bit n a OR b = a * 2 ^ n + b"
proof -
  have b: "take_bit n b = b" using assms by (simp add: take_bit_int_eq_self)
  have "push_bit n a AND b = 0"
  proof (rule bit_eqI)
    fix k
    have "bit b k \<Longrightarrow> k < n" by (metis b bit_take_bit_iff)
    then show "bit (push_bit n a AND b) k = bit (0::int) k"
      by (auto simp: bit_and_iff bit_push_bit_iff)
  qed
  then show ?thesis using plus_and_or[of "push_bit n a" b] by (simp add: push_bit_eq_mult)
qed

lemma uuid7_value:
  assumes "0 \<le> t" "t < 2 ^ 48" "0 \<le> r" "r < 2 ^ 74"
  shows "uuid7_from_parts t r =
    Inr (t * 2 ^ 80 + 7 * 2 ^ 76 + (r div 2 ^ 62) * 2 ^ 64 + 2 * 2 ^ 62 + r mod 2 ^ 62)"
proof -
  have a: "drop_bit 62 r = r div 2 ^ 62" by (simp add: drop_bit_eq_div)
  have b: "r AND (push_bit 62 1 - 1) = r mod 2 ^ 62"
    using take_bit_eq_mask[of 62 r] by (simp add: mask_eq_exp_minus_1 take_bit_eq_mod push_bit_eq_mult)
  let ?ra = "r div 2 ^ 62" and ?rb = "r mod 2 ^ 62"
  have ra: "0 \<le> ?ra" "?ra < 2 ^ 12" and rb: "0 \<le> ?rb" "?rb < 2 ^ 62" using assms by auto
  have 1: "push_bit 80 t OR push_bit 76 7 = push_bit 76 (t * 16 + 7)"
    using or_shifted[of "push_bit 76 7" 80 t] by (simp add: push_bit_eq_mult)
  have 2: "push_bit 76 (t * 16 + 7) OR push_bit 64 ?ra = push_bit 64 ((t * 16 + 7) * 2 ^ 12 + ?ra)"
    using or_shifted[of "push_bit 64 ?ra" 76 "t * 16 + 7"] ra by (simp add: push_bit_eq_mult)
  have 3: "push_bit 64 s OR push_bit 62 2 = push_bit 62 (s * 4 + 2)" for s :: int
    using or_shifted[of "push_bit 62 2" 64 s] by (simp add: push_bit_eq_mult)
  have 4: "push_bit 62 s OR ?rb = s * 2 ^ 62 + ?rb" for s :: int
    by (rule or_shifted) (use rb in auto)
  show ?thesis
    using assms unfolding uuid7_from_parts_def Let_def a b 1 2 3 4
    by (simp add: push_bit_eq_mult)
qed
section \<open>Constrained strings\<close>

text \<open>
  \<open>MachineToken\<close> is \<open>[a-z][a-z0-9_.-]*\<close> with at most 128 characters; \<open>ReferenceRole\<close> is
  \<open>[a-z][a-z0-9_]*\<close> with at most 64.  A job identifier is a \<open>UUID\<close> object in the code and its
  canonical text here.
\<close>

definition lower_ascii :: "nat \<Rightarrow> bool" where
  "lower_ascii c \<longleftrightarrow> 97 \<le> c \<and> c \<le> 122"

definition digit_ascii :: "nat \<Rightarrow> bool" where
  "digit_ascii c \<longleftrightarrow> 48 \<le> c \<and> c \<le> 57"

definition machine_token :: "pystr \<Rightarrow> bool" where
  "machine_token s \<longleftrightarrow> (case s of [] \<Rightarrow> False | c # cs \<Rightarrow>
     lower_ascii c \<and>
     list_all (\<lambda>d. lower_ascii d \<or> digit_ascii d \<or> d \<in> set (U ''_.-'')) cs \<and> length cs \<le> 127)"

definition reference_role :: "pystr \<Rightarrow> bool" where
  "reference_role s \<longleftrightarrow> (case s of [] \<Rightarrow> False | c # cs \<Rightarrow>
     lower_ascii c \<and>
     list_all (\<lambda>d. lower_ascii d \<or> digit_ascii d \<or> d \<in> set (U ''_'')) cs \<and> length cs \<le> 63)"

definition length_between :: "nat \<Rightarrow> nat \<Rightarrow> pystr \<Rightarrow> bool" where
  "length_between lo hi s \<longleftrightarrow> lo \<le> length s \<and> length s \<le> hi"

section \<open>Object references\<close>

record object_ref =
  ref_role :: pystr
  ref_ordinal :: nat
  ref_object :: pystr
  ref_length :: nat
  ref_media :: "pystr option"

definition object_ref_valid :: "object_ref \<Rightarrow> bool" where
  "object_ref_valid r \<longleftrightarrow> reference_role (ref_role r) \<and> ref_role r \<noteq> U ''source'' \<and>
     (case ref_media r of None \<Rightarrow> True | Some m \<Rightarrow> length_between 1 255 m)"

definition unique_reference_slots :: "object_ref list \<Rightarrow> bool" where
  "unique_reference_slots refs \<longleftrightarrow>
     (let slots = map (\<lambda>r. (ref_role r, ref_ordinal r)) refs
      in length slots = length (remdups slots))"

lemma unique_reference_slots_distinct:
  "unique_reference_slots refs \<longleftrightarrow> distinct (map (\<lambda>r. (ref_role r, ref_ordinal r)) refs)"
  by (simp add: unique_reference_slots_def length_remdups_iff del: length_map)

section \<open>Job lifecycle records\<close>

datatype job_state = QUEUED | RUNNING | SUCCEEDED | FAILED | CANCELLED

definition terminal_states :: "job_state set" where
  "terminal_states = {SUCCEEDED, FAILED, CANCELLED}"

record job_spec =
  spec_job_id :: pystr
  spec_kind :: pystr
  spec_deduplication_key :: pystr
  spec_max_attempts :: nat
  spec_references :: "object_ref list"
  spec_available_at :: "int option"
  spec_created_at :: int

definition job_spec_valid :: "job_spec \<Rightarrow> bool" where
  "job_spec_valid s \<longleftrightarrow>
     machine_token (spec_kind s) \<and> length_between 1 1024 (spec_deduplication_key s) \<and>
     1 \<le> spec_max_attempts s \<and> spec_max_attempts s \<le> 100 \<and>
     list_all object_ref_valid (spec_references s) \<and>
     unique_reference_slots (spec_references s) \<and>
     (case spec_available_at s of None \<Rightarrow> True | Some a \<Rightarrow> spec_created_at s \<le> a)"

record job =
  job_id :: pystr
  kind :: pystr
  deduplication_key :: pystr
  state :: job_state
  attempt_count :: nat
  max_attempts :: nat
  revision :: nat
  available_at :: int
  active_owner_id :: "pystr option"
  lease_expires_at :: "int option"
  cancellation_requested_at :: "int option"
  last_failure_code :: "pystr option"
  created_at :: int
  updated_at :: int
  terminal_at :: "int option"
  references :: "object_ref list"

definition job_valid :: "'a job_scheme \<Rightarrow> bool" where
  "job_valid j \<longleftrightarrow>
     machine_token (kind j) \<and> length_between 1 1024 (deduplication_key j) \<and>
     (case active_owner_id j of None \<Rightarrow> True | Some o' \<Rightarrow> length_between 1 255 o') \<and>
     (case last_failure_code j of None \<Rightarrow> True | Some c \<Rightarrow> machine_token c) \<and>
     list_all object_ref_valid (references j) \<and>
     1 \<le> max_attempts j \<and> max_attempts j \<le> 100 \<and>
     attempt_count j \<le> max_attempts j \<and>
     created_at j \<le> updated_at j \<and>
     created_at j \<le> available_at j \<and>
     unique_reference_slots (references j) \<and>
     (if state j = RUNNING
      then active_owner_id j \<noteq> None \<and> lease_expires_at j \<noteq> None \<and> terminal_at j = None \<and>
           (case cancellation_requested_at j of None \<Rightarrow> True
            | Some c \<Rightarrow> created_at j \<le> c \<and> c \<le> updated_at j)
      else active_owner_id j = None \<and> lease_expires_at j = None \<and>
           cancellation_requested_at j = None) \<and>
     (if state j \<in> terminal_states
      then (case terminal_at j of None \<Rightarrow> False | Some t \<Rightarrow> created_at j \<le> t)
      else terminal_at j = None)"

section \<open>Job events\<close>

datatype job_event_type =
    ENQUEUED | CLAIMED | RENEWED | COMPLETED | RETRY_QUEUED | EV_FAILED
  | LEASE_RECOVERED | LEASE_EXHAUSTED | CANCEL_REQUESTED | EV_CANCELLED

record job_event =
  ev_job :: pystr
  ev_sequence :: nat
  ev_type :: job_event_type
  ev_from :: "job_state option"
  ev_to :: job_state
  ev_at :: int
  ev_attempt :: nat
  ev_owner :: "pystr option"
  ev_failure :: "pystr option"

fun event_transitions :: "job_event_type \<Rightarrow> (job_state option \<times> job_state) list" where
  "event_transitions ENQUEUED = [(None, QUEUED)]"
| "event_transitions CLAIMED = [(Some QUEUED, RUNNING)]"
| "event_transitions RENEWED = [(Some RUNNING, RUNNING)]"
| "event_transitions COMPLETED = [(Some RUNNING, SUCCEEDED)]"
| "event_transitions RETRY_QUEUED = [(Some RUNNING, QUEUED)]"
| "event_transitions EV_FAILED = [(Some RUNNING, FAILED)]"
| "event_transitions LEASE_RECOVERED = [(Some RUNNING, QUEUED)]"
| "event_transitions LEASE_EXHAUSTED = [(Some RUNNING, FAILED)]"
| "event_transitions CANCEL_REQUESTED = [(Some RUNNING, RUNNING)]"
| "event_transitions EV_CANCELLED = [(Some QUEUED, CANCELLED), (Some RUNNING, CANCELLED)]"

definition failure_events :: "job_event_type list" where
  "failure_events = [RETRY_QUEUED, EV_FAILED, LEASE_RECOVERED, LEASE_EXHAUSTED]"

definition job_event_valid :: "job_event \<Rightarrow> bool" where
  "job_event_valid e \<longleftrightarrow>
     1 \<le> ev_sequence e \<and>
     (case ev_owner e of None \<Rightarrow> True | Some o' \<Rightarrow> length_between 1 255 o') \<and>
     (case ev_failure e of None \<Rightarrow> True | Some c \<Rightarrow> machine_token c) \<and>
     (ev_from e, ev_to e) \<in> set (event_transitions (ev_type e)) \<and>
     (let queued_cancellation = (ev_type e = EV_CANCELLED \<and> ev_from e = Some QUEUED)
      in if ev_type e = ENQUEUED then ev_attempt e = 0 \<and> ev_owner e = None
         else if queued_cancellation then ev_owner e = None
         else 1 \<le> ev_attempt e \<and> ev_owner e \<noteq> None) \<and>
     ((ev_type e \<in> set failure_events) = (ev_failure e \<noteq> None))"

text \<open>The lifecycle graph that the event classifications span.\<close>

inductive lifecycle_step :: "job_state option \<Rightarrow> job_state \<Rightarrow> bool" where
  enqueue: "lifecycle_step None QUEUED"
| claim: "lifecycle_step (Some QUEUED) RUNNING"
| hold: "lifecycle_step (Some RUNNING) RUNNING"
| requeue: "lifecycle_step (Some RUNNING) QUEUED"
| finish: "s \<in> terminal_states \<Longrightarrow> lifecycle_step (Some RUNNING) s"
| cancel_queued: "lifecycle_step (Some QUEUED) CANCELLED"

inductive_cases from_terminal: "lifecycle_step (Some SUCCEEDED) t"
inductive_cases from_failed: "lifecycle_step (Some FAILED) t"
inductive_cases from_cancelled: "lifecycle_step (Some CANCELLED) t"

lemma event_transition_lifecycle:
  "(f, t) \<in> set (event_transitions ty) \<Longrightarrow> lifecycle_step f t"
  by (cases ty) (auto intro: lifecycle_step.intros simp: terminal_states_def)

lemma lifecycle_terminal_stuck: "s \<in> terminal_states \<Longrightarrow> \<not> lifecycle_step (Some s) t"
  by (auto simp: terminal_states_def elim: from_terminal from_failed from_cancelled)

section \<open>Recovery results\<close>

record recovery_result =
  requeued_job_ids :: "pystr list"
  failed_job_ids :: "pystr list"
  cancelled_job_ids :: "pystr list"
  recovered_at :: int

definition recovery_result_valid :: "recovery_result \<Rightarrow> bool" where
  "recovery_result_valid r \<longleftrightarrow>
     sorted_unique (requeued_job_ids r) \<and> sorted_unique (failed_job_ids r) \<and>
     sorted_unique (cancelled_job_ids r) \<and>
     set (requeued_job_ids r) \<inter> set (failed_job_ids r) = {} \<and>
     set (requeued_job_ids r) \<inter> set (cancelled_job_ids r) = {} \<and>
     set (failed_job_ids r) \<inter> set (cancelled_job_ids r) = {}"

end
