(* ===== verification/Binary64.thy ===== *)
theory Binary64
  imports Ardp_Prelude
begin

text \<open>
  The IEEE 754 binary64 rounding that CPython's \<open>/\<close> and \<open>*\<close> on \<open>float\<close> perform, on non-negative
  values written as fractions of naturals.  \<open>fl (p, q)\<close> is the double nearest to \<open>p / q\<close>, ties to
  the even significand; \<open>round_half_even\<close> is Python's \<open>round\<close> to an integer.  The exponent range is
  not bounded: the values of the model stay far from the subnormal and overflow ranges.
\<close>

definition round_half_even :: "nat \<Rightarrow> nat \<Rightarrow> nat" where
  "round_half_even p q =
     (let d = p div q; r = p mod q
      in if 2 * r < q then d else if q < 2 * r then d + 1 else if even d then d else d + 1)"

function scale_up :: "nat \<Rightarrow> nat \<Rightarrow> nat" where
  "scale_up p q = (if p = 0 \<or> q * 2 ^ 52 \<le> p then 0 else Suc (scale_up (2 * p) q))"
  by pat_completeness auto
termination by (relation "measure (\<lambda>(p, q). q * 2 ^ 52 - p)") auto

function scale_down :: "nat \<Rightarrow> nat \<Rightarrow> nat" where
  "scale_down p q = (if q = 0 \<or> p < q * 2 ^ 53 then 0 else Suc (scale_down p (2 * q)))"
  by pat_completeness auto
termination by (relation "measure (\<lambda>(p, q). Suc p - q)") auto

declare scale_up.simps [simp del] scale_down.simps [simp del]

definition fl :: "nat \<times> nat \<Rightarrow> nat \<times> nat" where
  "fl v = (case v of (p, q) \<Rightarrow>
     if p = 0 then (0, 1)
     else let k = scale_up p q in
       if 0 < k then (round_half_even (p * 2 ^ k) q, 2 ^ k)
       else let d = scale_down p q in (round_half_even p (q * 2 ^ d) * 2 ^ d, 1))"

definition fdiv :: "nat \<Rightarrow> nat \<Rightarrow> nat \<times> nat" where
  "fdiv p q = fl (p, q)"

definition fmul :: "nat \<times> nat \<Rightarrow> nat \<Rightarrow> nat \<times> nat" where
  "fmul x n = fl (fst x * n, snd x)"

definition fround :: "nat \<times> nat \<Rightarrow> nat" where
  "fround x = round_half_even (fst x) (snd x)"

definition ftrunc :: "nat \<times> nat \<Rightarrow> nat" where
  "ftrunc x = fst x div snd x"

section \<open>Rounding to an integer\<close>

lemma round_half_even_cases:
  "round_half_even p q = p div q \<and> 2 * (p mod q) \<le> q \<or>
   round_half_even p q = p div q + 1 \<and> q \<le> 2 * (p mod q)"
  by (auto simp: round_half_even_def Let_def)

lemma round_half_even_scaled:
  "q * round_half_even p q = q * (p div q) \<and> 2 * (p mod q) \<le> q \<or>
   q * round_half_even p q = q * (p div q) + q \<and> q \<le> 2 * (p mod q)"
  using round_half_even_cases[of p q] by auto

lemma round_half_even_le: "2 * (q * round_half_even p q) \<le> 2 * p + q"
  using round_half_even_scaled[of q p] mult_div_mod_eq[of q p] by linarith

lemma round_half_even_ge:
  assumes "0 < q" shows "2 * p \<le> 2 * (q * round_half_even p q) + q"
  using round_half_even_scaled[of q p] mult_div_mod_eq[of q p] mod_less_divisor[OF assms, of p]
  by linarith

lemma round_half_even_exact [simp]: "0 < q \<Longrightarrow> round_half_even (n * q) q = n"
  by (simp add: round_half_even_def)

lemma round_half_even_mono:
  assumes "p \<le> p'" "0 < q" shows "round_half_even p q \<le> round_half_even p' q"
proof (rule ccontr)
  assume "\<not> ?thesis"
  then have lt: "round_half_even p' q < round_half_even p q" by simp
  have "p div q \<le> p' div q" using assms by (simp add: div_le_mono)
  with lt round_half_even_cases[of p q] round_half_even_cases[of p' q]
  have d: "p div q = p' div q" and "q \<le> 2 * (p mod q)" "2 * (p' mod q) \<le> q"
    "round_half_even p q = p div q + 1" "round_half_even p' q = p' div q"
    by auto
  have "p mod q \<le> p' mod q" using assms(1) d
    by (metis add_le_cancel_left mult_div_mod_eq)
  then have "p mod q = p' mod q" using \<open>q \<le> 2 * (p mod q)\<close> \<open>2 * (p' mod q) \<le> q\<close> by simp
  then have "p = p'" using d by (metis mult_div_mod_eq)
  with lt show False by simp
qed

lemma round_half_even_le_int:
  assumes "p \<le> n * q" "0 < q" shows "round_half_even p q \<le> n"
  using round_half_even_mono[OF assms] assms(2) by simp

section \<open>The nearest double\<close>

lemma snd_fl_pos [simp]: "0 < snd (fl v)"
  by (cases v) (simp add: fl_def Let_def)

text \<open>Rounding keeps the order against an integer bound.\<close>

lemma fl_le_int:
  assumes "p \<le> n * q" "0 < q" "n \<le> 2 ^ 53"
  shows "fst (fl (p, q)) \<le> n * snd (fl (p, q))"
proof (cases "p = 0 \<or> 0 < scale_up p q")
  case True
  have "p * 2 ^ k \<le> (n * 2 ^ k) * q" for k
    using assms(1) by (simp add: mult.commute mult.left_commute)
  then have "round_half_even (p * 2 ^ k) q \<le> n * 2 ^ k" for k
    using assms(2) by (rule round_half_even_le_int)
  with True show ?thesis by (auto simp: fl_def Let_def)
next
  case False
  let ?d = "scale_down p q"
  have lt: "p \<le> 2 ^ 53 * q" using assms(1,3) by (metis le_trans mult_le_mono1)
  show ?thesis
  proof (cases "p < q * 2 ^ 53")
    case True
    then have "?d = 0" by (subst scale_down.simps) simp
    with False assms show ?thesis by (simp add: fl_def Let_def round_half_even_le_int)
  next
    case eq: False
    then have "n = 2 ^ 53" "p = q * 2 ^ 53"
      using lt assms by (auto simp: mult.commute le_antisym)
    moreover have "?d = 1"
      using eq \<open>p = _\<close> assms(2)
      by (subst scale_down.simps) (simp add: scale_down.simps[of _ "2 * q"])
    moreover have "round_half_even (q * 2 ^ 53) (q * 2) = 2 ^ 52"
      using round_half_even_exact[of "q * 2" "2 ^ 52"] assms(2) by (simp add: mult.commute mult.left_commute)
    ultimately show ?thesis using False by (simp add: fl_def Let_def)
  qed
qed

text \<open>Every rounding is within half a unit in the last place.\<close>

lemma scale_up_spec: "0 < p \<Longrightarrow> q * 2 ^ 52 \<le> p * 2 ^ scale_up p q"
proof (induction p q rule: scale_up.induct)
  case (1 p q)
  show ?case
  proof (cases "q * 2 ^ 52 \<le> p")
    case True
    then show ?thesis by (simp add: scale_up.simps[of p])
  next
    case False
    with "1" have "q * 2 ^ 52 \<le> 2 * p * 2 ^ scale_up (2 * p) q" by simp
    with False "1.prems" show ?thesis by (simp add: scale_up.simps[of p] ac_simps)
  qed
qed

lemma scale_down_spec: "q * 2 ^ 52 \<le> p \<Longrightarrow> q * 2 ^ scale_down p q * 2 ^ 52 \<le> p"
proof (induction p q rule: scale_down.induct)
  case (1 p q)
  show ?case
  proof (cases "q = 0 \<or> p < q * 2 ^ 53")
    case True
    with "1.prems" show ?thesis by (simp add: scale_down.simps[of p])
  next
    case False
    then have "2 * q * 2 ^ 52 \<le> p" by simp
    with False "1.IH" have "2 * q * 2 ^ scale_down p (2 * q) * 2 ^ 52 \<le> p" by simp
    with False show ?thesis by (simp add: scale_down.simps[of p] ac_simps)
  qed
qed

lemma half_ulp:
  assumes "q * 2 ^ 52 \<le> p" "0 < q"
  shows "2 ^ 53 * (q * round_half_even p q) \<le> (2 ^ 53 + 1) * p"
    and "(2 ^ 53 - 1) * p \<le> 2 ^ 53 * (q * round_half_even p q)"
  using round_half_even_le[of q p] round_half_even_ge[OF assms(2), of p] assms(1) by simp_all

lemma fl_error:
  assumes "0 < q" "fl (p, q) = (m, d)"
  shows "2 ^ 53 * (m * q) \<le> (2 ^ 53 + 1) * (p * d)" (is ?up)
    and "(2 ^ 53 - 1) * (p * d) \<le> 2 ^ 53 * (m * q)" (is ?lo)
proof -
  have "?up \<and> ?lo"
  proof (cases "p = 0 \<or> 0 < scale_up p q")
    case True
    show ?thesis
    proof (cases "p = 0")
      case False
      with True assms half_ulp[OF scale_up_spec[of p q]] show ?thesis
        by (auto simp: fl_def Let_def ac_simps)
    qed (use assms in \<open>auto simp: fl_def\<close>)
  next
    case False
    then have le: "q * 2 ^ 52 \<le> p"
      by (metis add.right_neutral gr_zeroI mult.right_neutral power_0 scale_up_spec)
    let ?Q = "q * 2 ^ scale_down p q"
    have "2 ^ 53 * (?Q * round_half_even p ?Q) \<le> (2 ^ 53 + 1) * p"
      "(2 ^ 53 - 1) * p \<le> 2 ^ 53 * (?Q * round_half_even p ?Q)"
      using half_ulp[of ?Q p] scale_down_spec[OF le] assms(1) by simp_all
    with False assms show ?thesis by (auto simp: fl_def Let_def ac_simps)
  qed
  then show ?up ?lo by auto
qed

end
