(* ===== verification/Watch_Domain.thy ===== *)
theory Watch_Domain
  imports Binary64
begin

text \<open>
  The pure watcher records of \<open>domain/watcher.py\<close>: configuration, file fingerprints, scans,
  observations, job targets and events with their validators, the domain-separated identities
  and the retry delay.  \<open>cs\<close> stands for \<open>canonical_sha256\<close>; instants are microseconds.
\<close>

section \<open>Configuration and fingerprints\<close>

record watch_config =
  recursive :: bool
  max_depth :: nat
  stability_ms :: nat
  poll_ms :: nat
  max_entries :: nat
  max_active_jobs :: nat
  max_jobs_per_cycle :: nat
  cfg_max_attempts :: nat
  retry_base_ms :: nat
  retry_max_ms :: nat
  text_profile :: pystr
  rich_profile :: pystr

definition watch_config_valid :: "watch_config \<Rightarrow> bool" where
  "watch_config_valid c \<longleftrightarrow>
     max_depth c \<le> 256 \<and> stability_ms c \<le> 86400000 \<and>
     1 \<le> poll_ms c \<and> poll_ms c \<le> 86400000 \<and>
     1 \<le> max_entries c \<and> max_entries c \<le> 1000000 \<and>
     1 \<le> max_active_jobs c \<and> max_active_jobs c \<le> 100000 \<and>
     max_jobs_per_cycle c \<le> 1000 \<and>
     1 \<le> cfg_max_attempts c \<and> cfg_max_attempts c \<le> 100 \<and>
     1 \<le> retry_base_ms c \<and> retry_base_ms c \<le> 86400000 \<and>
     1 \<le> retry_max_ms c \<and> retry_max_ms c \<le> 604800000 \<and>
     text_profile c \<noteq> [] \<and> length (text_profile c) \<le> 255 \<and>
     rich_profile c \<noteq> [] \<and> length (rich_profile c) \<le> 255 \<and>
     (\<not> recursive c \<longrightarrow> max_depth c = 0) \<and>
     retry_base_ms c \<le> retry_max_ms c"

record fingerprint =
  device_id :: pystr
  file_id :: pystr
  byte_length :: nat
  modified_ns :: pystr
  mode :: nat

definition ascii_decimal :: "pystr \<Rightarrow> bool" where
  "ascii_decimal s \<longleftrightarrow> s \<noteq> [] \<and> list_all (\<lambda>c. 48 \<le> c \<and> c \<le> 57) s"

definition fingerprint_valid :: "fingerprint \<Rightarrow> bool" where
  "fingerprint_valid f \<longleftrightarrow>
     device_id f \<noteq> [] \<and> length (device_id f) \<le> 128 \<and>
     file_id f \<noteq> [] \<and> length (file_id f) \<le> 128 \<and>
     byte_length f \<le> 9007199254740991 \<and> mode f \<le> 9007199254740991 \<and>
     modified_ns f \<noteq> [] \<and> length (modified_ns f) \<le> 21 \<and>
     ascii_decimal (case modified_ns f of [] \<Rightarrow> []
                    | c # cs \<Rightarrow> if c = 45 then cs else modified_ns f)"

text \<open>Code equations that compare binary integers, so that the bounds evaluate quickly.\<close>

lemma watch_config_valid_code [code]:
  "watch_config_valid c \<longleftrightarrow>
     int (max_depth c) \<le> 256 \<and> int (stability_ms c) \<le> 86400000 \<and>
     1 \<le> poll_ms c \<and> int (poll_ms c) \<le> 86400000 \<and>
     1 \<le> max_entries c \<and> int (max_entries c) \<le> 1000000 \<and>
     1 \<le> max_active_jobs c \<and> int (max_active_jobs c) \<le> 100000 \<and>
     int (max_jobs_per_cycle c) \<le> 1000 \<and>
     1 \<le> cfg_max_attempts c \<and> cfg_max_attempts c \<le> 100 \<and>
     1 \<le> retry_base_ms c \<and> int (retry_base_ms c) \<le> 86400000 \<and>
     1 \<le> retry_max_ms c \<and> int (retry_max_ms c) \<le> 604800000 \<and>
     text_profile c \<noteq> [] \<and> int (length (text_profile c)) \<le> 255 \<and>
     rich_profile c \<noteq> [] \<and> int (length (rich_profile c)) \<le> 255 \<and>
     (\<not> recursive c \<longrightarrow> max_depth c = 0) \<and>
     retry_base_ms c \<le> retry_max_ms c"
  unfolding watch_config_valid_def by linarith

lemma fingerprint_valid_code [code]:
  "fingerprint_valid f \<longleftrightarrow>
     device_id f \<noteq> [] \<and> int (length (device_id f)) \<le> 128 \<and>
     file_id f \<noteq> [] \<and> int (length (file_id f)) \<le> 128 \<and>
     int (byte_length f) \<le> 9007199254740991 \<and> int (mode f) \<le> 9007199254740991 \<and>
     modified_ns f \<noteq> [] \<and> length (modified_ns f) \<le> 21 \<and>
     ascii_decimal (case modified_ns f of [] \<Rightarrow> []
                    | c # cs \<Rightarrow> if c = 45 then cs else modified_ns f)"
  unfolding fingerprint_valid_def by linarith

section \<open>Identities\<close>

definition domain_hash :: "(json \<Rightarrow> pystr) \<Rightarrow> string \<Rightarrow> (pystr \<times> json) list \<Rightarrow> pystr" where
  "domain_hash cs domain payload = cs (JObj
     [(U ''canonicalization'', JStr (U ''RFC8785'')), (U ''domain'', JStr (U domain)),
      (U ''identity_version'', JInt 1), (U ''payload'', JObj payload)])"

definition fingerprint_json :: "fingerprint \<Rightarrow> json" where
  "fingerprint_json f = JObj
     [(U ''device_id'', JStr (device_id f)), (U ''file_id'', JStr (file_id f)),
      (U ''byte_length'', JInt (int (byte_length f))), (U ''modified_ns'', JStr (modified_ns f)),
      (U ''mode'', JInt (int (mode f)))]"

definition config_hash :: "(json \<Rightarrow> pystr) \<Rightarrow> watch_config \<Rightarrow> pystr" where
  "config_hash cs c = domain_hash cs ''openardp:watch-config''
     [(U ''recursive'', JBool (recursive c)), (U ''max_depth'', JInt (int (max_depth c))),
      (U ''stability_ms'', JInt (int (stability_ms c))), (U ''poll_ms'', JInt (int (poll_ms c))),
      (U ''max_entries'', JInt (int (max_entries c))),
      (U ''max_active_jobs'', JInt (int (max_active_jobs c))),
      (U ''max_jobs_per_cycle'', JInt (int (max_jobs_per_cycle c))),
      (U ''max_attempts'', JInt (int (cfg_max_attempts c))),
      (U ''retry_base_ms'', JInt (int (retry_base_ms c))),
      (U ''retry_max_ms'', JInt (int (retry_max_ms c))),
      (U ''text_profile'', JStr (text_profile c)), (U ''rich_profile'', JStr (rich_profile c))]"

definition watch_locator_digest :: "(json \<Rightarrow> pystr) \<Rightarrow> pystr \<Rightarrow> string + pystr" where
  "watch_locator_digest cs locator =
     (if locator = [] then Inl ''watch locator must be non-empty''
      else Inr (domain_hash cs ''openardp:watch-relative-locator''
                  [(U ''locator'', JStr locator)]))"

definition watch_root_id :: "(json \<Rightarrow> pystr) \<Rightarrow> pystr \<Rightarrow> pystr \<Rightarrow> pystr \<Rightarrow> pystr \<Rightarrow> pystr" where
  "watch_root_id cs path_digest dev fid cfg = domain_hash cs ''openardp:watch-root''
     [(U ''root_path_digest'', JStr path_digest), (U ''device_id'', JStr dev),
      (U ''file_id'', JStr fid), (U ''config_hash'', JStr cfg)]"

definition watch_job_key ::
  "(json \<Rightarrow> pystr) \<Rightarrow> pystr \<Rightarrow> pystr \<Rightarrow> fingerprint \<Rightarrow> pystr \<Rightarrow> pystr" where
  "watch_job_key cs root locator_dig fp profile = domain_hash cs ''openardp:watch-ingest-job''
     [(U ''root_id'', JStr root), (U ''locator_digest'', JStr locator_dig),
      (U ''fingerprint'', fingerprint_json fp), (U ''parser_profile'', JStr profile)]"

lemma fingerprint_json_inj [simp]: "fingerprint_json f = fingerprint_json g \<longleftrightarrow> f = g"
  by (auto simp: fingerprint_json_def intro: fingerprint.equality)

lemma watch_job_key_inj:
  assumes "inj cs"
  shows "watch_job_key cs r l f p = watch_job_key cs r' l' f' p' \<longleftrightarrow>
    r = r' \<and> l = l' \<and> f = f' \<and> p = p'"
  by (auto simp: watch_job_key_def domain_hash_def inj_eq[OF assms])

section \<open>Relative locators\<close>

fun split_on :: "nat \<Rightarrow> pystr \<Rightarrow> pystr list" where
  "split_on c [] = [[]]"
| "split_on c (x # xs) =
     (if x = c then [] # split_on c xs
      else case split_on c xs of [] \<Rightarrow> [[x]] | s # ss \<Rightarrow> (x # s) # ss)"

definition relative_locator_ok :: "pystr \<Rightarrow> bool" where
  "relative_locator_ok s \<longleftrightarrow>
     \<not> (take 1 s = U ''/'' \<or> take 1 s = [92] \<or> 92 \<in> set s \<or>
        list_ex (\<lambda>c. c < 32 \<or> c = 127) s \<or>
        list_ex (\<lambda>seg. seg = [] \<or> seg = U ''.'' \<or> seg = U ''..'') (split_on 47 s))"

section \<open>Roots, scans, observations\<close>

record admitted_root =
  root_id :: pystr
  root_path :: pystr
  root_path_digest :: pystr
  root_device_id :: pystr
  root_file_id :: pystr
  root_config :: watch_config

definition admitted_root_valid :: "(json \<Rightarrow> pystr) \<Rightarrow> admitted_root \<Rightarrow> bool" where
  "admitted_root_valid cs r \<longleftrightarrow>
     watch_locator_digest cs (root_path r) = Inr (root_path_digest r) \<and>
     root_id r = watch_root_id cs (root_path_digest r) (root_device_id r) (root_file_id r)
                   (config_hash cs (root_config r)) \<and>
     length (root_path r) \<le> 8192 \<and>
     root_device_id r \<noteq> [] \<and> length (root_device_id r) \<le> 128 \<and>
     root_file_id r \<noteq> [] \<and> length (root_file_id r) \<le> 128 \<and>
     watch_config_valid (root_config r)"

datatype scan_reason = OVERFLOW | ROOT_CHANGED | INCOMPLETE

record scan_entry =
  entry_locator :: pystr
  entry_digest :: pystr
  entry_fingerprint :: fingerprint
  entry_media_type :: pystr

definition scan_entry_valid :: "(json \<Rightarrow> pystr) \<Rightarrow> scan_entry \<Rightarrow> bool" where
  "scan_entry_valid cs e \<longleftrightarrow>
     length (entry_locator e) \<le> 8192 \<and>
     relative_locator_ok (entry_locator e) \<and>
     watch_locator_digest cs (entry_locator e) = Inr (entry_digest e) \<and>
     fingerprint_valid (entry_fingerprint e) \<and>
     entry_media_type e \<noteq> [] \<and> length (entry_media_type e) \<le> 255"

record watch_scan =
  scan_root_id :: pystr
  scan_started_at :: int
  scan_completed_at :: int
  scan_complete :: bool
  scan_reason :: "scan_reason option"
  scan_entries :: "scan_entry list"

definition watch_scan_valid :: "(json \<Rightarrow> pystr) \<Rightarrow> watch_scan \<Rightarrow> bool" where
  "watch_scan_valid cs s \<longleftrightarrow>
     scan_started_at s \<le> scan_completed_at s \<and>
     scan_complete s = (scan_reason s = None) \<and>
     (\<not> scan_complete s \<longrightarrow> scan_entries s = []) \<and>
     sorted_unique (map entry_locator (scan_entries s)) \<and>
     list_all (scan_entry_valid cs) (scan_entries s)"

datatype observation_state = CANDIDATE | STABLE | TOMBSTONED

record watch_root =
  authority :: admitted_root
  generation :: nat
  rescan_required :: bool
  root_created_at :: int
  root_updated_at :: int

record observation =
  obs_root :: pystr
  obs_locator :: pystr
  obs_digest :: pystr
  obs_state :: observation_state
  obs_fingerprint :: "fingerprint option"
  first_observed_at :: int
  last_observed_at :: int
  stable_since :: "int option"
  last_generation :: nat
  last_scheduled_key :: "pystr option"
  obs_revision :: nat

definition observation_valid :: "(json \<Rightarrow> pystr) \<Rightarrow> observation \<Rightarrow> bool" where
  "observation_valid cs b \<longleftrightarrow>
     relative_locator_ok (obs_locator b) \<and> length (obs_locator b) \<le> 8192 \<and>
     watch_locator_digest cs (obs_locator b) = Inr (obs_digest b) \<and>
     first_observed_at b \<le> last_observed_at b \<and>
     (obs_state b = TOMBSTONED) = (obs_fingerprint b = None) \<and>
     (case obs_fingerprint b of None \<Rightarrow> True | Some f \<Rightarrow> fingerprint_valid f) \<and>
     (case stable_since b of None \<Rightarrow> True
      | Some t \<Rightarrow> first_observed_at b \<le> t \<and> t \<le> last_observed_at b) \<and>
     1 \<le> obs_revision b"

section \<open>Targets and events\<close>

record watch_target =
  tgt_job :: pystr
  tgt_root :: pystr
  tgt_locator :: pystr
  tgt_digest :: pystr
  tgt_fingerprint :: fingerprint
  tgt_profile :: pystr
  tgt_key :: pystr
  tgt_created_at :: int

definition watch_target_valid :: "(json \<Rightarrow> pystr) \<Rightarrow> watch_target \<Rightarrow> bool" where
  "watch_target_valid cs t \<longleftrightarrow>
     relative_locator_ok (tgt_locator t) \<and>
     watch_locator_digest cs (tgt_locator t) = Inr (tgt_digest t) \<and>
     tgt_key t = watch_job_key cs (tgt_root t) (tgt_digest t) (tgt_fingerprint t) (tgt_profile t)"

datatype watch_event_type =
    ROOT_REGISTERED | SCAN_COMPLETED | RESCAN_REQUIRED | OBSERVATION_CREATED
  | OBSERVATION_CHANGED | OBSERVATION_STABLE | TARGET_SCHEDULED | BACKPRESSURE | WT_TOMBSTONED
  | REAPPEARED | RENAME_HINT | JOB_SUCCEEDED | JOB_RETRY | JOB_FAILED | JOB_CANCELLED

record watch_event =
  we_root :: pystr
  we_sequence :: nat
  we_type :: watch_event_type
  we_digest :: "pystr option"
  we_job :: "pystr option"
  we_generation :: nat
  we_at :: int
  we_entry_count :: nat
  we_scheduled_count :: nat
  we_tombstone_count :: nat

definition observation_events :: "watch_event_type list" where
  "observation_events =
     [OBSERVATION_CREATED, OBSERVATION_CHANGED, OBSERVATION_STABLE, REAPPEARED, RENAME_HINT]"

definition watch_job_events :: "watch_event_type list" where
  "watch_job_events = [JOB_SUCCEEDED, JOB_RETRY, JOB_FAILED, JOB_CANCELLED]"

definition watch_event_valid :: "watch_event \<Rightarrow> bool" where
  "watch_event_valid e \<longleftrightarrow> 1 \<le> we_sequence e \<and>
     (let counts = (we_entry_count e, we_scheduled_count e, we_tombstone_count e);
          loc = (we_digest e \<noteq> None); jb = (we_job e \<noteq> None)
      in if we_type e \<in> set observation_events then loc \<and> \<not> jb \<and> counts = (0, 0, 0)
         else if we_type e = WT_TOMBSTONED then loc \<and> \<not> jb \<and> counts = (0, 0, 1)
         else if we_type e = TARGET_SCHEDULED then loc \<and> jb \<and> counts = (0, 1, 0)
         else if we_type e \<in> set watch_job_events then loc \<and> jb \<and> counts = (0, 0, 0)
         else \<not> loc \<and> \<not> jb \<and>
              (we_type e \<in> {SCAN_COMPLETED, BACKPRESSURE} \<or> counts = (0, 0, 0)))"

text \<open>Code equations over binary integers for the remaining length bounds.\<close>

lemma length_bound_code [code]:
  "admitted_root_valid cs r \<longleftrightarrow>
     watch_locator_digest cs (root_path r) = Inr (root_path_digest r) \<and>
     root_id r = watch_root_id cs (root_path_digest r) (root_device_id r) (root_file_id r)
                   (config_hash cs (root_config r)) \<and>
     int (length (root_path r)) \<le> 8192 \<and>
     root_device_id r \<noteq> [] \<and> int (length (root_device_id r)) \<le> 128 \<and>
     root_file_id r \<noteq> [] \<and> int (length (root_file_id r)) \<le> 128 \<and>
     watch_config_valid (root_config r)"
  "observation_valid cs b \<longleftrightarrow>
     relative_locator_ok (obs_locator b) \<and> int (length (obs_locator b)) \<le> 8192 \<and>
     watch_locator_digest cs (obs_locator b) = Inr (obs_digest b) \<and>
     first_observed_at b \<le> last_observed_at b \<and>
     (obs_state b = TOMBSTONED) = (obs_fingerprint b = None) \<and>
     (case obs_fingerprint b of None \<Rightarrow> True | Some f \<Rightarrow> fingerprint_valid f) \<and>
     (case stable_since b of None \<Rightarrow> True
      | Some t \<Rightarrow> first_observed_at b \<le> t \<and> t \<le> last_observed_at b) \<and>
     1 \<le> obs_revision b"
  unfolding admitted_root_valid_def observation_valid_def by linarith+

section \<open>Retry delay\<close>

definition watch_retry_delay_ms :: "watch_config \<Rightarrow> int \<Rightarrow> string + nat" where
  "watch_retry_delay_ms c attempt =
     (if attempt < 1 \<or> int (cfg_max_attempts c) < attempt
      then Inl ''attempt_count is outside configured retry bounds''
      else let exponent = min (nat attempt - 1) 62
           in Inr (min (retry_base_ms c * 2 ^ exponent) (retry_max_ms c)))"

lemma watch_retry_delay_Inr_iff:
  "watch_retry_delay_ms c n = Inr d \<longleftrightarrow>
     1 \<le> n \<and> n \<le> int (cfg_max_attempts c) \<and>
     d = min (retry_base_ms c * 2 ^ min (nat n - 1) 62) (retry_max_ms c)"
  by (auto simp: watch_retry_delay_ms_def)

lemma watch_retry_delay_bounds:
  assumes "watch_config_valid c" "watch_retry_delay_ms c n = Inr d"
  shows "retry_base_ms c \<le> d \<and> d \<le> retry_max_ms c"
proof -
  have "retry_base_ms c * 1 \<le> retry_base_ms c * 2 ^ min (nat n - 1) 62"
    by (rule mult_le_mono2) simp
  moreover have "retry_base_ms c \<le> retry_max_ms c"
    using assms(1) by (simp add: watch_config_valid_def)
  ultimately show ?thesis using assms(2) by (simp add: watch_retry_delay_Inr_iff)
qed

lemma watch_retry_delay_mono:
  assumes "watch_retry_delay_ms c n = Inr d" "watch_retry_delay_ms c m = Inr d'" "n \<le> m"
  shows "d \<le> d'"
proof -
  have "min (nat n - 1) 62 \<le> min (nat m - 1) 62"
    using assms(3) by (simp add: nat_mono diff_le_mono min.coboundedI1)
  then have "(2::nat) ^ min (nat n - 1) 62 \<le> 2 ^ min (nat m - 1) 62"
    by (rule power_increasing) simp
  then have "retry_base_ms c * 2 ^ min (nat n - 1) 62 \<le> retry_base_ms c * 2 ^ min (nat m - 1) 62"
    by (rule mult_le_mono2)
  then show ?thesis using assms(1,2) unfolding watch_retry_delay_Inr_iff by linarith
qed

section \<open>Elapsed time of an observation\<close>

text \<open>
  \<open>int((a - b).total_seconds() * 1_000)\<close>: \<open>total_seconds\<close> is the microseconds divided by
  \<open>10 ** 6\<close> as a double, the product is a double, and \<open>int\<close> truncates towards zero.
\<close>

definition elapsed_ms :: "int \<Rightarrow> int" where
  "elapsed_ms us = sgn us * int (ftrunc (fmul (fdiv (nat \<bar>us\<bar>) 1000000) 1000))"

text \<open>Two roundings: the computed milliseconds are within one microsecond of the exact ones.\<close>

lemma elapsed_near:
  assumes "us < 10 ^ 15" "fmul (fdiv us 1000000) 1000 = (m, d)"
  shows "0 < d" "1000 * m < (us + 1) * d" "us * d < 1000 * m + d"
proof -
  obtain m1 d1 where x: "fl (us, 1000000) = (m1, d1)" by force
  have y: "fl (m1 * 1000, d1) = (m, d)" using assms(2) x by (simp add: fmul_def fdiv_def)
  have d1: "0 < d1" using snd_fl_pos[of "(us, 1000000)"] x by simp
  show d: "0 < d" using snd_fl_pos[of "(m1 * 1000, d1)"] y by simp
  let ?N = "2 ^ 53 :: nat"
  have up1: "?N * (m1 * 1000000) \<le> (?N + 1) * (us * d1)"
    and lo1: "(?N - 1) * (us * d1) \<le> ?N * (m1 * 1000000)"
    using fl_error[OF _ x] by simp_all
  have up2: "?N * (m * d1) \<le> (?N + 1) * (m1 * 1000 * d)"
    and lo2: "(?N - 1) * (m1 * 1000 * d) \<le> ?N * (m * d1)"
    using fl_error[OF d1 y] by simp_all
  have "?N * ?N * (m * 1000) * d1 \<le> (?N + 1) * (?N + 1) * (us * d) * d1"
  proof -
    have "?N * ?N * (m * 1000) * d1 = ?N * 1000 * (?N * (m * d1))" by (simp add: ac_simps)
    also have "\<dots> \<le> ?N * 1000 * ((?N + 1) * (m1 * 1000 * d))" by (rule mult_le_mono2[OF up2])
    also have "\<dots> = (?N + 1) * d * (?N * (m1 * 1000000))" by (simp add: ac_simps)
    also have "\<dots> \<le> (?N + 1) * d * ((?N + 1) * (us * d1))" by (rule mult_le_mono2[OF up1])
    finally show ?thesis by (simp add: ac_simps)
  qed
  then have up: "?N * ?N * (m * 1000) \<le> (?N + 1) * (?N + 1) * (us * d)" using d1 by simp
  have "(?N - 1) * (?N - 1) * (us * d) * d1 \<le> ?N * ?N * (m * 1000) * d1"
  proof -
    have "(?N - 1) * (?N - 1) * (us * d) * d1 = (?N - 1) * d * ((?N - 1) * (us * d1))"
      by (simp add: ac_simps)
    also have "\<dots> \<le> (?N - 1) * d * (?N * (m1 * 1000000))" by (rule mult_le_mono2[OF lo1])
    also have "\<dots> = ?N * 1000 * ((?N - 1) * (m1 * 1000 * d))" by (simp add: ac_simps)
    also have "\<dots> \<le> ?N * 1000 * (?N * (m * d1))" by (rule mult_le_mono2[OF lo2])
    finally show ?thesis by (simp add: ac_simps)
  qed
  then have lo: "(?N - 1) * (?N - 1) * (us * d) \<le> ?N * ?N * (m * 1000)" using d1 by simp
  have ud: "us * d \<le> 10 ^ 15 * d" using assms(1) by simp
  have near: "?N * ?N * (M * 1000) \<le> (?N + 1) * (?N + 1) * X \<Longrightarrow> X \<le> 10 ^ 15 * d \<Longrightarrow> 1000 * M < X + d"
    "(?N - 1) * (?N - 1) * X \<le> ?N * ?N * (M * 1000) \<Longrightarrow> X \<le> 10 ^ 15 * d \<Longrightarrow> X < 1000 * M + d"
    for M X :: nat
    using d by simp_all
  show "1000 * m < (us + 1) * d" using near(1)[OF up ud] by (simp add: add_mult_distrib)
  show "us * d < 1000 * m + d" by (rule near(2)[OF lo ud])
qed

lemma elapsed_ms_cases:
  assumes "us < 10 ^ 15"
  shows "elapsed_ms (int us) = int (us div 1000) \<or>
    1000 dvd us \<and> elapsed_ms (int us) = int (us div 1000) - 1"
proof (cases "us = 0")
  case False
  obtain m d where md: "fmul (fdiv us 1000000) 1000 = (m, d)" by force
  note near = elapsed_near[OF assms md]
  let ?k = "us div 1000"
  have us: "us = 1000 * ?k + us mod 1000" by simp
  have e: "elapsed_ms (int us) = int (m div d)" using False md by (simp add: elapsed_ms_def ftrunc_def)
  have "(us + 1) * d \<le> 1000 * ((?k + 1) * d)"
  proof -
    have "us + 1 \<le> 1000 * (?k + 1)"
      using dividend_less_times_div[of 1000 us] by (simp add: add_mult_distrib2)
    then have "(us + 1) * d \<le> 1000 * (?k + 1) * d" by (rule mult_le_mono1)
    then show ?thesis by (simp only: mult.assoc)
  qed
  then have "m < (?k + 1) * d" using near(2) by linarith
  then have hi: "m div d < ?k + 1" by (rule less_mult_imp_div_less)
  show ?thesis
  proof (cases "1000 dvd us")
    case True
    then have "us * d = 1000 * (?k * d)" by auto
    then have "?k * d < m + d" using near(3) near(1) by linarith
    moreover have "?k * d = (?k - 1) * d + d" using True False by (auto simp: mult_eq_if)
    ultimately have "(?k - 1) * d \<le> m" by simp
    then have "?k - 1 \<le> m div d" using near(1) by (simp add: less_eq_div_iff_mult_less_eq)
    with hi True False e show ?thesis by auto
  next
    case F: False
    then have "1000 * ?k \<noteq> us" by (metis dvd_triv_left)
    then have "1000 * ?k + 1 \<le> us"
      using times_div_less_eq_dividend[of 1000 us] by (simp add: Suc_le_eq le_neq_implies_less)
    then have "1000 * (?k * d) + d \<le> us * d"
      using mult_le_mono1[of "1000 * ?k + 1" us d] by (simp add: add_mult_distrib mult.assoc)
    then have "?k * d \<le> m" using near(3) by linarith
    then have "?k \<le> m div d" using near(1) by (simp add: less_eq_div_iff_mult_less_eq)
    with hi e show ?thesis by auto
  qed
qed (simp add: elapsed_ms_def)

end
