(* ===== verification/Job_Catalog.thy ===== *)
theory Job_Catalog
  imports Job_Domain Watch_Domain
begin

text \<open>
  The recoverable job lifecycle of \<open>adapters/sqlite_catalog_jobs.py\<close> over the catalog tables of
  schema revision 9 and later.  A table is a list of rows in insertion order; a write transaction
  is a function from the catalog to an error (rolled back, so nothing changes) or to a result and
  the new catalog.  \<open>H\<close> is \<open>"sha256:" + hexdigest\<close> of the lease token.  The \<open>CHECK\<close>, \<open>UNIQUE\<close> and
  partial-index constraints of the \<open>jobs\<close> table are enforced by \<open>put_jobs\<close>, and every row the code
  reads back goes through the validator of \<open>Job\<close>, so a violated constraint is the error it is in
  the code.
\<close>

section \<open>Catalog state\<close>

record job_row = job +
  active_lease_token_hash :: "pystr option"
  last_transition_token_hash :: "pystr option"

record catalog =
  jobs :: "job_row list"
  job_events :: "job_event list"
  objects :: "(pystr \<times> nat) list"
  watch_roots :: "watch_root list"
  observations :: "observation list"
  targets :: "watch_target list"
  watch_events :: "watch_event list"
  maintenance_active :: bool

datatype cat_error =
    InvalidJobTransition string | JobNotFound | JobConflict string | LeaseConflict string
  | InvalidObjectReference | MaintenanceRecoveryRequired | CatalogFailure | ValidationFailed

definition row_check :: "job_row \<Rightarrow> bool" where
  "row_check r \<longleftrightarrow>
     length_between 1 128 (kind r) \<and> length_between 1 1024 (deduplication_key r) \<and>
     1 \<le> max_attempts r \<and> max_attempts r \<le> 100 \<and>
     (case active_owner_id r of None \<Rightarrow> True | Some o' \<Rightarrow> length_between 1 255 o') \<and>
     (case last_failure_code r of None \<Rightarrow> True | Some c \<Rightarrow> length_between 1 128 c) \<and>
     attempt_count r \<le> max_attempts r \<and> created_at r \<le> available_at r \<and>
     (case cancellation_requested_at r of None \<Rightarrow> True
      | Some t \<Rightarrow> state r = RUNNING \<and> created_at r \<le> t \<and> t \<le> updated_at r) \<and>
     (state r = RUNNING \<and> active_owner_id r \<noteq> None \<and> active_lease_token_hash r \<noteq> None \<and>
        lease_expires_at r \<noteq> None \<and> terminal_at r = None \<or>
      state r = QUEUED \<and> active_owner_id r = None \<and> active_lease_token_hash r = None \<and>
        lease_expires_at r = None \<and> cancellation_requested_at r = None \<and> terminal_at r = None \<or>
      state r \<in> {SUCCEEDED, FAILED, CANCELLED} \<and> active_owner_id r = None \<and>
        active_lease_token_hash r = None \<and> lease_expires_at r = None \<and>
        cancellation_requested_at r = None \<and> terminal_at r \<noteq> None)"

definition active_tokens :: "job_row list \<Rightarrow> pystr list" where
  "active_tokens rs = List.map_filter active_lease_token_hash rs"

definition jobs_constraints :: "job_row list \<Rightarrow> bool" where
  "jobs_constraints rs \<longleftrightarrow>
     distinct (map job_id rs) \<and> distinct (map (\<lambda>r. (kind r, deduplication_key r)) rs) \<and>
     distinct (active_tokens rs) \<and> list_all row_check rs"

definition put_jobs :: "catalog \<Rightarrow> job_row list \<Rightarrow> cat_error + catalog" where
  "put_jobs c rs = (if jobs_constraints rs then Inr (c\<lparr>jobs := rs\<rparr>) else Inl CatalogFailure)"

definition write_connection :: "catalog \<Rightarrow> cat_error + unit" where
  "write_connection c = ensure (\<not> maintenance_active c) MaintenanceRecoveryRequired"

section \<open>Rows and projections\<close>

definition canonical_references :: "object_ref list \<Rightarrow> object_ref list" where
  "canonical_references refs = sort_key (\<lambda>r. (ref_role r, ref_ordinal r)) refs"

definition job_from_row :: "job_row \<Rightarrow> cat_error + job" where
  "job_from_row r = (if job_valid r then Inr (job.truncate r) else Inl ValidationFailed)"

definition load_job :: "catalog \<Rightarrow> pystr \<Rightarrow> cat_error + job option" where
  "load_job c i = (case List.find (\<lambda>r. job_id r = i) (jobs c) of
     None \<Rightarrow> Inr None
   | Some r \<Rightarrow> sbind (job_from_row r) (\<lambda>j. Inr (Some j)))"

definition visible_job :: "catalog \<Rightarrow> pystr \<Rightarrow> cat_error + job" where
  "visible_job c i = sbind (load_job c i) (\<lambda>j. need j CatalogFailure)"

definition required_job_row :: "catalog \<Rightarrow> pystr \<Rightarrow> cat_error + job_row" where
  "required_job_row c i = need (List.find (\<lambda>r. job_id r = i) (jobs c)) JobNotFound"

definition job_matches_spec :: "job \<Rightarrow> job_spec \<Rightarrow> bool" where
  "job_matches_spec j s \<longleftrightarrow>
     job_id j = spec_job_id s \<and> kind j = spec_kind s \<and>
     deduplication_key j = spec_deduplication_key s \<and> max_attempts j = spec_max_attempts s \<and>
     available_at j = (case spec_available_at s of None \<Rightarrow> spec_created_at s | Some a \<Rightarrow> a) \<and>
     created_at j = spec_created_at s \<and>
     references j = canonical_references (spec_references s)"

section \<open>Guards\<close>

definition lease_token_hash :: "(pystr \<Rightarrow> pystr) \<Rightarrow> pystr \<Rightarrow> cat_error + pystr" where
  "lease_token_hash H token =
     (if length token < 16 then Inl (LeaseConflict ''lease token is too short'') else Inr (H token))"

definition validate_owner :: "pystr \<Rightarrow> cat_error + unit" where
  "validate_owner owner =
     ensure (length_between 1 255 owner) (LeaseConflict ''lease owner identifier is invalid'')"

definition validate_failure_code :: "pystr \<Rightarrow> cat_error + unit" where
  "validate_failure_code code =
     ensure (machine_token code) (InvalidJobTransition ''failure code is invalid'')"

definition assert_transition_time :: "job_row \<Rightarrow> int \<Rightarrow> cat_error + unit" where
  "assert_transition_time r now =
     (if now < updated_at r
      then Inl (InvalidJobTransition ''transition time precedes current job state'') else Inr ())"

definition assert_active_lease ::
  "job_row \<Rightarrow> pystr \<Rightarrow> pystr \<Rightarrow> nat \<Rightarrow> int \<Rightarrow> bool \<Rightarrow> int option \<Rightarrow> bool \<Rightarrow> cat_error + unit" where
  "assert_active_lease r owner token_hash expected_revision now
       allow_idempotent_revision requested_lease_until allow_cancellation_requested =
     (if state r \<noteq> RUNNING then Inl (InvalidJobTransition ''job is not running'')
      else if active_owner_id r \<noteq> Some owner \<or> active_lease_token_hash r \<noteq> Some token_hash
      then Inl (LeaseConflict ''job lease owner or fencing token does not match'')
      else if (case lease_expires_at r of None \<Rightarrow> False | Some l \<Rightarrow> l \<le> now)
      then Inl (LeaseConflict ''job lease has expired'')
      else if cancellation_requested_at r \<noteq> None \<and> \<not> allow_cancellation_requested
      then Inl (InvalidJobTransition ''job cancellation is requested'')
      else if revision r \<noteq> expected_revision
      then (if allow_idempotent_revision \<and> revision r = expected_revision + 1 \<and>
               (case (requested_lease_until, lease_expires_at r) of
                  (Some q, Some l) \<Rightarrow> q \<le> l | _ \<Rightarrow> False)
            then Inr () else Inl (LeaseConflict ''job revision is stale''))
      else Inr ())"

section \<open>Event logs\<close>

definition next_sequence :: "nat list \<Rightarrow> nat" where
  "next_sequence ns = foldr max ns 0 + 1"

definition append_event ::
  "catalog \<Rightarrow> pystr \<Rightarrow> job_event_type \<Rightarrow> job_state option \<Rightarrow> job_state \<Rightarrow> int \<Rightarrow> nat \<Rightarrow>
   pystr option \<Rightarrow> pystr option \<Rightarrow> catalog" where
  "append_event c i ty from to at attempt owner failure =
     c\<lparr>job_events := job_events c @
        [\<lparr>ev_job = i,
          ev_sequence = next_sequence (map ev_sequence (filter (\<lambda>e. ev_job e = i) (job_events c))),
          ev_type = ty, ev_from = from, ev_to = to, ev_at = at, ev_attempt = attempt,
          ev_owner = owner, ev_failure = failure\<rparr>]\<rparr>"

definition append_watch_event ::
  "catalog \<Rightarrow> pystr \<Rightarrow> watch_event_type \<Rightarrow> nat \<Rightarrow> int \<Rightarrow> pystr option \<Rightarrow> pystr option \<Rightarrow>
   nat \<Rightarrow> nat \<Rightarrow> nat \<Rightarrow> catalog" where
  "append_watch_event c root ty gen at digest jb entries scheduled tombstones =
     c\<lparr>watch_events := watch_events c @
        [\<lparr>we_root = root,
          we_sequence = next_sequence
            (map we_sequence (filter (\<lambda>e. we_root e = root) (watch_events c))),
          we_type = ty, we_digest = digest, we_job = jb, we_generation = gen, we_at = at,
          we_entry_count = entries, we_scheduled_count = scheduled,
          we_tombstone_count = tombstones\<rparr>]\<rparr>"

definition required_watch_root :: "catalog \<Rightarrow> pystr \<Rightarrow> cat_error + watch_root" where
  "required_watch_root c i =
     need (List.find (\<lambda>w. root_id (authority w) = i) (watch_roots c)) JobNotFound"

fun outcome_event :: "job_state \<Rightarrow> watch_event_type option" where
  "outcome_event QUEUED = Some JOB_RETRY"
| "outcome_event SUCCEEDED = Some JOB_SUCCEEDED"
| "outcome_event FAILED = Some JOB_FAILED"
| "outcome_event CANCELLED = Some JOB_CANCELLED"
| "outcome_event RUNNING = None"

definition append_watch_job_outcome :: "catalog \<Rightarrow> pystr \<Rightarrow> job_state \<Rightarrow> int \<Rightarrow> cat_error + catalog" where
  "append_watch_job_outcome c i st at =
     (case List.find (\<lambda>t. tgt_job t = i) (targets c) of
        None \<Rightarrow> Inr c
      | Some t \<Rightarrow>
        (case outcome_event st of
           None \<Rightarrow> Inr c
         | Some ty \<Rightarrow>
             sbind (required_watch_root c (tgt_root t)) (\<lambda>w.
               Inr (append_watch_event c (tgt_root t) ty (generation w) at
                      (Some (tgt_digest t)) (Some i) 0 0 0))))"

section \<open>Creating a job\<close>

definition register_object :: "(pystr \<times> nat) list \<Rightarrow> pystr \<Rightarrow> nat \<Rightarrow> cat_error + (pystr \<times> nat) list" where
  "register_object objs i len =
     (case map_of objs i of
        None \<Rightarrow> Inr (objs @ [(i, len)])
      | Some l \<Rightarrow> if l \<noteq> len then Inl InvalidObjectReference else Inr objs)"

fun register_objects :: "(pystr \<times> nat) list \<Rightarrow> object_ref list \<Rightarrow> cat_error + (pystr \<times> nat) list" where
  "register_objects objs [] = Inr objs"
| "register_objects objs (r # rs) =
     sbind (register_object objs (ref_object r) (ref_length r)) (\<lambda>objs'. register_objects objs' rs)"

definition queued_row :: "job_spec \<Rightarrow> job_row" where
  "queued_row s =
     \<lparr>job_id = spec_job_id s, kind = spec_kind s, deduplication_key = spec_deduplication_key s,
      state = QUEUED, attempt_count = 0, max_attempts = spec_max_attempts s, revision = 0,
      available_at = (case spec_available_at s of None \<Rightarrow> spec_created_at s | Some a \<Rightarrow> a),
      active_owner_id = None, lease_expires_at = None, cancellation_requested_at = None,
      last_failure_code = None, created_at = spec_created_at s, updated_at = spec_created_at s,
      terminal_at = None, references = canonical_references (spec_references s),
      active_lease_token_hash = None, last_transition_token_hash = None\<rparr>"

definition create_job :: "catalog \<Rightarrow> job_spec \<Rightarrow> cat_error + job \<times> catalog" where
  "create_job c s =
     sbind (write_connection c) (\<lambda>_.
     case List.find (\<lambda>r. kind r = spec_kind s \<and> deduplication_key r = spec_deduplication_key s) (jobs c) of
       Some r \<Rightarrow>
         sbind (job_from_row r) (\<lambda>existing.
           if job_matches_spec existing s then Inr (existing, c)
           else Inl (JobConflict ''job idempotency key has different immutable data''))
     | None \<Rightarrow>
         if list_ex (\<lambda>r. job_id r = spec_job_id s) (jobs c)
         then Inl (JobConflict ''job identity is already registered'')
         else
           sbind (register_objects (objects c) (spec_references s)) (\<lambda>objs.
           sbind (put_jobs (c\<lparr>objects := objs\<rparr>) (jobs c @ [queued_row s])) (\<lambda>c1.
           let c2 = append_event c1 (spec_job_id s) ENQUEUED None QUEUED (spec_created_at s) 0 None None
           in sbind (visible_job c2 (spec_job_id s)) (\<lambda>j. Inr (j, c2)))))"

section \<open>Claiming\<close>

definition claimed_row :: "job_row \<Rightarrow> pystr \<Rightarrow> pystr \<Rightarrow> int \<Rightarrow> int \<Rightarrow> job_row \<Rightarrow> job_row" where
  "claimed_row q owner th now lease_until r =
     r\<lparr>state := RUNNING, attempt_count := attempt_count q + 1, revision := revision q + 1,
       active_owner_id := Some owner, active_lease_token_hash := Some th,
       lease_expires_at := Some lease_until, updated_at := now, terminal_at := None\<rparr>"

definition claim_selected ::
  "(job_row \<Rightarrow> bool) \<Rightarrow> catalog \<Rightarrow> pystr \<Rightarrow> pystr \<Rightarrow> int \<Rightarrow> int \<Rightarrow> cat_error + job option \<times> catalog" where
  "claim_selected sel c owner th now lease_until =
     (case List.find (\<lambda>r. state r = RUNNING \<and> sel r \<and> active_owner_id r = Some owner \<and>
                 active_lease_token_hash r = Some th \<and>
                 (case lease_expires_at r of None \<Rightarrow> False | Some l \<Rightarrow> now < l)) (jobs c) of
        Some r \<Rightarrow> sbind (job_from_row r) (\<lambda>j. Inr (Some j, c))
      | None \<Rightarrow>
        if list_ex (\<lambda>r. state r = QUEUED \<and> sel r \<and> now < updated_at r) (jobs c)
        then Inl (InvalidJobTransition ''transition time precedes current job state'')
        else
          case first_by (\<lambda>r. (available_at r, created_at r, job_id r))
                 (filter (\<lambda>r. state r = QUEUED \<and> sel r \<and> available_at r \<le> now) (jobs c)) of
            None \<Rightarrow> Inr (None, c)
          | Some q \<Rightarrow>
              sbind (assert_transition_time q now) (\<lambda>_.
              sbind (put_jobs c (upd_where (\<lambda>r. job_id r = job_id q \<and> state r = QUEUED)
                       (claimed_row q owner th now lease_until) (jobs c))) (\<lambda>c1.
              let c2 = append_event c1 (job_id q) CLAIMED (Some QUEUED) RUNNING now
                         (attempt_count q + 1) (Some owner) None
              in sbind (visible_job c2 (job_id q)) (\<lambda>j. Inr (Some j, c2)))))"

definition claim_job ::
  "(pystr \<Rightarrow> pystr) \<Rightarrow> catalog \<Rightarrow> pystr option \<Rightarrow> pystr \<Rightarrow> pystr \<Rightarrow> int \<Rightarrow> int \<Rightarrow>
   cat_error + job option \<times> catalog" where
  "claim_job H c knd owner token now lease_until =
     sbind (validate_owner owner) (\<lambda>_.
     sbind (lease_token_hash H token) (\<lambda>th.
     if lease_until \<le> now then Inl (InvalidJobTransition ''lease_until must be later than now'')
     else sbind (write_connection c) (\<lambda>_.
       claim_selected (\<lambda>r. case knd of None \<Rightarrow> True | Some k \<Rightarrow> kind r = k)
         c owner th now lease_until)))"

definition claim_watch_job ::
  "(pystr \<Rightarrow> pystr) \<Rightarrow> catalog \<Rightarrow> pystr \<Rightarrow> pystr \<Rightarrow> pystr \<Rightarrow> int \<Rightarrow> int \<Rightarrow>
   cat_error + job option \<times> catalog" where
  "claim_watch_job H c root owner token now lease_until =
     sbind (validate_owner owner) (\<lambda>_.
     sbind (lease_token_hash H token) (\<lambda>th.
     if lease_until \<le> now then Inl (InvalidJobTransition ''lease_until must be later than now'')
     else sbind (write_connection c) (\<lambda>_.
       sbind (required_watch_root c root) (\<lambda>_.
       claim_selected
         (\<lambda>r. list_ex (\<lambda>t. tgt_job t = job_id r \<and> tgt_root t = root) (targets c))
         c owner th now lease_until))))"

section \<open>Renewing, completing, failing\<close>

definition renewed_row :: "nat \<Rightarrow> int \<Rightarrow> int \<Rightarrow> job_row \<Rightarrow> job_row" where
  "renewed_row expected_revision now lease_until r =
     r\<lparr>revision := expected_revision + 1, lease_expires_at := Some lease_until, updated_at := now\<rparr>"

definition completed_row :: "pystr \<Rightarrow> int \<Rightarrow> job_row \<Rightarrow> job_row" where
  "completed_row th now r =
     r\<lparr>state := SUCCEEDED, revision := revision r + 1, active_owner_id := None,
       active_lease_token_hash := None, lease_expires_at := None,
       last_transition_token_hash := Some th, last_failure_code := None,
       updated_at := now, terminal_at := Some now\<rparr>"

definition failed_row ::
  "job_row \<Rightarrow> pystr \<Rightarrow> pystr \<Rightarrow> bool \<Rightarrow> int \<Rightarrow> int \<Rightarrow> job_row \<Rightarrow> job_row" where
  "failed_row row th failure_code should_retry retry now r =
     r\<lparr>state := (if should_retry then QUEUED else FAILED), revision := revision r + 1,
       available_at := (if should_retry then retry else available_at row),
       active_owner_id := None, active_lease_token_hash := None,
       lease_expires_at := None, last_transition_token_hash := Some th,
       last_failure_code := Some failure_code, updated_at := now,
       terminal_at := (if should_retry then None else Some now)\<rparr>"

definition renew_job ::
  "(pystr \<Rightarrow> pystr) \<Rightarrow> catalog \<Rightarrow> pystr \<Rightarrow> pystr \<Rightarrow> pystr \<Rightarrow> nat \<Rightarrow> int \<Rightarrow> int \<Rightarrow>
   cat_error + job \<times> catalog" where
  "renew_job H c i owner token expected_revision now lease_until =
     sbind (validate_owner owner) (\<lambda>_.
     sbind (lease_token_hash H token) (\<lambda>th.
     if lease_until \<le> now then Inl (InvalidJobTransition ''lease_until must be later than now'')
     else sbind (write_connection c) (\<lambda>_.
       sbind (required_job_row c i) (\<lambda>row.
       sbind (assert_active_lease row owner th expected_revision now True (Some lease_until) False) (\<lambda>_.
       sbind (assert_transition_time row now) (\<lambda>_.
       if revision row \<noteq> expected_revision then sbind (job_from_row row) (\<lambda>j. Inr (j, c))
       else
         sbind (put_jobs c (upd_where
             (\<lambda>r. job_id r = i \<and> revision r = expected_revision \<and> state r = RUNNING)
             (renewed_row expected_revision now lease_until) (jobs c))) (\<lambda>c1.
         let c2 = append_event c1 i RENEWED (Some RUNNING) RUNNING now (attempt_count row)
                    (Some owner) None
         in sbind (visible_job c2 i) (\<lambda>j. Inr (j, c2)))))))))"

definition complete_job ::
  "(pystr \<Rightarrow> pystr) \<Rightarrow> catalog \<Rightarrow> pystr \<Rightarrow> pystr \<Rightarrow> pystr \<Rightarrow> nat \<Rightarrow> int \<Rightarrow> cat_error + job \<times> catalog" where
  "complete_job H c i owner token expected_revision now =
     sbind (validate_owner owner) (\<lambda>_.
     sbind (lease_token_hash H token) (\<lambda>th.
     sbind (write_connection c) (\<lambda>_.
     sbind (required_job_row c i) (\<lambda>row.
     if state row = SUCCEEDED
     then (if last_transition_token_hash row = Some th
           then sbind (job_from_row row) (\<lambda>j. Inr (j, c))
           else Inl (LeaseConflict ''completed job fencing token does not match''))
     else
       sbind (assert_active_lease row owner th expected_revision now False None False) (\<lambda>_.
       sbind (assert_transition_time row now) (\<lambda>_.
       sbind (put_jobs c (upd_where
           (\<lambda>r. job_id r = i \<and> revision r = expected_revision \<and> state r = RUNNING)
           (completed_row th now) (jobs c))) (\<lambda>c1.
       let c2 = append_event c1 i COMPLETED (Some RUNNING) SUCCEEDED now (attempt_count row)
                  (Some owner) None
       in sbind (append_watch_job_outcome c2 i SUCCEEDED now) (\<lambda>c3.
          sbind (visible_job c3 i) (\<lambda>j. Inr (j, c3))))))))))"

definition fail_job ::
  "(pystr \<Rightarrow> pystr) \<Rightarrow> catalog \<Rightarrow> pystr \<Rightarrow> pystr \<Rightarrow> pystr \<Rightarrow> nat \<Rightarrow> int \<Rightarrow> bool \<Rightarrow> pystr \<Rightarrow>
   int option \<Rightarrow> cat_error + job \<times> catalog" where
  "fail_job H c i owner token expected_revision now retryable failure_code retry_at =
     sbind (validate_owner owner) (\<lambda>_.
     sbind (validate_failure_code failure_code) (\<lambda>_.
     sbind (lease_token_hash H token) (\<lambda>th.
     let retry = (case retry_at of None \<Rightarrow> now | Some t \<Rightarrow> t) in
     if retry < now then Inl (InvalidJobTransition ''retry_at must not precede now'')
     else if \<not> retryable \<and> retry_at \<noteq> None
     then Inl (InvalidJobTransition ''terminal failure cannot specify retry_at'')
     else sbind (write_connection c) (\<lambda>_.
       sbind (required_job_row c i) (\<lambda>row.
       if state row \<in> {QUEUED, FAILED}
       then (if last_transition_token_hash row = Some th \<and> last_failure_code row = Some failure_code
             then sbind (job_from_row row) (\<lambda>j. Inr (j, c))
             else Inl (LeaseConflict ''failed job fencing token does not match''))
       else
         sbind (assert_active_lease row owner th expected_revision now False None False) (\<lambda>_.
         if cancellation_requested_at row \<noteq> None
         then Inl (InvalidJobTransition ''job cancellation is requested'')
         else
           sbind (assert_transition_time row now) (\<lambda>_.
           let should_retry = (retryable \<and> attempt_count row < max_attempts row);
               st = (if should_retry then QUEUED else FAILED);
               ty = (if should_retry then RETRY_QUEUED else EV_FAILED)
           in
             sbind (put_jobs c (upd_where
                 (\<lambda>r. job_id r = i \<and> revision r = expected_revision \<and> state r = RUNNING)
                 (failed_row row th failure_code should_retry retry now) (jobs c))) (\<lambda>c1.
             let c2 = append_event c1 i ty (Some RUNNING) st now (attempt_count row)
                        (Some owner) (Some failure_code)
             in sbind (append_watch_job_outcome c2 i st now) (\<lambda>c3.
                sbind (visible_job c3 i) (\<lambda>j. Inr (j, c3)))))))))))"

section \<open>Cancelling\<close>

definition cancelled_queued_row :: "int \<Rightarrow> job_row \<Rightarrow> job_row" where
  "cancelled_queued_row now r =
     r\<lparr>state := CANCELLED, revision := revision r + 1, last_transition_token_hash := None,
       last_failure_code := None, updated_at := now, terminal_at := Some now\<rparr>"

definition cancel_requested_row :: "int \<Rightarrow> job_row \<Rightarrow> job_row" where
  "cancel_requested_row now r =
     r\<lparr>revision := revision r + 1, cancellation_requested_at := Some now, updated_at := now\<rparr>"

definition cancelled_running_row :: "pystr \<Rightarrow> int \<Rightarrow> job_row \<Rightarrow> job_row" where
  "cancelled_running_row th now r =
     r\<lparr>state := CANCELLED, revision := revision r + 1, active_owner_id := None,
       active_lease_token_hash := None, lease_expires_at := None,
       cancellation_requested_at := None, last_transition_token_hash := Some th,
       last_failure_code := None, updated_at := now, terminal_at := Some now\<rparr>"

definition request_job_cancellation :: "catalog \<Rightarrow> pystr \<Rightarrow> int \<Rightarrow> cat_error + job \<times> catalog" where
  "request_job_cancellation c i now =
     sbind (write_connection c) (\<lambda>_.
     sbind (required_job_row c i) (\<lambda>row.
     sbind (assert_transition_time row now) (\<lambda>_.
     if state row = CANCELLED then sbind (job_from_row row) (\<lambda>j. Inr (j, c))
     else if state row \<in> {SUCCEEDED, FAILED}
     then Inl (InvalidJobTransition ''terminal job cannot be cancelled'')
     else if cancellation_requested_at row \<noteq> None then sbind (job_from_row row) (\<lambda>j. Inr (j, c))
     else
       sbind (if state row = QUEUED
         then
           sbind (put_jobs c (upd_where (\<lambda>r. job_id r = i \<and> state r = QUEUED)
               (cancelled_queued_row now) (jobs c))) (\<lambda>c1.
           append_watch_job_outcome
             (append_event c1 i EV_CANCELLED (Some QUEUED) CANCELLED now (attempt_count row) None None)
             i CANCELLED now)
         else
           sbind (put_jobs c (upd_where
               (\<lambda>r. job_id r = i \<and> state r = RUNNING \<and> cancellation_requested_at r = None)
               (cancel_requested_row now) (jobs c))) (\<lambda>c1.
           Inr (append_event c1 i CANCEL_REQUESTED (Some RUNNING) RUNNING now (attempt_count row)
                  (active_owner_id row) None))) (\<lambda>c2.
       sbind (visible_job c2 i) (\<lambda>j. Inr (j, c2))))))"

definition acknowledge_job_cancellation ::
  "(pystr \<Rightarrow> pystr) \<Rightarrow> catalog \<Rightarrow> pystr \<Rightarrow> pystr \<Rightarrow> pystr \<Rightarrow> nat \<Rightarrow> int \<Rightarrow> cat_error + job \<times> catalog" where
  "acknowledge_job_cancellation H c i owner token expected_revision now =
     sbind (validate_owner owner) (\<lambda>_.
     sbind (lease_token_hash H token) (\<lambda>th.
     sbind (write_connection c) (\<lambda>_.
     sbind (required_job_row c i) (\<lambda>row.
     if state row = CANCELLED
     then (if last_transition_token_hash row = Some th
           then sbind (job_from_row row) (\<lambda>j. Inr (j, c))
           else Inl (LeaseConflict ''cancelled job fencing token does not match''))
     else
       sbind (assert_active_lease row owner th expected_revision now False None True) (\<lambda>_.
       if cancellation_requested_at row = None
       then Inl (InvalidJobTransition ''job cancellation is not requested'')
       else
         sbind (assert_transition_time row now) (\<lambda>_.
         sbind (put_jobs c (upd_where
             (\<lambda>r. job_id r = i \<and> revision r = expected_revision \<and> state r = RUNNING)
             (cancelled_running_row th now) (jobs c))) (\<lambda>c1.
         let c2 = append_event c1 i EV_CANCELLED (Some RUNNING) CANCELLED now (attempt_count row)
                    (Some owner) None
         in sbind (append_watch_job_outcome c2 i CANCELLED now) (\<lambda>c3.
            sbind (visible_job c3 i) (\<lambda>j. Inr (j, c3))))))))))"

section \<open>Recovering expired leases\<close>

text \<open>
  \<open>recovery_outcome\<close> is the row's new state, event type and failure code; the loop runs over the
  rows selected before the first update, in the order of their identifiers.
\<close>

definition recovery_outcome :: "job_row \<Rightarrow> job_state \<times> job_event_type \<times> pystr option" where
  "recovery_outcome r =
     (if cancellation_requested_at r \<noteq> None then (CANCELLED, EV_CANCELLED, None)
      else if attempt_count r < max_attempts r
      then (QUEUED, LEASE_RECOVERED, Some (U ''lease_expired''))
      else (FAILED, LEASE_EXHAUSTED, Some (U ''lease_expired'')))"

definition recovered_row ::
  "job_row \<Rightarrow> job_state \<Rightarrow> pystr option \<Rightarrow> int \<Rightarrow> job_row \<Rightarrow> job_row" where
  "recovered_row row st failure now r =
     r\<lparr>state := st, revision := revision r + 1, active_owner_id := None,
       active_lease_token_hash := None, lease_expires_at := None,
       cancellation_requested_at := None,
       last_transition_token_hash := active_lease_token_hash row,
       last_failure_code := failure, updated_at := now,
       terminal_at := (if st = QUEUED then None else Some now)\<rparr>"

definition lease_expired :: "int \<Rightarrow> job_row \<Rightarrow> bool" where
  "lease_expired now r \<longleftrightarrow>
     state r = RUNNING \<and> (case lease_expires_at r of None \<Rightarrow> False | Some l \<Rightarrow> l \<le> now)"

definition recover_row :: "int \<Rightarrow> catalog \<Rightarrow> job_row \<Rightarrow> cat_error + catalog" where
  "recover_row now c row =
     (case recovery_outcome row of (st, ty, failure) \<Rightarrow>
       sbind (put_jobs c (upd_where (\<lambda>r. job_id r = job_id row \<and> lease_expired now r)
           (recovered_row row st failure now) (jobs c))) (\<lambda>c1.
       append_watch_job_outcome
         (append_event c1 (job_id row) ty (Some RUNNING) st now (attempt_count row)
            (active_owner_id row) failure)
         (job_id row) st now))"

fun recover_rows :: "int \<Rightarrow> job_row list \<Rightarrow> catalog \<Rightarrow> cat_error + catalog" where
  "recover_rows now [] c = Inr c"
| "recover_rows now (r # rs) c = sbind (recover_row now c r) (\<lambda>c1. recover_rows now rs c1)"

definition recover_expired_jobs :: "catalog \<Rightarrow> int \<Rightarrow> cat_error + recovery_result \<times> catalog" where
  "recover_expired_jobs c now =
     sbind (write_connection c) (\<lambda>_.
     let rows = sort_key job_id (filter (lease_expired now) (jobs c));
         ids = (\<lambda>st. sort (map job_id (filter (\<lambda>r. fst (recovery_outcome r) = st) rows)))
     in sbind (recover_rows now rows c) (\<lambda>c1.
        Inr (\<lparr>requeued_job_ids = ids QUEUED, failed_job_ids = ids FAILED,
              cancelled_job_ids = ids CANCELLED, recovered_at = now\<rparr>, c1)))"

section \<open>Reading\<close>

definition get_job :: "catalog \<Rightarrow> pystr \<Rightarrow> cat_error + job option" where
  "get_job c i = load_job c i"

fun jobs_from_rows :: "job_row list \<Rightarrow> cat_error + job list" where
  "jobs_from_rows [] = Inr []"
| "jobs_from_rows (r # rs) =
     sbind (job_from_row r) (\<lambda>j. sbind (jobs_from_rows rs) (\<lambda>js. Inr (j # js)))"

definition list_jobs ::
  "catalog \<Rightarrow> job_state option \<Rightarrow> pystr option \<Rightarrow> int \<Rightarrow> (string + cat_error) + job list" where
  "list_jobs c st knd limit =
     (if \<not> (1 \<le> limit \<and> limit \<le> 1000)
      then Inl (Inl ''job list limit must be between 1 and 1000'')
      else if (case knd of None \<Rightarrow> False | Some k \<Rightarrow> \<not> machine_token k)
      then Inl (Inl ''job kind filter is invalid'')
      else
        case jobs_from_rows (take (nat limit) (sort_key (\<lambda>r. (created_at r, job_id r))
               (filter (\<lambda>r. (case st of None \<Rightarrow> True | Some s \<Rightarrow> state r = s) \<and>
                            (case knd of None \<Rightarrow> True | Some k \<Rightarrow> kind r = k)) (jobs c)))) of
          Inl e \<Rightarrow> Inl (Inr e)
        | Inr js \<Rightarrow> Inr js)"

definition list_job_events :: "catalog \<Rightarrow> pystr \<Rightarrow> cat_error + job_event list" where
  "list_job_events c i =
     sbind (load_job c i) (\<lambda>j.
       if j = None then Inl JobNotFound
       else let es = sort_key ev_sequence (filter (\<lambda>e. ev_job e = i) (job_events c))
            in if list_all job_event_valid es then Inr es else Inl ValidationFailed)"

end
