(* ===== verification/Watch_Catalog.thy ===== *)
theory Watch_Catalog
  imports Job_Catalog
begin

text \<open>
  The watcher transactions of \<open>adapters/sqlite_catalog_watch.py\<close> and the row helpers of
  \<open>adapters/sqlite_catalog_watch_records.py\<close>, over the same catalog: registering a root, reconciling
  a scan (observation transitions, scheduling under backpressure, tombstones, rename hints,
  publication) and the read operations.  \<open>cs\<close> is \<open>canonical_sha256\<close> and \<open>uid\<close> is
  \<open>uuid5(_WATCH_JOB_NAMESPACE, key)\<close>.  The row fingerprint of an observation is a function of its
  other columns and is left out of the record.  A transaction that raises returns no catalog, so
  it changes nothing.
\<close>

section \<open>Rows\<close>

definition root_from_row :: "(json \<Rightarrow> pystr) \<Rightarrow> watch_root \<Rightarrow> cat_error + watch_root" where
  "root_from_row cs w =
     (if admitted_root_valid cs (authority w) \<and> root_created_at w \<le> root_updated_at w
      then Inr w else Inl ValidationFailed)"

definition load_watch_root ::
  "(json \<Rightarrow> pystr) \<Rightarrow> catalog \<Rightarrow> pystr \<Rightarrow> cat_error + watch_root option" where
  "load_watch_root cs c i =
     (case List.find (\<lambda>w. root_id (authority w) = i) (watch_roots c) of
        None \<Rightarrow> Inr None
      | Some w \<Rightarrow> sbind (root_from_row cs w) (\<lambda>p. Inr (Some p)))"

definition observation_from_row :: "(json \<Rightarrow> pystr) \<Rightarrow> observation \<Rightarrow> cat_error + observation" where
  "observation_from_row cs b = (if observation_valid cs b then Inr b else Inl ValidationFailed)"

definition make_watch_observation ::
  "(json \<Rightarrow> pystr) \<Rightarrow> observation \<Rightarrow> cat_error + observation" where
  "make_watch_observation cs b = (if observation_valid cs b then Inr b else Inl ValidationFailed)"

definition same_observation :: "observation \<Rightarrow> observation \<Rightarrow> bool" where
  "same_observation a b \<longleftrightarrow> obs_root a = obs_root b \<and> obs_digest a = obs_digest b"

definition write_watch_observation :: "catalog \<Rightarrow> observation \<Rightarrow> cat_error + catalog" where
  "write_watch_observation c b =
     (let rows = (if list_ex (\<lambda>a. same_observation a b) (observations c)
                  then upd_where (\<lambda>a. same_observation a b) (\<lambda>_. b) (observations c)
                  else observations c @ [b])
      in if distinct (map (\<lambda>a. (obs_root a, obs_locator a)) rows)
         then Inr (c\<lparr>observations := rows\<rparr>) else Inl CatalogFailure)"

definition target_from_row :: "(json \<Rightarrow> pystr) \<Rightarrow> watch_target \<Rightarrow> cat_error + watch_target" where
  "target_from_row cs t = (if watch_target_valid cs t then Inr t else Inl ValidationFailed)"

section \<open>Registering a root\<close>

definition register_watch_root ::
  "(json \<Rightarrow> pystr) \<Rightarrow> catalog \<Rightarrow> admitted_root \<Rightarrow> int \<Rightarrow> cat_error + watch_root \<times> catalog" where
  "register_watch_root cs c root now =
     sbind (write_connection c) (\<lambda>_.
     case List.find (\<lambda>w. root_id (authority w) = root_id root) (watch_roots c) of
       Some w \<Rightarrow>
         sbind (root_from_row cs w) (\<lambda>p.
           if authority p \<noteq> root
           then Inl (JobConflict ''watch root identity has conflicting immutable facts'')
           else Inr (p, c))
     | None \<Rightarrow>
         let w = \<lparr>authority = root, generation = 0, rescan_required = True,
                  root_created_at = now, root_updated_at = now\<rparr>;
             c1 = c\<lparr>watch_roots := watch_roots c @ [w]\<rparr>;
             c2 = append_watch_event c1 (root_id root) ROOT_REGISTERED 0 now None None 0 0 0
         in sbind (load_watch_root cs c2 (root_id root)) (\<lambda>p.
            sbind (need p CatalogFailure) (\<lambda>p'. Inr (p', c2))))"

section \<open>Observation transitions\<close>

record transition =
  tr_state :: observation_state
  tr_first :: int
  tr_stable_since :: "int option"
  tr_key :: "pystr option"
  tr_revision :: nat
  tr_event :: "watch_event_type option"

definition fresh_transition :: "watch_config \<Rightarrow> int \<Rightarrow> nat \<Rightarrow> watch_event_type \<Rightarrow> transition" where
  "fresh_transition config observed_at rv event =
     (let st = (if stability_ms config = 0 then STABLE else CANDIDATE)
      in \<lparr>tr_state = st, tr_first = observed_at,
          tr_stable_since = (if st = STABLE then Some observed_at else None),
          tr_key = None, tr_revision = rv, tr_event = Some event\<rparr>)"

definition watch_entry_transition ::
  "observation option \<Rightarrow> fingerprint \<Rightarrow> watch_config \<Rightarrow> int \<Rightarrow> transition" where
  "watch_entry_transition previous fp config observed_at =
     (case previous of
        None \<Rightarrow> fresh_transition config observed_at 1 OBSERVATION_CREATED
      | Some p \<Rightarrow>
        let changed_event =
          (if obs_state p = TOMBSTONED \<or> obs_fingerprint p = None then Some REAPPEARED
           else if obs_fingerprint p \<noteq> Some fp then Some OBSERVATION_CHANGED else None)
        in case changed_event of
             Some ev \<Rightarrow> fresh_transition config observed_at (obs_revision p + 1) ev
           | None \<Rightarrow>
             let is_stable = int (stability_ms config) \<le> elapsed_ms (observed_at - first_observed_at p)
             in \<lparr>tr_state = (if is_stable then STABLE else CANDIDATE),
                 tr_first = first_observed_at p,
                 tr_stable_since =
                   (if is_stable
                    then (case stable_since p of None \<Rightarrow> Some observed_at | Some t \<Rightarrow> Some t)
                    else None),
                 tr_key = last_scheduled_key p, tr_revision = obs_revision p + 1,
                 tr_event = (if is_stable \<and> obs_state p \<noteq> STABLE
                             then Some OBSERVATION_STABLE else None)\<rparr>)"

section \<open>Rename hints\<close>

text \<open>\<open>dict.setdefault(key, []).append(x)\<close> over a sequence, as an association list.\<close>

fun group_append :: "'k \<Rightarrow> 'v \<Rightarrow> ('k \<times> 'v list) list \<Rightarrow> ('k \<times> 'v list) list" where
  "group_append k v [] = [(k, [v])]"
| "group_append k v ((k', vs) # g) =
     (if k' = k then (k', vs @ [v]) # g else (k', vs) # group_append k v g)"

definition group_by :: "('v \<Rightarrow> 'k) \<Rightarrow> 'v list \<Rightarrow> ('k \<times> 'v list) list" where
  "group_by key xs = foldl (\<lambda>g x. group_append (key x) x g) [] xs"

fun observations_from_rows :: "(json \<Rightarrow> pystr) \<Rightarrow> observation list \<Rightarrow> cat_error + observation list" where
  "observations_from_rows cs [] = Inr []"
| "observations_from_rows cs (b # bs) =
     sbind (observation_from_row cs b) (\<lambda>o'. sbind (observations_from_rows cs bs) (\<lambda>os. Inr (o' # os)))"

definition file_identity :: "fingerprint \<Rightarrow> pystr \<times> pystr" where
  "file_identity f = (device_id f, file_id f)"

definition watch_rename_hints ::
  "(json \<Rightarrow> pystr) \<Rightarrow> observation list \<Rightarrow> scan_entry list \<Rightarrow> cat_error + pystr list" where
  "watch_rename_hints cs existing entries =
     sbind (observations_from_rows cs existing) (\<lambda>prev.
     let previous_by_identity = group_by (\<lambda>b. file_identity (the (obs_fingerprint b)))
           (filter (\<lambda>b. obs_fingerprint b \<noteq> None) prev);
         current_by_identity = group_by (\<lambda>e. file_identity (entry_fingerprint e)) entries;
         scanned = map entry_digest entries
     in Inr (List.map_filter (\<lambda>(identity, current).
          (case (current, map_of previous_by_identity identity) of
             ([e], Some [p]) \<Rightarrow>
               if obs_digest p \<notin> set scanned \<and> entry_digest e \<notin> set (map obs_digest existing) \<and>
                  obs_fingerprint p = Some (entry_fingerprint e)
               then Some (entry_digest e) else None
           | _ \<Rightarrow> None))
          (sort_key fst current_by_identity)))"

section \<open>Scheduling\<close>

record progress =
  active_count :: nat
  candidate_count :: nat
  stable_count :: nat
  tombstone_count :: nat
  backpressure :: bool
  scheduled :: "pystr list"

definition active_watch_job_count :: "catalog \<Rightarrow> pystr \<Rightarrow> nat" where
  "active_watch_job_count c root =
     length (filter (\<lambda>(t, j). tgt_job t = job_id j \<and> tgt_root t = root \<and> state j \<in> {QUEUED, RUNNING})
       (List.product (targets c) (jobs c)))"

definition watch_job_row :: "pystr \<Rightarrow> pystr \<Rightarrow> nat \<Rightarrow> int \<Rightarrow> job_row" where
  "watch_job_row i key attempts created =
     \<lparr>job_id = i, kind = U ''watch_ingest'', deduplication_key = key, state = QUEUED,
      attempt_count = 0, max_attempts = attempts, revision = 0, available_at = created,
      active_owner_id = None, lease_expires_at = None, cancellation_requested_at = None,
      last_failure_code = None, created_at = created, updated_at = created, terminal_at = None,
      references = [], active_lease_token_hash = None, last_transition_token_hash = None\<rparr>"

definition watch_job_in_catalog ::
  "catalog \<Rightarrow> pystr \<Rightarrow> pystr \<Rightarrow> nat \<Rightarrow> int \<Rightarrow> cat_error + job_row \<times> catalog" where
  "watch_job_in_catalog c i key attempts created =
     (case List.find (\<lambda>r. kind r = U ''watch_ingest'' \<and> deduplication_key r = key) (jobs c) of
        Some r \<Rightarrow> Inr (r, c)
      | None \<Rightarrow>
          sbind (put_jobs c (jobs c @ [watch_job_row i key attempts created])) (\<lambda>c1.
          let c2 = append_event c1 i ENQUEUED None QUEUED created 0 None None
          in sbind (required_job_row c2 i) (\<lambda>r. Inr (r, c2))))"

definition create_watch_job_and_target ::
  "(json \<Rightarrow> pystr) \<Rightarrow> catalog \<Rightarrow> pystr \<Rightarrow> pystr \<Rightarrow> scan_entry \<Rightarrow> pystr \<Rightarrow> pystr \<Rightarrow> nat \<Rightarrow> int \<Rightarrow>
   cat_error + job \<times> catalog" where
  "create_watch_job_and_target cs c i root entry profile key attempts created =
     sbind (watch_job_in_catalog c i key attempts created) (\<lambda>(row, c1).
     sbind (job_from_row row) (\<lambda>j.
     if job_id j \<noteq> i \<or> kind j \<noteq> U ''watch_ingest'' \<or> deduplication_key j \<noteq> key \<or> max_attempts j \<noteq> attempts
     then Inl (JobConflict ''watch job identity has conflicting immutable facts'')
     else
       let t = \<lparr>tgt_job = i, tgt_root = root, tgt_locator = entry_locator entry,
                tgt_digest = entry_digest entry, tgt_fingerprint = entry_fingerprint entry,
                tgt_profile = profile, tgt_key = key, tgt_created_at = created\<rparr>
       in if \<not> watch_target_valid cs t then Inl ValidationFailed
       else case List.find (\<lambda>x. tgt_job x = i) (targets c1) of
          None \<Rightarrow>
            if key \<in> set (map tgt_key (targets c1)) then Inl CatalogFailure
            else Inr (j, c1\<lparr>targets := targets c1 @ [t]\<rparr>)
        | Some x \<Rightarrow>
            sbind (target_from_row cs x) (\<lambda>x'.
              if x' \<noteq> t then Inl (JobConflict ''watch target identity has conflicting immutable facts'')
              else Inr (j, c1))))"

definition parser_profile_for :: "watch_config \<Rightarrow> scan_entry \<Rightarrow> pystr" where
  "parser_profile_for config entry =
     (if take 5 (entry_media_type entry) = U ''text/'' then text_profile config else rich_profile config)"

definition schedule_stable_watch_entry ::
  "(json \<Rightarrow> pystr) \<Rightarrow> (pystr \<Rightarrow> pystr) \<Rightarrow> pystr \<Rightarrow> scan_entry \<Rightarrow> observation \<Rightarrow> watch_config \<Rightarrow> nat \<Rightarrow> int \<Rightarrow>
   catalog \<times> progress \<Rightarrow> cat_error + catalog \<times> progress" where
  "schedule_stable_watch_entry cs uid root entry b config gen now = (\<lambda>(c, pr).
     let profile = parser_profile_for config entry;
         key = watch_job_key cs root (entry_digest entry) (entry_fingerprint entry) profile
     in if last_scheduled_key b = Some key then Inr (c, pr)
        else if max_active_jobs config \<le> active_count pr then Inr (c, pr\<lparr>backpressure := True\<rparr>)
        else
          sbind (create_watch_job_and_target cs c (uid key) root entry profile key
                   (cfg_max_attempts config) now) (\<lambda>(j, c1).
          sbind (write_watch_observation c1 (b\<lparr>last_scheduled_key := Some key\<rparr>)) (\<lambda>c2.
          let c3 = append_watch_event c2 root TARGET_SCHEDULED gen now (Some (entry_digest entry))
                     (Some (job_id j)) 0 1 0
          in Inr (c3, pr\<lparr>scheduled := scheduled pr @ [job_id j], active_count := active_count pr + 1\<rparr>))))"

section \<open>Reconciling a scan\<close>

definition reconcile_watch_entry ::
  "(json \<Rightarrow> pystr) \<Rightarrow> (pystr \<Rightarrow> pystr) \<Rightarrow> pystr \<Rightarrow> observation option \<Rightarrow> watch_config \<Rightarrow> int \<Rightarrow> nat \<Rightarrow> int \<Rightarrow>
   scan_entry \<Rightarrow> catalog \<times> progress \<Rightarrow> cat_error + catalog \<times> progress" where
  "reconcile_watch_entry cs uid root previous_row config observed_at gen now entry = (\<lambda>(c, pr).
     sbind (case previous_row of None \<Rightarrow> Inr None
            | Some row \<Rightarrow> sbind (observation_from_row cs row) (\<lambda>p. Inr (Some p))) (\<lambda>previous.
     let tr = watch_entry_transition previous (entry_fingerprint entry) config observed_at
     in sbind (make_watch_observation cs
          \<lparr>obs_root = root, obs_locator = entry_locator entry, obs_digest = entry_digest entry,
           obs_state = tr_state tr, obs_fingerprint = Some (entry_fingerprint entry),
           first_observed_at = tr_first tr, last_observed_at = observed_at,
           stable_since = tr_stable_since tr, last_generation = gen,
           last_scheduled_key = tr_key tr, obs_revision = tr_revision tr\<rparr>) (\<lambda>b.
        sbind (write_watch_observation c b) (\<lambda>c1.
        let c2 = (case tr_event tr of None \<Rightarrow> c1
                  | Some ev \<Rightarrow> append_watch_event c1 root ev gen now (Some (entry_digest entry)) None 0 0 0)
        in if tr_state tr = CANDIDATE
           then Inr (c2, pr\<lparr>candidate_count := candidate_count pr + 1\<rparr>)
           else schedule_stable_watch_entry cs uid root entry b config gen now
                  (c2, pr\<lparr>stable_count := stable_count pr + 1\<rparr>)))))"

fun reconcile_entries ::
  "(json \<Rightarrow> pystr) \<Rightarrow> (pystr \<Rightarrow> pystr) \<Rightarrow> pystr \<Rightarrow> observation list \<Rightarrow> watch_config \<Rightarrow> int \<Rightarrow> nat \<Rightarrow> int \<Rightarrow>
   scan_entry list \<Rightarrow> catalog \<times> progress \<Rightarrow> cat_error + catalog \<times> progress" where
  "reconcile_entries cs uid root existing config at gen now [] s = Inr s"
| "reconcile_entries cs uid root existing config at gen now (e # es) s =
     sbind (reconcile_watch_entry cs uid root
              (List.find (\<lambda>b. obs_digest b = entry_digest e) existing) config at gen now e s) (\<lambda>s1.
       reconcile_entries cs uid root existing config at gen now es s1)"

definition tombstone :: "observation \<Rightarrow> int \<Rightarrow> nat \<Rightarrow> observation" where
  "tombstone p at gen =
     p\<lparr>obs_state := TOMBSTONED, obs_fingerprint := None, last_observed_at := at,
       stable_since := None, last_generation := gen, obs_revision := obs_revision p + 1\<rparr>"

fun tombstone_missing ::
  "(json \<Rightarrow> pystr) \<Rightarrow> pystr \<Rightarrow> pystr list \<Rightarrow> int \<Rightarrow> nat \<Rightarrow> int \<Rightarrow> observation list \<Rightarrow>
   catalog \<times> nat \<Rightarrow> cat_error + catalog \<times> nat" where
  "tombstone_missing cs root scanned at gen now [] s = Inr s"
| "tombstone_missing cs root scanned at gen now (row # rows) (c, n) =
     sbind (observation_from_row cs row) (\<lambda>p.
     if obs_digest row \<in> set scanned \<or> obs_state p = TOMBSTONED
     then tombstone_missing cs root scanned at gen now rows (c, n)
     else
       sbind (make_watch_observation cs (tombstone p at gen)) (\<lambda>b.
       sbind (write_watch_observation c b) (\<lambda>c1.
       tombstone_missing cs root scanned at gen now rows
         (append_watch_event c1 root WT_TOMBSTONED gen now (Some (obs_digest row)) None 0 0 1, n + 1))))"

definition tombstone_missing_watch_entries ::
  "(json \<Rightarrow> pystr) \<Rightarrow> pystr \<Rightarrow> observation list \<Rightarrow> pystr list \<Rightarrow> int \<Rightarrow> nat \<Rightarrow> int \<Rightarrow> catalog \<Rightarrow>
   cat_error + catalog \<times> nat" where
  "tombstone_missing_watch_entries cs root existing scanned at gen now c =
     tombstone_missing cs root scanned at gen now (sort_key obs_digest existing) (c, 0)"

definition append_watch_rename_hints ::
  "catalog \<Rightarrow> pystr \<Rightarrow> pystr list \<Rightarrow> nat \<Rightarrow> int \<Rightarrow> catalog" where
  "append_watch_rename_hints c root hints gen now =
     foldl (\<lambda>c' d. append_watch_event c' root RENAME_HINT gen now (Some d) None 0 0 0) c hints"

record watch_reconciliation =
  rec_root :: watch_root
  rec_complete :: bool
  rec_entry_count :: nat
  rec_candidate_count :: nat
  rec_stable_count :: nat
  rec_scheduled :: "pystr list"
  rec_tombstone_count :: nat

definition reconciliation_valid :: "watch_reconciliation \<Rightarrow> bool" where
  "reconciliation_valid r \<longleftrightarrow> sorted_unique (rec_scheduled r) \<and>
     (\<not> rec_complete r \<longrightarrow> rec_entry_count r = 0 \<and> rec_candidate_count r = 0 \<and>
        rec_stable_count r = 0 \<and> rec_scheduled r = [] \<and> rec_tombstone_count r = 0)"

definition update_watch_root :: "catalog \<Rightarrow> pystr \<Rightarrow> (watch_root \<Rightarrow> watch_root) \<Rightarrow> catalog" where
  "update_watch_root c root f =
     c\<lparr>watch_roots := upd_where (\<lambda>w. root_id (authority w) = root) f (watch_roots c)\<rparr>"

definition record_incomplete_watch_scan ::
  "(json \<Rightarrow> pystr) \<Rightarrow> catalog \<Rightarrow> pystr \<Rightarrow> nat \<Rightarrow> int \<Rightarrow> cat_error + watch_reconciliation \<times> catalog" where
  "record_incomplete_watch_scan cs c root gen now =
     (let c1 = update_watch_root c root (\<lambda>w. w\<lparr>rescan_required := True, root_updated_at := now\<rparr>);
          c2 = append_watch_event c1 root RESCAN_REQUIRED gen now None None 0 0 0
      in sbind (load_watch_root cs c2 root) (\<lambda>w.
         sbind (need w CatalogFailure) (\<lambda>w'.
         Inr (\<lparr>rec_root = w', rec_complete = False, rec_entry_count = 0, rec_candidate_count = 0,
               rec_stable_count = 0, rec_scheduled = [], rec_tombstone_count = 0\<rparr>, c2))))"

definition publish_watch_reconciliation ::
  "(json \<Rightarrow> pystr) \<Rightarrow> catalog \<Rightarrow> pystr \<Rightarrow> watch_scan \<Rightarrow> nat \<Rightarrow> int \<Rightarrow> progress \<Rightarrow>
   cat_error + watch_reconciliation \<times> catalog" where
  "publish_watch_reconciliation cs c root scan gen now pr =
     (let c1 = update_watch_root c root (\<lambda>w. w\<lparr>generation := gen, rescan_required := backpressure pr,
                 root_updated_at := now\<rparr>);
          c2 = append_watch_event c1 root (if backpressure pr then BACKPRESSURE else SCAN_COMPLETED)
                 gen now None None (length (scan_entries scan)) (length (scheduled pr)) (tombstone_count pr)
      in sbind (load_watch_root cs c2 root) (\<lambda>w.
         sbind (need w CatalogFailure) (\<lambda>w'.
         let r = \<lparr>rec_root = w', rec_complete = True, rec_entry_count = length (scan_entries scan),
               rec_candidate_count = candidate_count pr, rec_stable_count = stable_count pr,
               rec_scheduled = sort (scheduled pr), rec_tombstone_count = tombstone_count pr\<rparr>
         in if reconciliation_valid r then Inr (r, c2) else Inl ValidationFailed)))"

definition reconcile_complete_watch_scan ::
  "(json \<Rightarrow> pystr) \<Rightarrow> (pystr \<Rightarrow> pystr) \<Rightarrow> catalog \<Rightarrow> pystr \<Rightarrow> watch_scan \<Rightarrow> watch_root \<Rightarrow> nat \<Rightarrow> int \<Rightarrow>
   cat_error + watch_reconciliation \<times> catalog" where
  "reconcile_complete_watch_scan cs uid c root scan root_row gen now =
     (let existing = filter (\<lambda>b. obs_root b = root) (observations c);
          scanned = map entry_digest (scan_entries scan);
          at = scan_completed_at scan
      in sbind (watch_rename_hints cs existing (scan_entries scan)) (\<lambda>hints.
         sbind (root_from_row cs root_row) (\<lambda>w.
         sbind (reconcile_entries cs uid root existing (root_config (authority w)) at gen now
                  (scan_entries scan)
                  (c, \<lparr>active_count = active_watch_job_count c root, candidate_count = 0,
                       stable_count = 0, tombstone_count = 0, backpressure = False,
                       scheduled = []\<rparr>)) (\<lambda>(c1, pr).
         sbind (tombstone_missing_watch_entries cs root existing scanned at gen now c1) (\<lambda>(c2, n).
         publish_watch_reconciliation cs (append_watch_rename_hints c2 root hints gen now) root scan
           gen now (pr\<lparr>tombstone_count := n\<rparr>))))))"

definition reconcile_watch_scan ::
  "(json \<Rightarrow> pystr) \<Rightarrow> (pystr \<Rightarrow> pystr) \<Rightarrow> catalog \<Rightarrow> pystr \<Rightarrow> watch_scan \<Rightarrow> int \<Rightarrow>
   cat_error + watch_reconciliation \<times> catalog" where
  "reconcile_watch_scan cs uid c root scan now =
     (if scan_root_id scan \<noteq> root then Inl (JobConflict ''watch scan root identity does not match'')
      else if now < scan_completed_at scan
      then Inl (InvalidJobTransition ''reconciliation time precedes scan completion'')
      else
        sbind (write_connection c) (\<lambda>_.
        sbind (required_watch_root c root) (\<lambda>row.
        if now < root_updated_at row
        then Inl (InvalidJobTransition ''transition time precedes current job state'')
        else if \<not> scan_complete scan then record_incomplete_watch_scan cs c root (generation row) now
        else reconcile_complete_watch_scan cs uid c root scan row (generation row + 1) now)))"

section \<open>Reading\<close>

definition get_watch_root :: "(json \<Rightarrow> pystr) \<Rightarrow> catalog \<Rightarrow> pystr \<Rightarrow> cat_error + watch_root option" where
  "get_watch_root cs c i = load_watch_root cs c i"

definition get_watch_target ::
  "(json \<Rightarrow> pystr) \<Rightarrow> catalog \<Rightarrow> pystr \<Rightarrow> cat_error + watch_target option" where
  "get_watch_target cs c i =
     (case List.find (\<lambda>t. tgt_job t = i) (targets c) of
        None \<Rightarrow> Inr None
      | Some t \<Rightarrow> sbind (target_from_row cs t) (\<lambda>t'. Inr (Some t')))"

definition list_watch_events :: "catalog \<Rightarrow> pystr \<Rightarrow> cat_error + watch_event list" where
  "list_watch_events c root =
     sbind (required_watch_root c root) (\<lambda>_.
     let es = sort_key we_sequence (filter (\<lambda>e. we_root e = root) (watch_events c))
     in if list_all watch_event_valid es then Inr es else Inl ValidationFailed)"

definition list_watch_observations ::
  "(json \<Rightarrow> pystr) \<Rightarrow> catalog \<Rightarrow> pystr \<Rightarrow> cat_error + observation list" where
  "list_watch_observations cs c root =
     sbind (required_watch_root c root) (\<lambda>_.
     observations_from_rows cs (sort_key obs_digest (filter (\<lambda>b. obs_root b = root) (observations c))))"

end
