(* ===== verification/Job_Invariant.thy ===== *)
theory Job_Invariant
  imports Job_Catalog
begin

text \<open>
  The catalog invariant: the constraints of the \<open>jobs\<close> table hold, every row is a valid \<open>Job\<close> with
  room for another attempt while queued, and the event log of every job is a well-formed,
  gap-free chain of lifecycle steps that ends in the row's state and holds one \<open>CLAIMED\<close> event per
  attempt; a watch target belongs to a registered root and to a job of its own.  Every operation of
  \<open>Job_Catalog\<close> keeps it.
\<close>

named_theorems op_defs \<open>definitions of the catalog operations\<close>

lemmas [op_defs] = create_job_def claim_job_def claim_watch_job_def renew_job_def
  complete_job_def fail_job_def request_job_cancellation_def acknowledge_job_cancellation_def

section \<open>The invariant\<close>

definition log :: "catalog \<Rightarrow> pystr \<Rightarrow> job_event list" where
  "log c i = filter (\<lambda>e. ev_job e = i) (job_events c)"

fun chained :: "job_state option \<Rightarrow> job_event list \<Rightarrow> bool" where
  "chained s [] = True"
| "chained s (e # es) = (ev_from e = s \<and> chained (Some (ev_to e)) es)"

fun log_state :: "job_state option \<Rightarrow> job_event list \<Rightarrow> job_state option" where
  "log_state s [] = s"
| "log_state s (e # es) = log_state (Some (ev_to e)) es"

definition claims :: "job_event list \<Rightarrow> nat" where
  "claims es = length (filter (\<lambda>e. ev_type e = CLAIMED) es)"

definition log_ok :: "job_event list \<Rightarrow> job_row \<Rightarrow> bool" where
  "log_ok es r \<longleftrightarrow> chained None es \<and> list_all job_event_valid es \<and>
     map ev_sequence es = [1..<length es + 1] \<and> log_state None es = Some (state r) \<and>
     claims es = attempt_count r"

definition row_inv :: "job_row \<Rightarrow> bool" where
  "row_inv r \<longleftrightarrow> job_valid r \<and> (state r = RUNNING) = (active_lease_token_hash r \<noteq> None) \<and>
     (state r = QUEUED \<longrightarrow> attempt_count r < max_attempts r) \<and>
     (state r = RUNNING \<longrightarrow> 1 \<le> attempt_count r \<and>
        (case lease_expires_at r of None \<Rightarrow> True | Some l \<Rightarrow> created_at r \<le> l))"

definition cat_inv :: "catalog \<Rightarrow> bool" where
  "cat_inv c \<longleftrightarrow> jobs_constraints (jobs c) \<and>
     (\<forall>r\<in>set (jobs c). row_inv r \<and> log_ok (log c (job_id r)) r) \<and>
     (\<forall>e\<in>set (job_events c). ev_job e \<in> job_id ` set (jobs c)) \<and>
     (\<forall>t\<in>set (targets c). tgt_root t \<in> (\<lambda>w. root_id (authority w)) ` set (watch_roots c)) \<and>
     distinct (map tgt_job (targets c)) \<and> set (map tgt_job (targets c)) \<subseteq> job_id ` set (jobs c)"

section \<open>Logs\<close>

lemma chained_append: "chained s (es @ [e]) \<longleftrightarrow> chained s es \<and> ev_from e = log_state s es"
  by (induction es arbitrary: s) auto

lemma log_state_append: "log_state s (es @ [e]) = Some (ev_to e)"
  by (induction es arbitrary: s) auto

lemma claims_append: "claims (es @ [e]) = claims es + (if ev_type e = CLAIMED then 1 else 0)"
  by (simp add: claims_def)

lemma next_sequence_upt: "next_sequence [1..<Suc n] = n + 1"
  by (simp add: next_sequence_def foldr_max_upt del: upt_Suc)

lemma log_append_event:
  "log (append_event c i ty from to at att own fl') j =
     log c j @ (if i = j then [\<lparr>ev_job = i, ev_sequence = next_sequence (map ev_sequence (log c i)),
       ev_type = ty, ev_from = from, ev_to = to, ev_at = at, ev_attempt = att, ev_owner = own,
       ev_failure = fl'\<rparr>] else [])"
  by (simp add: log_def append_event_def)

lemma append_event_fields [simp]:
  "jobs (append_event c i ty from to at att own fl') = jobs c"
  "objects (append_event c i ty from to at att own fl') = objects c"
  "targets (append_event c i ty from to at att own fl') = targets c"
  "watch_roots (append_event c i ty from to at att own fl') = watch_roots c"
  "observations (append_event c i ty from to at att own fl') = observations c"
  "watch_events (append_event c i ty from to at att own fl') = watch_events c"
  by (simp_all add: append_event_def)

lemma append_watch_event_fields [simp]:
  "jobs (append_watch_event c rt ty g at d j e s t) = jobs c"
  "job_events (append_watch_event c rt ty g at d j e s t) = job_events c"
  "targets (append_watch_event c rt ty g at d j e s t) = targets c"
  "watch_roots (append_watch_event c rt ty g at d j e s t) = watch_roots c"
  "observations (append_watch_event c rt ty g at d j e s t) = observations c"
  by (simp_all add: append_watch_event_def)

lemma outcome_fields:
  assumes "append_watch_job_outcome c i st at = Inr c'"
  shows "jobs c' = jobs c" "job_events c' = job_events c" "targets c' = targets c"
    "watch_roots c' = watch_roots c"
  using assms
  by (auto simp: append_watch_job_outcome_def result_simps split: option.splits)

lemma outcome_inv: "append_watch_job_outcome c i st at = Inr c' \<Longrightarrow> cat_inv c' \<longleftrightarrow> cat_inv c"
  by (simp add: cat_inv_def log_def outcome_fields)

section \<open>Rows\<close>

lemma put_jobs_Inr: "put_jobs c rs = Inr c' \<longleftrightarrow> jobs_constraints rs \<and> c' = c\<lparr>jobs := rs\<rparr>"
  by (auto simp: put_jobs_def)

lemma row_inv_check: "row_inv r \<Longrightarrow> row_check r"
  by (cases "state r")
     (auto simp: row_inv_def job_valid_def row_check_def terminal_states_def machine_token_def
        length_between_def split: option.splits list.splits if_splits)

lemma cat_inv_row:
  assumes "cat_inv c" "r \<in> set (jobs c)"
  shows "row_inv r" "job_valid r" "log_ok (log c (job_id r)) r"
  using assms by (auto simp: cat_inv_def row_inv_def)

lemma cat_inv_distinct: "cat_inv c \<Longrightarrow> distinct (map job_id (jobs c))"
  by (simp add: cat_inv_def jobs_constraints_def)

lemma same_row:
  assumes "distinct (map job_id rs)" "r \<in> set rs" "x \<in> set rs" "job_id x = job_id r"
  shows "x = r"
  using assms by (meson distinct_map inj_onD)

lemma required_job_row_Inr:
  assumes "required_job_row c i = Inr r"
  shows "r \<in> set (jobs c)" "job_id r = i"
  using assms by (auto simp: required_job_row_def need_Inr_iff dest: find_in)

section \<open>One job moves\<close>

lemma job_move_inv:
  assumes inv: "cat_inv c" and r: "r \<in> set (jobs c)"
    and put: "put_jobs c (upd_where (\<lambda>x. job_id x = job_id r \<and> P x) f (jobs c)) = Inr c1"
    and P: "P r" and id: "job_id (f r) = job_id r" and row: "row_inv (f r)"
    and ev: "\<And>n. 1 \<le> n \<Longrightarrow> job_event_valid \<lparr>ev_job = job_id r, ev_sequence = n, ev_type = ty,
          ev_from = Some (state r), ev_to = state (f r), ev_at = at, ev_attempt = att,
          ev_owner = own, ev_failure = failure\<rparr>"
    and att: "attempt_count (f r) = attempt_count r + (if ty = CLAIMED then 1 else 0)"
  shows "cat_inv (append_event c1 (job_id r) ty (Some (state r)) (state (f r)) at att own failure)"
    (is "cat_inv ?c")
proof -
  let ?rs = "upd_where (\<lambda>x. job_id x = job_id r \<and> P x) f (jobs c)"
  from put have con: "jobs_constraints ?rs" and c1: "c1 = c\<lparr>jobs := ?rs\<rparr>"
    by (auto simp: put_jobs_Inr)
  have rs: "?rs = map (\<lambda>x. if x = r then f r else x) (jobs c)"
    using P same_row[OF cat_inv_distinct[OF inv] r] by (auto simp: upd_where_def)
  have ids: "job_id ` set ?rs = job_id ` set (jobs c)"
    unfolding rs set_map image_image by (rule image_cong) (simp_all add: id)
  have logs: "log c1 j = log c j" for j by (simp add: c1 log_def)
  from cat_inv_row(3)[OF inv r] have lr: "log_ok (log c (job_id r)) r" .
  let ?n = "length (log c (job_id r)) + 1"
  have seq: "next_sequence (map ev_sequence (log c (job_id r))) = ?n"
    using lr next_sequence_upt by (simp add: log_ok_def)
  have fr: "log_ok (log ?c (job_id r)) (f r)"
    using lr seq ev[of ?n] att
    by (simp add: log_append_event logs log_ok_def chained_append log_state_append claims_append)
  have other: "row_inv x \<and> log_ok (log ?c (job_id x)) x" if "x \<in> set (jobs c)" "x \<noteq> r" for x
    using that inv same_row[OF cat_inv_distinct[OF inv] r, of x]
    by (auto simp: log_append_event logs cat_inv_def)
  have "\<forall>x\<in>set ?rs. row_inv x \<and> log_ok (log ?c (job_id x)) x"
    unfolding rs using row fr id other by auto
  moreover have "\<forall>e\<in>set (job_events ?c). ev_job e \<in> job_id ` set ?rs"
    using inv r by (auto simp: c1 append_event_def cat_inv_def ids)
  ultimately show ?thesis
    using con inv ids by (simp add: cat_inv_def c1)
qed

section \<open>What a successful call did\<close>

lemma assert_active_lease_Inr:
  assumes "assert_active_lease r owner th er now idem req canc = Inr u"
  shows "state r = RUNNING" "active_owner_id r = Some owner" "active_lease_token_hash r = Some th"
    "(case lease_expires_at r of None \<Rightarrow> True | Some l \<Rightarrow> now < l)"
    "cancellation_requested_at r = None \<or> canc" "\<not> idem \<Longrightarrow> revision r = er"
  using assms by (auto simp: assert_active_lease_def split: if_splits option.splits)

lemma assert_transition_time_Inr [result_simps]:
  "assert_transition_time r now = Inr u \<longleftrightarrow> updated_at r \<le> now"
  by (auto simp: assert_transition_time_def)

lemma lease_token_hash_Inr [result_simps]:
  "lease_token_hash H tok = Inr th \<longleftrightarrow> 16 \<le> length tok \<and> th = H tok"
  by (auto simp: lease_token_hash_def)

lemma validate_Inr [result_simps]:
  "validate_owner owner = Inr u \<longleftrightarrow> length_between 1 255 owner"
  "validate_failure_code code = Inr u \<longleftrightarrow> machine_token code"
  by (auto simp: validate_owner_def validate_failure_code_def ensure_def)

lemma complete_job_Inr:
  assumes "complete_job H c i owner tok er now = Inr (j, c')"
  obtains (replay) row where "required_job_row c i = Inr row" "state row = SUCCEEDED"
      "last_transition_token_hash row = Some (H tok)" "job_from_row row = Inr j" "c' = c"
  | (moved) row c1 where "required_job_row c i = Inr row"
      "assert_active_lease row owner (H tok) er now False None False = Inr ()"
      "updated_at row \<le> now" "length_between 1 255 owner"
      "put_jobs c (upd_where (\<lambda>r. job_id r = i \<and> revision r = er \<and> state r = RUNNING)
         (completed_row (H tok) now) (jobs c)) = Inr c1"
      "append_watch_job_outcome (append_event c1 i COMPLETED (Some RUNNING) SUCCEEDED now
         (attempt_count row) (Some owner) None) i SUCCEEDED now = Inr c'"
      "visible_job c' i = Inr j"
  using assms unfolding complete_job_def Let_def
  by (elim result_elims if_InrE) (auto simp: result_simps intro: replay moved)

lemma renew_job_Inr:
  assumes "renew_job H c i owner tok er now until = Inr (j, c')"
  obtains (replay) row where "required_job_row c i = Inr row"
      "assert_active_lease row owner (H tok) er now True (Some until) False = Inr ()"
      "revision row \<noteq> er" "job_from_row row = Inr j" "c' = c"
  | (moved) row c1 where "required_job_row c i = Inr row"
      "assert_active_lease row owner (H tok) er now True (Some until) False = Inr ()"
      "revision row = er" "updated_at row \<le> now" "length_between 1 255 owner"
      "put_jobs c (upd_where (\<lambda>r. job_id r = i \<and> revision r = er \<and> state r = RUNNING)
         (renewed_row er now until) (jobs c)) = Inr c1"
      "c' = append_event c1 i RENEWED (Some RUNNING) RUNNING now (attempt_count row) (Some owner) None"
      "visible_job c' i = Inr j" "now < until"
  using assms unfolding renew_job_def Let_def
  by (elim result_elims if_InrE) (auto simp: result_simps intro: replay moved)

lemma fail_job_Inr:
  assumes "fail_job H c i owner tok er now rt code ra = Inr (j, c')"
  obtains (replay) row where "required_job_row c i = Inr row" "state row \<in> {QUEUED, FAILED}"
      "last_transition_token_hash row = Some (H tok)" "last_failure_code row = Some code"
      "job_from_row row = Inr j" "c' = c"
  | (moved) row c1 again retry where "required_job_row c i = Inr row"
      "again = (rt \<and> attempt_count row < max_attempts row)"
      "retry = (case ra of None \<Rightarrow> now | Some t \<Rightarrow> t)" "now \<le> retry"
      "assert_active_lease row owner (H tok) er now False None False = Inr ()"
      "updated_at row \<le> now" "length_between 1 255 owner" "machine_token code"
      "put_jobs c (upd_where (\<lambda>r. job_id r = i \<and> revision r = er \<and> state r = RUNNING)
         (failed_row row (H tok) code again retry now) (jobs c)) = Inr c1"
      "append_watch_job_outcome (append_event c1 i (if again then RETRY_QUEUED else EV_FAILED)
         (Some RUNNING) (if again then QUEUED else FAILED) now (attempt_count row) (Some owner)
         (Some code)) i (if again then QUEUED else FAILED) now = Inr c'"
      "visible_job c' i = Inr j"
  using assms unfolding fail_job_def Let_def
  by (elim result_elims if_InrE) (auto simp: result_simps intro: replay moved)

lemma request_job_cancellation_Inr:
  assumes "request_job_cancellation c i now = Inr (j, c')"
  obtains (replay) row where "required_job_row c i = Inr row" "updated_at row \<le> now"
      "state row = CANCELLED \<or> state row \<in> {QUEUED, RUNNING} \<and> cancellation_requested_at row \<noteq> None"
      "job_from_row row = Inr j" "c' = c"
  | (queued) row c1 where "required_job_row c i = Inr row" "state row = QUEUED" "updated_at row \<le> now"
      "put_jobs c (upd_where (\<lambda>r. job_id r = i \<and> state r = QUEUED)
         (cancelled_queued_row now) (jobs c)) = Inr c1"
      "append_watch_job_outcome (append_event c1 i EV_CANCELLED (Some QUEUED) CANCELLED now
         (attempt_count row) None None) i CANCELLED now = Inr c'"
      "visible_job c' i = Inr j"
  | (running) row c1 where "required_job_row c i = Inr row" "state row = RUNNING" "updated_at row \<le> now"
      "cancellation_requested_at row = None"
      "put_jobs c (upd_where (\<lambda>r. job_id r = i \<and> state r = RUNNING \<and>
           cancellation_requested_at r = None) (cancel_requested_row now) (jobs c)) = Inr c1"
      "c' = append_event c1 i CANCEL_REQUESTED (Some RUNNING) RUNNING now (attempt_count row)
         (active_owner_id row) None"
      "visible_job c' i = Inr j"
proof -
  from assms obtain row where row: "required_job_row c i = Inr row"
    unfolding request_job_cancellation_def by (elim result_elims)
  show ?thesis
    using assms row unfolding request_job_cancellation_def
    by (cases "state row"; elim result_elims if_InrE)
       (auto simp: result_simps intro: replay queued running)
qed

lemma acknowledge_job_cancellation_Inr:
  assumes "acknowledge_job_cancellation H c i owner tok er now = Inr (j, c')"
  obtains (replay) row where "required_job_row c i = Inr row" "state row = CANCELLED"
      "last_transition_token_hash row = Some (H tok)" "job_from_row row = Inr j" "c' = c"
  | (moved) row c1 where "required_job_row c i = Inr row"
      "assert_active_lease row owner (H tok) er now False None True = Inr ()"
      "cancellation_requested_at row \<noteq> None"
      "updated_at row \<le> now" "length_between 1 255 owner"
      "put_jobs c (upd_where (\<lambda>r. job_id r = i \<and> revision r = er \<and> state r = RUNNING)
         (cancelled_running_row (H tok) now) (jobs c)) = Inr c1"
      "append_watch_job_outcome (append_event c1 i EV_CANCELLED (Some RUNNING) CANCELLED now
         (attempt_count row) (Some owner) None) i CANCELLED now = Inr c'"
      "visible_job c' i = Inr j"
  using assms unfolding acknowledge_job_cancellation_def Let_def
  by (elim result_elims if_InrE) (auto simp: result_simps intro: replay moved)

lemma recover_row_Inr:
  assumes "recover_row now c row = Inr c'"
  obtains st ty failure c1 where "recovery_outcome row = (st, ty, failure)"
      "put_jobs c (upd_where (\<lambda>r. job_id r = job_id row \<and> lease_expired now r)
         (recovered_row row st failure now) (jobs c)) = Inr c1"
      "append_watch_job_outcome (append_event c1 (job_id row) ty (Some RUNNING) st now
         (attempt_count row) (active_owner_id row) failure) (job_id row) st now = Inr c'"
  using assms unfolding recover_row_def
  by (cases "recovery_outcome row") (auto elim!: result_elims)

lemma claim_selected_Inr:
  assumes "claim_selected sel c owner th now until = Inr (j, c')"
  obtains (replay) r j' where "r \<in> set (jobs c)" "state r = RUNNING" "sel r"
      "active_owner_id r = Some owner" "active_lease_token_hash r = Some th"
      "job_from_row r = Inr j'" "j = Some j'" "c' = c"
  | (idle) "filter (\<lambda>r. state r = QUEUED \<and> sel r \<and> available_at r \<le> now) (jobs c) = []"
      "j = None" "c' = c"
  | (moved) q c1 j' where
      "first_by (\<lambda>r. (available_at r, created_at r, job_id r))
         (filter (\<lambda>r. state r = QUEUED \<and> sel r \<and> available_at r \<le> now) (jobs c)) = Some q"
      "updated_at q \<le> now"
      "put_jobs c (upd_where (\<lambda>r. job_id r = job_id q \<and> state r = QUEUED)
         (claimed_row q owner th now until) (jobs c)) = Inr c1"
      "c' = append_event c1 (job_id q) CLAIMED (Some QUEUED) RUNNING now (attempt_count q + 1)
         (Some owner) None"
      "visible_job c' (job_id q) = Inr j'" "j = Some j'"
proof (cases "List.find (\<lambda>r. state r = RUNNING \<and> sel r \<and> active_owner_id r = Some owner \<and>
    active_lease_token_hash r = Some th \<and>
    (case lease_expires_at r of None \<Rightarrow> False | Some l \<Rightarrow> now < l)) (jobs c)")
  case (Some r)
  with assms find_in[OF Some] show ?thesis
    unfolding claim_selected_def by (auto elim!: result_elims intro: replay)
next
  case None
  show ?thesis
  proof (cases "first_by (\<lambda>r. (available_at r, created_at r, job_id r))
      (filter (\<lambda>r. state r = QUEUED \<and> sel r \<and> available_at r \<le> now) (jobs c))")
    case None': None
    with assms None have "j = None" "c' = c"
      unfolding claim_selected_def by (auto split: if_splits)
    with None' show ?thesis by (intro idle) (simp_all add: first_by_None)
  next
    case (Some q)
    with assms None have H: "sbind (assert_transition_time q now) (\<lambda>_.
       sbind (put_jobs c (upd_where (\<lambda>r. job_id r = job_id q \<and> state r = QUEUED)
         (claimed_row q owner th now until) (jobs c))) (\<lambda>c1.
       let c2 = append_event c1 (job_id q) CLAIMED (Some QUEUED) RUNNING now
         (attempt_count q + 1) (Some owner) None
       in sbind (visible_job c2 (job_id q)) (\<lambda>j. Inr (Some j, c2)))) = Inr (j, c')"
      unfolding claim_selected_def by (auto split: if_splits)
    show ?thesis
      using H unfolding Let_def by (elim result_elims) (auto simp: result_simps intro: moved[OF Some])
  qed
qed

lemma create_job_Inr:
  assumes "create_job c s = Inr (j, c')"
  obtains (replay) r where "r \<in> set (jobs c)" "kind r = spec_kind s"
      "deduplication_key r = spec_deduplication_key s" "job_from_row r = Inr j"
      "job_matches_spec j s" "c' = c"
  | (moved) objs c1 where
      "List.find (\<lambda>r. kind r = spec_kind s \<and> deduplication_key r = spec_deduplication_key s) (jobs c) = None"
      "spec_job_id s \<notin> job_id ` set (jobs c)"
      "register_objects (objects c) (spec_references s) = Inr objs"
      "put_jobs (c\<lparr>objects := objs\<rparr>) (jobs c @ [queued_row s]) = Inr c1"
      "c' = append_event c1 (spec_job_id s) ENQUEUED None QUEUED (spec_created_at s) 0 None None"
      "visible_job c' (spec_job_id s) = Inr j"
proof (cases "List.find (\<lambda>r. kind r = spec_kind s \<and>
    deduplication_key r = spec_deduplication_key s) (jobs c)")
  case None
  then show ?thesis
    using assms unfolding create_job_def Let_def
    by (simp, elim result_elims) (auto simp: list_ex_iff intro!: moved[OF None])
next
  case (Some r)
  with assms show ?thesis
    using find_in[OF Some] replay unfolding create_job_def
    by (auto elim!: result_elims)
qed

section \<open>Every operation keeps the invariant\<close>

lemmas row_defs = row_inv_def job_valid_def terminal_states_def

lemmas event_defs = job_event_valid_def failure_events_def row_inv_def job_valid_def

lemmas row_moves = completed_row_def renewed_row_def failed_row_def cancelled_queued_row_def
  cancel_requested_row_def cancelled_running_row_def recovered_row_def claimed_row_def

lemma required_row_inv:
  assumes "required_job_row c i = Inr row" "cat_inv c"
  shows "row_inv row" "job_id row = i"
  using required_job_row_Inr[OF assms(1)] cat_inv_row[OF assms(2)] by simp_all

lemma move_inv:
  assumes "cat_inv c" "row \<in> set (jobs c)" "job_id row = i"
    and "put_jobs c (upd_where (\<lambda>x. job_id x = i \<and> P x) f (jobs c)) = Inr c1" "P row"
    and "job_id (f row) = i" "row_inv (f row)" "state row = s" "state (f row) = t"
    and "\<And>n. 1 \<le> n \<Longrightarrow> job_event_valid \<lparr>ev_job = i, ev_sequence = n, ev_type = ty,
          ev_from = Some s, ev_to = t, ev_at = at, ev_attempt = att,
          ev_owner = own, ev_failure = failure\<rparr>"
    and "attempt_count (f row) = attempt_count row + (if ty = CLAIMED then 1 else 0)"
  shows "cat_inv (append_event c1 i ty (Some s) t at att own failure)"
  using job_move_inv[OF assms(1,2), of P f c1 ty at att own failure] assms by simp

lemma complete_job_inv:
  assumes "complete_job H c i owner tok er now = Inr (j, c')" "cat_inv c"
  shows "cat_inv c'"
  using assms(1)
proof (cases rule: complete_job_Inr)
  case (moved row c1)
  note row = required_job_row_Inr[OF moved(1)] required_row_inv(1)[OF moved(1) assms(2)]
  note lease = assert_active_lease_Inr[OF moved(2)]
  have "cat_inv (append_event c1 i COMPLETED (Some RUNNING) SUCCEEDED now (attempt_count row)
      (Some owner) None)"
    by (rule move_inv[OF assms(2) row(1,2) moved(5)])
      (use row lease moved(3,4) in \<open>auto simp: row_moves row_defs event_defs split: option.splits\<close>)
  then show ?thesis using outcome_inv[OF moved(6)] by simp
qed (use assms(2) in simp)

lemma renew_job_inv:
  assumes "renew_job H c i owner tok er now until = Inr (j, c')" "cat_inv c"
  shows "cat_inv c'"
  using assms(1)
proof (cases rule: renew_job_Inr)
  case (moved row c1)
  note row = required_job_row_Inr[OF moved(1)] required_row_inv(1)[OF moved(1) assms(2)]
  note lease = assert_active_lease_Inr[OF moved(2)]
  show ?thesis unfolding moved(7)
    by (rule move_inv[OF assms(2) row(1,2) moved(6)])
      (use row lease moved in \<open>auto simp: row_moves row_defs event_defs split: option.splits\<close>)
qed (use assms(2) in simp)

lemma fail_job_inv:
  assumes "fail_job H c i owner tok er now rt code ra = Inr (j, c')" "cat_inv c"
  shows "cat_inv c'"
  using assms(1)
proof (cases rule: fail_job_Inr)
  case (moved row c1 again retry)
  note row = required_job_row_Inr[OF moved(1)] required_row_inv(1)[OF moved(1) assms(2)]
  note lease = assert_active_lease_Inr[OF moved(5)]
  have "cat_inv (append_event c1 i (if again then RETRY_QUEUED else EV_FAILED)
      (Some RUNNING) (if again then QUEUED else FAILED) now (attempt_count row) (Some owner) (Some code))"
    by (rule move_inv[OF assms(2) row(1,2) moved(9)])
      (use row lease moved(2-8) in \<open>auto simp: row_moves row_defs event_defs split: option.splits\<close>)
  then show ?thesis using outcome_inv[OF moved(10)] by simp
qed (use assms(2) in simp)

lemma request_job_cancellation_inv:
  assumes "request_job_cancellation c i now = Inr (j, c')" "cat_inv c"
  shows "cat_inv c'"
  using assms(1)
proof (cases rule: request_job_cancellation_Inr)
  case (queued row c1)
  note row = required_job_row_Inr[OF queued(1)] required_row_inv(1)[OF queued(1) assms(2)]
  have "cat_inv (append_event c1 i EV_CANCELLED (Some QUEUED) CANCELLED now (attempt_count row) None None)"
    by (rule move_inv[OF assms(2) row(1,2) queued(4)])
      (use row queued(2,3) in \<open>auto simp: row_moves row_defs event_defs split: option.splits\<close>)
  then show ?thesis using outcome_inv[OF queued(5)] by simp
next
  case (running row c1)
  note row = required_job_row_Inr[OF running(1)] required_row_inv(1)[OF running(1) assms(2)]
  show ?thesis unfolding running(6)
    by (rule move_inv[OF assms(2) row(1,2) running(5)])
      (use row running(2-4) in \<open>auto simp: row_moves row_defs event_defs split: option.splits\<close>)
qed (use assms(2) in simp)

lemma acknowledge_job_cancellation_inv:
  assumes "acknowledge_job_cancellation H c i owner tok er now = Inr (j, c')" "cat_inv c"
  shows "cat_inv c'"
  using assms(1)
proof (cases rule: acknowledge_job_cancellation_Inr)
  case (moved row c1)
  note row = required_job_row_Inr[OF moved(1)] required_row_inv(1)[OF moved(1) assms(2)]
  note lease = assert_active_lease_Inr[OF moved(2)]
  have "cat_inv (append_event c1 i EV_CANCELLED (Some RUNNING) CANCELLED now (attempt_count row)
      (Some owner) None)"
    by (rule move_inv[OF assms(2) row(1,2) moved(6)])
      (use row lease moved(3-5) in \<open>auto simp: row_moves row_defs event_defs split: option.splits\<close>)
  then show ?thesis using outcome_inv[OF moved(7)] by simp
qed (use assms(2) in simp)

lemma claim_selected_inv:
  assumes "claim_selected sel c owner th now until = Inr (j, c')" "cat_inv c"
    and "length_between 1 255 owner" "now < until"
  shows "cat_inv c'"
  using assms(1)
proof (cases rule: claim_selected_Inr)
  case (moved q c1 j')
  have row: "q \<in> set (jobs c)" "state q = QUEUED" using first_by_in[OF moved(1)] by simp_all
  then have ri: "row_inv q" using cat_inv_row[OF assms(2)] by simp
  show ?thesis unfolding moved(4)
    by (rule move_inv[OF assms(2) row(1) refl moved(3)])
      (use row ri moved(2) assms(3,4) in \<open>auto simp: row_moves row_defs event_defs split: option.splits\<close>)
qed (use assms(2) in simp_all)

lemma claim_job_inv:
  assumes "claim_job H c k owner tok now until = Inr (j, c')" "cat_inv c"
  shows "cat_inv c'"
  using assms unfolding claim_job_def
  by (elim result_elims) (auto simp: result_simps elim: claim_selected_inv)

lemma claim_watch_job_inv:
  assumes "claim_watch_job H c root owner tok now until = Inr (j, c')" "cat_inv c"
  shows "cat_inv c'"
  using assms unfolding claim_watch_job_def
  by (elim result_elims) (auto simp: result_simps elim: claim_selected_inv)

lemma lease_expired_row:
  assumes "row_inv r" "lease_expired now r"
  shows "created_at r \<le> now" "state r = RUNNING"
  using assms by (auto simp: lease_expired_def row_inv_def split: option.splits)

lemma recovery_row_inv:
  assumes "row_inv r" "lease_expired now r" "recovery_outcome r = (st, ty, failure)"
  shows "row_inv (recovered_row r st failure now r)"
    and "1 \<le> n \<Longrightarrow> job_event_valid \<lparr>ev_job = i, ev_sequence = n, ev_type = ty,
       ev_from = Some RUNNING, ev_to = st, ev_at = now, ev_attempt = attempt_count r,
       ev_owner = active_owner_id r, ev_failure = failure\<rparr>"
    and "ty \<noteq> CLAIMED" "state (recovered_row r st failure now r) = st"
  using assms lease_expired_row[OF assms(1,2)]
  by (auto simp: recovery_outcome_def row_defs event_defs recovered_row_def machine_token_def
      lower_ascii_def digit_ascii_def str_simps split: if_splits option.splits)

lemma recover_row_inv:
  assumes "recover_row now c row = Inr c'" "cat_inv c" "row \<in> set (jobs c)" "lease_expired now row"
  shows "cat_inv c'"
  using assms(1)
proof (cases rule: recover_row_Inr)
  case (1 st ty failure c1)
  have ri: "row_inv row" using cat_inv_row[OF assms(2,3)] by simp
  note rr = recovery_row_inv[OF ri assms(4) 1(1)]
  have "cat_inv (append_event c1 (job_id row) ty (Some RUNNING) st now
         (attempt_count row) (active_owner_id row) failure)"
    by (rule move_inv[OF assms(2,3) refl 1(2)])
      (use assms(4) rr lease_expired_row[OF ri assms(4)] in \<open>auto simp: recovered_row_def\<close>)
  then show ?thesis using outcome_inv[OF 1(3)] by simp
qed

lemma recover_row_jobs:
  assumes "recover_row now c row = Inr c'"
  shows "jobs c' = upd_where (\<lambda>r. job_id r = job_id row \<and> lease_expired now r)
    (case recovery_outcome row of (st, ty, failure) \<Rightarrow> recovered_row row st failure now) (jobs c)"
  using assms
  by (cases rule: recover_row_Inr) (auto simp: put_jobs_Inr dest!: outcome_fields(1))

lemma recover_rows_inv:
  assumes "recover_rows now rs c = Inr c'" "cat_inv c" "set rs \<subseteq> set (jobs c)"
    and "list_all (lease_expired now) rs" "distinct (map job_id rs)"
  shows "cat_inv c'"
  using assms
proof (induction rs arbitrary: c)
  case (Cons r rs)
  from Cons.prems(1) obtain c1 where c1: "recover_row now c r = Inr c1" "recover_rows now rs c1 = Inr c'"
    by (auto elim: result_elims)
  have "set rs \<subseteq> set (jobs c1)"
  proof
    fix x assume x: "x \<in> set rs"
    then have "job_id x \<noteq> job_id r" "x \<in> set (jobs c)"
      using Cons.prems by (auto simp: rev_image_eqI)
    then show "x \<in> set (jobs c1)"
      unfolding recover_row_jobs[OF c1(1)] set_upd_where by (auto intro: rev_image_eqI)
  qed
  then show ?case
    using Cons c1 recover_row_inv[OF c1(1)] by auto
qed simp

lemma recover_expired_jobs_inv:
  assumes "recover_expired_jobs c now = Inr (res, c')" "cat_inv c"
  shows "cat_inv c'"
proof -
  let ?rs = "sort_key job_id (filter (lease_expired now) (jobs c))"
  have "recover_rows now ?rs c = Inr c'"
    using assms(1) unfolding recover_expired_jobs_def Let_def by (elim result_elims) simp
  moreover have "distinct (map job_id ?rs)"
    using cat_inv_distinct[OF assms(2)] by (simp add: distinct_map_filter)
  ultimately show ?thesis
    using recover_rows_inv[OF _ assms(2), of now ?rs c'] by (auto simp: list_all_iff)
qed

lemma queued_row_inv:
  assumes "job_spec_valid s"
  shows "row_inv (queued_row s)"
proof -
  have "unique_reference_slots (canonical_references (spec_references s)) \<longleftrightarrow>
      unique_reference_slots (spec_references s)"
    unfolding unique_reference_slots_distinct canonical_references_def
    by (rule distinct_map_sort_key)
  then show ?thesis using assms
    by (auto simp: queued_row_def row_defs job_spec_valid_def canonical_references_def list_all_iff
        split: option.splits)
qed

text \<open>Appending a queued row with its \<open>ENQUEUED\<close> event, shared with \<open>create_job\<close>.\<close>

lemma enqueue_inv:
  assumes put: "put_jobs c (jobs c @ [r]) = Inr c1" and inv: "cat_inv c"
    and r: "row_inv r" "state r = QUEUED" "attempt_count r = 0"
  shows "cat_inv (append_event c1 (job_id r) ENQUEUED None QUEUED at 0 None None)" (is "cat_inv ?c")
    and "job_id r \<notin> job_id ` set (jobs c)"
proof -
  from put have con: "jobs_constraints (jobs c @ [r])" and c1: "c1 = c\<lparr>jobs := jobs c @ [r]\<rparr>"
    by (auto simp: put_jobs_Inr)
  show fresh: "job_id r \<notin> job_id ` set (jobs c)"
    using con by (auto simp: jobs_constraints_def)
  have empty: "log c (job_id r) = []"
    using fresh inv unfolding log_def cat_inv_def filter_empty_conv by metis
  have logs: "log c1 j = log c j" for j by (simp add: c1 log_def)
  have new: "log_ok (log ?c (job_id r)) r"
    by (simp add: log_append_event logs empty log_ok_def r claims_def next_sequence_def event_defs)
  have old: "log_ok (log ?c (job_id x)) x" if "x \<in> set (jobs c)" for x
  proof -
    have "job_id x \<noteq> job_id r" using that fresh by (metis imageI)
    then show ?thesis using cat_inv_row(3)[OF inv that] by (simp add: log_append_event logs)
  qed
  show "cat_inv ?c"
    using con inv new old r(1) by (auto simp: cat_inv_def c1 append_event_def)
qed

lemma create_job_inv:
  assumes "create_job c s = Inr (j, c')" "cat_inv c" "job_spec_valid s"
  shows "cat_inv c'"
  using assms(1)
proof (cases rule: create_job_Inr)
  case (moved objs c1)
  have id: "job_id (queued_row s) = spec_job_id s" by (simp add: queued_row_def)
  have "cat_inv (c\<lparr>objects := objs\<rparr>)" using assms(2) by (simp add: cat_inv_def log_def)
  moreover have "put_jobs (c\<lparr>objects := objs\<rparr>) (jobs (c\<lparr>objects := objs\<rparr>) @ [queued_row s]) = Inr c1"
    using moved(4) by simp
  ultimately show ?thesis
    using enqueue_inv(1)[of "c\<lparr>objects := objs\<rparr>" "queued_row s" c1 "spec_created_at s"]
      queued_row_inv[OF assms(3)]
    by (simp add: moved(5) id) (simp add: queued_row_def)
qed (use assms(2) in simp)

end
