(* ===== verification/Watch_Invariant.thy ===== *)
theory Watch_Invariant
  imports Watch_Catalog Job_Invariant
begin

text \<open>
  What the watcher transactions do to the job tables: \<open>grows c c'\<close> says that a part of a
  transaction keeps the catalog invariant, only appends freshly queued rows to the jobs table and
  loses no watch root.  It is reflexive and transitive, so each loop of the reconciliation is an
  induction.
\<close>

definition root_ids :: "catalog \<Rightarrow> pystr set" where
  "root_ids c = (\<lambda>w. root_id (authority w)) ` set (watch_roots c)"

definition grows :: "catalog \<Rightarrow> catalog \<Rightarrow> bool" where
  "grows c c' \<longleftrightarrow> (cat_inv c \<longrightarrow> cat_inv c') \<and> root_ids c \<subseteq> root_ids c' \<and>
     (\<exists>new. jobs c' = jobs c @ new \<and>
        (\<forall>r\<in>set new. state r = QUEUED \<and> job_id r \<notin> job_id ` set (jobs c)))"

named_theorems grow_intros

lemma grows_refl [simp, grow_intros]: "grows c c"
  by (simp add: grows_def)

lemma grows_trans [trans]:
  assumes "grows a b" "grows b c"
  shows "grows a c"
proof -
  from assms obtain n1 n2 where "jobs b = jobs a @ n1" "jobs c = jobs b @ n2"
    "\<forall>r\<in>set n1. state r = QUEUED \<and> job_id r \<notin> job_id ` set (jobs a)"
    "\<forall>r\<in>set n2. state r = QUEUED \<and> job_id r \<notin> job_id ` set (jobs b)"
    unfolding grows_def by blast
  moreover from this have "jobs c = jobs a @ (n1 @ n2)"
    "\<forall>r\<in>set (n1 @ n2). state r = QUEUED \<and> job_id r \<notin> job_id ` set (jobs a)"
    by auto
  ultimately show ?thesis using assms unfolding grows_def by blast
qed

lemma grows_frame:
  assumes "jobs c' = jobs c" "job_events c' = job_events c" "targets c' = targets c"
    and "root_ids c \<subseteq> root_ids c'"
  shows "grows c c'"
  using assms by (auto simp: grows_def cat_inv_def log_def root_ids_def)

lemma grows_append_watch_event [grow_intros]: "grows c (append_watch_event c r ty g at d j e s t)"
  by (rule grows_frame) (simp_all add: root_ids_def)

lemma grows_write_observation: "write_watch_observation c b = Inr c' \<Longrightarrow> grows c c'"
  by (rule grows_frame) (auto simp: write_watch_observation_def root_ids_def Let_def split: if_splits)

lemma grows_update_watch_root:
  assumes "\<And>w. authority (f w) = authority w"
  shows "grows c (update_watch_root c root f)"
proof -
  have "root_ids (update_watch_root c root f) =
      set (map (\<lambda>w. root_id (authority w)) (upd_where (\<lambda>w. root_id (authority w) = root) f (watch_roots c)))"
    by (simp add: root_ids_def update_watch_root_def)
  also have "\<dots> = root_ids c"
    by (subst map_upd_where) (simp_all add: assms root_ids_def)
  finally show ?thesis by (intro grows_frame) (simp_all add: update_watch_root_def)
qed

lemma grows_fold_events: "grows c (append_watch_rename_hints c root hints gen now)"
  unfolding append_watch_rename_hints_def
proof (induction hints arbitrary: c)
  case (Cons d ds)
  show ?case
    using grows_trans[OF grows_append_watch_event Cons.IH] by simp
qed simp

section \<open>Scheduling\<close>

lemma watch_job_row_inv: "row_check (watch_job_row i key n t) \<Longrightarrow> row_inv (watch_job_row i key n t)"
  by (auto simp: watch_job_row_def row_check_def row_defs machine_token_def lower_ascii_def
      digit_ascii_def str_simps unique_reference_slots_def)

lemma watch_job_in_catalog_Inr:
  assumes "watch_job_in_catalog c i key n t = Inr (r, c')"
  obtains (found) "r \<in> set (jobs c)" "c' = c"
  | (queued) "r \<in> set (jobs c')" "job_id r = i" "row_check (watch_job_row i key n t)"
      "put_jobs c (jobs c @ [watch_job_row i key n t]) = Inr (c\<lparr>jobs := jobs c @ [watch_job_row i key n t]\<rparr>)"
      "c' = append_event (c\<lparr>jobs := jobs c @ [watch_job_row i key n t]\<rparr>) i ENQUEUED None QUEUED t 0 None None"
proof (cases "List.find (\<lambda>r. kind r = U ''watch_ingest'' \<and> deduplication_key r = key) (jobs c)")
  case (Some x)
  then have "x = r" "c' = c" using assms by (simp_all add: watch_job_in_catalog_def)
  with find_in[OF Some] show ?thesis by (intro found) simp_all
next
  case None
  let ?r = "watch_job_row i key n t"
  let ?c = "append_event (c\<lparr>jobs := jobs c @ [?r]\<rparr>) i ENQUEUED None QUEUED t 0 None None"
  note run = assms[unfolded watch_job_in_catalog_def None option.case Let_def]
  from run obtain c1 where put: "put_jobs c (jobs c @ [?r]) = Inr c1"
    and rest: "sbind (required_job_row (append_event c1 i ENQUEUED None QUEUED t 0 None None) i)
      (\<lambda>r. Inr (r, append_event c1 i ENQUEUED None QUEUED t 0 None None)) = Inr (r, c')"
    by (rule sbind_InrE)
  from put have con: "jobs_constraints (jobs c @ [?r])" and c1: "c1 = c\<lparr>jobs := jobs c @ [?r]\<rparr>"
    by (simp_all add: put_jobs_Inr)
  from rest have row: "required_job_row ?c i = Inr r" and c': "c' = ?c"
    by (auto simp: c1 elim: result_elims)
  from con have "row_check ?r" by (simp add: jobs_constraints_def)
  with put required_job_row_Inr[OF row] show ?thesis
    by (intro queued) (simp_all add: c' c1)
qed

lemma grows_watch_job_in_catalog:
  assumes "watch_job_in_catalog c i key n t = Inr (r, c')"
  shows "grows c c'"
  using assms
proof (cases rule: watch_job_in_catalog_Inr)
  case queued
  let ?r = "watch_job_row i key n t"
  have r: "state ?r = QUEUED" "attempt_count ?r = 0" "job_id ?r = i"
    by (simp_all add: watch_job_row_def)
  from enqueue_inv(1)[OF queued(4) _ watch_job_row_inv[OF queued(3)] r(1,2), of t]
  have "cat_inv c \<longrightarrow> cat_inv c'" by (simp add: queued(5) r(3))
  moreover have "i \<notin> job_id ` set (jobs c)"
    using queued(4) r(3) by (auto simp: put_jobs_Inr jobs_constraints_def)
  ultimately show ?thesis
    using r by (auto simp: grows_def queued(5) root_ids_def)
qed simp

lemma watch_job_in_catalog_row:
  assumes "watch_job_in_catalog c i key n t = Inr (r, c')"
  shows "r \<in> set (jobs c')" "targets c' = targets c"
  using assms by (cases rule: watch_job_in_catalog_Inr; simp)+

lemma create_watch_job_and_target_Inr:
  assumes "create_watch_job_and_target cs c i root e pf key n t = Inr (j, c')"
  obtains (reused) r where "watch_job_in_catalog c i key n t = Inr (r, c')" "job_from_row r = Inr j"
      "job_id j = i" "List.find (\<lambda>x. tgt_job x = i) (targets c') = Some
         \<lparr>tgt_job = i, tgt_root = root, tgt_locator = entry_locator e, tgt_digest = entry_digest e,
          tgt_fingerprint = entry_fingerprint e, tgt_profile = pf, tgt_key = key, tgt_created_at = t\<rparr>"
  | (new) r c1 where "watch_job_in_catalog c i key n t = Inr (r, c1)" "job_from_row r = Inr j" "job_id j = i"
      "List.find (\<lambda>x. tgt_job x = i) (targets c1) = None"
      "c' = c1\<lparr>targets := targets c1 @
         [\<lparr>tgt_job = i, tgt_root = root, tgt_locator = entry_locator e, tgt_digest = entry_digest e,
           tgt_fingerprint = entry_fingerprint e, tgt_profile = pf, tgt_key = key, tgt_created_at = t\<rparr>]\<rparr>"
proof -
  from assms obtain r c1 where c1: "watch_job_in_catalog c i key n t = Inr (r, c1)"
    unfolding create_watch_job_and_target_def by (auto elim!: result_elims)
  show ?thesis
  proof (cases "List.find (\<lambda>x. tgt_job x = i) (targets c1)")
    case None
    have f: "job_from_row r = Inr j" "job_id j = i"
      "c' = c1\<lparr>targets := targets c1 @
         [\<lparr>tgt_job = i, tgt_root = root, tgt_locator = entry_locator e, tgt_digest = entry_digest e,
           tgt_fingerprint = entry_fingerprint e, tgt_profile = pf, tgt_key = key, tgt_created_at = t\<rparr>]\<rparr>"
      using assms c1 None unfolding create_watch_job_and_target_def Let_def
      by (auto elim!: result_elims)
    show ?thesis by (rule new[OF c1 f(1,2) None f(3)])
  next
    case (Some x)
    then show ?thesis
      using assms c1 unfolding create_watch_job_and_target_def Let_def target_from_row_def
      by (auto elim!: result_elims intro!: reused)
  qed
qed

lemma grows_create_watch_job_and_target:
  assumes "create_watch_job_and_target cs c i root e pf key n t = Inr (j, c')" "root \<in> root_ids c"
  shows "grows c c'"
  using assms(1)
proof (cases rule: create_watch_job_and_target_Inr)
  case (reused r)
  then show ?thesis by (auto intro: grows_watch_job_in_catalog)
next
  case (new r c1)
  have g: "grows c c1" by (rule grows_watch_job_in_catalog[OF new(1)])
  then have "root \<in> root_ids c1" using assms(2) by (auto simp: grows_def)
  moreover have "i \<in> job_id ` set (jobs c1)"
    using watch_job_in_catalog_row(1)[OF new(1)] new(2,3)
    by (auto simp: job_from_row_def job.truncate_def split: if_splits)
  moreover have "i \<notin> tgt_job ` set (targets c1)"
    using new(4) by (auto simp: find_None_iff)
  ultimately have "grows c1 c'"
    unfolding new(5) by (auto simp: grows_def cat_inv_def log_def root_ids_def)
  with g show ?thesis by (rule grows_trans)
qed

lemma schedule_Inr:
  assumes "schedule_stable_watch_entry cs uid root e b config gen now (c, pr) = Inr (c', pr')"
  obtains (same) "c' = c" "pr' = pr"
      "last_scheduled_key b = Some (watch_job_key cs root (entry_digest e) (entry_fingerprint e) (parser_profile_for config e))"
  | (full) "c' = c" "pr' = pr\<lparr>backpressure := True\<rparr>" "max_active_jobs config \<le> active_count pr"
  | (new) j c1 c2 key where
      "key = watch_job_key cs root (entry_digest e) (entry_fingerprint e) (parser_profile_for config e)"
      "active_count pr < max_active_jobs config"
      "create_watch_job_and_target cs c (uid key) root e (parser_profile_for config e) key
         (cfg_max_attempts config) now = Inr (j, c1)"
      "write_watch_observation c1 (b\<lparr>last_scheduled_key := Some key\<rparr>) = Inr c2"
      "c' = append_watch_event c2 root TARGET_SCHEDULED gen now (Some (entry_digest e)) (Some (job_id j)) 0 1 0"
      "pr' = pr\<lparr>scheduled := scheduled pr @ [job_id j], active_count := active_count pr + 1\<rparr>"
  using assms unfolding schedule_stable_watch_entry_def Let_def
  by (auto elim!: result_elims if_InrE split: prod.splits intro: same full new)

lemma grows_schedule:
  assumes "schedule_stable_watch_entry cs uid root e b config gen now (c, pr) = Inr (c', pr')"
    and "root \<in> root_ids c"
  shows "grows c c'"
  using assms(1)
proof (cases rule: schedule_Inr)
  case (new j c1 c2 key)
  have "grows c c1" by (rule grows_create_watch_job_and_target[OF new(3) assms(2)])
  also have "grows c1 c2" by (rule grows_write_observation[OF new(4)])
  also have "grows c2 c'" unfolding new(5) by (rule grows_append_watch_event)
  finally show ?thesis .
qed simp_all

section \<open>One entry, all entries, tombstones\<close>

definition entry_observation ::
  "pystr \<Rightarrow> scan_entry \<Rightarrow> transition \<Rightarrow> int \<Rightarrow> nat \<Rightarrow> observation" where
  "entry_observation root e tr at gen =
     \<lparr>obs_root = root, obs_locator = entry_locator e, obs_digest = entry_digest e,
      obs_state = tr_state tr, obs_fingerprint = Some (entry_fingerprint e),
      first_observed_at = tr_first tr, last_observed_at = at,
      stable_since = tr_stable_since tr, last_generation = gen,
      last_scheduled_key = tr_key tr, obs_revision = tr_revision tr\<rparr>"

lemma reconcile_watch_entry_Inr:
  assumes "reconcile_watch_entry cs uid root prev config at gen now e (c, pr) = Inr (c', pr')"
  obtains tr b c1 c2 where
      "tr = watch_entry_transition prev (entry_fingerprint e) config at"
      "b = entry_observation root e tr at gen" "observation_valid cs b"
      "write_watch_observation c b = Inr c1"
      "c2 = (case tr_event tr of None \<Rightarrow> c1
         | Some ev \<Rightarrow> append_watch_event c1 root ev gen now (Some (entry_digest e)) None 0 0 0)"
      "if tr_state tr = CANDIDATE then c' = c2 \<and> pr' = pr\<lparr>candidate_count := candidate_count pr + 1\<rparr>
       else schedule_stable_watch_entry cs uid root e b config gen now
         (c2, pr\<lparr>stable_count := stable_count pr + 1\<rparr>) = Inr (c', pr')"
proof -
  let ?tr = "watch_entry_transition prev (entry_fingerprint e) config at"
  have ok: "reconcile_watch_entry cs uid root prev config at gen now e (c, pr) = Inr (c', pr') \<Longrightarrow>
    sbind (make_watch_observation cs (entry_observation root e ?tr at gen)) (\<lambda>b.
        sbind (write_watch_observation c b) (\<lambda>c1.
        let c2 = (case tr_event ?tr of None \<Rightarrow> c1
                  | Some ev \<Rightarrow> append_watch_event c1 root ev gen now (Some (entry_digest e)) None 0 0 0)
        in if tr_state ?tr = CANDIDATE
           then Inr (c2, pr\<lparr>candidate_count := candidate_count pr + 1\<rparr>)
           else schedule_stable_watch_entry cs uid root e b config gen now
                  (c2, pr\<lparr>stable_count := stable_count pr + 1\<rparr>))) = Inr (c', pr')"
    by (cases prev; simp only: reconcile_watch_entry_def prod.case option.case sbind_simps
        Let_def[of ?tr] Let_def[of "watch_entry_transition (Some x) y z w" for x y z w] entry_observation_def)
       (auto simp: observation_from_row_def Let_def elim!: result_elims)
  show ?thesis
    using ok[OF assms] unfolding Let_def make_watch_observation_def
    by (elim result_elims) (rule that[of ?tr "entry_observation root e ?tr at gen"], auto split: if_splits)
qed

lemma grows_reconcile_watch_entry:
  assumes "reconcile_watch_entry cs uid root prev config at gen now e (c, pr) = Inr (c', pr')"
    and "root \<in> root_ids c"
  shows "grows c c'"
  using assms(1)
proof (cases rule: reconcile_watch_entry_Inr)
  case (1 tr b c1 c2)
  have "grows c c1" by (rule grows_write_observation[OF 1(4)])
  also have "grows c1 c2" unfolding 1(5) by (auto intro: grow_intros split: option.splits)
  finally have g: "grows c c2" .
  then have "root \<in> root_ids c2" using assms(2) by (auto simp: grows_def)
  then have "grows c2 c'" using 1(6) grows_schedule by (auto split: if_splits)
  with g show ?thesis by (rule grows_trans)
qed

lemma grows_reconcile_entries:
  assumes "reconcile_entries cs uid root existing config at gen now es (c, pr) = Inr (c', pr')"
    and "root \<in> root_ids c"
  shows "grows c c'"
  using assms
proof (induction es arbitrary: c pr)
  case (Cons e es)
  then obtain c1 pr1 where s: "reconcile_watch_entry cs uid root
      (List.find (\<lambda>b. obs_digest b = entry_digest e) existing) config at gen now e (c, pr) = Inr (c1, pr1)"
    "reconcile_entries cs uid root existing config at gen now es (c1, pr1) = Inr (c', pr')"
    by (auto elim!: result_elims)
  have g: "grows c c1" by (rule grows_reconcile_watch_entry[OF s(1) Cons.prems(2)])
  then have "root \<in> root_ids c1" using Cons.prems(2) by (auto simp: grows_def)
  from grows_trans[OF g Cons.IH[OF s(2) this]] show ?case .
qed simp

lemma grows_tombstone_missing:
  assumes "tombstone_missing cs root scanned at gen now rows (c, n) = Inr (c', n')"
  shows "grows c c'"
  using assms
proof (induction rows arbitrary: c n)
  case (Cons row rows)
  show ?case
  proof (cases "obs_digest row \<in> set scanned \<or> obs_state row = TOMBSTONED")
    case True
    with Cons show ?thesis by (auto simp: observation_from_row_def elim!: result_elims split: if_splits)
  next
    case False
    with Cons.prems obtain b c1 where s: "write_watch_observation c b = Inr c1"
      "tombstone_missing cs root scanned at gen now rows
         (append_watch_event c1 root WT_TOMBSTONED gen now (Some (obs_digest row)) None 0 0 1, n + 1) = Inr (c', n')"
      by (auto simp: observation_from_row_def elim!: result_elims split: if_splits)
    show ?thesis
      by (rule grows_trans[OF grows_write_observation[OF s(1)]
            grows_trans[OF grows_append_watch_event Cons.IH[OF s(2)]]])
  qed
qed simp

section \<open>The transactions\<close>

lemma grows_publish:
  assumes "publish_watch_reconciliation cs c root scan gen now pr = Inr (r, c')"
  shows "grows c c'"
  using assms unfolding publish_watch_reconciliation_def Let_def
  by (elim result_elims)
     (auto intro!: grows_trans[OF grows_update_watch_root grows_append_watch_event] elim!: result_elims)

lemma grows_record_incomplete:
  assumes "record_incomplete_watch_scan cs c root gen now = Inr (r, c')"
  shows "grows c c'"
  using assms unfolding record_incomplete_watch_scan_def Let_def
  by (elim result_elims)
     (auto intro!: grows_trans[OF grows_update_watch_root grows_append_watch_event] elim!: result_elims)

lemma reconcile_complete_Inr:
  assumes "reconcile_complete_watch_scan cs uid c root scan w gen now = Inr (r, c')"
  obtains hints c1 pr c2 n where
      "watch_rename_hints cs (filter (\<lambda>b. obs_root b = root) (observations c)) (scan_entries scan) = Inr hints"
      "reconcile_entries cs uid root (filter (\<lambda>b. obs_root b = root) (observations c))
         (root_config (authority w)) (scan_completed_at scan) gen now (scan_entries scan)
         (c, \<lparr>active_count = active_watch_job_count c root, candidate_count = 0, stable_count = 0,
              tombstone_count = 0, backpressure = False, scheduled = []\<rparr>) = Inr (c1, pr)"
      "tombstone_missing cs root (map entry_digest (scan_entries scan)) (scan_completed_at scan) gen now
         (sort_key obs_digest (filter (\<lambda>b. obs_root b = root) (observations c))) (c1, 0) = Inr (c2, n)"
      "publish_watch_reconciliation cs (append_watch_rename_hints c2 root hints gen now) root scan gen now
         (pr\<lparr>tombstone_count := n\<rparr>) = Inr (r, c')"
  using assms
  unfolding reconcile_complete_watch_scan_def tombstone_missing_watch_entries_def Let_def
  by (auto elim!: result_elims split: prod.splits simp: root_from_row_def
      intro!: that split: if_splits)

lemma grows_reconcile_watch_scan:
  assumes "reconcile_watch_scan cs uid c root scan now = Inr (r, c')"
  shows "grows c c'"
proof -
  from assms obtain w where w: "required_watch_root c root = Inr w"
    and cases: "record_incomplete_watch_scan cs c root (generation w) now = Inr (r, c') \<or>
      reconcile_complete_watch_scan cs uid c root scan w (generation w + 1) now = Inr (r, c')"
    unfolding reconcile_watch_scan_def by (auto elim!: result_elims if_InrE)
  have root: "root \<in> root_ids c"
    using w find_in by (fastforce simp: required_watch_root_def root_ids_def result_simps)
  show ?thesis
    using cases
  proof
    assume "reconcile_complete_watch_scan cs uid c root scan w (generation w + 1) now = Inr (r, c')"
    then show ?thesis
    proof (cases rule: reconcile_complete_Inr)
      case (1 hints c1 pr c2 n)
      show ?thesis
        by (rule grows_trans[OF grows_reconcile_entries[OF 1(2) root]
              grows_trans[OF grows_tombstone_missing[OF 1(3)]
                grows_trans[OF grows_fold_events grows_publish[OF 1(4)]]]])
    qed
  qed (rule grows_record_incomplete)
qed

lemma grows_register_watch_root:
  assumes "register_watch_root cs c root now = Inr (w, c')"
  shows "grows c c'"
proof (cases "List.find (\<lambda>w. root_id (authority w) = root_id root) (watch_roots c)")
  case (Some w)
  with assms show ?thesis unfolding register_watch_root_def by (auto elim!: result_elims)
next
  case None
  with assms show ?thesis unfolding register_watch_root_def Let_def
    by (auto elim!: result_elims intro!: grows_frame simp: root_ids_def)
qed

end
