(* ===== verification/Job_Steps.thy ===== *)
theory Job_Steps
  imports Watch_Invariant
begin

text \<open>
  The write operations of the job catalog and of the watcher as one step relation, the states reachable from an
  empty catalog, and the abstract machine they implement: a job is absent or in one of five
  states and moves along \<open>lifecycle_step\<close>.  The lemmas reduce every operation to what it does to
  the rows (\<open>rows_step\<close>).
\<close>

section \<open>Steps and reachable catalogs\<close>

inductive job_step ::
  "(pystr \<Rightarrow> pystr) \<Rightarrow> (json \<Rightarrow> pystr) \<Rightarrow> (pystr \<Rightarrow> pystr) \<Rightarrow> catalog \<Rightarrow> catalog \<Rightarrow> bool"
  for H cs uid where
  create: "job_spec_valid s \<Longrightarrow> create_job c s = Inr (j, c') \<Longrightarrow> job_step H cs uid c c'"
| claim: "claim_job H c k owner tok now until = Inr (oj, c') \<Longrightarrow> job_step H cs uid c c'"
| claim_watch: "claim_watch_job H c root owner tok now until = Inr (oj, c') \<Longrightarrow> job_step H cs uid c c'"
| renew: "renew_job H c i owner tok er now until = Inr (j, c') \<Longrightarrow> job_step H cs uid c c'"
| complete: "complete_job H c i owner tok er now = Inr (j, c') \<Longrightarrow> job_step H cs uid c c'"
| fail: "fail_job H c i owner tok er now rt code ra = Inr (j, c') \<Longrightarrow> job_step H cs uid c c'"
| cancel: "request_job_cancellation c i now = Inr (j, c') \<Longrightarrow> job_step H cs uid c c'"
| acknowledge: "acknowledge_job_cancellation H c i owner tok er now = Inr (j, c') \<Longrightarrow> job_step H cs uid c c'"
| recover: "recover_expired_jobs c now = Inr (res, c') \<Longrightarrow> job_step H cs uid c c'"
| register: "register_watch_root cs c root now = Inr (w, c') \<Longrightarrow> job_step H cs uid c c'"
| reconcile: "reconcile_watch_scan cs uid c rt scan now = Inr (rc, c') \<Longrightarrow> job_step H cs uid c c'"

definition empty_catalog :: catalog where
  "empty_catalog = \<lparr>jobs = [], job_events = [], objects = [], watch_roots = [], observations = [],
     targets = [], watch_events = [], maintenance_active = False\<rparr>"

inductive job_reachable ::
  "(pystr \<Rightarrow> pystr) \<Rightarrow> (json \<Rightarrow> pystr) \<Rightarrow> (pystr \<Rightarrow> pystr) \<Rightarrow> catalog \<Rightarrow> bool"
  for H cs uid where
  start: "job_reachable H cs uid empty_catalog"
| step: "job_reachable H cs uid c \<Longrightarrow> job_step H cs uid c c' \<Longrightarrow> job_reachable H cs uid c'"

lemmas op_invs = create_job_inv claim_job_inv claim_watch_job_inv renew_job_inv complete_job_inv
  fail_job_inv request_job_cancellation_inv acknowledge_job_cancellation_inv recover_expired_jobs_inv

lemma grows_inv: "grows c c' \<Longrightarrow> cat_inv c \<Longrightarrow> cat_inv c'"
  by (simp add: grows_def)

lemma job_step_inv: "job_step H cs uid c c' \<Longrightarrow> cat_inv c \<Longrightarrow> cat_inv c'"
  by (induction rule: job_step.induct) (auto elim: op_invs grows_inv[OF grows_register_watch_root]
      grows_inv[OF grows_reconcile_watch_scan])

lemma empty_catalog_inv: "cat_inv empty_catalog"
  by (simp add: cat_inv_def empty_catalog_def jobs_constraints_def active_tokens_def map_filter_simps)

lemma job_reachable_inv: "job_reachable H cs uid c \<Longrightarrow> cat_inv c"
  by (induction rule: job_reachable.induct) (auto intro: empty_catalog_inv job_step_inv)

section \<open>What a step does to the rows\<close>

definition row_step :: "job_row \<Rightarrow> job_row \<Rightarrow> bool" where
  "row_step r r' \<longleftrightarrow> r' = r \<or>
     lifecycle_step (Some (state r)) (state r') \<and> revision r' = revision r + 1 \<and>
     job_id r' = job_id r \<and> kind r' = kind r \<and> deduplication_key r' = deduplication_key r \<and>
     max_attempts r' = max_attempts r \<and> created_at r' = created_at r \<and>
     references r' = references r"

definition rows_step :: "job_row list \<Rightarrow> job_row list \<Rightarrow> bool" where
  "rows_step rs rs' \<longleftrightarrow> (\<exists>f new. rs' = map f rs @ new \<and> (\<forall>r\<in>set rs. row_step r (f r)) \<and>
     (\<forall>r\<in>set new. state r = QUEUED \<and> job_id r \<notin> job_id ` set rs))"

lemma rows_step_refl: "rows_step rs rs"
  unfolding rows_step_def by (rule exI[of _ id], rule exI[of _ "[]"]) (simp add: row_step_def)

lemma upd_where_row:
  assumes "distinct (map job_id rs)" "row \<in> set rs" "job_id row = i" "P row"
  shows "upd_where (\<lambda>x. job_id x = i \<and> P x) f rs = map (\<lambda>x. if x = row then f row else x) rs"
proof (unfold upd_where_def, rule map_cong[OF refl])
  fix x assume "x \<in> set rs"
  then show "(if job_id x = i \<and> P x then f x else x) = (if x = row then f row else x)"
    using assms(3,4) same_row[OF assms(1,2), of x] by (cases "x = row") auto
qed

lemma put_row_step:
  assumes "put_jobs c (upd_where (\<lambda>x. job_id x = i \<and> P x) f (jobs c)) = Inr c1" "cat_inv c"
    and "row \<in> set (jobs c)" "job_id row = i" "P row" "row_step row (f row)" "jobs c' = jobs c1"
  shows "rows_step (jobs c) (jobs c')"
proof -
  have "jobs c' = map (\<lambda>x. if x = row then f row else x) (jobs c)"
    using assms(1,7) upd_where_row[of "jobs c" row i P f] cat_inv_distinct[OF assms(2)] assms(3-5)
    by (simp add: put_jobs_Inr)
  then show ?thesis
    unfolding rows_step_def
    by (intro exI[of _ "\<lambda>x. if x = row then f row else x"] exI[of _ "[]"])
       (use assms(6) in \<open>auto simp: row_step_def\<close>)
qed

lemma create_rows:
  assumes "create_job c s = Inr (j, c')"
  shows "rows_step (jobs c) (jobs c')"
  using assms
proof (cases rule: create_job_Inr)
  case (moved objs c1)
  then have "jobs c' = map id (jobs c) @ [queued_row s]" by (auto simp: put_jobs_Inr)
  then show ?thesis
    unfolding rows_step_def
    by (intro exI[of _ id] exI[of _ "[queued_row s]"])
       (use moved(2) in \<open>auto simp: row_step_def queued_row_def\<close>)
qed (auto simp: rows_step_refl)

lemma claim_selected_rows:
  assumes "claim_selected sel c owner th now until = Inr (j, c')" "cat_inv c"
  shows "rows_step (jobs c) (jobs c')"
  using assms(1)
proof (cases rule: claim_selected_Inr)
  case (moved q c1 j')
  have "q \<in> set (jobs c)" "state q = QUEUED" using first_by_in[OF moved(1)] by simp_all
  then show ?thesis
    by (intro put_row_step[OF moved(3) assms(2)])
       (auto simp: row_step_def claimed_row_def moved(4) intro: lifecycle_step.intros)
qed (simp_all add: rows_step_refl)

lemma renew_rows:
  assumes "renew_job H c i owner tok er now until = Inr (j, c')" "cat_inv c"
  shows "rows_step (jobs c) (jobs c')"
  using assms(1)
proof (cases rule: renew_job_Inr)
  case (moved row c1)
  note lease = assert_active_lease_Inr[OF moved(2)]
  show ?thesis
    by (rule put_row_step[OF moved(6) assms(2) required_job_row_Inr[OF moved(1)]])
       (use lease moved(3,7) in \<open>auto simp: row_step_def renewed_row_def intro: lifecycle_step.intros\<close>)
qed (simp add: rows_step_refl)

lemma complete_rows:
  assumes "complete_job H c i owner tok er now = Inr (j, c')" "cat_inv c"
  shows "rows_step (jobs c) (jobs c')"
  using assms(1)
proof (cases rule: complete_job_Inr)
  case (moved row c1)
  note lease = assert_active_lease_Inr[OF moved(2)]
  show ?thesis
    by (rule put_row_step[OF moved(5) assms(2) required_job_row_Inr[OF moved(1)]])
       (use lease outcome_fields(1)[OF moved(6)] in
         \<open>auto simp: row_step_def completed_row_def terminal_states_def intro: lifecycle_step.intros\<close>)
qed (simp add: rows_step_refl)

lemma fail_rows:
  assumes "fail_job H c i owner tok er now rt code ra = Inr (j, c')" "cat_inv c"
  shows "rows_step (jobs c) (jobs c')"
  using assms(1)
proof (cases rule: fail_job_Inr)
  case (moved row c1 again retry)
  note lease = assert_active_lease_Inr[OF moved(5)]
  show ?thesis
    by (rule put_row_step[OF moved(9) assms(2) required_job_row_Inr[OF moved(1)]])
       (use lease outcome_fields(1)[OF moved(10)] in
         \<open>auto simp: row_step_def failed_row_def terminal_states_def intro: lifecycle_step.intros\<close>)
qed (simp add: rows_step_refl)

lemma cancel_rows:
  assumes "request_job_cancellation c i now = Inr (j, c')" "cat_inv c"
  shows "rows_step (jobs c) (jobs c')"
  using assms(1)
proof (cases rule: request_job_cancellation_Inr)
  case (queued row c1)
  show ?thesis
    by (rule put_row_step[OF queued(4) assms(2) required_job_row_Inr[OF queued(1)]])
       (use queued(2) outcome_fields(1)[OF queued(5)] in
         \<open>auto simp: row_step_def cancelled_queued_row_def intro: lifecycle_step.intros\<close>)
next
  case (running row c1)
  show ?thesis
    by (rule put_row_step[OF running(5) assms(2) required_job_row_Inr[OF running(1)]])
       (use running(2,4,6) in
         \<open>auto simp: row_step_def cancel_requested_row_def intro: lifecycle_step.intros\<close>)
qed (simp add: rows_step_refl)

lemma acknowledge_rows:
  assumes "acknowledge_job_cancellation H c i owner tok er now = Inr (j, c')" "cat_inv c"
  shows "rows_step (jobs c) (jobs c')"
  using assms(1)
proof (cases rule: acknowledge_job_cancellation_Inr)
  case (moved row c1)
  note lease = assert_active_lease_Inr[OF moved(2)]
  show ?thesis
    by (rule put_row_step[OF moved(6) assms(2) required_job_row_Inr[OF moved(1)]])
       (use lease outcome_fields(1)[OF moved(7)] in
         \<open>auto simp: row_step_def cancelled_running_row_def terminal_states_def
            intro: lifecycle_step.intros\<close>)
qed (simp add: rows_step_refl)

section \<open>Recovery as one simultaneous update\<close>

definition recovered :: "int \<Rightarrow> job_row \<Rightarrow> job_row" where
  "recovered now r = (case recovery_outcome r of (st, ty, failure) \<Rightarrow> recovered_row r st failure now r)"

lemma recovered_facts:
  "state (recovered now r) = fst (recovery_outcome r)" "job_id (recovered now r) = job_id r"
  "state (recovered now r) \<noteq> RUNNING"
  by (auto simp: recovered_def recovery_outcome_def recovered_row_def)

lemma recovered_row_step: "lease_expired now r \<Longrightarrow> row_step r (recovered now r)"
  by (auto simp: recovered_def recovery_outcome_def recovered_row_def row_step_def
      lease_expired_def terminal_states_def intro: lifecycle_step.intros)

lemma recover_rows_jobs:
  assumes "recover_rows now rs c = Inr c'" "distinct (map job_id (jobs c))"
    and "set rs \<subseteq> set (jobs c)" "list_all (lease_expired now) rs" "distinct rs"
  shows "jobs c' = map (\<lambda>x. if x \<in> set rs then recovered now x else x) (jobs c)"
  using assms
proof (induction rs arbitrary: c)
  case (Cons r rs)
  from Cons.prems(1) obtain c1 where c1: "recover_row now c r = Inr c1" "recover_rows now rs c1 = Inr c'"
    by (auto elim: result_elims)
  have r: "r \<in> set (jobs c)" "lease_expired now r" using Cons.prems by simp_all
  have j1: "jobs c1 = map (\<lambda>x. if x = r then recovered now x else x) (jobs c)"
    using recover_row_jobs[OF c1(1)] upd_where_row[where P = "lease_expired now",
      OF Cons.prems(2) r(1) refl r(2)]
    by (auto simp: recovered_def split: prod.splits)
  have rs1: "set rs \<subseteq> set (jobs c1)"
    unfolding j1 using Cons.prems by auto
  have d1: "distinct (map job_id (jobs c1))"
  proof -
    have "map job_id (jobs c1) = map job_id (jobs c)" by (simp add: j1 recovered_facts)
    then show ?thesis using Cons.prems(2) by simp
  qed
  have fresh: "recovered now r \<notin> set rs"
    using Cons.prems(4) recovered_facts(3)[of now r] by (auto simp: list_all_iff lease_expired_def)
  have "jobs c' = map (\<lambda>x. if x \<in> set rs then recovered now x else x) (jobs c1)"
    using Cons.IH[OF c1(2) d1 rs1] Cons.prems(4,5) by simp
  then show ?case using fresh Cons.prems(5) by (auto simp: j1)
qed simp

lemma recover_expired_Inr:
  assumes "recover_expired_jobs c now = Inr (res, c')" "cat_inv c"
  shows "jobs c' = map (\<lambda>x. if lease_expired now x then recovered now x else x) (jobs c)"
    and "res = \<lparr>requeued_job_ids = sort (map job_id (filter (\<lambda>r. fst (recovery_outcome r) = QUEUED)
           (sort_key job_id (filter (lease_expired now) (jobs c))))),
         failed_job_ids = sort (map job_id (filter (\<lambda>r. fst (recovery_outcome r) = FAILED)
           (sort_key job_id (filter (lease_expired now) (jobs c))))),
         cancelled_job_ids = sort (map job_id (filter (\<lambda>r. fst (recovery_outcome r) = CANCELLED)
           (sort_key job_id (filter (lease_expired now) (jobs c))))),
         recovered_at = now\<rparr>"
proof -
  let ?rs = "sort_key job_id (filter (lease_expired now) (jobs c))"
  have r: "recover_rows now ?rs c = Inr c'"
    using assms(1) unfolding recover_expired_jobs_def Let_def by (elim result_elims) simp
  have d: "distinct (map job_id (jobs c))" by (rule cat_inv_distinct[OF assms(2)])
  have "distinct ?rs" using d by (simp add: distinct_map)
  then have "jobs c' = map (\<lambda>x. if x \<in> set ?rs then recovered now x else x) (jobs c)"
    using recover_rows_jobs[OF r d] by (auto simp: list_all_iff)
  then show "jobs c' = map (\<lambda>x. if lease_expired now x then recovered now x else x) (jobs c)"
    by (auto simp: list_all_iff)
qed (use assms(1) in \<open>auto simp: recover_expired_jobs_def Let_def elim!: result_elims\<close>)

lemma recover_expired_rows:
  assumes "recover_expired_jobs c now = Inr (res, c')" "cat_inv c"
  shows "rows_step (jobs c) (jobs c')"
  unfolding rows_step_def recover_expired_Inr(1)[OF assms]
  by (intro exI[of _ "\<lambda>x. if lease_expired now x then recovered now x else x"] exI[of _ "[]"])
     (auto simp: recovered_row_step row_step_def[of r r for r])

section \<open>The abstract machine\<close>

lemma claim_job_rows:
  assumes "claim_job H c k owner tok now until = Inr (oj, c')" "cat_inv c"
  shows "rows_step (jobs c) (jobs c')"
  using assms unfolding claim_job_def by (elim result_elims) (rule claim_selected_rows)

lemma claim_watch_job_rows:
  assumes "claim_watch_job H c root owner tok now until = Inr (oj, c')" "cat_inv c"
  shows "rows_step (jobs c) (jobs c')"
  using assms unfolding claim_watch_job_def by (elim result_elims) (rule claim_selected_rows)

lemmas op_rows = create_rows claim_job_rows claim_watch_job_rows renew_rows complete_rows
  fail_rows cancel_rows acknowledge_rows recover_expired_rows

lemma grows_rows:
  assumes "grows c c'"
  shows "rows_step (jobs c) (jobs c')"
proof -
  from assms obtain new where "jobs c' = map id (jobs c) @ new"
    "\<forall>r\<in>set new. state r = QUEUED \<and> job_id r \<notin> job_id ` set (jobs c)"
    by (auto simp: grows_def)
  then show ?thesis unfolding rows_step_def by (auto simp: row_step_def intro!: exI[of _ id])
qed

lemma job_step_rows: "job_step H cs uid c c' \<Longrightarrow> cat_inv c \<Longrightarrow> rows_step (jobs c) (jobs c')"
  by (induction rule: job_step.induct) (auto elim: op_rows intro: grows_rows grows_register_watch_root
      grows_reconcile_watch_scan)

definition abs_state :: "catalog \<Rightarrow> pystr \<Rightarrow> job_state option" where
  "abs_state c i = map_option state (List.find (\<lambda>r. job_id r = i) (jobs c))"

lemma find_map_same:
  assumes "\<And>x. x \<in> set xs \<Longrightarrow> k (f x) = k x"
  shows "List.find (\<lambda>x. k x = i) (map f xs) = map_option f (List.find (\<lambda>x. k x = i) xs)"
  using assms by (induction xs) auto

lemma rows_step_abs:
  assumes "rows_step (jobs c) (jobs c')"
  shows "abs_state c' i = abs_state c i \<or>
    (\<exists>t. abs_state c' i = Some t \<and> lifecycle_step (abs_state c i) t)"
proof -
  from assms obtain f new where f: "jobs c' = map f (jobs c) @ new"
    "\<forall>r\<in>set (jobs c). row_step r (f r)"
    "\<forall>r\<in>set new. state r = QUEUED \<and> job_id r \<notin> job_id ` set (jobs c)"
    unfolding rows_step_def by blast
  have keep: "List.find (\<lambda>r. job_id r = i) (map f (jobs c)) =
      map_option f (List.find (\<lambda>r. job_id r = i) (jobs c))"
    by (rule find_map_same) (use f(2) in \<open>auto simp: row_step_def\<close>)
  show ?thesis
  proof (cases "List.find (\<lambda>r. job_id r = i) (jobs c)")
    case (Some r)
    then have "List.find (\<lambda>r. job_id r = i) (jobs c') = Some (f r)"
      using keep by (simp add: f(1) find_append)
    then show ?thesis using Some find_in[OF Some] f(2) by (auto simp: abs_state_def row_step_def)
  next
    case None
    then have "List.find (\<lambda>r. job_id r = i) (jobs c') = List.find (\<lambda>r. job_id r = i) new"
      using keep by (simp add: f(1) find_append)
    moreover have "state a = QUEUED" if "List.find (\<lambda>r. job_id r = i) new = Some a" for a
      using f(3) find_in[OF that] by auto
    ultimately show ?thesis
      using None by (cases "List.find (\<lambda>r. job_id r = i) new")
        (auto simp: abs_state_def lifecycle_step.enqueue)
  qed
qed

lemma rows_step_terminal:
  assumes "rows_step rs rs'" "r \<in> set rs" "state r \<in> terminal_states"
  shows "r \<in> set rs'"
  using assms lifecycle_terminal_stuck unfolding rows_step_def row_step_def by (fastforce simp: rev_image_eqI)

section \<open>Writes that cannot fail\<close>

lemma active_tokens_map:
  assumes "distinct (active_tokens rs)" "distinct (map job_id rs)"
    and "active_lease_token_hash (f row) \<in> {None, active_lease_token_hash row}"
  shows "distinct (active_tokens (map (\<lambda>x. if x = row then f row else x) rs)) \<and>
    set (active_tokens (map (\<lambda>x. if x = row then f row else x) rs)) \<subseteq> set (active_tokens rs)"
  using assms
  by (induction rs) (auto simp: active_tokens_def map_filter_simps split: option.splits)

lemma put_row_ok:
  assumes inv: "cat_inv c" and row: "row \<in> set (jobs c)" "job_id row = i" "P row"
    and f: "row_inv (f row)" "job_id (f row) = job_id row" "kind (f row) = kind row"
      "deduplication_key (f row) = deduplication_key row"
      "active_lease_token_hash (f row) \<in> {None, active_lease_token_hash row}"
  shows "put_jobs c (upd_where (\<lambda>x. job_id x = i \<and> P x) f (jobs c)) =
    Inr (c\<lparr>jobs := map (\<lambda>x. if x = row then f row else x) (jobs c)\<rparr>)"
proof -
  let ?g = "\<lambda>x. if x = row then f row else x"
  have con: "jobs_constraints (jobs c)" using inv by (simp add: cat_inv_def)
  have keep: "map job_id (map ?g (jobs c)) = map job_id (jobs c)"
    "map (\<lambda>r. (kind r, deduplication_key r)) (map ?g (jobs c)) =
       map (\<lambda>r. (kind r, deduplication_key r)) (jobs c)"
    using f by simp_all
  have chk: "list_all row_check (map ?g (jobs c))"
    using con f(1) by (auto simp: jobs_constraints_def list_all_iff intro: row_inv_check)
  have "jobs_constraints (map ?g (jobs c))"
    using con keep chk active_tokens_map[of "jobs c" f row] f(5)
    unfolding jobs_constraints_def by metis
  then show ?thesis
    using upd_where_row[of "jobs c" row i P f] cat_inv_distinct[OF inv] row by (simp add: put_jobs_def)
qed

lemma outcome_ok:
  assumes "\<forall>t\<in>set (targets c). tgt_root t \<in> (\<lambda>w. root_id (authority w)) ` set (watch_roots c)"
  shows "\<exists>c'. append_watch_job_outcome c i st at = Inr c'"
proof (cases "List.find (\<lambda>t. tgt_job t = i) (targets c)")
  case (Some t)
  then have "tgt_root t \<in> (\<lambda>w. root_id (authority w)) ` set (watch_roots c)"
    using assms find_in[OF Some] by blast
  then obtain w where "List.find (\<lambda>w. root_id (authority w) = tgt_root t) (watch_roots c) = Some w"
    by (metis (mono_tags, lifting) find_None_iff imageE not_Some_eq)
  with Some show ?thesis
    by (cases "outcome_event st") (auto simp: append_watch_job_outcome_def required_watch_root_def)
qed (simp add: append_watch_job_outcome_def)

lemma visible_job_ok:
  assumes "cat_inv c" "r \<in> set (jobs c)"
  shows "visible_job c (job_id r) = Inr (job.truncate r)"
  using find_unique[OF cat_inv_distinct[OF assms(1)] assms(2)] cat_inv_row(2)[OF assms]
  by (simp add: visible_job_def load_job_def job_from_row_def)

end
