(* ===== verification/Job_Properties.thy ===== *)
theory Job_Properties
  imports Job_Steps
begin

text \<open>
  The properties of the job catalog, each with a concrete run that exercises it: one queued job
  is created, claimed with a 16-character token, and finished, failed or left to expire.
\<close>

section \<open>A concrete run\<close>

definition ex_hash :: "pystr \<Rightarrow> pystr" where
  "ex_hash t = U ''sha256:'' @ t"

definition ex_token :: pystr where
  "ex_token = U ''0123456789abcdef''"

definition ex_spec :: job_spec where
  "ex_spec = \<lparr>spec_job_id = U ''j1'', spec_kind = U ''parse'', spec_deduplication_key = U ''k'',
     spec_max_attempts = 2, spec_references = [], spec_available_at = None, spec_created_at = 0\<rparr>"

definition run :: "cat_error + 'a \<times> catalog \<Rightarrow> catalog" where
  "run r = (case r of Inl _ \<Rightarrow> empty_catalog | Inr (_, c) \<Rightarrow> c)"

definition ex_queued :: catalog where
  "ex_queued = run (create_job empty_catalog ex_spec)"

definition ex_running :: catalog where
  "ex_running = run (claim_job ex_hash ex_queued None (U ''w'') ex_token 10 20)"

definition ex_done :: catalog where
  "ex_done = run (complete_job ex_hash ex_running (U ''j1'') (U ''w'') ex_token 1 15)"

definition ex_retried :: catalog where
  "ex_retried = run (fail_job ex_hash ex_running (U ''j1'') (U ''w'') ex_token 1 15 True (U ''io'') (Some 40))"

definition ex_recovered :: catalog where
  "ex_recovered = run (recover_expired_jobs ex_running 30)"

lemma run_ok: "\<not> isl r \<Longrightarrow> r = Inr (fst (projr r), run r)"
  by (cases r) (auto simp: run_def)

lemma ex_oks:
  "\<not> isl (create_job empty_catalog ex_spec)"
  "\<not> isl (claim_job ex_hash ex_queued None (U ''w'') ex_token 10 20)"
  "\<not> isl (complete_job ex_hash ex_running (U ''j1'') (U ''w'') ex_token 1 15)"
  "\<not> isl (fail_job ex_hash ex_running (U ''j1'') (U ''w'') ex_token 1 15 True (U ''io'') (Some 40))"
  "\<not> isl (recover_expired_jobs ex_running 30)"
  by code_simp+

lemmas ex_runs = ex_oks[THEN run_ok, folded ex_queued_def ex_running_def ex_done_def ex_retried_def
  ex_recovered_def]

lemma ex_reachable:
  "job_reachable ex_hash cs uid ex_queued" "job_reachable ex_hash cs uid ex_running"
  "job_reachable ex_hash cs uid ex_done" "job_reachable ex_hash cs uid ex_retried"
  "job_reachable ex_hash cs uid ex_recovered"
proof -
  have "job_spec_valid ex_spec" by code_simp
  then show q: "job_reachable ex_hash cs uid ex_queued"
    using job_reachable.start job_step.create ex_runs(1) job_reachable.step by metis
  then show r: "job_reachable ex_hash cs uid ex_running"
    using job_step.claim[OF ex_runs(2)] job_reachable.step by metis
  show "job_reachable ex_hash cs uid ex_done"
    using r job_step.complete[OF ex_runs(3)] job_reachable.step by metis
  show "job_reachable ex_hash cs uid ex_retried"
    using r job_step.fail[OF ex_runs(4)] job_reachable.step by metis
  show "job_reachable ex_hash cs uid ex_recovered"
    using r job_step.recover[OF ex_runs(5)] job_reachable.step by metis
qed

lemma ex_rows:
  "map job_id (jobs ex_running) = [U ''j1'']" "map state (jobs ex_running) = [RUNNING]"
  "map state (jobs ex_done) = [SUCCEEDED]" "map state (jobs ex_recovered) = [QUEUED]"
  "required_job_row ex_running (U ''j1'') = Inr (hd (jobs ex_running))"
  "state (hd (jobs ex_running)) = RUNNING"
  by code_simp+

section \<open>The invariant and the event log\<close>

text \<open>
  C4.  In every catalog reachable through the job operations from an empty one, the constraints of
  the jobs table hold and each row is a valid \<open>Job\<close> that holds a lease token exactly while it runs;
  a queued job always has an attempt left.
\<close>

theorem reachable_rows_valid:
  assumes "job_reachable H cs uid c"
  shows "jobs_constraints (jobs c) \<and>
    list_all (\<lambda>r. job_valid r \<and> (state r = RUNNING) = (active_lease_token_hash r \<noteq> None) \<and>
      (state r = QUEUED \<longrightarrow> attempt_count r < max_attempts r)) (jobs c)"
  using job_reachable_inv[OF assms] by (simp add: cat_inv_def row_inv_def list_all_iff)

theorem reachable_rows_valid_witness:
  "jobs_constraints (jobs ex_retried) \<and>
    list_all (\<lambda>r. job_valid r \<and> (state r = RUNNING) = (active_lease_token_hash r \<noteq> None) \<and>
      (state r = QUEUED \<longrightarrow> attempt_count r < max_attempts r)) (jobs ex_retried)"
  by (rule reachable_rows_valid[OF ex_reachable(4)])

text \<open>
  C3.  The event log of a job is its history: its events are valid, numbered \<open>1, 2, ...\<close> without a
  gap, each starts in the state the one before it ended in, the last one ends in the row's
  state, and the number of \<open>CLAIMED\<close> events is the row's attempt count, at most \<open>max_attempts\<close>.
\<close>

theorem event_log_replays:
  assumes "job_reachable H cs uid c" "r \<in> set (jobs c)"
  shows "chained None (log c (job_id r)) \<and> list_all job_event_valid (log c (job_id r)) \<and>
    map ev_sequence (log c (job_id r)) = [1..<length (log c (job_id r)) + 1] \<and>
    log_state None (log c (job_id r)) = Some (state r) \<and>
    claims (log c (job_id r)) = attempt_count r \<and> attempt_count r \<le> max_attempts r"
  using cat_inv_row[OF job_reachable_inv[OF assms(1)] assms(2)]
  by (simp add: log_ok_def job_valid_def)

theorem event_log_replays_witness:
  "map ev_type (log ex_retried (U ''j1'')) = [ENQUEUED, CLAIMED, RETRY_QUEUED] \<and>
   log_state None (log ex_retried (U ''j1'')) = Some QUEUED \<and>
   claims (log ex_retried (U ''j1'')) = 1"
proof -
  have "hd (jobs ex_retried) \<in> set (jobs ex_retried)" "job_id (hd (jobs ex_retried)) = U ''j1''"
    "state (hd (jobs ex_retried)) = QUEUED" "attempt_count (hd (jobs ex_retried)) = 1"
    "map ev_type (log ex_retried (U ''j1'')) = [ENQUEUED, CLAIMED, RETRY_QUEUED]"
    by code_simp+
  then show ?thesis using event_log_replays[OF ex_reachable(4)] by metis
qed

text \<open>
  C2.  Refinement of the lifecycle machine: a step of the catalog leaves the abstract state of a
  job alone or moves it along one edge of \<open>lifecycle_step\<close>, and the row of a finished job is never
  touched again.
\<close>

theorem job_step_refines_lifecycle:
  assumes "job_reachable H cs uid c" "job_step H cs uid c c'"
  shows "(abs_state c' i = abs_state c i \<or>
      (\<exists>t. abs_state c' i = Some t \<and> lifecycle_step (abs_state c i) t)) \<and>
    (\<forall>r\<in>set (jobs c). state r \<in> terminal_states \<longrightarrow> r \<in> set (jobs c'))"
proof -
  have "rows_step (jobs c) (jobs c')"
    by (rule job_step_rows[OF assms(2) job_reachable_inv[OF assms(1)]])
  then show ?thesis using rows_step_abs rows_step_terminal by blast
qed

theorem job_step_refines_lifecycle_witness:
  "abs_state ex_running (U ''j1'') = Some RUNNING \<and> abs_state ex_done (U ''j1'') = Some SUCCEEDED \<and>
   lifecycle_step (Some RUNNING) SUCCEEDED"
proof -
  have "abs_state ex_running (U ''j1'') = Some RUNNING" "abs_state ex_done (U ''j1'') = Some SUCCEEDED"
    by code_simp+
  then show ?thesis
    using job_step_refines_lifecycle[OF ex_reachable(2) job_step.complete[OF ex_runs(3)], of "U ''j1''"]
    by auto
qed

section \<open>Leases\<close>

definition holds_lease :: "catalog \<Rightarrow> pystr \<Rightarrow> pystr \<Rightarrow> pystr \<Rightarrow> nat \<Rightarrow> int \<Rightarrow> bool" where
  "holds_lease c i owner th er now \<longleftrightarrow> list_ex (\<lambda>r. job_id r = i \<and> state r = RUNNING \<and>
     active_owner_id r = Some owner \<and> active_lease_token_hash r = Some th \<and> revision r = er \<and>
     updated_at r \<le> now \<and> (case lease_expires_at r of None \<Rightarrow> False | Some l \<Rightarrow> now < l)) (jobs c)"

lemma holds_leaseI:
  assumes "assert_active_lease row owner th er now idem req canc = Inr u" "revision row = er"
    and "updated_at row \<le> now" "required_job_row c i = Inr row" "cat_inv c"
  shows "holds_lease c i owner th er now"
  using assert_active_lease_Inr[OF assms(1)] required_job_row_Inr[OF assms(4)] assms(2,3)
    required_row_inv[OF assms(4,5)]
  by (auto simp: holds_lease_def list_ex_iff row_defs split: option.splits intro!: bexI[of _ row])

text \<open>
  C1.  Fencing: a worker operation that changes the catalog was called by the owner of the job's
  current lease, with the lease's token, the row's revision and a time before the expiry.
\<close>

theorem worker_operations_are_fenced:
  assumes "job_reachable H cs uid c"
    and "complete_job H c i owner tok er now = Inr (j, c') \<or>
      fail_job H c i owner tok er now rt code ra = Inr (j, c') \<or>
      renew_job H c i owner tok er now until = Inr (j, c') \<or>
      acknowledge_job_cancellation H c i owner tok er now = Inr (j, c')"
    and "c' \<noteq> c"
  shows "holds_lease c i owner (H tok) er now"
proof -
  note inv = job_reachable_inv[OF assms(1)]
  consider "complete_job H c i owner tok er now = Inr (j, c')"
    | "fail_job H c i owner tok er now rt code ra = Inr (j, c')"
    | "renew_job H c i owner tok er now until = Inr (j, c')"
    | "acknowledge_job_cancellation H c i owner tok er now = Inr (j, c')"
    using assms(2) by blast
  then show ?thesis
  proof cases
    case 1 then show ?thesis
      by (cases rule: complete_job_Inr) (use assms(3) assert_active_lease_Inr(6) in \<open>auto intro!: holds_leaseI[OF _ _ _ _ inv]\<close>)
  next
    case 2 then show ?thesis
      by (cases rule: fail_job_Inr) (use assms(3) assert_active_lease_Inr(6) in \<open>auto intro!: holds_leaseI[OF _ _ _ _ inv]\<close>)
  next
    case 3 then show ?thesis
      by (cases rule: renew_job_Inr) (use assms(3) in \<open>auto intro!: holds_leaseI[OF _ _ _ _ inv]\<close>)
  next
    case 4 then show ?thesis
      by (cases rule: acknowledge_job_cancellation_Inr)
        (use assms(3) assert_active_lease_Inr(6) in \<open>auto intro!: holds_leaseI[OF _ _ _ _ inv]\<close>)
  qed
qed

theorem worker_operations_are_fenced_witness:
  "holds_lease ex_running (U ''j1'') (U ''w'') (ex_hash ex_token) 1 15"
proof -
  have "ex_done \<noteq> ex_running" using ex_rows(2,3) by auto
  then show ?thesis
    using worker_operations_are_fenced[OF ex_reachable(2) disjI1[OF ex_runs(3)]] by blast
qed

lemma disjoint_ids:
  assumes "inj_on job_id (set rs)" "\<And>r. \<not> (p r \<and> q r)"
  shows "set (sort (map job_id (filter p (sort_key job_id (filter e rs))))) \<inter>
    set (sort (map job_id (filter q (sort_key job_id (filter e rs))))) = {}"
  using assms by (auto dest: inj_onD[OF assms(1)])

text \<open>
  C5.  A recovery pass is exact: it requeues, fails or cancels precisely the running jobs whose
  lease had expired, reports each of them in exactly one of three sorted lists, leaves every other
  row alone, and afterwards no expired lease is left.
\<close>

theorem recovery_is_exact:
  assumes "job_reachable H cs uid c" "recover_expired_jobs c now = Inr (res, c')"
  shows "recovery_result_valid res \<and>
    set (requeued_job_ids res) \<union> set (failed_job_ids res) \<union> set (cancelled_job_ids res) =
      job_id ` {r \<in> set (jobs c). lease_expired now r} \<and>
    (\<forall>r\<in>set (jobs c). \<not> lease_expired now r \<longrightarrow> r \<in> set (jobs c')) \<and>
    \<not> list_ex (lease_expired now) (jobs c')"
proof -
  note inv = job_reachable_inv[OF assms(1)]
  note rec = recover_expired_Inr[OF assms(2) inv]
  have inj: "inj_on job_id (set (jobs c))" and d: "distinct (jobs c)"
    using cat_inv_distinct[OF inv] by (auto simp: distinct_map)
  have su: "sorted_unique (sort (map job_id (filter p (sort_key job_id (filter q (jobs c))))))" for p q
    using inj d by (auto simp: sorted_unique_iff distinct_map intro: inj_on_subset)
  have "recovery_result_valid res"
    unfolding recovery_result_valid_def rec(2)
    by (simp only: recovery_result.simps su) (intro conjI disjoint_ids[OF inj] TrueI; simp)
  moreover have "set (requeued_job_ids res) \<union> set (failed_job_ids res) \<union> set (cancelled_job_ids res) =
      job_id ` {r \<in> set (jobs c). lease_expired now r}"
    (is "?L = ?R")
  proof
    show "?L \<subseteq> ?R" by (auto simp: rec(2))
    have "fst (recovery_outcome r) \<in> {QUEUED, FAILED, CANCELLED}" for r
      by (simp add: recovery_outcome_def)
    then show "?R \<subseteq> ?L" by (fastforce simp: rec(2))
  qed
  moreover have "\<not> list_ex (lease_expired now) (jobs c')"
    using recovered_facts(3)[of now] by (auto simp: rec(1) list_ex_iff lease_expired_def)
  moreover have "r \<in> set (jobs c')" if "r \<in> set (jobs c)" "\<not> lease_expired now r" for r
    using that by (auto simp: rec(1) intro!: rev_image_eqI[of r])
  ultimately show ?thesis by blast
qed

theorem recovery_is_exact_witness:
  "\<not> list_ex (lease_expired 30) (jobs ex_recovered) \<and>
   requeued_job_ids (fst (projr (recover_expired_jobs ex_running 30))) = [U ''j1'']"
proof
  show "\<not> list_ex (lease_expired 30) (jobs ex_recovered)"
    using recovery_is_exact[OF ex_reachable(2) ex_runs(5)] by blast
  show "requeued_job_ids (fst (projr (recover_expired_jobs ex_running 30))) = [U ''j1'']"
    by code_simp
qed

text \<open>
  Stale workers: once a recovery pass took a job away, the previous holder's attempts to
  complete or renew it with the old revision are refused whatever token it presents.
\<close>

lemma stale_worker_is_refused:
  assumes "job_reachable H cs uid c" "recover_expired_jobs c now = Inr (res, c')"
    and "r \<in> set (jobs c)" "lease_expired now r"
  shows "isl (complete_job H c' (job_id r) owner tok (revision r) later) \<and>
    isl (renew_job H c' (job_id r) owner tok (revision r) later until)"
proof -
  note inv = job_reachable_inv[OF assms(1)]
  note inv' = recover_expired_jobs_inv[OF assms(2) inv]
  have mem: "recovered now r \<in> set (jobs c')"
    unfolding recover_expired_Inr(1)[OF assms(2) inv] using assms(3,4) by (auto intro: rev_image_eqI)
  have find: "required_job_row c' (job_id r) = Inr (recovered now r)"
    using find_unique[OF cat_inv_distinct[OF inv'] mem] by (simp add: required_job_row_def recovered_facts)
  have st: "state (recovered now r) \<noteq> RUNNING" "state (recovered now r) \<noteq> SUCCEEDED"
    by (auto simp: recovered_def recovery_outcome_def recovered_row_def)
  have "complete_job H c' (job_id r) owner tok (revision r) later \<noteq> Inr (j, d)" for j d
  proof
    assume "complete_job H c' (job_id r) owner tok (revision r) later = Inr (j, d)"
    then show False
      by (cases rule: complete_job_Inr) (use st find in \<open>auto dest: assert_active_lease_Inr(1)\<close>)
  qed
  moreover have "renew_job H c' (job_id r) owner tok (revision r) later until \<noteq> Inr (j, d)" for j d
  proof
    assume "renew_job H c' (job_id r) owner tok (revision r) later until = Inr (j, d)"
    then show False
      by (cases rule: renew_job_Inr) (use st find in \<open>auto dest: assert_active_lease_Inr(1)\<close>)
  qed
  ultimately show ?thesis by (metis isl_def old.prod.exhaust sum.exhaust)
qed

theorem stale_worker_is_refused_witness:
  "isl (complete_job ex_hash ex_recovered (U ''j1'') (U ''w'') ex_token 1 31)"
proof -
  have "hd (jobs ex_running) \<in> set (jobs ex_running)" "lease_expired 30 (hd (jobs ex_running))"
    "job_id (hd (jobs ex_running)) = U ''j1''" "revision (hd (jobs ex_running)) = 1"
    by code_simp+
  then show ?thesis using stale_worker_is_refused[OF ex_reachable(2) ex_runs(5)] by metis
qed

text \<open>
  Completion is idempotent: repeating a successful completion with the same token, whatever
  the revision and time presented, returns the same job and changes nothing.
\<close>

lemma complete_job_is_idempotent:
  assumes "job_reachable H cs uid c" "complete_job H c i owner tok er now = Inr (j, c')"
  shows "complete_job H c' i owner tok er' now' = Inr (j, c')"
proof -
  note inv = job_reachable_inv[OF assms(1)]
  note inv' = complete_job_inv[OF assms(2) inv]
  have pre: "length_between 1 255 owner" "16 \<le> length tok" "write_connection c = Inr ()"
    using assms(2) unfolding complete_job_def by (auto simp: result_simps)
  from assms(2) have "\<exists>row. required_job_row c' i = Inr row \<and> state row = SUCCEEDED \<and>
      last_transition_token_hash row = Some (H tok) \<and> job_from_row row = Inr j \<and>
      write_connection c' = Inr ()"
  proof (cases rule: complete_job_Inr)
    case (moved row c1)
    note rr = required_job_row_Inr[OF moved(1)]
    note lease = assert_active_lease_Inr[OF moved(2)]
    have jobs': "jobs c' = map (\<lambda>x. if x = row then completed_row (H tok) now row else x) (jobs c)"
      using moved(5) outcome_fields(1)[OF moved(6)] lease rr
        upd_where_row[OF cat_inv_distinct[OF inv] rr, of "\<lambda>r. revision r = er \<and> state r = RUNNING"]
      by (auto simp: put_jobs_Inr)
    have mem: "completed_row (H tok) now row \<in> set (jobs c')"
      using rr(1) by (auto simp: jobs' intro: rev_image_eqI)
    have "List.find (\<lambda>y. job_id y = i) (jobs c') = Some (completed_row (H tok) now row)"
      using find_unique[OF cat_inv_distinct[OF inv'] mem] rr(2) by (simp add: completed_row_def)
    moreover from this have "job_from_row (completed_row (H tok) now row) = Inr j"
      using moved(7) by (auto simp: visible_job_def load_job_def elim!: result_elims)
    moreover have "maintenance_active c' = maintenance_active c"
      using moved(5,6) by (auto simp: put_jobs_Inr append_watch_job_outcome_def append_event_def
          append_watch_event_def split: option.splits elim!: result_elims)
    ultimately show ?thesis
      using pre(3) by (auto simp: required_job_row_def completed_row_def write_connection_def)
  qed (use pre in auto)
  then show ?thesis using pre by (auto simp: complete_job_def result_simps validate_owner_def lease_token_hash_def)
qed

theorem complete_job_is_idempotent_witness:
  "complete_job ex_hash ex_done (U ''j1'') (U ''w'') ex_token 7 99 =
     Inr (fst (projr (complete_job ex_hash ex_running (U ''j1'') (U ''w'') ex_token 1 15)), ex_done)"
  by (rule complete_job_is_idempotent[OF ex_reachable(2) ex_runs(3)])






section \<open>Creating and naming jobs\<close>

text \<open>
  Creating a job again with an unchanged request finds the existing job exactly as long as no
  retry has moved its availability: every immutable field is compared, but \<open>available_at\<close>, which
  \<open>fail_job\<close> rewrites, is compared too, and then the same request is refused as a conflict.
\<close>

lemma create_job_again:
  assumes "job_reachable H cs uid c" "\<not> maintenance_active c" "r \<in> set (jobs c)"
    and "job_id r = spec_job_id s" "kind r = spec_kind s"
    and "deduplication_key r = spec_deduplication_key s" "max_attempts r = spec_max_attempts s"
    and "created_at r = spec_created_at s" "references r = canonical_references (spec_references s)"
  shows "create_job c s =
    (if available_at r = (case spec_available_at s of None \<Rightarrow> spec_created_at s | Some a \<Rightarrow> a)
     then Inr (job.truncate r, c)
     else Inl (JobConflict ''job idempotency key has different immutable data''))"
proof -
  note inv = job_reachable_inv[OF assms(1)]
  have "distinct (map (\<lambda>r. (kind r, deduplication_key r)) (jobs c))"
    using inv by (simp add: cat_inv_def jobs_constraints_def)
  from find_unique[OF this assms(3)]
  have "List.find (\<lambda>r. kind r = spec_kind s \<and> deduplication_key r = spec_deduplication_key s) (jobs c) = Some r"
    using assms(5,6) by simp
  then show ?thesis
    using cat_inv_row(2)[OF inv assms(3)] assms(2,4-9)
    by (simp add: create_job_def write_connection_def job_from_row_def job_matches_spec_def job.truncate_def)
qed

theorem create_job_again_witness:
  "create_job ex_retried ex_spec =
     Inl (JobConflict ''job idempotency key has different immutable data'')"
proof -
  let ?r = "hd (jobs ex_retried)"
  have "?r \<in> set (jobs ex_retried)" "\<not> maintenance_active ex_retried" "job_id ?r = spec_job_id ex_spec"
    "kind ?r = spec_kind ex_spec" "deduplication_key ?r = spec_deduplication_key ex_spec"
    "max_attempts ?r = spec_max_attempts ex_spec" "created_at ?r = spec_created_at ex_spec"
    "references ?r = canonical_references (spec_references ex_spec)"
    "available_at ?r = 40" "spec_available_at ex_spec = None" "spec_created_at ex_spec = 0"
    by code_simp+
  then show ?thesis using create_job_again[OF ex_reachable(4)] by simp
qed

text \<open>
  C40.  A UUIDv7 built from its parts is a 128-bit number with version 7 and variant 2 from which
  the timestamp and the random bits can be read back.
\<close>

theorem uuid7_roundtrip:
  assumes "0 \<le> t" "t < 2 ^ 48" "0 \<le> r" "r < 2 ^ 74"
  shows "\<exists>u. uuid7_from_parts t r = Inr u \<and> 0 \<le> u \<and> u < 2 ^ 128 \<and> u div 2 ^ 80 = t \<and>
    u div 2 ^ 76 mod 16 = 7 \<and> u div 2 ^ 62 mod 4 = 2 \<and>
    (u div 2 ^ 64 mod 2 ^ 12) * 2 ^ 62 + u mod 2 ^ 62 = r"
proof -
  obtain a b where ab: "a = r div 2 ^ 62" "b = r mod 2 ^ 62" by blast
  have bounds: "0 \<le> a" "a < 2 ^ 12" "0 \<le> b" "b < 2 ^ 62" using assms by (auto simp: ab)
  let ?u = "t * 2 ^ 80 + 7 * 2 ^ 76 + a * 2 ^ 64 + 2 * 2 ^ 62 + b"
  have r: "a * 2 ^ 62 + b = r" by (simp add: ab)
  have at: "(h * n + l) div n = h \<and> (h * n + l) mod n = l" if "0 \<le> l" "l < n" for h l n :: int
    using that by simp
  have "?u div 2 ^ 76 = t * 16 + 7"
    using at[of "a * 2 ^ 64 + 2 * 2 ^ 62 + b" "2 ^ 76" "t * 16 + 7"] bounds by simp
  moreover have "?u div 2 ^ 64 = (t * 16 + 7) * 2 ^ 12 + a"
    using at[of "2 * 2 ^ 62 + b" "2 ^ 64" "(t * 16 + 7) * 2 ^ 12 + a"] bounds by simp
  moreover have "?u div 2 ^ 62 = ((t * 16 + 7) * 2 ^ 12 + a) * 4 + 2" "?u mod 2 ^ 62 = b"
    using at[of b "2 ^ 62" "((t * 16 + 7) * 2 ^ 12 + a) * 4 + 2"] bounds
    by (simp_all add: mult.commute[of t] mult.commute[of a])
  moreover have "?u div 2 ^ 80 = t" "0 \<le> ?u" "?u < 2 ^ 128" using bounds assms(1,2) by simp_all
  ultimately obtain u where u: "u = ?u" "u div 2 ^ 76 = t * 16 + 7" "u div 2 ^ 64 = (t * 16 + 7) * 2 ^ 12 + a"
      "u div 2 ^ 62 = ((t * 16 + 7) * 2 ^ 12 + a) * 4 + 2" "u mod 2 ^ 62 = b" "u div 2 ^ 80 = t"
      "0 \<le> u" "u < 2 ^ 128"
    by blast
  have "uuid7_from_parts t r = Inr u" using uuid7_value[OF assms] unfolding u(1) ab .
  moreover have "u div 2 ^ 76 mod 16 = 7" unfolding u(2) using at[of 7 16 t] by simp
  moreover have "u div 2 ^ 62 mod 4 = 2"
    unfolding u(4) by (rule at[of 2 4, THEN conjunct2]) simp_all
  moreover have "u div 2 ^ 64 mod 2 ^ 12 = a"
    unfolding u(3) by (rule at[THEN conjunct2]) (use bounds in simp_all)
  ultimately show ?thesis using u(5-8) r by blast
qed

theorem uuid7_roundtrip_witness:
  "\<exists>u. uuid7_from_parts 5 9 = Inr u \<and> u div 2 ^ 80 = 5"
  using uuid7_roundtrip[of 5 9] by auto

text \<open>
  A recovery pass may move a job's clock back: it does not compare its time with the row, so a
  cancellation requested after the lease ran out is recovered at an earlier instant.
\<close>

definition ex_cancelling :: catalog where
  "ex_cancelling = run (request_job_cancellation ex_running (U ''j1'') 25)"

lemma recovery_moves_time_back:
  "map updated_at (jobs ex_cancelling) = [25] \<and>
   map updated_at (jobs (run (recover_expired_jobs ex_cancelling 22))) = [22] \<and>
   map state (jobs (run (recover_expired_jobs ex_cancelling 22))) = [CANCELLED]"
  by code_simp

end
