(* ===== verification/Watch_Observations.thy ===== *)
theory Watch_Observations
  imports Job_Steps
begin

text \<open>
  What the parts of a reconciliation do to the observations of a root, read by key, and to the
  counters of the scan: \<open>observes\<close> and \<open>dead_at\<close> say what the table holds for an entry or a digest
  afterwards, \<open>tracked\<close> relates the progress record to the jobs that are really active.
\<close>

section \<open>Observations by key\<close>

definition obs_at :: "catalog \<Rightarrow> pystr \<Rightarrow> pystr \<Rightarrow> observation option" where
  "obs_at c r d = List.find (\<lambda>b. obs_root b = r \<and> obs_digest b = d) (observations c)"

lemma find_upd_const:
  assumes "list_ex (\<lambda>x. k x = k b) xs"
  shows "List.find (\<lambda>x. k x = i) (upd_where (\<lambda>x. k x = k b) (\<lambda>_. b) xs) =
    (if i = k b then Some b else List.find (\<lambda>x. k x = i) xs)"
proof (cases "i = k b")
  case True
  have "List.find (\<lambda>x. k x = k b) (upd_where (\<lambda>x. k x = k b) (\<lambda>_. b) xs) = Some b"
    using assms by (induction xs) (auto simp: upd_where_def)
  with True show ?thesis by simp
next
  case False
  then have "List.find (\<lambda>x. k x = i) (upd_where (\<lambda>x. k x = k b) (\<lambda>_. b) xs) = List.find (\<lambda>x. k x = i) xs"
    by (induction xs) (auto simp: upd_where_def)
  with False show ?thesis by simp
qed

lemma write_observation_at:
  assumes "write_watch_observation c b = Inr c'"
  shows "obs_at c' r d = (if r = obs_root b \<and> d = obs_digest b then Some b else obs_at c r d)"
proof -
  have key: "List.find (\<lambda>x. obs_root x = r \<and> obs_digest x = d) xs =
      List.find (\<lambda>x. (obs_root x, obs_digest x) = (r, d)) xs" for xs
    by simp
  show ?thesis
  proof (cases "list_ex (\<lambda>a. same_observation a b) (observations c)")
    case True
    with assms have "observations c' = upd_where (\<lambda>a. same_observation a b) (\<lambda>_. b) (observations c)"
      by (auto simp: write_watch_observation_def Let_def split: if_splits)
    moreover have "(\<lambda>a. same_observation a b) = (\<lambda>a. (obs_root a, obs_digest a) = (obs_root b, obs_digest b))"
      by (simp add: same_observation_def)
    ultimately show ?thesis
      unfolding obs_at_def key
      using find_upd_const[of "\<lambda>x. (obs_root x, obs_digest x)" b "observations c" "(r, d)"] True by simp
  next
    case False
    with assms have "observations c' = observations c @ [b]"
      by (auto simp: write_watch_observation_def Let_def split: if_splits)
    moreover have "obs_at c (obs_root b) (obs_digest b) = None"
      using False by (auto simp: obs_at_def find_None_iff list_ex_iff same_observation_def)
    ultimately show ?thesis
      by (auto simp: obs_at_def find_append split: option.splits)
  qed
qed

lemma obs_at_frame [simp]:
  "obs_at (append_watch_event c rt ty g at dg jb e s t) r d = obs_at c r d"
  "obs_at (append_event c i ty' from to at att own fl') r d = obs_at c r d"
  "obs_at (update_watch_root c rt f) r d = obs_at c r d"
  "obs_at (c\<lparr>targets := ts\<rparr>) r d = obs_at c r d"
  "obs_at (c\<lparr>jobs := js\<rparr>) r d = obs_at c r d"
  by (simp_all add: obs_at_def update_watch_root_def)

lemma obs_at_hints [simp]: "obs_at (append_watch_rename_hints c root hints gen now) r d = obs_at c r d"
  unfolding append_watch_rename_hints_def by (induction hints arbitrary: c) simp_all

lemma watch_job_obs:
  "watch_job_in_catalog c i key n t = Inr (j, c') \<Longrightarrow> obs_at c' r d = obs_at c r d"
  by (auto simp: watch_job_in_catalog_def put_jobs_Inr Let_def elim!: result_elims split: option.splits)

lemma create_target_obs:
  assumes "create_watch_job_and_target cs c i root e pf key n t = Inr (j, c')"
  shows "obs_at c' r d = obs_at c r d"
  using assms by (cases rule: create_watch_job_and_target_Inr) (auto simp: watch_job_obs)

section \<open>One entry\<close>

definition observes :: "catalog \<Rightarrow> pystr \<Rightarrow> scan_entry \<Rightarrow> int \<Rightarrow> nat \<Rightarrow> bool" where
  "observes c root e at gen \<longleftrightarrow> (case obs_at c root (entry_digest e) of None \<Rightarrow> False
     | Some b \<Rightarrow> obs_locator b = entry_locator e \<and> obs_fingerprint b = Some (entry_fingerprint e) \<and>
         obs_state b \<noteq> TOMBSTONED \<and> last_observed_at b = at \<and> last_generation b = gen)"

lemma transition_live: "tr_state (watch_entry_transition p f config at) \<noteq> TOMBSTONED"
  by (auto simp: watch_entry_transition_def fresh_transition_def Let_def split: option.splits)

lemma reconcile_watch_entry_obs:
  assumes "reconcile_watch_entry cs uid root prev config at gen now e (c, pr) = Inr (c', pr')"
  shows "observes c' root e at gen"
    and "r \<noteq> root \<or> d \<noteq> entry_digest e \<Longrightarrow> obs_at c' r d = obs_at c r d"
proof -
  have "observes c' root e at gen \<and> (r \<noteq> root \<or> d \<noteq> entry_digest e \<longrightarrow> obs_at c' r d = obs_at c r d)"
    using assms
  proof (cases rule: reconcile_watch_entry_Inr)
    case (1 tr b c1 c2)
    have b: "obs_root b = root" "obs_digest b = entry_digest e" "obs_locator b = entry_locator e"
      "obs_fingerprint b = Some (entry_fingerprint e)" "obs_state b \<noteq> TOMBSTONED"
      "last_observed_at b = at" "last_generation b = gen"
      using transition_live by (simp_all add: 1(1,2) entry_observation_def)
    have c2: "obs_at c2 r' d' = (if r' = root \<and> d' = entry_digest e then Some b else obs_at c r' d')" for r' d'
      using write_observation_at[OF 1(4)] by (simp add: 1(5) b split: option.splits)
    show ?thesis
    proof (cases "tr_state tr = CANDIDATE")
      case True
      with 1(6) c2 b show ?thesis by (auto simp: observes_def)
    next
      case False
      with 1(6) have "schedule_stable_watch_entry cs uid root e b config gen now
         (c2, pr\<lparr>stable_count := stable_count pr + 1\<rparr>) = Inr (c', pr')" by simp
      then show ?thesis
      proof (cases rule: schedule_Inr)
        case (new j c3 c4 key)
        have "obs_at c' r' d' = (if r' = root \<and> d' = entry_digest e then Some (b\<lparr>last_scheduled_key := Some key\<rparr>)
            else obs_at c r' d')" for r' d'
          using write_observation_at[OF new(4)] create_target_obs[OF new(3)] c2 by (simp add: new(5) b)
        then show ?thesis using b by (auto simp: observes_def)
      qed (use c2 b in \<open>auto simp: observes_def\<close>)
    qed
  qed
  then show "observes c' root e at gen" "r \<noteq> root \<or> d \<noteq> entry_digest e \<Longrightarrow> obs_at c' r d = obs_at c r d"
    by blast+
qed

lemma reconcile_entries_obs:
  assumes "reconcile_entries cs uid root existing config at gen now es (c, pr) = Inr (c', pr')"
    and "distinct (map entry_digest es)"
  shows "\<forall>e\<in>set es. observes c' root e at gen"
    and "r \<noteq> root \<or> d \<notin> entry_digest ` set es \<Longrightarrow> obs_at c' r d = obs_at c r d"
proof -
  have "(\<forall>e\<in>set es. observes c' root e at gen) \<and>
    (r \<noteq> root \<or> d \<notin> entry_digest ` set es \<longrightarrow> obs_at c' r d = obs_at c r d)"
    using assms
  proof (induction es arbitrary: c pr r d)
    case (Cons e es)
    then obtain c1 pr1 where s: "reconcile_watch_entry cs uid root
        (List.find (\<lambda>b. obs_digest b = entry_digest e) existing) config at gen now e (c, pr) = Inr (c1, pr1)"
      "reconcile_entries cs uid root existing config at gen now es (c1, pr1) = Inr (c', pr')"
      by (auto elim!: result_elims)
    have d: "distinct (map entry_digest es)" and fresh: "entry_digest e \<notin> entry_digest ` set es"
      using Cons.prems(2) by auto
    note ih = Cons.IH[OF s(2) d]
    have "observes c' root e at gen"
      using reconcile_watch_entry_obs(1)[OF s(1)] ih[of root "entry_digest e"] fresh
      by (simp add: observes_def)
    then show ?case
      using ih[of r d] reconcile_watch_entry_obs(2)[OF s(1), of r d] by auto
  qed simp
  then show "\<forall>e\<in>set es. observes c' root e at gen"
    "r \<noteq> root \<or> d \<notin> entry_digest ` set es \<Longrightarrow> obs_at c' r d = obs_at c r d"
    by blast+
qed

section \<open>Tombstones\<close>

definition dead_at :: "catalog \<Rightarrow> pystr \<Rightarrow> pystr \<Rightarrow> bool" where
  "dead_at c r d \<longleftrightarrow> (case obs_at c r d of None \<Rightarrow> False | Some b \<Rightarrow> obs_state b = TOMBSTONED)"

lemma tombstone_missing_obs:
  assumes "tombstone_missing cs root scanned at gen now rows (c, n) = Inr (c', n')"
    and "\<forall>b\<in>set rows. obs_root b = root"
  shows "r \<noteq> root \<or> d \<in> set scanned \<or> d \<notin> obs_digest ` set rows \<longrightarrow> obs_at c' r d = obs_at c r d"
    and "obs_at c' root d = obs_at c root d \<or> dead_at c' root d"
    and "\<forall>b\<in>set rows. obs_digest b \<notin> set scanned \<longrightarrow>
      obs_state b = TOMBSTONED \<or> dead_at c' root (obs_digest b)"
proof -
  have "(r \<noteq> root \<or> d \<in> set scanned \<or> d \<notin> obs_digest ` set rows \<longrightarrow> obs_at c' r d = obs_at c r d) \<and>
    (obs_at c' root d = obs_at c root d \<or> dead_at c' root d) \<and>
    (\<forall>b\<in>set rows. obs_digest b \<notin> set scanned \<longrightarrow>
      obs_state b = TOMBSTONED \<or> dead_at c' root (obs_digest b))"
    using assms
  proof (induction rows arbitrary: c n r d)
    case (Cons row rows)
    show ?case
    proof (cases "obs_digest row \<in> set scanned \<or> obs_state row = TOMBSTONED")
      case True
      with Cons.prems have "tombstone_missing cs root scanned at gen now rows (c, n) = Inr (c', n')"
        by (auto simp: observation_from_row_def elim!: result_elims split: if_splits)
      with Cons.IH[of c n] Cons.prems(2) True show ?thesis by auto
    next
      case False
      with Cons.prems(1) obtain c1 where w: "write_watch_observation c (tombstone row at gen) = Inr c1"
        and rest: "tombstone_missing cs root scanned at gen now rows
          (append_watch_event c1 root WT_TOMBSTONED gen now (Some (obs_digest row)) None 0 0 1, n + 1) = Inr (c', n')"
        by (auto simp: observation_from_row_def make_watch_observation_def elim!: result_elims split: if_splits)
      have row: "obs_root row = root" using Cons.prems(2) by simp
      note at = write_observation_at[OF w]
      note ih = Cons.IH[OF rest]
      have ih': "(r \<noteq> root \<or> d \<in> set scanned \<or> d \<notin> obs_digest ` set rows \<longrightarrow> obs_at c' r d = obs_at c1 r d) \<and>
        (obs_at c' root d = obs_at c1 root d \<or> dead_at c' root d) \<and>
        (\<forall>b\<in>set rows. obs_digest b \<notin> set scanned \<longrightarrow>
          obs_state b = TOMBSTONED \<or> dead_at c' root (obs_digest b))" for r d
        using ih Cons.prems(2) by simp
      have here: "dead_at c1 root (obs_digest row)"
        using at[of root "obs_digest row"] row by (simp add: dead_at_def tombstone_def)
      then have "dead_at c' root (obs_digest row)"
        using ih'[of root "obs_digest row"] by (auto simp: dead_at_def)
      then show ?thesis
        using ih'[of r d] ih'[of root d] at[of r d] at[of root d] False row
        by (auto simp: tombstone_def)
    qed
  qed simp
  then show "r \<noteq> root \<or> d \<in> set scanned \<or> d \<notin> obs_digest ` set rows \<longrightarrow> obs_at c' r d = obs_at c r d"
    "obs_at c' root d = obs_at c root d \<or> dead_at c' root d"
    "\<forall>b\<in>set rows. obs_digest b \<notin> set scanned \<longrightarrow>
      obs_state b = TOMBSTONED \<or> dead_at c' root (obs_digest b)"
    by blast+
qed

section \<open>The whole reconciliation\<close>

lemma reconcile_watch_scan_Inr:
  assumes "reconcile_watch_scan cs uid c root scan now = Inr (r, c')"
  obtains w where "required_watch_root c root = Inr w" "root_updated_at w \<le> now"
    "scan_completed_at scan \<le> now" "scan_root_id scan = root"
    "if scan_complete scan
     then reconcile_complete_watch_scan cs uid c root scan w (generation w + 1) now = Inr (r, c')
     else record_incomplete_watch_scan cs c root (generation w) now = Inr (r, c')"
  using assms unfolding reconcile_watch_scan_def
  by (auto elim!: result_elims if_InrE intro!: that split: if_splits)

lemma load_watch_root_Some:
  assumes "load_watch_root cs c i = Inr (Some w)"
  shows "w \<in> set (watch_roots c)" "root_id (authority w) = i"
  using assms find_in
  by (fastforce simp: load_watch_root_def root_from_row_def split: option.splits if_splits elim!: result_elims)+

lemma updated_root:
  assumes "load_watch_root cs (append_watch_event (update_watch_root c i f) r ty g at d j e s t) i = Inr (Some w)"
    and "\<And>x. authority (f x) = authority x"
  shows "\<exists>x\<in>set (watch_roots c). w = f x"
  using load_watch_root_Some[OF assms(1)] assms(2)
  by (auto simp: update_watch_root_def set_upd_where split: if_splits)

lemma publish_Inr:
  assumes "publish_watch_reconciliation cs c root scan gen now pr = Inr (r, c')"
  shows "obs_at c' rt d = obs_at c rt d" "rec_entry_count r = length (scan_entries scan)"
    "rec_candidate_count r = candidate_count pr" "rec_stable_count r = stable_count pr"
    "rec_scheduled r = sort (scheduled pr)" "rec_tombstone_count r = tombstone_count pr"
    "rec_complete r" "jobs c' = jobs c" "targets c' = targets c"
    "\<exists>w\<in>set (watch_roots c). rec_root r = w\<lparr>generation := gen, rescan_required := backpressure pr,
       root_updated_at := now\<rparr>"
proof -
  let ?f = "\<lambda>w. w\<lparr>generation := gen, rescan_required := backpressure pr, root_updated_at := now\<rparr>"
  let ?c = "append_watch_event (update_watch_root c root ?f) root
    (if backpressure pr then BACKPRESSURE else SCAN_COMPLETED) gen now None None
    (length (scan_entries scan)) (length (scheduled pr)) (tombstone_count pr)"
  from assms obtain w where w: "load_watch_root cs ?c root = Inr (Some w)" and c': "c' = ?c"
    and r: "r = \<lparr>rec_root = w, rec_complete = True, rec_entry_count = length (scan_entries scan),
      rec_candidate_count = candidate_count pr, rec_stable_count = stable_count pr,
      rec_scheduled = sort (scheduled pr), rec_tombstone_count = tombstone_count pr\<rparr>"
    unfolding publish_watch_reconciliation_def Let_def by (elim result_elims) auto
  show "\<exists>w\<in>set (watch_roots c). rec_root r = ?f w"
    using updated_root[OF w] by (simp add: r)
qed (use assms in \<open>auto simp: publish_watch_reconciliation_def Let_def update_watch_root_def obs_at_def
      elim!: result_elims\<close>)

lemma record_incomplete_Inr:
  assumes "record_incomplete_watch_scan cs c root gen now = Inr (r, c')"
  shows "rescan_required (rec_root r)" "rec_scheduled r = []"
    "c' = append_watch_event (update_watch_root c root
       (\<lambda>w. w\<lparr>rescan_required := True, root_updated_at := now\<rparr>)) root RESCAN_REQUIRED gen now None None 0 0 0"
proof -
  let ?f = "\<lambda>w. w\<lparr>rescan_required := True, root_updated_at := now\<rparr>"
  let ?c = "append_watch_event (update_watch_root c root ?f) root RESCAN_REQUIRED gen now None None 0 0 0"
  from assms obtain w where w: "load_watch_root cs ?c root = Inr (Some w)" and c': "c' = ?c"
    and r: "rec_root r = w" "rec_scheduled r = []"
    unfolding record_incomplete_watch_scan_def Let_def by (elim result_elims) auto
  show "rescan_required (rec_root r)" using updated_root[OF w] by (auto simp: r)
  show "rec_scheduled r = []" "c' = ?c" by (fact r(2), fact c')
qed

section \<open>Counters and backpressure\<close>

definition active_jobs_of :: "pystr \<Rightarrow> watch_target \<Rightarrow> job_row list \<Rightarrow> nat" where
  "active_jobs_of root t js =
     length (filter (\<lambda>j. job_id j = tgt_job t \<and> (tgt_root t = root \<and> state j \<in> {QUEUED, RUNNING})) js)"

lemma active_count_sum:
  "active_watch_job_count c root = sum_list (map (\<lambda>t. active_jobs_of root t (jobs c)) (targets c))"
proof -
  have "length (filter (\<lambda>(t, j). tgt_job t = job_id j \<and> tgt_root t = root \<and> state j \<in> {QUEUED, RUNNING})
      (List.product ts js)) = sum_list (map (\<lambda>t. active_jobs_of root t js) ts)" for ts js
    by (induction ts) (simp_all add: active_jobs_of_def filter_map comp_def eq_commute)
  then show ?thesis by (simp add: active_watch_job_count_def)
qed

lemma one_row_per_id:
  assumes "distinct (map job_id js)"
  shows "length (filter (\<lambda>j. job_id j = i \<and> Q j) js) \<le> 1"
  using assms
proof (induction js)
  case (Cons j js)
  show ?case
  proof (cases "job_id j = i")
    case True
    then have "filter (\<lambda>j. job_id j = i \<and> Q j) js = []"
      using Cons.prems unfolding filter_empty_conv by (metis distinct.simps(2) imageI list.simps(9) set_map)
    then show ?thesis by simp
  qed (use Cons in simp)
qed simp

lemma active_jobs_of_le_1: "distinct (map job_id js) \<Longrightarrow> active_jobs_of root t js \<le> 1"
  unfolding active_jobs_of_def by (rule one_row_per_id)

lemma active_count_frame:
  "jobs c' = jobs c \<Longrightarrow> targets c' = targets c \<Longrightarrow>
     active_watch_job_count c' root = active_watch_job_count c root"
  by (simp add: active_watch_job_count_def)

lemma write_observation_frame:
  "write_watch_observation c b = Inr c' \<Longrightarrow> jobs c' = jobs c \<and> targets c' = targets c"
  by (auto simp: write_watch_observation_def Let_def split: if_splits)

lemma active_count_queue:
  assumes "watch_job_in_catalog c i key n t = Inr (r, c')" "cat_inv c"
  shows "active_watch_job_count c' root = active_watch_job_count c root"
  using assms(1)
proof (cases rule: watch_job_in_catalog_Inr)
  case queued
  have "i \<notin> job_id ` set (jobs c)"
    using queued(4) by (auto simp: put_jobs_Inr jobs_constraints_def watch_job_row_def)
  then have "tgt_job x \<noteq> i" if "x \<in> set (targets c)" for x
    using that assms(2) by (auto simp: cat_inv_def)
  then have "map (\<lambda>x. active_jobs_of root x (jobs c')) (targets c) =
      map (\<lambda>x. active_jobs_of root x (jobs c)) (targets c)"
    by (auto simp: active_jobs_of_def queued(5) watch_job_row_def)
  from arg_cong[OF this, of sum_list] show ?thesis by (simp add: active_count_sum queued(5))
qed simp

lemma active_count_create:
  assumes "create_watch_job_and_target cs c i rt e pf key n t = Inr (j, c')" "cat_inv c" "rt \<in> root_ids c"
  shows "active_watch_job_count c' root \<le> active_watch_job_count c root + 1"
  using assms(1)
proof (cases rule: create_watch_job_and_target_Inr)
  case (reused r)
  then show ?thesis using active_count_queue[OF reused(1) assms(2)] by simp
next
  case (new r c1)
  have "cat_inv c1" using grows_watch_job_in_catalog[OF new(1)] assms(2) by (simp add: grows_def)
  then have d: "distinct (map job_id (jobs c1))" by (rule cat_inv_distinct)
  show ?thesis
    using active_count_queue[OF new(1) assms(2), of root] active_jobs_of_le_1[OF d, of root]
    by (simp add: active_count_sum new(5))
qed

definition tracked :: "catalog \<Rightarrow> catalog \<Rightarrow> progress \<Rightarrow> progress \<Rightarrow> pystr \<Rightarrow> nat \<Rightarrow> nat \<Rightarrow> bool" where
  "tracked c c' pr pr' root cap n \<longleftrightarrow>
     active_watch_job_count c' root + active_count pr \<le> active_watch_job_count c root + active_count pr' \<and>
     active_count pr \<le> active_count pr' \<and> active_count pr' \<le> max (active_count pr) cap \<and>
     candidate_count pr' + stable_count pr' = candidate_count pr + stable_count pr + n \<and>
     length (scheduled pr') + active_count pr = length (scheduled pr) + active_count pr' \<and>
     length (scheduled pr') + stable_count pr \<le> length (scheduled pr) + stable_count pr' \<and>
     (backpressure pr' \<longrightarrow> backpressure pr \<or> cap \<le> active_count pr')"

lemma tracked_trans:
  assumes "tracked a b p q root cap m" "tracked b c q r root cap n"
  shows "tracked a c p r root cap (m + n)"
  using assms unfolding tracked_def by auto

lemma reconcile_watch_entry_tracked:
  assumes "reconcile_watch_entry cs uid root prev config at gen now e (c, pr) = Inr (c', pr')"
    and "cat_inv c" "root \<in> root_ids c"
  shows "tracked c c' pr pr' root (max_active_jobs config) 1"
  using assms(1)
proof (cases rule: reconcile_watch_entry_Inr)
  case (1 tr b c1 c2)
  have g: "grows c c2"
    using grows_write_observation[OF 1(4)] grows_trans[OF _ grows_append_watch_event] unfolding 1(5)
    by (auto split: option.splits)
  have same: "active_watch_job_count c2 root = active_watch_job_count c root"
    using write_observation_frame[OF 1(4)] by (intro active_count_frame) (auto simp: 1(5) split: option.splits)
  show ?thesis
  proof (cases "tr_state tr = CANDIDATE")
    case True
    with 1(6) same show ?thesis by (auto simp: tracked_def)
  next
    case False
    with 1(6) have "schedule_stable_watch_entry cs uid root e b config gen now
       (c2, pr\<lparr>stable_count := stable_count pr + 1\<rparr>) = Inr (c', pr')" by simp
    then show ?thesis
    proof (cases rule: schedule_Inr)
      case (new j c3 c4 key)
      have "active_watch_job_count c' root = active_watch_job_count c3 root"
        using write_observation_frame[OF new(4)] by (intro active_count_frame) (auto simp: new(5))
      moreover have "active_watch_job_count c3 root \<le> active_watch_job_count c2 root + 1"
        using g assms(2,3) by (intro active_count_create[OF new(3)]) (auto simp: grows_def)
      ultimately show ?thesis using same new(2) by (auto simp: tracked_def new(6))
    qed (use same in \<open>auto simp: tracked_def\<close>)
  qed
qed

lemma reconcile_entries_tracked:
  assumes "reconcile_entries cs uid root existing config at gen now es (c, pr) = Inr (c', pr')"
    and "cat_inv c" "root \<in> root_ids c"
  shows "tracked c c' pr pr' root (max_active_jobs config) (length es)"
  using assms
proof (induction es arbitrary: c pr)
  case (Cons e es)
  then obtain c1 pr1 where s: "reconcile_watch_entry cs uid root
      (List.find (\<lambda>b. obs_digest b = entry_digest e) existing) config at gen now e (c, pr) = Inr (c1, pr1)"
    "reconcile_entries cs uid root existing config at gen now es (c1, pr1) = Inr (c', pr')"
    by (auto elim!: result_elims)
  have "cat_inv c1" "root \<in> root_ids c1"
    using grows_reconcile_watch_entry[OF s(1) Cons.prems(3)] Cons.prems(2,3) by (auto simp: grows_def)
  from tracked_trans[OF reconcile_watch_entry_tracked[OF s(1) Cons.prems(2,3)] Cons.IH[OF s(2) this]]
  show ?case by simp
qed (simp add: tracked_def)

lemma required_root_mem:
  assumes "required_watch_root c root = Inr w"
  shows "w \<in> set (watch_roots c)" "root_id (authority w) = root" "root \<in> root_ids c"
  using assms find_in by (fastforce simp: required_watch_root_def root_ids_def result_simps)+

lemma tombstone_frame:
  assumes "tombstone_missing cs root scanned at gen now rows (c, n) = Inr (c', n')"
  shows "jobs c' = jobs c \<and> targets c' = targets c"
  using assms
proof (induction rows arbitrary: c n)
  case (Cons row rows)
  show ?case
  proof (cases "obs_digest row \<in> set scanned \<or> obs_state row = TOMBSTONED")
    case True
    with Cons show ?thesis by (auto simp: observation_from_row_def elim!: result_elims split: if_splits)
  next
    case False
    with Cons.prems obtain b c1 where s: "write_watch_observation c b = Inr c1"
      "tombstone_missing cs root scanned at gen now rows
         (append_watch_event c1 root WT_TOMBSTONED gen now (Some (obs_digest row)) None 0 0 1, n + 1) = Inr (c', n')"
      by (auto simp: observation_from_row_def elim!: result_elims split: if_splits)
    from Cons.IH[OF s(2)] write_observation_frame[OF s(1)] show ?thesis by simp
  qed
qed simp

lemma hints_frame:
  "jobs (append_watch_rename_hints c root hints gen now) = jobs c"
  "targets (append_watch_rename_hints c root hints gen now) = targets c"
  unfolding append_watch_rename_hints_def by (induction hints arbitrary: c) simp_all

end
