(* ===== verification/Watch_Example.thy ===== *)
theory Watch_Example
  imports Job_Steps
begin

text \<open>
  A concrete watch root: registered at time 0, scanned at time 10 with one file, which is stable at
  once and scheduled, and again at time 20, when that file is gone and another one is
  there.  The catalogs are computed by the transactions and written out once (\<open>wx0_value\<close>,
  \<open>wx1_value\<close>), so that a witness evaluates only its last step.
\<close>

section \<open>A concrete root\<close>

definition wx_cs :: "json \<Rightarrow> pystr" where
  "wx_cs j = U ''s'' @ filter (\<lambda>c. 49 \<le> c \<and> c \<le> 52) (flat j)"

definition wx_uid :: "pystr \<Rightarrow> pystr" where
  "wx_uid key = U ''j'' @ key"

definition wx_config :: watch_config where
  "wx_config = \<lparr>recursive = True, max_depth = 4, stability_ms = 0, poll_ms = 9, max_entries = 10,
     max_active_jobs = 1, max_jobs_per_cycle = 2, cfg_max_attempts = 3, retry_base_ms = 1,
     retry_max_ms = 9, text_profile = U ''t'', rich_profile = U ''r''\<rparr>"

definition wx_root :: admitted_root where
  "wx_root = (let dg = projr (watch_locator_digest wx_cs (U ''/1''))
     in \<lparr>root_id = watch_root_id wx_cs dg (U ''1'') (U ''2'') (config_hash wx_cs wx_config),
         root_path = U ''/1'', root_path_digest = dg, root_device_id = U ''1'',
         root_file_id = U ''2'', root_config = wx_config\<rparr>)"

definition wx_entry :: "string \<Rightarrow> string \<Rightarrow> scan_entry" where
  "wx_entry loc f = \<lparr>entry_locator = U loc, entry_digest = projr (watch_locator_digest wx_cs (U loc)),
     entry_fingerprint = \<lparr>device_id = U ''1'', file_id = U f, byte_length = 5, modified_ns = U ''9'', mode = 4\<rparr>,
     entry_media_type = U ''text/plain''\<rparr>"

definition wx_scan :: "int \<Rightarrow> scan_entry list \<Rightarrow> watch_scan" where
  "wx_scan t es = \<lparr>scan_root_id = root_id wx_root, scan_started_at = t, scan_completed_at = t,
     scan_complete = True, scan_reason = None, scan_entries = es\<rparr>"

definition wrun :: "cat_error + 'a \<times> catalog \<Rightarrow> catalog" where
  "wrun r = (case r of Inl _ \<Rightarrow> empty_catalog | Inr (_, c) \<Rightarrow> c)"

definition wx0 :: catalog where
  "wx0 = wrun (register_watch_root wx_cs empty_catalog wx_root 0)"

definition wx1 :: catalog where
  "wx1 = wrun (reconcile_watch_scan wx_cs wx_uid wx0 (root_id wx_root)
     (wx_scan 10 [wx_entry ''1'' ''3'']) 10)"

definition wx2 :: catalog where
  "wx2 = wrun (reconcile_watch_scan wx_cs wx_uid wx1 (root_id wx_root)
     (wx_scan 20 [wx_entry ''2'' ''4'']) 20)"

definition wx2_summary :: watch_reconciliation where
  "wx2_summary = fst (projr (reconcile_watch_scan wx_cs wx_uid wx1 (root_id wx_root)
     (wx_scan 20 [wx_entry ''2'' ''4'']) 20))"

lemma wrun_ok: "\<not> isl r \<Longrightarrow> r = Inr (fst (projr r), wrun r)"
  by (cases r) (auto simp: wrun_def)

lemmas wx_defs = wx_cs_def wx_uid_def wx_config_def wx_root_def wx_entry_def wx_scan_def
lemmas w_eval = U_def digit_ascii_def ascii_decimal_def relative_locator_ok_def watch_locator_digest_def domain_hash_def
  watch_root_id_def config_hash_def fingerprint_json_def watch_job_key_def admitted_root_valid_def
  watch_config_valid_def fingerprint_valid_def observation_valid_def watch_target_valid_def
  write_connection_def required_watch_root_def required_job_row_def root_from_row_def load_watch_root_def observation_from_row_def
  make_watch_observation_def same_observation_def write_watch_observation_def target_from_row_def
  register_watch_root_def fresh_transition_def watch_entry_transition_def group_by_def file_identity_def watch_rename_hints_def
  active_watch_job_count_def watch_job_row_def watch_job_in_catalog_def create_watch_job_and_target_def
  parser_profile_for_def schedule_stable_watch_entry_def reconcile_watch_entry_def tombstone_def tombstone_missing_watch_entries_def
  append_watch_rename_hints_def reconciliation_valid_def update_watch_root_def publish_watch_reconciliation_def
  reconcile_complete_watch_scan_def reconcile_watch_scan_def append_watch_event_def append_event_def next_sequence_def
  put_jobs_def jobs_constraints_def row_check_def active_tokens_def upd_where_def job_from_row_def job_valid_def machine_token_def
  length_between_def lower_ascii_def unique_reference_slots_def sorted_unique_def job.truncate_def map_filter_simps terminal_states_def empty_catalog_def

lemma wx_ok0: "\<not> isl (register_watch_root wx_cs empty_catalog wx_root 0)"
  by (simp add: wx_defs w_eval Let_def cong: sbind_weak_cong)

lemma wx0_value:
  "wx0 = \<lparr>jobs = [], job_events = [], objects = [],
     watch_roots =
       [\<lparr>authority =
           \<lparr>root_id = [115, 49, 49, 50], root_path = [47, 49], root_path_digest = [115, 49],
             root_device_id = [49], root_file_id = [50],
             root_config = \<lparr>recursive = True, max_depth = 4, stability_ms = 0, poll_ms = 9, max_entries = 10,
                max_active_jobs = 1, max_jobs_per_cycle = 2, cfg_max_attempts = 3, retry_base_ms = 1,
                retry_max_ms = 9, text_profile = [116], rich_profile = [114]\<rparr>\<rparr>,
         generation = 0, rescan_required = True, root_created_at = 0, root_updated_at = 0\<rparr>],
     observations = [], targets = [],
     watch_events =
       [\<lparr>we_root = [115, 49, 49, 50], we_sequence = 1, we_type = ROOT_REGISTERED, we_digest = None,
           we_job = None, we_generation = 0, we_at = 0, we_entry_count = 0,
           we_scheduled_count = 0, we_tombstone_count = 0\<rparr>],
     maintenance_active = False\<rparr>"
  by (simp add: wx0_def wx_defs w_eval Let_def wrun_def cong: sbind_weak_cong)

lemma wx_ok1: "\<not> isl (reconcile_watch_scan wx_cs wx_uid wx0 (root_id wx_root)
     (wx_scan 10 [wx_entry ''1'' ''3'']) 10)"
  by (simp add: wx0_value wx_defs w_eval Let_def wrun_def cong: sbind_weak_cong)

lemma wx1_value:
  "wx1 = \<lparr>
     jobs =
       [\<lparr>job_id = [106, 115, 49, 49, 50, 49, 49, 51],
         kind = [119, 97, 116, 99, 104, 95, 105, 110, 103, 101, 115, 116],
         deduplication_key = [115, 49, 49, 50, 49, 49, 51], state = QUEUED, attempt_count = 0,
         max_attempts = 3, revision = 0, available_at = 10, active_owner_id = None,
         lease_expires_at = None, cancellation_requested_at = None, last_failure_code = None,
         created_at = 10, updated_at = 10, terminal_at = None, references = [],
         active_lease_token_hash = None, last_transition_token_hash = None\<rparr>],
     job_events =
       [\<lparr>ev_job = [106, 115, 49, 49, 50, 49, 49, 51], ev_sequence = 1, ev_type = ENQUEUED,
         ev_from = None, ev_to = QUEUED, ev_at = 10, ev_attempt = 0, ev_owner = None,
         ev_failure = None\<rparr>],
     objects = [],
     watch_roots =
       [\<lparr>authority =
           \<lparr>root_id = [115, 49, 49, 50], root_path = [47, 49], root_path_digest = [115, 49],
             root_device_id = [49], root_file_id = [50],
             root_config = \<lparr>recursive = True, max_depth = 4, stability_ms = 0, poll_ms = 9, max_entries = 10,
                max_active_jobs = 1, max_jobs_per_cycle = 2, cfg_max_attempts = 3, retry_base_ms = 1,
                retry_max_ms = 9, text_profile = [116], rich_profile = [114]\<rparr>\<rparr>,
         generation = 1, rescan_required = False, root_created_at = 0, root_updated_at = 10\<rparr>],
     observations =
       [\<lparr>obs_root = [115, 49, 49, 50], obs_locator = [49], obs_digest = [115, 49], obs_state = STABLE,
         obs_fingerprint = Some \<lparr>device_id = [49], file_id = [51], byte_length = 5, modified_ns = [57], mode = 4\<rparr>,
         first_observed_at = 10, last_observed_at = 10, stable_since = Some 10, last_generation = 1,
         last_scheduled_key = Some [115, 49, 49, 50, 49, 49, 51], obs_revision = 1\<rparr>],
     targets =
       [\<lparr>tgt_job = [106, 115, 49, 49, 50, 49, 49, 51], tgt_root = [115, 49, 49, 50],
         tgt_locator = [49], tgt_digest = [115, 49],
         tgt_fingerprint = \<lparr>device_id = [49], file_id = [51], byte_length = 5, modified_ns = [57], mode = 4\<rparr>,
         tgt_profile = [116], tgt_key = [115, 49, 49, 50, 49, 49, 51], tgt_created_at = 10\<rparr>],
     watch_events =
       [\<lparr>we_root = [115, 49, 49, 50], we_sequence = 1, we_type = ROOT_REGISTERED, we_digest = None,
           we_job = None, we_generation = 0, we_at = 0, we_entry_count = 0,
           we_scheduled_count = 0, we_tombstone_count = 0\<rparr>,
        \<lparr>we_root = [115, 49, 49, 50], we_sequence = 2, we_type = OBSERVATION_CREATED, we_digest = Some [115, 49],
           we_job = None, we_generation = 1, we_at = 10, we_entry_count = 0,
           we_scheduled_count = 0, we_tombstone_count = 0\<rparr>,
        \<lparr>we_root = [115, 49, 49, 50], we_sequence = 3, we_type = TARGET_SCHEDULED, we_digest = Some [115, 49],
           we_job = Some [106, 115, 49, 49, 50, 49, 49, 51], we_generation = 1, we_at = 10, we_entry_count = 0,
           we_scheduled_count = 1, we_tombstone_count = 0\<rparr>,
        \<lparr>we_root = [115, 49, 49, 50], we_sequence = 4, we_type = SCAN_COMPLETED, we_digest = None,
           we_job = None, we_generation = 1, we_at = 10, we_entry_count = 1,
           we_scheduled_count = 1, we_tombstone_count = 0\<rparr>],
     maintenance_active = False\<rparr>"
  by (simp add: wx1_def wx0_value wx_defs w_eval Let_def wrun_def cong: sbind_weak_cong)

lemma wx2_values:
  "case reconcile_watch_scan wx_cs wx_uid wx1 (root_id wx_root) (wx_scan 20 [wx_entry ''2'' ''4'']) 20 of
     Inl _ \<Rightarrow> False
   | Inr (r, _) \<Rightarrow> rec_candidate_count r = 0 \<and> rec_stable_count r = 1 \<and> rec_tombstone_count r = 1 \<and>
       rec_scheduled r = [] \<and> rescan_required (rec_root r)"
  by (simp add: wx1_value wx_defs w_eval Let_def wrun_def cong: sbind_weak_cong)

lemma wx_ok2: "\<not> isl (reconcile_watch_scan wx_cs wx_uid wx1 (root_id wx_root) (wx_scan 20 [wx_entry ''2'' ''4'']) 20)"
  using wx2_values by (auto split: sum.splits)

lemmas wx_runs = wx_ok0[THEN wrun_ok, folded wx0_def] wx_ok1[THEN wrun_ok, folded wx1_def]
  wx_ok2[THEN wrun_ok, folded wx2_def wx2_summary_def]

lemma wx2_summary_values:
  "rec_candidate_count wx2_summary = 0" "rec_stable_count wx2_summary = 1"
  "rec_tombstone_count wx2_summary = 1" "rec_scheduled wx2_summary = []"
  "rescan_required (rec_root wx2_summary)"
  using wx2_values unfolding wx_runs(3) by simp_all

lemma wx_root_id: "root_id wx_root = [115, 49, 49, 50]"
  by (simp add: wx_defs w_eval Let_def)

lemma wx_digests:
  "entry_digest (wx_entry ''1'' ''3'') = [115, 49]" "entry_digest (wx_entry ''2'' ''4'') = [115, 50]"
  by (simp_all add: wx_defs w_eval)

lemma wx1_root:
  "required_watch_root wx1 (root_id wx_root) = Inr (hd (watch_roots wx1))"
  "max_active_jobs (root_config (authority (hd (watch_roots wx1)))) = 1"
  "generation (hd (watch_roots wx1)) = 1"
  "active_watch_job_count wx1 (root_id wx_root) = 1"
  by (simp_all add: wx1_value wx_root_id required_watch_root_def active_watch_job_count_def)

lemma wx_reachable: "job_reachable H wx_cs wx_uid wx1"
  using job_reachable.step[OF job_reachable.step[OF job_reachable.start
      job_step.register[OF wx_runs(1)]] job_step.reconcile[OF wx_runs(2)]] .

lemma wx_scan_fields:
  "scan_complete (wx_scan t es)" "scan_entries (wx_scan t es) = es" "scan_completed_at (wx_scan t es) = t"
  by (simp_all add: wx_scan_def)

end
