(* ===== verification/Watch_Properties.thy ===== *)
theory Watch_Properties
  imports Watch_Observations Watch_Example
begin

text \<open>
  The properties of the watcher transactions: the observations match the scan, the summary and
  the bound on active jobs, incomplete scans, the stability rule, and the retry delay.
\<close>

section \<open>Reconciliation\<close>

text \<open>
  C6.  A complete reconciliation makes the observations of the root equal to the scan: every
  scanned entry is a live observation with its fingerprint, the new generation and the time of the
  scan; every other observation of the root is a tombstone and none is lost; no observation
  of another root is touched.
\<close>

theorem reconciliation_matches_scan:
  assumes "reconcile_watch_scan cs uid c root scan now = Inr (r, c')" "scan_complete scan"
    and "distinct (map entry_digest (scan_entries scan))"
    and "required_watch_root c root = Inr w"
  shows "(\<forall>e\<in>set (scan_entries scan). observes c' root e (scan_completed_at scan) (generation w + 1)) \<and>
    (\<forall>d. d \<notin> entry_digest ` set (scan_entries scan) \<longrightarrow>
       (if obs_at c root d = None then obs_at c' root d = None else dead_at c' root d)) \<and>
    (\<forall>r' d. r' \<noteq> root \<longrightarrow> obs_at c' r' d = obs_at c r' d)"
proof -
  let ?ex = "filter (\<lambda>b. obs_root b = root) (observations c)"
  have rc: "reconcile_complete_watch_scan cs uid c root scan w (generation w + 1) now = Inr (r, c')"
    using assms(1) by (rule reconcile_watch_scan_Inr) (use assms(2,4) in auto)
  then show ?thesis
  proof (cases rule: reconcile_complete_Inr)
    case (1 hints c1 pr c2 n)
    note ent = reconcile_entries_obs[OF 1(2) assms(3)]
    have rows: "\<forall>b\<in>set (sort_key obs_digest ?ex). obs_root b = root" by simp
    note tomb = tombstone_missing_obs[OF 1(3) rows]
    have end': "obs_at c' r' d = obs_at c2 r' d" for r' d
      using publish_Inr(1)[OF 1(4)] by simp
    have "observes c' root e (scan_completed_at scan) (generation w + 1)" if "e \<in> set (scan_entries scan)" for e
      using ent(1) that tomb(1)[of root "entry_digest e"] by (auto simp: observes_def end')
    moreover have "if obs_at c root d = None then obs_at c' root d = None else dead_at c' root d"
      if d: "d \<notin> entry_digest ` set (scan_entries scan)" for d
    proof (cases "obs_at c root d")
      case None
      then have "obs_at c1 root d = None" using ent(2)[of root d] d by simp
      moreover have "d \<notin> obs_digest ` set ?ex" using None by (auto simp: obs_at_def find_None_iff)
      ultimately show ?thesis using None tomb(1)[of root d] by (simp add: end')
    next
      case (Some b)
      then have b: "b \<in> set ?ex" "obs_digest b = d" by (auto simp: obs_at_def dest: find_in)
      have "obs_at c1 root d = Some b" using ent(2)[of root d] d Some by simp
      then have "obs_state b = TOMBSTONED \<longrightarrow> dead_at c' root d"
        using tomb(2)[of d] by (auto simp: dead_at_def end')
      moreover have "obs_state b = TOMBSTONED \<or> dead_at c2 root d"
        using tomb(3) b d by auto
      ultimately show ?thesis using Some by (auto simp: dead_at_def end')
    qed
    moreover have "obs_at c' r' d = obs_at c r' d" if "r' \<noteq> root" for r' d
      using ent(2)[of r' d] tomb(1)[of r' d] that by (simp add: end')
    ultimately show ?thesis by blast
  qed
qed

theorem reconciliation_matches_scan_witness:
  "dead_at wx2 (root_id wx_root) (entry_digest (wx_entry ''1'' ''3'')) \<and>
   observes wx2 (root_id wx_root) (wx_entry ''2'' ''4'') 20 2"
proof -
  have p: "obs_at wx1 (root_id wx_root) (entry_digest (wx_entry ''1'' ''3'')) \<noteq> None"
    by (simp add: obs_at_def wx1_value wx_root_id wx_digests)
  have d: "distinct (map entry_digest (scan_entries (wx_scan 20 [wx_entry ''2'' ''4''])))"
    by (simp add: wx_scan_fields)
  note th = reconciliation_matches_scan[OF wx_runs(3) wx_scan_fields(1) d wx1_root(1),
    unfolded wx_scan_fields wx1_root(3)]
  from th have "observes wx2 (root_id wx_root) (wx_entry ''2'' ''4'') 20 (1 + 1)" by simp
  moreover have "dead_at wx2 (root_id wx_root) (entry_digest (wx_entry ''1'' ''3''))"
    using th p by (auto simp: wx_digests)
  ultimately show ?thesis by (simp add: numeral_2_eq_2)
qed

text \<open>
  C7.  The summary of a complete reconciliation adds up and the bound on active jobs holds:
  candidates and stable files are all the scanned entries, only stable files were scheduled, and the
  root has at most \<open>max_active_jobs\<close> queued or running jobs afterwards unless it had more before;
  a rescan is requested only when that bound was reached.
\<close>

theorem reconciliation_respects_backpressure:
  assumes "job_reachable H cs uid c" "reconcile_watch_scan cs uid c root scan now = Inr (r, c')"
    and "scan_complete scan" "required_watch_root c root = Inr w"
  defines "cap \<equiv> max_active_jobs (root_config (authority w))"
  shows "rec_candidate_count r + rec_stable_count r = length (scan_entries scan) \<and>
    length (rec_scheduled r) \<le> rec_stable_count r \<and>
    active_watch_job_count c' root \<le> max (active_watch_job_count c root) cap \<and>
    (rescan_required (rec_root r) \<longrightarrow> cap \<le> active_watch_job_count c root + length (rec_scheduled r))"
proof -
  note inv = job_reachable_inv[OF assms(1)]
  have "reconcile_complete_watch_scan cs uid c root scan w (generation w + 1) now = Inr (r, c')"
    using assms(2) by (rule reconcile_watch_scan_Inr) (use assms(3,4) in auto)
  then show ?thesis
  proof (cases rule: reconcile_complete_Inr)
    case (1 hints c1 pr c2 n)
    have t: "tracked c c1 \<lparr>active_count = active_watch_job_count c root, candidate_count = 0,
        stable_count = 0, tombstone_count = 0, backpressure = False, scheduled = []\<rparr> pr root cap
        (length (scan_entries scan))"
      using reconcile_entries_tracked[OF 1(2) inv required_root_mem(3)[OF assms(4)]]
      by (simp add: cap_def)
    have "active_watch_job_count c' root = active_watch_job_count c1 root"
      using publish_Inr(8,9)[OF 1(4)] hints_frame tombstone_frame[OF 1(3)]
      by (intro active_count_frame) simp_all
    moreover have "rescan_required (rec_root r) = backpressure pr"
      using publish_Inr(10)[OF 1(4)] by auto
    ultimately show ?thesis
      using t publish_Inr(3-5)[OF 1(4)] by (auto simp: tracked_def)
  qed
qed

theorem reconciliation_respects_backpressure_witness:
  "active_watch_job_count wx2 (root_id wx_root) \<le> 1 \<and> rescan_required (rec_root wx2_summary)"
  using reconciliation_respects_backpressure[OF wx_reachable wx_runs(3) wx_scan_fields(1) wx1_root(1)]
    wx1_root(2,4) wx2_summary_values(5) by simp

text \<open>
  An incomplete scan is never interpreted: it asks for a rescan and records the fact in the
  event log, but no job, observation, target or generation changes.
\<close>

lemma incomplete_scan_changes_no_observation:
  assumes "reconcile_watch_scan cs uid c root scan now = Inr (r, c')" "\<not> scan_complete scan"
    and "required_watch_root c root = Inr w"
  shows "jobs c' = jobs c \<and> job_events c' = job_events c \<and> observations c' = observations c \<and>
    targets c' = targets c \<and> rescan_required (rec_root r) \<and> rec_scheduled r = [] \<and>
    length (watch_events c') = length (watch_events c) + 1"
proof -
  have inc: "record_incomplete_watch_scan cs c root (generation w) now = Inr (r, c')"
    using assms(1) by (rule reconcile_watch_scan_Inr) (use assms(2,3) in auto)
  show ?thesis
    using record_incomplete_Inr[OF inc] by (simp add: update_watch_root_def append_watch_event_def)
qed

definition wx_partial :: watch_scan where
  "wx_partial = \<lparr>scan_root_id = root_id wx_root, scan_started_at = 20, scan_completed_at = 20,
     scan_complete = False, scan_reason = Some OVERFLOW, scan_entries = []\<rparr>"

theorem incomplete_scan_changes_no_observation_witness:
  "observations (wrun (reconcile_watch_scan wx_cs wx_uid wx1 (root_id wx_root) wx_partial 20)) = observations wx1 \<and>
   observations wx1 \<noteq> []"
proof
  have ok: "\<not> isl (reconcile_watch_scan wx_cs wx_uid wx1 (root_id wx_root) wx_partial 20)"
    by (simp add: wx_partial_def record_incomplete_watch_scan_def wx1_value wx_defs w_eval Let_def
        cong: sbind_weak_cong)
  show "observations (wrun (reconcile_watch_scan wx_cs wx_uid wx1 (root_id wx_root) wx_partial 20)) = observations wx1"
    using incomplete_scan_changes_no_observation[OF wrun_ok[OF ok] _ wx1_root(1)] by (simp add: wx_partial_def)
  show "observations wx1 \<noteq> []" by (simp add: wx1_value)
qed

section \<open>Stability and retries\<close>

text \<open>
  The stability rule, through the code's floating-point milliseconds: a live, unchanged file
  is still a candidate while it has been observed for less than \<open>stability_ms\<close>, and is stable once
  it has been observed for more; at exactly \<open>stability_ms\<close> the rounding may hold it back.
\<close>

lemma stability_rule:
  assumes "obs_state p \<noteq> TOMBSTONED" "obs_fingerprint p = Some fp"
    and "at - first_observed_at p = int us" "us < 10 ^ 15"
  shows "(us < 1000 * stability_ms config \<longrightarrow> tr_state (watch_entry_transition (Some p) fp config at) = CANDIDATE) \<and>
    (1000 * stability_ms config < us \<longrightarrow> tr_state (watch_entry_transition (Some p) fp config at) = STABLE)"
proof -
  have st: "tr_state (watch_entry_transition (Some p) fp config at) =
      (if int (stability_ms config) \<le> elapsed_ms (int us) then STABLE else CANDIDATE)"
    using assms(1-3) by (simp add: watch_entry_transition_def Let_def)
  have "us div 1000 < stability_ms config" if "us < 1000 * stability_ms config"
    using that by (simp add: less_mult_imp_div_less mult.commute)
  moreover have "stability_ms config \<le> us div 1000" "1000 dvd us \<Longrightarrow> stability_ms config \<le> us div 1000 - 1"
    if "1000 * stability_ms config < us"
    using that by auto
  ultimately show ?thesis
    using elapsed_ms_cases[OF assms(4)] unfolding st by (auto simp: not_le)
qed

theorem stability_rule_witness:
  "tr_state (watch_entry_transition (Some (hd (observations wx1))) (entry_fingerprint (wx_entry ''1'' ''3''))
     (wx_config\<lparr>stability_ms := 1001\<rparr>) 1001009) = CANDIDATE \<and>
   tr_state (watch_entry_transition (Some (hd (observations wx1))) (entry_fingerprint (wx_entry ''1'' ''3''))
     (wx_config\<lparr>stability_ms := 1001\<rparr>) 1001011) = STABLE"
proof -
  let ?p = "hd (observations wx1)"
  have p: "obs_state ?p \<noteq> TOMBSTONED" "obs_fingerprint ?p = Some (entry_fingerprint (wx_entry ''1'' ''3''))"
    "first_observed_at ?p = 10"
    by (simp_all add: wx1_value wx_entry_def str_simps)
  show ?thesis
    using stability_rule[OF p(1,2), of 1001009 1000999 "wx_config\<lparr>stability_ms := 1001\<rparr>"]
      stability_rule[OF p(1,2), of 1001011 1001001 "wx_config\<lparr>stability_ms := 1001\<rparr>"] p(3)
    by simp
qed

text \<open>At the boundary: 1.001 seconds are reported as 1000 milliseconds.\<close>

lemma elapsed_ms_short: "elapsed_ms 1001000 = 1000"
proof -
  have "scale_up 1001000 1000000 = 52" by (simp add: scale_up.simps)
  then have a: "fl (1001000, 1000000) = (4508103226997866, 2 ^ 52)"
    by (simp add: fl_def round_half_even_def)
  have "scale_up (4508103226997866 * 1000) (2 ^ 52) = 43" by (simp add: scale_up.simps)
  then have "fl (4508103226997866 * 1000, 2 ^ 52) = (8804889115230207, 2 ^ 43)"
    by (simp add: fl_def round_half_even_def)
  with a show ?thesis by (auto simp: elapsed_ms_def fdiv_def fmul_def ftrunc_def)
qed

text \<open>
  The retry delay of a valid configuration is defined for exactly the configured attempts,
  stays between the base and the cap, and never shrinks from one attempt to the next.
\<close>

lemma retry_delay_is_bounded_and_monotone:
  assumes "watch_config_valid config"
  shows "((\<exists>d. watch_retry_delay_ms config n = Inr d) \<longleftrightarrow> 1 \<le> n \<and> n \<le> int (cfg_max_attempts config)) \<and>
    (\<forall>d. watch_retry_delay_ms config n = Inr d \<longrightarrow> retry_base_ms config \<le> d \<and> d \<le> retry_max_ms config) \<and>
    (\<forall>m d d'. watch_retry_delay_ms config n = Inr d \<and> watch_retry_delay_ms config m = Inr d' \<and> n \<le> m \<longrightarrow> d \<le> d')"
proof (intro conjI allI impI)
  show "(\<exists>d. watch_retry_delay_ms config n = Inr d) \<longleftrightarrow> 1 \<le> n \<and> n \<le> int (cfg_max_attempts config)"
    by (simp add: watch_retry_delay_Inr_iff)
qed (use watch_retry_delay_bounds[OF assms] watch_retry_delay_mono in blast)+

theorem retry_delay_is_bounded_and_monotone_witness:
  "watch_retry_delay_ms wx_config 3 = Inr 4 \<and> 1 \<le> (4::nat) \<and> (4::nat) \<le> 9 \<and>
   (\<exists>d. watch_retry_delay_ms wx_config 2 = Inr d \<and> d \<le> 4)"
proof -
  have v: "watch_config_valid wx_config" by (simp add: wx_config_def watch_config_valid_def str_simps)
  have d: "watch_retry_delay_ms wx_config 3 = Inr 4" "retry_base_ms wx_config = 1" "retry_max_ms wx_config = 9"
    "cfg_max_attempts wx_config = 3"
    by (simp_all add: watch_retry_delay_ms_def wx_config_def)
  from retry_delay_is_bounded_and_monotone[OF v, of 2] d obtain e
    where e: "watch_retry_delay_ms wx_config 2 = Inr e" by auto
  then have "e \<le> 4"
    using retry_delay_is_bounded_and_monotone[OF v, of 2] d(1) by fastforce
  then show ?thesis using retry_delay_is_bounded_and_monotone[OF v, of 3] d e by auto
qed

section \<open>Scheduling the same request twice\<close>

text \<open>
  A watch job has one target for ever: once a target row exists for a job identity, asking for
  the same identity at any other instant is refused, because the target's creation time is
  compared with the rest.  A file that disappears and returns with the same fingerprint yields the
  same identity, so from then on every reconciliation of its root fails.
\<close>

lemma target_is_never_rescheduled:
  assumes "t \<in> set (targets c)" "tgt_job t = i" "distinct (map tgt_job (targets c))"
    and "tgt_created_at t \<noteq> now"
  shows "isl (create_watch_job_and_target cs c i root e profile key attempts now)"
proof -
  have "create_watch_job_and_target cs c i root e profile key attempts now \<noteq> Inr (j, c')" for j c'
  proof
    assume "create_watch_job_and_target cs c i root e profile key attempts now = Inr (j, c')"
    then show False
      using find_unique[OF assms(3,1)] assms(2,4)
      by (cases rule: create_watch_job_and_target_Inr) (auto simp: watch_job_in_catalog_row(2))
  qed
  then show ?thesis by (metis isl_def old.prod.exhaust sum.exhaust)
qed

theorem target_is_never_rescheduled_witness:
  "isl (create_watch_job_and_target wx_cs wx1 [106, 115, 49, 49, 50, 49, 49, 51] (root_id wx_root)
     (wx_entry ''1'' ''3'') [116] [115, 49, 49, 50, 49, 49, 51] 3 30)"
  by (rule target_is_never_rescheduled[of "hd (targets wx1)"]) (simp_all add: wx1_value)

definition wx_cancelled :: catalog where
  "wx_cancelled = wrun (request_job_cancellation wx1 [106, 115, 49, 49, 50, 49, 49, 51] 15)"

definition wx_gone :: catalog where
  "wx_gone = wrun (reconcile_watch_scan wx_cs wx_uid wx_cancelled (root_id wx_root) (wx_scan 20 []) 20)"

lemma unchanged_file_cannot_return:
  "reconcile_watch_scan wx_cs wx_uid wx_gone (root_id wx_root) (wx_scan 30 [wx_entry ''1'' ''3'']) 30 =
     Inl (JobConflict ''watch target identity has conflicting immutable facts'')"
  by (simp add: wx_gone_def wx_cancelled_def wx1_value wx_defs w_eval request_job_cancellation_def
      assert_transition_time_def cancelled_queued_row_def append_watch_job_outcome_def
      visible_job_def load_job_def Let_def wrun_def cong: sbind_weak_cong)

end
