(* ===== verification/Watch_Service.thy ===== *)
theory Watch_Service
  imports Job_Steps
begin

text \<open>
  The foreground watcher of \<open>services/watcher.py\<close>.  The service sees the catalog through the port
  \<open>WatchRuntimeCatalog\<close> (\<open>ports/watcher.py\<close>): \<open>watch_port\<close> is a record of operations on a store of
  any type.  A port call that raises has rolled back, but what earlier calls did stays, so a
  computation of the service is a function from the world to an exception or a value and the new
  world.  The scanner, the ingestion runner, the clock and the two factories are the environment
  \<open>watch_env\<close>; during an ingestion other processes may change the store.
\<close>

section \<open>Exceptions and the world\<close>

datatype svc_exn =
    CatalogExn cat_error | WatchTargetChanged | WatchCancellationObserved
  | WatchRetryableIngestion | WatchPermanentIngestion | OtherExn

record 's world =
  store :: 's
  ticks :: nat
  draws :: nat

type_synonym ('s, 'a) service = "'s world \<Rightarrow> (svc_exn + 'a) \<times> 's world"

definition ret :: "'a \<Rightarrow> ('s, 'a) service" where
  "ret x w = (Inr x, w)"

definition raise :: "svc_exn \<Rightarrow> ('s, 'a) service" where
  "raise e w = (Inl e, w)"

definition seq :: "('s, 'a) service \<Rightarrow> ('a \<Rightarrow> ('s, 'b) service) \<Rightarrow> ('s, 'b) service" where
  "seq m f w = (case m w of (Inl e, w') \<Rightarrow> (Inl e, w') | (Inr x, w') \<Rightarrow> f x w')"

definition of_sum :: "svc_exn + 'a \<Rightarrow> ('s, 'a) service" where
  "of_sum r w = (r, w)"

section \<open>The port and the environment\<close>

type_synonym ('s, 'a) port_call = "'s \<Rightarrow> cat_error + 'a \<times> 's"

record 's watch_port =
  p_register :: "admitted_root \<Rightarrow> int \<Rightarrow> ('s, watch_root) port_call"
  p_recover :: "int \<Rightarrow> ('s, recovery_result) port_call"
  p_reconcile :: "pystr \<Rightarrow> watch_scan \<Rightarrow> int \<Rightarrow> ('s, watch_reconciliation) port_call"
  p_claim :: "pystr \<Rightarrow> pystr \<Rightarrow> pystr \<Rightarrow> int \<Rightarrow> int \<Rightarrow> ('s, job option) port_call"
  p_complete :: "pystr \<Rightarrow> pystr \<Rightarrow> pystr \<Rightarrow> nat \<Rightarrow> int \<Rightarrow> ('s, job) port_call"
  p_fail :: "pystr \<Rightarrow> pystr \<Rightarrow> pystr \<Rightarrow> nat \<Rightarrow> int \<Rightarrow> bool \<Rightarrow> pystr \<Rightarrow> int option \<Rightarrow> ('s, job) port_call"
  p_acknowledge :: "pystr \<Rightarrow> pystr \<Rightarrow> pystr \<Rightarrow> nat \<Rightarrow> int \<Rightarrow> ('s, job) port_call"
  p_get_job :: "'s \<Rightarrow> pystr \<Rightarrow> cat_error + job option"
  p_get_root :: "'s \<Rightarrow> pystr \<Rightarrow> cat_error + watch_root option"
  p_get_target :: "'s \<Rightarrow> pystr \<Rightarrow> cat_error + watch_target option"

record 's watch_env =
  env_clock :: "nat \<Rightarrow> int"
  env_owner :: "nat \<Rightarrow> pystr"
  env_token :: "nat \<Rightarrow> pystr"
  env_admit :: "pystr \<Rightarrow> watch_config \<Rightarrow> svc_exn + admitted_root"
  env_scan :: "admitted_root \<Rightarrow> int \<Rightarrow> int \<Rightarrow> svc_exn + watch_scan"
  env_revalidate :: "admitted_root \<Rightarrow> watch_target \<Rightarrow> svc_exn + pystr"
  env_ingest :: "nat \<Rightarrow> pystr \<Rightarrow> pystr \<Rightarrow> 's \<Rightarrow> (svc_exn + unit) \<times> 's"

definition call :: "('s, 'a) port_call \<Rightarrow> ('s, 'a) service" where
  "call op w = (case op (store w) of Inl e \<Rightarrow> (Inl (CatalogExn e), w)
     | Inr (x, s) \<Rightarrow> (Inr x, w\<lparr>store := s\<rparr>))"

definition look :: "('s \<Rightarrow> cat_error + 'a) \<Rightarrow> ('s, 'a) service" where
  "look op w = (case op (store w) of Inl e \<Rightarrow> (Inl (CatalogExn e), w) | Inr x \<Rightarrow> (Inr x, w))"

definition clock :: "'s watch_env \<Rightarrow> ('s, int) service" where
  "clock E w = (Inr (env_clock E (ticks w)), w\<lparr>ticks := ticks w + 1\<rparr>)"

definition draw_identity :: "'s watch_env \<Rightarrow> ('s, pystr \<times> pystr) service" where
  "draw_identity E w = (Inr (env_owner E (draws w), env_token E (draws w)), w\<lparr>draws := draws w + 1\<rparr>)"

definition ingest :: "'s watch_env \<Rightarrow> pystr \<Rightarrow> pystr \<Rightarrow> ('s, unit) service" where
  "ingest E path profile w =
     (case env_ingest E (ticks w) path profile (store w) of (r, s) \<Rightarrow> (r, w\<lparr>store := s\<rparr>))"

section \<open>One job\<close>

definition job_lease :: int where
  "job_lease = 5 * 60 * 1000000"

definition required_job :: "'s watch_port \<Rightarrow> pystr \<Rightarrow> ('s, job) service" where
  "required_job P i = seq (look (\<lambda>s. p_get_job P s i)) (\<lambda>j.
     case j of None \<Rightarrow> raise WatchPermanentIngestion | Some j' \<Rightarrow> ret j')"

definition acknowledge :: "'s watch_port \<Rightarrow> 's watch_env \<Rightarrow> pystr \<Rightarrow> pystr \<Rightarrow> pystr \<Rightarrow> job \<Rightarrow> ('s, job) service" where
  "acknowledge P E i owner token current = seq (clock E) (\<lambda>now.
     call (p_acknowledge P i owner token (revision current) now))"

definition fail_watch_job ::
  "'s watch_port \<Rightarrow> 's watch_env \<Rightarrow> watch_config \<Rightarrow> pystr \<Rightarrow> pystr \<Rightarrow> pystr \<Rightarrow> bool \<Rightarrow> pystr \<Rightarrow> ('s, job) service" where
  "fail_watch_job P E config i owner token retryable code =
     seq (required_job P i) (\<lambda>current.
     if cancellation_requested_at current \<noteq> None then acknowledge P E i owner token current
     else seq (clock E) (\<lambda>now.
       seq (if retryable
            then (case watch_retry_delay_ms config (int (attempt_count current)) of
                    Inl _ \<Rightarrow> raise OtherExn
                  | Inr ms \<Rightarrow> ret (Some (now + int ms * 1000)))
            else ret None) (\<lambda>retry_at.
       call (p_fail P i owner token (revision current) now retryable code retry_at))))"

definition raise_if_cancelled ::
  "'s watch_port \<Rightarrow> 's watch_env \<Rightarrow> pystr \<Rightarrow> pystr \<Rightarrow> pystr \<Rightarrow> ('s, unit) service" where
  "raise_if_cancelled P E i owner token =
     seq (required_job P i) (\<lambda>current.
     if cancellation_requested_at current = None then ret ()
     else seq (acknowledge P E i owner token current) (\<lambda>_. raise WatchCancellationObserved))"

definition attempt ::
  "'s watch_port \<Rightarrow> 's watch_env \<Rightarrow> pystr \<Rightarrow> pystr \<Rightarrow> pystr \<Rightarrow> pystr \<Rightarrow> ('s, job) service" where
  "attempt P E root i owner token =
     seq (look (\<lambda>s. p_get_target P s i)) (\<lambda>target.
     seq (look (\<lambda>s. p_get_root P s root)) (\<lambda>r.
     case (target, r) of
       (Some t, Some rt) \<Rightarrow>
         if tgt_root t \<noteq> root then raise WatchPermanentIngestion
         else
           seq (of_sum (env_revalidate E (authority rt) t)) (\<lambda>path.
           seq (raise_if_cancelled P E i owner token) (\<lambda>_.
           seq (ingest E path (tgt_profile t)) (\<lambda>_.
           seq (required_job P i) (\<lambda>current.
           if cancellation_requested_at current \<noteq> None then acknowledge P E i owner token current
           else seq (clock E) (\<lambda>now. call (p_complete P i owner token (revision current) now))))))
     | _ \<Rightarrow> raise WatchPermanentIngestion))"

definition handle ::
  "'s watch_port \<Rightarrow> 's watch_env \<Rightarrow> watch_config \<Rightarrow> pystr \<Rightarrow> pystr \<Rightarrow> pystr \<Rightarrow> svc_exn \<Rightarrow> ('s, job) service" where
  "handle P E config i owner token e =
     (case e of
        WatchCancellationObserved \<Rightarrow>
          seq (required_job P i) (\<lambda>current. acknowledge P E i owner token current)
      | WatchTargetChanged \<Rightarrow> fail_watch_job P E config i owner token True (U ''source_changed'')
      | WatchRetryableIngestion \<Rightarrow> fail_watch_job P E config i owner token True (U ''source_changed'')
      | WatchPermanentIngestion \<Rightarrow> fail_watch_job P E config i owner token False (U ''ingestion_failed'')
      | OtherExn \<Rightarrow> fail_watch_job P E config i owner token False (U ''ingestion_failed'')
      | CatalogExn c \<Rightarrow>
          (case c of
             InvalidJobTransition _ \<Rightarrow>
               seq (required_job P i) (\<lambda>current.
               if state current = CANCELLED then ret current
               else if cancellation_requested_at current \<noteq> None then acknowledge P E i owner token current
               else raise e)
           | LeaseConflict _ \<Rightarrow>
               seq (required_job P i) (\<lambda>current.
               if state current = CANCELLED then ret current
               else if cancellation_requested_at current \<noteq> None then acknowledge P E i owner token current
               else raise e)
           | _ \<Rightarrow> fail_watch_job P E config i owner token False (U ''ingestion_failed'')))"

definition try_except :: "('s, 'a) service \<Rightarrow> (svc_exn \<Rightarrow> ('s, 'a) service) \<Rightarrow> ('s, 'a) service" where
  "try_except m h w = (case m w of (Inl e, w') \<Rightarrow> h e w' | (Inr x, w') \<Rightarrow> (Inr x, w'))"

definition run_one ::
  "'s watch_port \<Rightarrow> 's watch_env \<Rightarrow> pystr \<Rightarrow> watch_config \<Rightarrow> ('s, (pystr \<times> job_state) option) service" where
  "run_one P E root config =
     seq (draw_identity E) (\<lambda>(owner, token).
     seq (clock E) (\<lambda>now.
     seq (call (p_claim P root owner token now (now + job_lease))) (\<lambda>lease.
     case lease of
       None \<Rightarrow> ret None
     | Some j \<Rightarrow>
         seq (try_except (attempt P E root (job_id j) owner token) (handle P E config (job_id j) owner token))
           (\<lambda>terminal. ret (Some (job_id j, state terminal))))))"

section \<open>One cycle\<close>

record cycle_result =
  cyc_reconciliation :: watch_reconciliation
  cyc_recovery :: recovery_result
  cyc_succeeded :: "pystr list"
  cyc_retried :: "pystr list"
  cyc_failed :: "pystr list"
  cyc_cancelled :: "pystr list"

fun groups_disjoint :: "pystr list list \<Rightarrow> pystr set \<Rightarrow> bool" where
  "groups_disjoint [] seen = True"
| "groups_disjoint (g # gs) seen =
     (sorted_unique g \<and> seen \<inter> set g = {} \<and> groups_disjoint gs (seen \<union> set g))"

definition cycle_result_valid :: "cycle_result \<Rightarrow> bool" where
  "cycle_result_valid r \<longleftrightarrow>
     groups_disjoint [cyc_succeeded r, cyc_retried r, cyc_failed r, cyc_cancelled r] {}"

fun run_jobs ::
  "'s watch_port \<Rightarrow> 's watch_env \<Rightarrow> pystr \<Rightarrow> watch_config \<Rightarrow> nat \<Rightarrow> ('s, (pystr \<times> job_state) list) service" where
  "run_jobs P E root config 0 = ret []"
| "run_jobs P E root config (Suc n) =
     seq (run_one P E root config) (\<lambda>outcome.
       case outcome of
         None \<Rightarrow> ret []
       | Some x \<Rightarrow> seq (run_jobs P E root config n) (\<lambda>xs. ret (x # xs)))"

definition outcome_ids :: "(job_state \<Rightarrow> bool) \<Rightarrow> (pystr \<times> job_state) list \<Rightarrow> pystr list" where
  "outcome_ids p xs = sort (map fst (filter (\<lambda>x. p (snd x)) xs))"

definition cycle_report ::
  "watch_reconciliation \<Rightarrow> recovery_result \<Rightarrow> (pystr \<times> job_state) list \<Rightarrow> cycle_result" where
  "cycle_report reconciliation recovery outcomes =
     \<lparr>cyc_reconciliation = reconciliation, cyc_recovery = recovery,
      cyc_succeeded = outcome_ids (\<lambda>s. s = SUCCEEDED) outcomes,
      cyc_retried = outcome_ids (\<lambda>s. s = QUEUED) outcomes,
      cyc_failed = outcome_ids (\<lambda>s. s \<notin> {SUCCEEDED, QUEUED, CANCELLED}) outcomes,
      cyc_cancelled = outcome_ids (\<lambda>s. s = CANCELLED) outcomes\<rparr>"

definition run_cycle ::
  "'s watch_port \<Rightarrow> 's watch_env \<Rightarrow> pystr \<Rightarrow> watch_config \<Rightarrow> ('s, cycle_result) service" where
  "run_cycle P E path config =
     seq (of_sum (env_admit E path config)) (\<lambda>admitted.
     seq (clock E) (\<lambda>registered_at.
     seq (call (p_register P admitted registered_at)) (\<lambda>registered.
     seq (clock E) (\<lambda>recover_at.
     seq (call (p_recover P recover_at)) (\<lambda>recovery.
     seq (clock E) (\<lambda>started_at.
     seq (of_sum (env_scan E (authority registered) started_at started_at)) (\<lambda>scan.
     seq (clock E) (\<lambda>completed_at.
     if completed_at < started_at then raise (CatalogExn (InvalidJobTransition ''watch scan clock moved backward''))
     else if completed_at < scan_started_at scan then raise OtherExn
     else
       seq (clock E) (\<lambda>now.
       seq (call (p_reconcile P (root_id (authority registered)) (scan\<lparr>scan_completed_at := completed_at\<rparr>) now))
         (\<lambda>reconciliation.
       seq (run_jobs P E (root_id (authority registered)) config (max_jobs_per_cycle config)) (\<lambda>outcomes.
       let r = cycle_report reconciliation recovery outcomes
       in if cycle_result_valid r then ret r else raise OtherExn)))))))))))"

section \<open>The SQLite catalog behind the port\<close>

definition sqlite_port ::
  "(pystr \<Rightarrow> pystr) \<Rightarrow> (json \<Rightarrow> pystr) \<Rightarrow> (pystr \<Rightarrow> pystr) \<Rightarrow> catalog watch_port" where
  "sqlite_port H cs uid =
     \<lparr>p_register = (\<lambda>root now c. register_watch_root cs c root now),
      p_recover = (\<lambda>now c. recover_expired_jobs c now),
      p_reconcile = (\<lambda>root scan now c. reconcile_watch_scan cs uid c root scan now),
      p_claim = (\<lambda>root owner tok now until c. claim_watch_job H c root owner tok now until),
      p_complete = (\<lambda>i owner tok er now c. complete_job H c i owner tok er now),
      p_fail = (\<lambda>i owner tok er now rt code ra c. fail_job H c i owner tok er now rt code ra),
      p_acknowledge = (\<lambda>i owner tok er now c. acknowledge_job_cancellation H c i owner tok er now),
      p_get_job = get_job, p_get_root = get_watch_root cs, p_get_target = get_watch_target cs\<rparr>"

end
