(* ===== verification/Watch_Worker.thy ===== *)
theory Watch_Worker
  imports Watch_Service
begin

text \<open>
  The contract between the watcher service and the catalog behind its port.  \<open>job_port\<close> states
  what a successful terminal transition promises about the store; \<open>guarded_port\<close> adds an
  invariant that every operation keeps.  What the service guarantees is proved once from the
  contract and holds for the SQLite catalog by interpretation.
\<close>

section \<open>Computations of the service\<close>

lemma seq_Inr:
  assumes "seq m f w = (Inr y, w')"
  obtains x w1 where "m w = (Inr x, w1)" "f x w1 = (Inr y, w')"
  using assms by (auto simp: seq_def split: prod.splits sum.splits)

lemma seq_any:
  assumes "seq m f w = (r, w')"
  obtains (stop) e where "m w = (Inl e, w')" "r = Inl e"
  | (go) x w1 where "m w = (Inr x, w1)" "f x w1 = (r, w')"
  using assms by (auto simp: seq_def split: prod.splits sum.splits)

definition settles :: "'s watch_port \<Rightarrow> pystr \<Rightarrow> ('s, job) service \<Rightarrow> bool" where
  "settles P i m \<longleftrightarrow> (\<forall>w j w'. m w = (Inr j, w') \<longrightarrow>
     p_get_job P (store w') i = Inr (Some j) \<and> state j \<noteq> RUNNING)"

definition keeps :: "('s \<Rightarrow> bool) \<Rightarrow> ('s, 'a) service \<Rightarrow> bool" where
  "keeps I m \<longleftrightarrow> (\<forall>w r w'. I (store w) \<longrightarrow> m w = (r, w') \<longrightarrow> I (store w'))"

named_theorems settle_rules
named_theorems keep_rules

lemma settles_raise [settle_rules]: "settles P i (raise e)"
  by (simp add: settles_def raise_def)

lemma settles_seq [settle_rules]: "(\<And>x. settles P i (f x)) \<Longrightarrow> settles P i (seq m f)"
  unfolding settles_def by (blast elim: seq_Inr)

lemma settles_try [settle_rules]:
  "settles P i m \<Longrightarrow> (\<And>e. settles P i (h e)) \<Longrightarrow> settles P i (try_except m h)"
  unfolding settles_def try_except_def by (auto split: prod.splits sum.splits)

lemma keeps_simple [keep_rules]:
  "keeps I (ret x)" "keeps I (raise e)" "keeps I (of_sum r)" "keeps I (clock E)"
  "keeps I (draw_identity E)" "keeps I (look op)"
  by (auto simp: keeps_def ret_def raise_def of_sum_def clock_def draw_identity_def look_def split: sum.splits)

lemma keeps_seq [keep_rules]: "keeps I m \<Longrightarrow> (\<And>x. keeps I (f x)) \<Longrightarrow> keeps I (seq m f)"
  unfolding keeps_def by (metis seq_any)

lemma keeps_try [keep_rules]:
  assumes "keeps I m" "\<And>e. keeps I (h e)"
  shows "keeps I (try_except m h)"
  unfolding keeps_def
proof (intro allI impI)
  fix w r w'
  assume I: "I (store w)" and run: "try_except m h w = (r, w')"
  obtain r1 w1 where m: "m w = (r1, w1)" by fastforce
  then have I1: "I (store w1)" using assms(1) I unfolding keeps_def by blast
  show "I (store w')"
  proof (cases r1)
    case (Inl e)
    then have "h e w1 = (r, w')" using run m by (simp add: try_except_def)
    then show ?thesis using assms(2) I1 unfolding keeps_def by blast
  qed (use run m I1 in \<open>simp add: try_except_def\<close>)
qed

lemma keeps_call:
  "(\<And>s x s'. I s \<Longrightarrow> op s = Inr (x, s') \<Longrightarrow> I s') \<Longrightarrow> keeps I (call op)"
  by (auto simp: keeps_def call_def split: sum.splits)

lemma keeps_ingest:
  "(\<And>n p f s r s'. I s \<Longrightarrow> env_ingest E n p f s = (r, s') \<Longrightarrow> I s') \<Longrightarrow> keeps I (ingest E path profile)"
  by (auto simp: keeps_def ingest_def split: prod.splits)

section \<open>The contract of the port\<close>

locale job_port =
  fixes P :: "'s watch_port"
  assumes get_id: "p_get_job P s i = Inr (Some j) \<Longrightarrow> job_id j = i"
    and completed: "p_complete P i owner tok er now s = Inr (j, s') \<Longrightarrow>
      p_get_job P s' i = Inr (Some j) \<and> state j = SUCCEEDED"
    and failed: "p_fail P i owner tok er now rt code ra s = Inr (j, s') \<Longrightarrow>
      p_get_job P s' i = Inr (Some j) \<and> state j \<in> {QUEUED, FAILED}"
    and acknowledged: "p_acknowledge P i owner tok er now s = Inr (j, s') \<Longrightarrow>
      p_get_job P s' i = Inr (Some j) \<and> state j = CANCELLED"
begin

lemma settles_complete: "settles P i (call (p_complete P i owner tok er now))"
  using completed by (auto simp: settles_def call_def split: sum.splits)

lemma settles_fail: "settles P i (call (p_fail P i owner tok er now rt code ra))"
  using failed by (fastforce simp: settles_def call_def split: sum.splits)

lemma settles_acknowledge: "settles P i (acknowledge P E i owner tok current)"
  unfolding acknowledge_def
  by (rule settles_seq) (use acknowledged in \<open>auto simp: settles_def call_def split: sum.splits\<close>)

lemma settles_fail_job: "settles P i (fail_watch_job P E config i owner tok rt code)"
  unfolding fail_watch_job_def
  by (intro settle_rules) (auto intro!: settle_rules settles_acknowledge settles_fail)

lemma settles_attempt: "settles P i (attempt P E root i owner tok)"
  unfolding attempt_def
  by (intro settle_rules)
     (auto intro!: settle_rules settles_acknowledge settles_complete split: option.splits)

lemma settles_current:
  "settles P i (seq (required_job P i) (\<lambda>current.
     if state current = CANCELLED then ret current
     else if cancellation_requested_at current \<noteq> None then acknowledge P E i owner tok current
     else raise e))"
  unfolding settles_def
proof (intro allI impI)
  fix w j w'
  assume run: "seq (required_job P i) (\<lambda>current.
     if state current = CANCELLED then ret current
     else if cancellation_requested_at current \<noteq> None then acknowledge P E i owner tok current
     else raise e) w = (Inr j, w')"
  then obtain current w1 where c: "required_job P i w = (Inr current, w1)"
    and rest: "(if state current = CANCELLED then ret current
     else if cancellation_requested_at current \<noteq> None then acknowledge P E i owner tok current
     else raise e) w1 = (Inr j, w')" by (rule seq_Inr)
  have "p_get_job P (store w1) i = Inr (Some current)"
    using c by (auto simp: required_job_def seq_def look_def ret_def raise_def split: prod.splits sum.splits option.splits)
  then show "p_get_job P (store w') i = Inr (Some j) \<and> state j \<noteq> RUNNING"
    using rest settles_acknowledge by (auto simp: ret_def raise_def settles_def split: if_splits)
qed

lemma settles_handle: "settles P i (handle P E config i owner tok e)"
proof (cases e)
  case (CatalogExn c)
  then show ?thesis
    using settles_current settles_fail_job by (cases c) (simp_all add: handle_def)
qed (simp_all add: handle_def settles_fail_job settle_rules settles_acknowledge)

lemma run_one_durable:
  assumes "run_one P E root config w = (Inr (Some (i, st)), w')"
  shows "\<exists>j. p_get_job P (store w') i = Inr (Some j) \<and> job_id j = i \<and> state j = st \<and> st \<noteq> RUNNING"
proof -
  from assms have "\<exists>owner tok (j :: job) t w2. try_except (attempt P E root (job_id j) owner tok)
      (handle P E config (job_id j) owner tok) w2 = (Inr t, w') \<and> i = job_id j \<and> st = state t"
    unfolding run_one_def
    by (auto elim!: seq_Inr simp: ret_def split: option.splits) blast
  then obtain owner tok t w2 and j :: job where t: "try_except (attempt P E root (job_id j) owner tok)
      (handle P E config (job_id j) owner tok) w2 = (Inr t, w')" "i = job_id j" "st = state t"
    by blast
  have "settles P i (try_except (attempt P E root i owner tok) (handle P E config i owner tok))"
    by (intro settle_rules settles_attempt settles_handle)
  then show ?thesis using t get_id unfolding settles_def by blast
qed

end

locale guarded_port = job_port P for P :: "'s watch_port" +
  fixes I :: "'s \<Rightarrow> bool"
  assumes keep_register: "I s \<Longrightarrow> p_register P root now s = Inr (w, s') \<Longrightarrow> I s'"
    and keep_recover: "I s \<Longrightarrow> p_recover P now s = Inr (res, s') \<Longrightarrow> I s'"
    and keep_reconcile: "I s \<Longrightarrow> p_reconcile P rt scan now s = Inr (rc, s') \<Longrightarrow> I s'"
    and keep_claim: "I s \<Longrightarrow> p_claim P rt owner tok now until s = Inr (oj, s') \<Longrightarrow> I s'"
    and keep_complete: "I s \<Longrightarrow> p_complete P i owner tok er now s = Inr (j, s') \<Longrightarrow> I s'"
    and keep_fail: "I s \<Longrightarrow> p_fail P i owner tok er now retry code ra s = Inr (j, s') \<Longrightarrow> I s'"
    and keep_acknowledge: "I s \<Longrightarrow> p_acknowledge P i owner tok er now s = Inr (j, s') \<Longrightarrow> I s'"
begin

lemma keeps_calls:
  "keeps I (call (p_register P root now))" "keeps I (call (p_recover P now))"
  "keeps I (call (p_reconcile P rt scan now))" "keeps I (call (p_claim P rt owner tok now until))"
  "keeps I (call (p_complete P i owner tok er now))"
  "keeps I (call (p_fail P i owner tok er now retry code ra))"
  "keeps I (call (p_acknowledge P i owner tok er now))"
proof -
  note k = keep_register keep_recover keep_reconcile keep_claim keep_complete keep_fail keep_acknowledge
  show "keeps I (call (p_register P root now))" by (rule keeps_call) (rule k(1))
  show "keeps I (call (p_recover P now))" by (rule keeps_call) (rule k(2))
  show "keeps I (call (p_reconcile P rt scan now))" by (rule keeps_call) (rule k(3))
  show "keeps I (call (p_claim P rt owner tok now until))" by (rule keeps_call) (rule k(4))
  show "keeps I (call (p_complete P i owner tok er now))" by (rule keeps_call) (rule k(5))
  show "keeps I (call (p_fail P i owner tok er now retry code ra))" by (rule keeps_call) (rule k(6))
  show "keeps I (call (p_acknowledge P i owner tok er now))" by (rule keeps_call) (rule k(7))
qed

lemma keeps_required: "keeps I (required_job P i)"
  unfolding required_job_def by (auto intro!: keep_rules split: option.splits)

lemma keeps_acknowledge: "keeps I (acknowledge P E i owner tok current)"
  unfolding acknowledge_def by (intro keep_rules keeps_calls)

lemma keeps_fail_job: "keeps I (fail_watch_job P E config i owner tok retry code)"
  unfolding fail_watch_job_def
  by (auto intro!: keep_rules keeps_required keeps_acknowledge keeps_calls split: sum.splits)

lemma keeps_current:
  "keeps I (seq (required_job P i) (\<lambda>current.
     if state current = CANCELLED then ret current
     else if cancellation_requested_at current \<noteq> None then acknowledge P E i owner tok current
     else raise e))"
  by (intro keep_rules keeps_required) (simp add: keep_rules keeps_acknowledge)

lemma keeps_handle: "keeps I (handle P E config i owner tok e)"
proof (cases e)
  case (CatalogExn c)
  then show ?thesis
    using keeps_current keeps_fail_job by (cases c) (simp_all add: handle_def)
qed (simp_all add: handle_def keeps_fail_job keep_rules keeps_required keeps_acknowledge)

lemma keeps_attempt:
  assumes "\<And>n p f s r s'. I s \<Longrightarrow> env_ingest E n p f s = (r, s') \<Longrightarrow> I s'"
  shows "keeps I (attempt P E root i owner tok)"
proof -
  have ing: "keeps I (ingest E path profile)" for path profile
    by (rule keeps_ingest) (rule assms)
  show ?thesis
    unfolding attempt_def raise_if_cancelled_def
    by (auto intro!: keep_rules keeps_required keeps_acknowledge keeps_calls ing split: option.splits)
qed

lemma keeps_run_one:
  assumes "\<And>n p f s r s'. I s \<Longrightarrow> env_ingest E n p f s = (r, s') \<Longrightarrow> I s'"
  shows "keeps I (run_one P E root config)"
  unfolding run_one_def
  by (auto intro!: keep_rules keeps_calls keeps_attempt[OF assms] keeps_handle split: prod.splits option.splits)

lemma keeps_run_jobs:
  assumes "\<And>n p f s r s'. I s \<Longrightarrow> env_ingest E n p f s = (r, s') \<Longrightarrow> I s'"
  shows "keeps I (run_jobs P E root config n)"
  by (induction n) (auto intro!: keep_rules keeps_run_one[OF assms] split: option.splits)

lemma keeps_run_cycle:
  assumes "\<And>n p f s r s'. I s \<Longrightarrow> env_ingest E n p f s = (r, s') \<Longrightarrow> I s'"
  shows "keeps I (run_cycle P E path config)"
  unfolding run_cycle_def Let_def
  by (auto intro!: keep_rules keeps_calls keeps_run_jobs[OF assms])

end

end
