(* ===== verification/Watch_Cycle.thy ===== *)
theory Watch_Cycle
  imports Watch_Worker Watch_Example
begin

text \<open>
  The SQLite catalog fulfils the contract of the port, so the guarantees of the service hold for
  the program as it is wired: what a cycle reports of a job is what the catalog holds, and a cycle
  keeps the catalog reachable whatever the environment answers.
\<close>

section \<open>The catalog fulfils the contract\<close>

lemma visible_load: "visible_job c i = Inr j \<Longrightarrow> load_job c i = Inr (Some j)"
  by (auto simp: visible_job_def elim!: result_elims)

lemma required_load:
  "required_job_row c i = Inr row \<Longrightarrow> job_from_row row = Inr j \<Longrightarrow> load_job c i = Inr (Some j)"
  by (auto simp: required_job_row_def load_job_def elim!: result_elims)

lemma job_from_row_fields:
  "job_from_row row = Inr j \<Longrightarrow> state j = state row \<and> job_id j = job_id row \<and> revision j = revision row"
  by (auto simp: job_from_row_def job.truncate_def split: if_splits)

lemma load_id: "load_job c i = Inr (Some j) \<Longrightarrow> job_id j = i"
  by (auto simp: load_job_def job_from_row_def job.truncate_def elim!: result_elims
      split: option.splits if_splits dest: find_in)

lemma visible_updated:
  assumes "put_jobs c (upd_where (\<lambda>x. job_id x = i \<and> Q x) f (jobs c)) = Inr c1"
    and "required_job_row c i = Inr row" "Q row" "job_id (f row) = i"
    and "jobs c' = jobs c1" "visible_job c' i = Inr j"
  shows "load_job c' i = Inr (Some j)" "state j = state (f row)"
proof -
  let ?rs = "upd_where (\<lambda>x. job_id x = i \<and> Q x) f (jobs c)"
  have rs: "jobs c' = ?rs" and d: "distinct (map job_id ?rs)"
    using assms(1,5) by (auto simp: put_jobs_Inr jobs_constraints_def)
  have "f row \<in> set ?rs"
    using required_job_row_Inr[OF assms(2)] assms(3) by (auto simp: set_upd_where intro!: rev_image_eqI[of row])
  from find_unique[OF d this] have "List.find (\<lambda>r. job_id r = i) (jobs c') = Some (f row)"
    using assms(4) by (simp add: rs)
  with assms(6) show "load_job c' i = Inr (Some j)" "state j = state (f row)"
    by (auto simp: visible_job_def load_job_def dest: job_from_row_fields elim!: result_elims)
qed

lemma complete_job_port:
  assumes "complete_job H c i owner tok er now = Inr (j, c')"
  shows "load_job c' i = Inr (Some j) \<and> state j = SUCCEEDED"
  using assms
proof (cases rule: complete_job_Inr)
  case (replay row)
  then show ?thesis using required_load job_from_row_fields by simp
next
  case (moved row c1)
  note lease = assert_active_lease_Inr[OF moved(2)] required_job_row_Inr[OF moved(1)]
  show ?thesis
    using visible_updated[OF moved(5,1) _ _ _ moved(7)] lease outcome_fields(1)[OF moved(6)]
    by (simp add: completed_row_def)
qed

lemma fail_job_port:
  assumes "fail_job H c i owner tok er now rt code ra = Inr (j, c')"
  shows "load_job c' i = Inr (Some j) \<and> state j \<in> {QUEUED, FAILED}"
  using assms
proof (cases rule: fail_job_Inr)
  case (replay row)
  then show ?thesis using required_load job_from_row_fields by auto
next
  case (moved row c1 again retry)
  note lease = assert_active_lease_Inr[OF moved(5)] required_job_row_Inr[OF moved(1)]
  show ?thesis
    using visible_updated[OF moved(9,1) _ _ _ moved(11)] lease outcome_fields(1)[OF moved(10)]
    by (simp add: failed_row_def)
qed

lemma acknowledge_port:
  assumes "acknowledge_job_cancellation H c i owner tok er now = Inr (j, c')"
  shows "load_job c' i = Inr (Some j) \<and> state j = CANCELLED"
  using assms
proof (cases rule: acknowledge_job_cancellation_Inr)
  case (replay row)
  then show ?thesis using required_load job_from_row_fields by simp
next
  case (moved row c1)
  note lease = assert_active_lease_Inr[OF moved(2)] required_job_row_Inr[OF moved(1)]
  show ?thesis
    using visible_updated[OF moved(6,1) _ _ _ moved(8)] lease outcome_fields(1)[OF moved(7)]
    by (simp add: cancelled_running_row_def)
qed

interpretation sq: guarded_port "sqlite_port H cs uid" "job_reachable H cs uid" for H cs uid
proof
  fix s s' :: catalog and i owner tok code rt er now rtb ra j
  show "p_get_job (sqlite_port H cs uid) s i = Inr (Some j) \<Longrightarrow> job_id j = i"
    by (simp add: sqlite_port_def get_job_def load_id)
  show "p_complete (sqlite_port H cs uid) i owner tok er now s = Inr (j, s') \<Longrightarrow>
      p_get_job (sqlite_port H cs uid) s' i = Inr (Some j) \<and> state j = SUCCEEDED"
    by (simp add: sqlite_port_def get_job_def complete_job_port)
  show "p_fail (sqlite_port H cs uid) i owner tok er now rtb code ra s = Inr (j, s') \<Longrightarrow>
      p_get_job (sqlite_port H cs uid) s' i = Inr (Some j) \<and> state j \<in> {QUEUED, FAILED}"
    using fail_job_port by (simp add: sqlite_port_def get_job_def)
  show "p_acknowledge (sqlite_port H cs uid) i owner tok er now s = Inr (j, s') \<Longrightarrow>
      p_get_job (sqlite_port H cs uid) s' i = Inr (Some j) \<and> state j = CANCELLED"
    by (simp add: sqlite_port_def get_job_def acknowledge_port)
qed (auto simp: sqlite_port_def intro: job_step.intros job_reachable.step)

section \<open>A concrete cycle\<close>

definition cy_hash :: "pystr \<Rightarrow> pystr" where
  "cy_hash t = U ''sha256:'' @ t"

definition cy_env :: "(svc_exn + pystr) \<Rightarrow> catalog watch_env" where
  "cy_env target = \<lparr>env_clock = (\<lambda>n. 20 + 2000 * int n), env_owner = (\<lambda>n. U ''w''),
     env_token = (\<lambda>n. U ''0123456789abcdef'' @ replicate n 48), env_admit = (\<lambda>p c. Inr wx_root),
     env_scan = (\<lambda>r s t. Inr (wx_scan s [wx_entry ''1'' ''3''])), env_revalidate = (\<lambda>r t. target),
     env_ingest = (\<lambda>n p f s. (Inr (), s))\<rparr>"

definition cy_start :: "catalog world" where
  "cy_start = \<lparr>store = wx1, ticks = 0, draws = 0\<rparr>"

definition cy_port :: "catalog watch_port" where
  "cy_port = sqlite_port cy_hash wx_cs wx_uid"


lemmas service_eval = run_one_def attempt_def handle_def fail_watch_job_def acknowledge_def required_job_def
  raise_if_cancelled_def try_except_def seq_def ret_def raise_def of_sum_def call_def look_def clock_def
  draw_identity_def ingest_def sqlite_port_def get_job_def load_job_def get_watch_root_def get_watch_target_def
  claim_watch_job_def claim_selected_def claimed_row_def complete_job_def completed_row_def fail_job_def failed_row_def
  assert_active_lease_def visible_job_def first_by_def lease_token_hash_def validate_owner_def validate_failure_code_def
  assert_transition_time_def append_watch_job_outcome_def

lemma seq_weak_cong: "m = m' \<Longrightarrow> w = w' \<Longrightarrow> seq m f w = seq m' f w'"
  by simp

text \<open>The job of the example is ingested and completed.\<close>

lemma cy_one: "fst (run_one cy_port (cy_env (Inr (U ''/1''))) (root_id wx_root) wx_config cy_start) =
    Inr (Some (U ''js112113'', SUCCEEDED))"
  by (simp add: cy_start_def cy_port_def cy_env_def cy_hash_def wx1_value wx_root_id service_eval wx_defs
      w_eval Let_def job_lease_def cong: sbind_weak_cong seq_weak_cong)

section \<open>Properties of the service\<close>

text \<open>
  C38.  What the service reports of a job is durable: when \<open>_run_one\<close> returns a job and a state, the
  catalog holds exactly that job in exactly that state afterwards, and the job is not left running,
  whatever the scanner, the ingestion and the clock did in between.
\<close>

theorem run_one_is_durable:
  assumes "run_one (sqlite_port H cs uid) E root config w = (Inr (Some (i, st)), w')"
  shows "\<exists>j. get_job (store w') i = Inr (Some j) \<and> job_id j = i \<and> state j = st \<and> st \<noteq> RUNNING"
  using sq.run_one_durable[OF assms] by (simp add: sqlite_port_def)

theorem run_one_is_durable_witness:
  "\<exists>(j :: job) (w' :: catalog world). get_job (store w') (U ''js112113'') = Inr (Some j) \<and> state j = SUCCEEDED"
proof -
  obtain w' where "run_one cy_port (cy_env (Inr (U ''/1''))) (root_id wx_root) wx_config cy_start =
      (Inr (Some (U ''js112113'', SUCCEEDED)), w')"
    using cy_one by (metis prod.collapse)
  from run_one_is_durable[OF this[unfolded cy_port_def]] show ?thesis by blast
qed

text \<open>
  A cycle of the watcher, failed or not, performs only catalog transactions: if the ingestion
  keeps the catalog reachable, so does the cycle, and every invariant of the catalog
  survives it.
\<close>

lemma cycle_keeps_catalog_reachable:
  assumes "job_reachable H cs uid (store w)"
    and "\<And>n p f s r s'. job_reachable H cs uid s \<Longrightarrow> env_ingest E n p f s = (r, s') \<Longrightarrow> job_reachable H cs uid s'"
    and "run_cycle (sqlite_port H cs uid) E path config w = (r, w')"
  shows "job_reachable H cs uid (store w')"
proof -
  have "keeps (job_reachable H cs uid) (run_cycle (sqlite_port H cs uid) E path config)"
    by (rule sq.keeps_run_cycle) (rule assms(2))
  with assms(1,3) show ?thesis unfolding keeps_def by blast
qed

theorem cycle_keeps_catalog_reachable_witness:
  "job_reachable cy_hash wx_cs wx_uid (store (snd (run_cycle cy_port (cy_env (Inl WatchTargetChanged)) (U ''/1'') wx_config cy_start)))"
  unfolding cy_port_def
  by (rule cycle_keeps_catalog_reachable[OF _ _ prod.collapse[symmetric]])
     (auto simp: cy_start_def cy_env_def wx_reachable)




lemma cy_twice: "fst (run_jobs cy_port (cy_env (Inl WatchTargetChanged)) (root_id wx_root) wx_config 2 cy_start) =
    Inr [(U ''js112113'', QUEUED), (U ''js112113'', QUEUED)]"
  unfolding cy_start_def wx1_value wx_root_id by code_simp

end
