(* ===== verification/Graph_Domain.thy ===== *)
theory Graph_Domain
  imports Ardp_Prelude
begin

text \<open>
  Records of the remote-drive synchronisation (\<open>domain/graph.py\<close>): scopes, item keys, revision
  hints, permission references, delta changes and pages, stored items and published states, with
  their validators and the digests that bind them to a scope.  \<open>cs\<close> is the canonical hash.
  Digests and UUIDs are texts; instants are microseconds since the epoch, in UTC, and \<open>fmt\<close> is
  the rendering of an instant (\<open>datetime.isoformat\<close>).
\<close>

section \<open>Scoped digests\<close>

definition graph_identity :: "(json \<Rightarrow> pystr) \<Rightarrow> string \<Rightarrow> (pystr \<times> json) list \<Rightarrow> pystr" where
  "graph_identity cs domain payload = cs (JObj
     [(U ''domain'', JStr (U domain)), (U ''identity_version'', JInt 1), (U ''payload'', JObj payload)])"

definition provider_value_ok :: "pystr \<Rightarrow> bool" where
  "provider_value_ok v \<longleftrightarrow> v \<noteq> [] \<and> length v \<le> 4096 \<and>
     list_all (\<lambda>c. \<not> (c < 32 \<or> c = 127)) v \<and> list_all (\<lambda>c. \<not> (0xD800 \<le> c \<and> c \<le> 0xDFFF)) v"

definition lower_letter :: "nat \<Rightarrow> bool" where
  "lower_letter c \<longleftrightarrow> 97 \<le> c \<and> c \<le> 122"

text \<open>The pattern \<open>[a-z][a-z0-9_]{0,31}\<close>.\<close>

definition digest_kind_ok :: "pystr \<Rightarrow> bool" where
  "digest_kind_ok k = (case k of [] \<Rightarrow> False
     | c # cs \<Rightarrow> lower_letter c \<and> length cs \<le> 31 \<and>
         list_all (\<lambda>x. lower_letter x \<or> (48 \<le> x \<and> x \<le> 57) \<or> x = 95) cs)"

definition graph_scoped_digest ::
  "(json \<Rightarrow> pystr) \<Rightarrow> pystr \<Rightarrow> string \<Rightarrow> pystr \<Rightarrow> string + pystr" where
  "graph_scoped_digest cs scope_id kind v =
     (if \<not> digest_kind_ok (U kind) then Inl ''digest kind must be a lowercase identifier''
      else if \<not> provider_value_ok v then Inl ''provider value is invalid''
      else Inr (graph_identity cs ''openardp:graph-scoped-provider-value''
        [(U ''scope_id'', JStr scope_id), (U ''kind'', JStr (U kind)), (U ''value'', JStr v)]))"

section \<open>Scopes and item keys\<close>

record graph_scope =
  tenant_id :: pystr
  site_id_digest :: pystr
  drive_id_digest :: pystr
  scope_id :: pystr

definition scope_identity :: "(json \<Rightarrow> pystr) \<Rightarrow> pystr \<Rightarrow> pystr \<Rightarrow> pystr \<Rightarrow> pystr" where
  "scope_identity cs tenant site drive = graph_identity cs ''openardp:graph-scope''
     [(U ''tenant_id'', JStr tenant), (U ''site_id_digest'', JStr site), (U ''drive_id_digest'', JStr drive)]"

definition graph_scope_valid :: "(json \<Rightarrow> pystr) \<Rightarrow> graph_scope \<Rightarrow> bool" where
  "graph_scope_valid cs s \<longleftrightarrow>
     scope_id s = scope_identity cs (tenant_id s) (site_id_digest s) (drive_id_digest s)"

definition make_graph_scope :: "(json \<Rightarrow> pystr) \<Rightarrow> pystr \<Rightarrow> pystr \<Rightarrow> pystr \<Rightarrow> string + graph_scope" where
  "make_graph_scope cs tenant site drive =
     (let tenant_scope = graph_identity cs ''openardp:graph-tenant'' [(U ''tenant_id'', JStr tenant)] in
      sbind (graph_scoped_digest cs tenant_scope ''site'' site) (\<lambda>site_digest.
      let drive_scope = graph_identity cs ''openardp:graph-site-scope''
            [(U ''tenant_id'', JStr tenant), (U ''site_id_digest'', JStr site_digest)] in
      sbind (graph_scoped_digest cs drive_scope ''drive'' drive) (\<lambda>drive_digest.
      Inr \<lparr>tenant_id = tenant, site_id_digest = site_digest, drive_id_digest = drive_digest,
           scope_id = scope_identity cs tenant site_digest drive_digest\<rparr>)))"

record graph_item_key =
  key_scope :: pystr
  key_item_digest :: pystr
  item_key :: pystr

definition item_identity :: "(json \<Rightarrow> pystr) \<Rightarrow> pystr \<Rightarrow> pystr \<Rightarrow> pystr" where
  "item_identity cs scope item_digest = graph_identity cs ''openardp:graph-item''
     [(U ''scope_id'', JStr scope), (U ''item_id_digest'', JStr item_digest)]"

definition graph_item_key_valid :: "(json \<Rightarrow> pystr) \<Rightarrow> graph_item_key \<Rightarrow> bool" where
  "graph_item_key_valid cs k \<longleftrightarrow> item_key k = item_identity cs (key_scope k) (key_item_digest k)"

definition make_graph_item_key :: "(json \<Rightarrow> pystr) \<Rightarrow> graph_scope \<Rightarrow> pystr \<Rightarrow> string + graph_item_key" where
  "make_graph_item_key cs s item =
     sbind (graph_scoped_digest cs (scope_id s) ''item'' item) (\<lambda>d.
     Inr \<lparr>key_scope = scope_id s, key_item_digest = d, item_key = item_identity cs (scope_id s) d\<rparr>)"

section \<open>Evidence of an item\<close>

record revision_hints =
  rev_scope :: pystr
  rev_item :: pystr
  etag_digest :: "pystr option"
  ctag_digest :: "pystr option"
  version_digest :: "pystr option"

definition revision_hints_valid :: "revision_hints \<Rightarrow> bool" where
  "revision_hints_valid h \<longleftrightarrow> \<not> (etag_digest h = None \<and> ctag_digest h = None \<and> version_digest h = None)"

definition optional_digest ::
  "(json \<Rightarrow> pystr) \<Rightarrow> pystr \<Rightarrow> string \<Rightarrow> pystr option \<Rightarrow> string + pystr option" where
  "optional_digest cs scope kind v =
     (case v of None \<Rightarrow> Inr None | Some x \<Rightarrow> sbind (graph_scoped_digest cs scope kind x) (\<lambda>d. Inr (Some d)))"

definition make_revision_hints ::
  "(json \<Rightarrow> pystr) \<Rightarrow> graph_scope \<Rightarrow> graph_item_key \<Rightarrow> pystr option \<Rightarrow> pystr option \<Rightarrow> pystr option \<Rightarrow>
   string + revision_hints" where
  "make_revision_hints cs s k etag ctag version =
     (if key_scope k \<noteq> scope_id s then Inl ''item key does not belong to graph scope''
      else sbind (optional_digest cs (item_key k) ''etag'' etag) (\<lambda>e.
        sbind (optional_digest cs (item_key k) ''ctag'' ctag) (\<lambda>c.
        sbind (optional_digest cs (item_key k) ''version'' version) (\<lambda>v.
        let h = \<lparr>rev_scope = scope_id s, rev_item = item_key k, etag_digest = e, ctag_digest = c,
                 version_digest = v\<rparr>
        in if revision_hints_valid h then Inr h
           else Inl ''at least one remote revision hint is required''))))"

text \<open>\<open>complete\<close> is the literal \<open>True\<close> in the source and is not stored here.\<close>

record permission_ref =
  snapshot_id :: pystr
  perm_scope :: pystr
  perm_item :: pystr
  authorization_context_digest :: pystr
  observed_at :: int

definition make_permission_ref ::
  "(json \<Rightarrow> pystr) \<Rightarrow> (int \<Rightarrow> pystr) \<Rightarrow> graph_scope \<Rightarrow> graph_item_key \<Rightarrow> pystr \<Rightarrow> pystr \<Rightarrow> int \<Rightarrow>
   string + permission_ref" where
  "make_permission_ref cs fmt s k version context observed =
     (if key_scope k \<noteq> scope_id s then Inl ''item key does not belong to graph scope''
      else sbind (graph_scoped_digest cs (item_key k) ''permission_version'' version) (\<lambda>v.
        sbind (graph_scoped_digest cs (scope_id s) ''authorization'' context) (\<lambda>a.
        Inr \<lparr>snapshot_id = graph_identity cs ''openardp:graph-permission-snapshot''
               [(U ''scope_id'', JStr (scope_id s)), (U ''item_key'', JStr (item_key k)),
                (U ''version_digest'', JStr v), (U ''authorization_context_digest'', JStr a),
                (U ''observed_at'', JStr (fmt observed))],
             perm_scope = scope_id s, perm_item = item_key k, authorization_context_digest = a,
             observed_at = observed\<rparr>)))"

section \<open>Changes, pages and states\<close>

datatype change_kind = UPSERT | DELETE

record delta_change =
  chg_ordinal :: nat
  chg_key :: graph_item_key
  chg_kind :: change_kind
  chg_revision :: "revision_hints option"
  chg_permission :: "permission_ref option"

text \<open>
  Active items and upserts carry evidence of exactly their own item; tombstones and deletions
  carry none.
\<close>

definition evidence_closed ::
  "bool \<Rightarrow> graph_item_key \<Rightarrow> revision_hints option \<Rightarrow> permission_ref option \<Rightarrow> bool" where
  "evidence_closed active k hints perm =
     (if active then
        (case (hints, perm) of
           (Some r, Some p) \<Rightarrow> rev_scope r = key_scope k \<and> rev_item r = item_key k \<and>
              perm_scope p = key_scope k \<and> perm_item p = item_key k
         | _ \<Rightarrow> False)
      else hints = None \<and> perm = None)"

definition delta_change_valid :: "(json \<Rightarrow> pystr) \<Rightarrow> delta_change \<Rightarrow> bool" where
  "delta_change_valid cs c \<longleftrightarrow> chg_ordinal c \<le> 10000000 \<and> graph_item_key_valid cs (chg_key c) \<and>
     (case chg_revision c of None \<Rightarrow> True | Some r \<Rightarrow> revision_hints_valid r) \<and>
     evidence_closed (chg_kind c = UPSERT) (chg_key c) (chg_revision c) (chg_permission c)"

record delta_page =
  page_scope :: pystr
  requested_cursor :: pystr
  page_changes :: "delta_change list"
  next_cursor :: "pystr option"
  delta_cursor :: "pystr option"

fun strictly_ordered :: "int \<Rightarrow> delta_change list \<Rightarrow> bool" where
  "strictly_ordered previous [] = True"
| "strictly_ordered previous (c # cs) =
     (int (chg_ordinal c) > previous \<and> strictly_ordered (int (chg_ordinal c)) cs)"

definition delta_page_valid :: "(json \<Rightarrow> pystr) \<Rightarrow> delta_page \<Rightarrow> bool" where
  "delta_page_valid cs p \<longleftrightarrow> (next_cursor p = None) \<noteq> (delta_cursor p = None) \<and>
     list_all (\<lambda>c. key_scope (chg_key c) = page_scope p) (page_changes p) \<and>
     strictly_ordered (- 1) (page_changes p) \<and> list_all (delta_change_valid cs) (page_changes p)"

datatype item_state = ACTIVE | TOMBSTONE

record stored_item =
  itm_key :: graph_item_key
  itm_state :: item_state
  itm_revision :: "revision_hints option"
  itm_permission :: "permission_ref option"

definition stored_item_valid :: "(json \<Rightarrow> pystr) \<Rightarrow> stored_item \<Rightarrow> bool" where
  "stored_item_valid cs i \<longleftrightarrow> graph_item_key_valid cs (itm_key i) \<and>
     (case itm_revision i of None \<Rightarrow> True | Some r \<Rightarrow> revision_hints_valid r) \<and>
     evidence_closed (itm_state i = ACTIVE) (itm_key i) (itm_revision i) (itm_permission i)"

record sync_state =
  st_scope :: pystr
  st_cursor :: pystr
  st_generation :: nat
  st_items :: "stored_item list"

definition item_keys :: "stored_item list \<Rightarrow> pystr list" where
  "item_keys is = map (\<lambda>i. item_key (itm_key i)) is"

definition sync_state_valid :: "(json \<Rightarrow> pystr) \<Rightarrow> sync_state \<Rightarrow> bool" where
  "sync_state_valid cs s \<longleftrightarrow> 1 \<le> st_generation s \<and>
     list_all (\<lambda>i. key_scope (itm_key i) = st_scope s) (st_items s) \<and>
     sorted_unique (item_keys (st_items s)) \<and> list_all (stored_item_valid cs) (st_items s)"

section \<open>Policy, results and notifications\<close>

record sync_policy =
  max_pages :: nat
  max_changes :: nat
  max_retries :: nat
  retry_base_seconds :: nat
  retry_cap_seconds :: nat
  max_server_delay_seconds :: nat

definition sync_policy_valid :: "sync_policy \<Rightarrow> bool" where
  "sync_policy_valid p \<longleftrightarrow> 1 \<le> max_pages p \<and> max_pages p \<le> 1000 \<and>
     1 \<le> max_changes p \<and> max_changes p \<le> 100000 \<and> max_retries p \<le> 10 \<and>
     1 \<le> retry_base_seconds p \<and> retry_base_seconds p \<le> 60 \<and>
     1 \<le> retry_cap_seconds p \<and> retry_cap_seconds p \<le> 300 \<and>
     1 \<le> max_server_delay_seconds p \<and> max_server_delay_seconds p \<le> 3600 \<and>
     retry_base_seconds p \<le> retry_cap_seconds p"

definition default_sync_policy :: sync_policy where
  "default_sync_policy = \<lparr>max_pages = 100, max_changes = 10000, max_retries = 5,
     retry_base_seconds = 1, retry_cap_seconds = 30, max_server_delay_seconds = 120\<rparr>"

definition fallback_delay :: "sync_policy \<Rightarrow> nat \<Rightarrow> nat" where
  "fallback_delay p attempt = min (retry_base_seconds p * 2 ^ attempt) (retry_cap_seconds p)"

datatype sync_outcome = APPLIED | UNCHANGED | RESET_REQUIRED | RETRY_LATER

record sync_result =
  res_outcome :: sync_outcome
  res_scope :: pystr
  pages_seen :: nat
  changes_seen :: nat
  changes_applied :: nat
  committed_cursor :: "pystr option"
  retry_after_seconds :: "nat option"

definition sync_result_valid :: "sync_result \<Rightarrow> bool" where
  "sync_result_valid r \<longleftrightarrow>
     (case retry_after_seconds r of None \<Rightarrow> True | Some d \<Rightarrow> d \<le> 86400) \<and>
     (res_outcome r \<in> {APPLIED, UNCHANGED}) = (committed_cursor r \<noteq> None) \<and>
     (res_outcome r = RETRY_LATER) = (retry_after_seconds r \<noteq> None) \<and>
     changes_applied r \<le> changes_seen r"

record subscription_binding =
  bind_scope :: pystr
  bind_subscription :: pystr
  bind_client_state :: pystr
  bind_expires_at :: int

record notification_envelope =
  env_scope :: pystr
  env_subscription :: pystr
  env_client_state :: pystr
  env_received_at :: int

datatype notification_status = NOTE_ACCEPTED | NOTE_INVALID | NOTE_EXPIRED

text \<open>The decision with its flag \<open>schedule_reconciliation\<close>.\<close>

definition validate_graph_notification ::
  "subscription_binding \<Rightarrow> notification_envelope \<Rightarrow> int \<Rightarrow> notification_status \<times> bool" where
  "validate_graph_notification b e now =
     (if bind_expires_at b \<le> now then (NOTE_EXPIRED, False)
      else if bind_scope b \<noteq> env_scope e \<or> bind_subscription b \<noteq> env_subscription e \<or>
        bind_client_state b \<noteq> env_client_state e
      then (NOTE_INVALID, False)
      else (NOTE_ACCEPTED, True))"

section \<open>Digests separate scopes and items\<close>

lemma graph_identity_inj:
  assumes "inj cs"
  shows "graph_identity cs d p = graph_identity cs d' p' \<longleftrightarrow> U d = U d' \<and> p = p'"
  by (auto simp: graph_identity_def inj_eq[OF assms])

lemma graph_scoped_digest_Inr:
  "graph_scoped_digest cs s k v = Inr d \<longleftrightarrow> digest_kind_ok (U k) \<and> provider_value_ok v \<and>
     d = graph_identity cs ''openardp:graph-scoped-provider-value''
        [(U ''scope_id'', JStr s), (U ''kind'', JStr (U k)), (U ''value'', JStr v)]"
  by (auto simp: graph_scoped_digest_def)

lemma graph_scope_separates:
  assumes "inj cs" "make_graph_scope cs t s d = Inr sc" "make_graph_scope cs t' s' d' = Inr sc'"
  shows "scope_id sc = scope_id sc' \<longleftrightarrow> t = t' \<and> s = s' \<and> d = d'"
  using assms(2,3)
  by (auto simp: make_graph_scope_def scope_identity_def Let_def graph_scoped_digest_Inr
      graph_identity_inj[OF assms(1)] elim!: sbind_InrE)

lemma item_key_separates:
  assumes "inj cs" "make_graph_item_key cs sc i = Inr k" "make_graph_item_key cs sc' i' = Inr k'"
  shows "item_key k = item_key k' \<longleftrightarrow> scope_id sc = scope_id sc' \<and> i = i'"
  using assms(2,3)
  by (auto simp: make_graph_item_key_def item_identity_def graph_scoped_digest_Inr
      graph_identity_inj[OF assms(1)] elim!: sbind_InrE)

lemma make_graph_scope_valid: "make_graph_scope cs t s d = Inr sc \<Longrightarrow> graph_scope_valid cs sc"
  by (auto simp: make_graph_scope_def graph_scope_valid_def Let_def elim!: sbind_InrE)

lemma make_graph_item_key_valid:
  "make_graph_item_key cs sc i = Inr k \<Longrightarrow> graph_item_key_valid cs k \<and> key_scope k = scope_id sc"
  by (auto simp: make_graph_item_key_def graph_item_key_valid_def elim!: sbind_InrE)

end
