(* ===== verification/Graph_Sync.thy ===== *)
theory Graph_Sync
  imports Graph_Domain
begin

text \<open>
  The synchronisation service (\<open>services/graph_sync.py\<close>) over the two ports of \<open>ports/graph.py\<close>.
  Client, store and sleeper act on a world of any type, so other writers may change the store
  during a fetch.  A Python dict is an association list in insertion order (\<open>AList.update\<close>).  The locale
  \<open>graph_store\<close> is the promise of \<open>GraphStateStore\<close>: a commit publishes exactly its changes or
  nothing.  In \<open>graph_reader\<close> fetching and sleeping leave the store alone; in \<open>graph_meter\<close> they are
  counted.
\<close>

section \<open>The ports\<close>

datatype graph_error =
    ConnectorError string | CursorReset | Throttle "nat option" | StateConflict | RecordInvalid

record 'w graph_port =
  g_initial :: "graph_scope \<Rightarrow> 'w \<Rightarrow> graph_error + pystr"
  g_fetch :: "graph_scope \<Rightarrow> pystr \<Rightarrow> 'w \<Rightarrow> (graph_error + delta_page) \<times> 'w"
  g_load :: "graph_scope \<Rightarrow> 'w \<Rightarrow> sync_state option"
  g_commit :: "graph_scope \<Rightarrow> pystr option \<Rightarrow> pystr \<Rightarrow> delta_change list \<Rightarrow> 'w \<Rightarrow> (graph_error + sync_state) \<times> 'w"
  g_sleep :: "nat \<Rightarrow> 'w \<Rightarrow> 'w"

section \<open>Fetching one page\<close>

datatype 'a fetched = Ended sync_result | Got 'a

definition make_result :: "sync_result \<Rightarrow> graph_error + sync_result" where
  "make_result r = (if sync_result_valid r then Inr r else Inl RecordInvalid)"

definition ended ::
  "sync_outcome \<Rightarrow> graph_scope \<Rightarrow> nat \<Rightarrow> nat \<Rightarrow> nat option \<Rightarrow> graph_error + 'a fetched" where
  "ended outcome scope pages changes delay =
     sbind (make_result \<lparr>res_outcome = outcome, res_scope = scope_id scope, pages_seen = pages,
       changes_seen = changes, changes_applied = 0, committed_cursor = None,
       retry_after_seconds = delay\<rparr>) (\<lambda>r. Inr (Ended r))"

function fetch_with_retry ::
  "'w graph_port \<Rightarrow> graph_scope \<Rightarrow> sync_policy \<Rightarrow> nat \<Rightarrow> nat \<Rightarrow> pystr \<Rightarrow> nat \<Rightarrow> 'w \<Rightarrow>
   (graph_error + delta_page fetched) \<times> 'w" where
  "fetch_with_retry P scope policy pages changes cursor attempts w =
     (case g_fetch P scope cursor w of
        (Inr page, w1) \<Rightarrow> (Inr (Got page), w1)
      | (Inl e, w1) \<Rightarrow>
          (case e of
             CursorReset \<Rightarrow> (ended RESET_REQUIRED scope pages changes None, w1)
           | Throttle hint \<Rightarrow>
               let delay = (case hint of Some d \<Rightarrow> d | None \<Rightarrow> fallback_delay policy attempts)
               in if max_server_delay_seconds policy < delay \<or> max_retries policy \<le> attempts
                  then (ended RETRY_LATER scope pages changes (Some delay), w1)
                  else fetch_with_retry P scope policy pages changes cursor (attempts + 1) (g_sleep P delay w1)
           | _ \<Rightarrow> (Inl e, w1)))"
  by pat_completeness auto

termination
  by (relation "measure (\<lambda>(P, scope, policy, pages, changes, cursor, attempts, w). max_retries policy - attempts)") auto

declare fetch_with_retry.simps [simp del]

section \<open>Collecting a cycle of pages\<close>

type_synonym change_dict = "(pystr \<times> delta_change) list"

fun absorb :: "graph_scope \<Rightarrow> delta_change list \<Rightarrow> change_dict \<Rightarrow> graph_error + change_dict" where
  "absorb scope [] reduced = Inr reduced"
| "absorb scope (c # cs) reduced =
     (if key_scope (chg_key c) \<noteq> scope_id scope then Inl (ConnectorError ''delta change scope is invalid'')
      else absorb scope cs (AList.update (item_key (chg_key c)) c reduced))"

record collected =
  col_reduced :: change_dict
  col_pages :: nat
  col_changes :: nat
  col_final :: pystr

function collect ::
  "'w graph_port \<Rightarrow> graph_scope \<Rightarrow> sync_policy \<Rightarrow> pystr \<Rightarrow> pystr list \<Rightarrow> change_dict \<Rightarrow> nat \<Rightarrow> nat \<Rightarrow> 'w \<Rightarrow>
   (graph_error + collected fetched) \<times> 'w" where
  "collect P scope policy cursor visited reduced pages changes w =
     (if cursor \<in> set visited then (Inl (ConnectorError ''delta cursor cycle detected''), w)
      else case fetch_with_retry P scope policy pages changes cursor 0 w of
        (Inl e, w1) \<Rightarrow> (Inl e, w1)
      | (Inr (Ended r), w1) \<Rightarrow> (Inr (Ended r), w1)
      | (Inr (Got page), w1) \<Rightarrow>
          if max_pages policy < pages + 1 then (Inl (ConnectorError ''delta page limit exceeded''), w1)
          else if page_scope page \<noteq> scope_id scope \<or> requested_cursor page \<noteq> cursor
          then (Inl (ConnectorError ''delta page scope is invalid''), w1)
          else if max_changes policy < changes + length (page_changes page)
          then (Inl (ConnectorError ''delta change limit exceeded''), w1)
          else case absorb scope (page_changes page) reduced of
            Inl e \<Rightarrow> (Inl e, w1)
          | Inr reduced1 \<Rightarrow>
              (case next_cursor page of
                 Some c \<Rightarrow> collect P scope policy c (cursor # visited) reduced1 (pages + 1)
                   (changes + length (page_changes page)) w1
               | None \<Rightarrow>
                   (case delta_cursor page of
                      None \<Rightarrow> (Inl (ConnectorError ''delta final cursor is absent''), w1)
                    | Some final \<Rightarrow>
                        (Inr (Got \<lparr>col_reduced = reduced1, col_pages = pages + 1,
                           col_changes = changes + length (page_changes page), col_final = final\<rparr>), w1))))"
  by pat_completeness auto

termination
  by (relation "measure (\<lambda>(P, scope, policy, cursor, visited, reduced, pages, changes, w). max_pages policy - pages)") auto

declare collect.simps [simp del]

text \<open>\<open>tuple(d[key] for key in sorted(d))\<close>.\<close>

definition sorted_values :: "(pystr \<times> 'a) list \<Rightarrow> 'a list" where
  "sorted_values d = map (\<lambda>k. the (map_of d k)) (sort (map fst d))"

definition reconcile_graph ::
  "'w graph_port \<Rightarrow> graph_scope \<Rightarrow> sync_policy option \<Rightarrow> 'w \<Rightarrow> (graph_error + sync_result) \<times> 'w" where
  "reconcile_graph P scope policy w =
     (let selected = (case policy of None \<Rightarrow> default_sync_policy | Some p \<Rightarrow> p);
          expected = map_option st_cursor (g_load P scope w)
      in case (case expected of Some c \<Rightarrow> Inr c | None \<Rightarrow> g_initial P scope w) of
        Inl e \<Rightarrow> (Inl e, w)
      | Inr cursor \<Rightarrow>
          (case collect P scope selected cursor [] [] 0 0 w of
             (Inl e, w1) \<Rightarrow> (Inl e, w1)
           | (Inr (Ended r), w1) \<Rightarrow> (Inr r, w1)
           | (Inr (Got col), w1) \<Rightarrow>
               let changes = sorted_values (col_reduced col)
               in (case g_commit P scope expected (col_final col) changes w1 of
                     (Inl e, w2) \<Rightarrow> (Inl e, w2)
                   | (Inr published, w2) \<Rightarrow>
                       (make_result \<lparr>res_outcome = (if changes = [] then UNCHANGED else APPLIED),
                          res_scope = scope_id scope, pages_seen = col_pages col,
                          changes_seen = col_changes col, changes_applied = length changes,
                          committed_cursor = Some (st_cursor published), retry_after_seconds = None\<rparr>, w2))))"

section \<open>Applying changes\<close>

text \<open>
  The specification: the item set of a state, and the effect of a sequence of changes on it,
  applied one after the other.
\<close>

definition stored_of :: "delta_change \<Rightarrow> stored_item" where
  "stored_of c = (if chg_kind c = UPSERT
     then \<lparr>itm_key = chg_key c, itm_state = ACTIVE, itm_revision = chg_revision c, itm_permission = chg_permission c\<rparr>
     else \<lparr>itm_key = chg_key c, itm_state = TOMBSTONE, itm_revision = None, itm_permission = None\<rparr>)"

definition items_of :: "sync_state option \<Rightarrow> pystr \<Rightarrow> stored_item option" where
  "items_of s = (case s of None \<Rightarrow> (\<lambda>_. None)
     | Some st \<Rightarrow> map_of (rev (map (\<lambda>i. (item_key (itm_key i), i)) (st_items st))))"

definition apply_change :: "delta_change \<Rightarrow> (pystr \<Rightarrow> stored_item option) \<Rightarrow> pystr \<Rightarrow> stored_item option" where
  "apply_change c m = m(item_key (chg_key c) \<mapsto> stored_of c)"

definition apply_changes :: "delta_change list \<Rightarrow> (pystr \<Rightarrow> stored_item option) \<Rightarrow> pystr \<Rightarrow> stored_item option" where
  "apply_changes cs m = fold apply_change cs m"

lemma apply_changes_simps [simp]:
  "apply_changes [] m = m" "apply_changes (c # cs) m = apply_changes cs (apply_change c m)"
  "apply_changes (cs @ ds) m = apply_changes ds (apply_changes cs m)"
  by (simp_all add: apply_changes_def)

definition last_change :: "delta_change list \<Rightarrow> pystr \<Rightarrow> delta_change option" where
  "last_change cs k = List.find (\<lambda>c. item_key (chg_key c) = k) (rev cs)"

lemma apply_changes_last:
  "apply_changes cs m k = (case last_change cs k of None \<Rightarrow> m k | Some c \<Rightarrow> Some (stored_of c))"
  by (induction cs rule: rev_induct) (auto simp: last_change_def apply_change_def)

text \<open>The dictionary of a cycle keeps the last change of every item, under the item's key.\<close>

definition keyed :: "('a \<Rightarrow> pystr) \<Rightarrow> (pystr \<times> 'a) list \<Rightarrow> bool" where
  "keyed key d \<longleftrightarrow> distinct (map fst d) \<and> (\<forall>k v. map_of d k = Some v \<longrightarrow> key v = k)"

abbreviation dict_ok :: "change_dict \<Rightarrow> bool" where
  "dict_ok \<equiv> keyed (\<lambda>c. item_key (chg_key c))"

lemma keyed_empty [simp]: "keyed key []"
  by (simp add: keyed_def)

lemma keyed_update: "keyed key d \<Longrightarrow> key v = k \<Longrightarrow> keyed key (AList.update k v d)"
  by (auto simp: keyed_def distinct_update update_conv')

lemma keyed_sorted_values:
  assumes "keyed key d"
  shows "map key (sorted_values d) = sort (map fst d)"
    and "map_of (rev (map (\<lambda>v. (key v, v)) (sorted_values d))) = map_of d"
proof -
  have key: "key (the (map_of d k)) = k" if "k \<in> set (map fst d)" for k
    using assms that by (auto simp: keyed_def dest!: weak_map_of_SomeI)
  then show keys: "map key (sorted_values d) = sort (map fst d)"
    by (auto simp: sorted_values_def intro!: map_idI)
  have "map (\<lambda>v. (key v, v)) (sorted_values d) = map (\<lambda>k. (k, the (map_of d k))) (sort (map fst d))"
    using key by (auto simp: sorted_values_def)
  then show "map_of (rev (map (\<lambda>v. (key v, v)) (sorted_values d))) = map_of d"
    by (auto simp: rev_map map_of_map_restrict restrict_map_def fun_eq_iff map_of_eq_None_iff
        dest!: weak_map_of_SomeI intro: sym)
qed

lemma absorb_dict:
  assumes "absorb scope cs d = Inr d'" "dict_ok d"
  shows "dict_ok d' \<and> map_of d' = (\<lambda>k. case last_change cs k of None \<Rightarrow> map_of d k | Some c \<Rightarrow> Some c)"
  using assms
proof (induction cs arbitrary: d)
  case (Cons c cs)
  from Cons.IH[of "AList.update (item_key (chg_key c)) c d"] Cons.prems show ?case
    by (auto simp: keyed_update update_conv' last_change_def fun_eq_iff find_append split: if_splits option.splits)
qed (simp add: last_change_def)

lemma apply_changes_keys:
  assumes "\<forall>k\<in>set ks. item_key (chg_key (f k)) = k"
  shows "apply_changes (map f ks) m = (\<lambda>k. if k \<in> set ks then Some (stored_of (f k)) else m k)"
  using assms by (induction ks arbitrary: m) (auto simp: apply_change_def fun_eq_iff)

lemma sorted_values_apply:
  assumes "dict_ok d"
  shows "apply_changes (sorted_values d) m =
    (\<lambda>k. case map_of d k of None \<Rightarrow> m k | Some c \<Rightarrow> Some (stored_of c))"
proof -
  have "\<forall>k\<in>set (sort (map fst d)). item_key (chg_key (the (map_of d k))) = k"
    using assms by (auto simp: keyed_def dest!: weak_map_of_SomeI)
  from apply_changes_keys[OF this] show ?thesis
    by (auto simp: sorted_values_def fun_eq_iff map_of_eq_None_iff split: option.splits dest: map_of_SomeD intro: rev_image_eqI)
qed

text \<open>Publishing the reduced dictionary has the effect of applying every observed change in order.\<close>

lemma reduced_effect:
  assumes "dict_ok d" "map_of d = last_change cs"
  shows "apply_changes (sorted_values d) m = apply_changes cs m"
  by (simp add: sorted_values_apply[OF assms(1)] assms(2) fun_eq_iff apply_changes_last)

lemma last_change_append:
  "last_change (cs @ ds) k = (case last_change ds k of None \<Rightarrow> last_change cs k | Some c \<Rightarrow> Some c)"
  by (auto simp: last_change_def find_append split: option.splits)

lemma absorb_length: "absorb scope cs d = Inr d' \<Longrightarrow> length d' \<le> length d + length cs"
proof (induction cs arbitrary: d)
  case (Cons c cs)
  have "length (AList.update (item_key (chg_key c)) c d) \<le> length d + 1"
    by (induction d) auto
  moreover have "length d' \<le> length (AList.update (item_key (chg_key c)) c d) + length cs"
    using Cons by (simp split: if_splits)
  ultimately show ?case by simp
qed simp

section \<open>What a cycle reads\<close>

text \<open>
  \<open>delta_reads P scope policy c w chs n f w'\<close>: starting from cursor \<open>c\<close> the client served \<open>n\<close> pages
  that hold the changes \<open>chs\<close> in order and end with the final cursor \<open>f\<close>.
\<close>

inductive delta_reads ::
  "'w graph_port \<Rightarrow> graph_scope \<Rightarrow> sync_policy \<Rightarrow> pystr \<Rightarrow> 'w \<Rightarrow> delta_change list \<Rightarrow> nat \<Rightarrow> pystr \<Rightarrow> 'w \<Rightarrow> bool"
  for P scope policy where
  last: "fetch_with_retry P scope policy n m c 0 w = (Inr (Got page), w1) \<Longrightarrow>
    next_cursor page = None \<Longrightarrow> delta_cursor page = Some f \<Longrightarrow>
    delta_reads P scope policy c w (page_changes page) 1 f w1"
| more: "fetch_with_retry P scope policy n m c 0 w = (Inr (Got page), w1) \<Longrightarrow>
    next_cursor page = Some c' \<Longrightarrow> delta_reads P scope policy c' w1 chs k f w2 \<Longrightarrow>
    delta_reads P scope policy c w (page_changes page @ chs) (k + 1) f w2"

lemma collect_Got:
  assumes "collect P scope policy cursor visited d pages changes w = (Inr (Got col), w')"
  obtains page w1 d1 where "fetch_with_retry P scope policy pages changes cursor 0 w = (Inr (Got page), w1)"
    and "pages + 1 \<le> max_pages policy" "changes + length (page_changes page) \<le> max_changes policy"
    and "absorb scope (page_changes page) d = Inr d1"
    and "(\<exists>c. next_cursor page = Some c \<and> collect P scope policy c (cursor # visited) d1 (pages + 1)
        (changes + length (page_changes page)) w1 = (Inr (Got col), w')) \<or>
      next_cursor page = None \<and> delta_cursor page = Some (col_final col) \<and> w' = w1 \<and>
      col_reduced col = d1 \<and> col_pages col = pages + 1 \<and>
      col_changes col = changes + length (page_changes page)"
  using assms
  by (subst (asm) collect.simps) (auto split: if_splits prod.splits sum.splits fetched.splits option.splits)

lemma collect_reads:
  assumes "collect P scope policy cursor visited d pages changes w = (Inr (Got col), w')" "dict_ok d"
  shows "\<exists>chs n. delta_reads P scope policy cursor w chs n (col_final col) w' \<and> dict_ok (col_reduced col) \<and>
    map_of (col_reduced col) = (\<lambda>k. case last_change chs k of None \<Rightarrow> map_of d k | Some c \<Rightarrow> Some c) \<and>
    col_pages col = pages + n \<and> col_changes col = changes + length chs \<and>
    col_pages col \<le> max_pages policy \<and> col_changes col \<le> max_changes policy \<and>
    length (col_reduced col) \<le> length d + length chs"
  using assms
proof (induction P scope policy cursor visited d pages changes w rule: collect.induct)
  case (1 P scope policy cursor visited d pages changes w)
  from 1(2) obtain page w1 d1 where
    fetch: "fetch_with_retry P scope policy pages changes cursor 0 w = (Inr (Got page), w1)"
    and lim: "pages + 1 \<le> max_pages policy" "changes + length (page_changes page) \<le> max_changes policy"
    and ab: "absorb scope (page_changes page) d = Inr d1"
    and rest: "(\<exists>c. next_cursor page = Some c \<and> collect P scope policy c (cursor # visited) d1 (pages + 1)
        (changes + length (page_changes page)) w1 = (Inr (Got col), w')) \<or>
      next_cursor page = None \<and> delta_cursor page = Some (col_final col) \<and> w' = w1 \<and>
      col_reduced col = d1 \<and> col_pages col = pages + 1 \<and>
      col_changes col = changes + length (page_changes page)" by (rule collect_Got)
  note d1 = absorb_dict[OF ab 1(3)] absorb_length[OF ab]
  from rest show ?case
  proof
    assume "\<exists>c. next_cursor page = Some c \<and> collect P scope policy c (cursor # visited) d1 (pages + 1)
        (changes + length (page_changes page)) w1 = (Inr (Got col), w')"
    then obtain c where c: "next_cursor page = Some c" and rec: "collect P scope policy c (cursor # visited) d1
        (pages + 1) (changes + length (page_changes page)) w1 = (Inr (Got col), w')" by blast
    have "cursor \<notin> set visited" "page_scope page = scope_id scope" "requested_cursor page = cursor"
      using 1(2) fetch by (subst (asm) collect.simps, simp split: if_splits)+
    then obtain chs n where IH: "delta_reads P scope policy c w1 chs n (col_final col) w'"
      "dict_ok (col_reduced col)"
      "map_of (col_reduced col) = (\<lambda>k. case last_change chs k of None \<Rightarrow> map_of d1 k | Some c \<Rightarrow> Some c)"
      "col_pages col = pages + 1 + n" "col_changes col = changes + length (page_changes page) + length chs"
      "col_pages col \<le> max_pages policy" "col_changes col \<le> max_changes policy"
      "length (col_reduced col) \<le> length d1 + length chs"
      using 1(1)[OF _ fetch[symmetric] refl refl _ _ _ ab c rec] lim d1(1) by auto
    have "delta_reads P scope policy cursor w (page_changes page @ chs) (n + 1) (col_final col) w'"
      by (rule delta_reads.more[OF fetch c IH(1)])
    then show ?thesis using IH d1
      by (intro exI[of _ "page_changes page @ chs"] exI[of _ "n + 1"])
         (auto simp: last_change_append fun_eq_iff split: option.splits)
  next
    assume "next_cursor page = None \<and> delta_cursor page = Some (col_final col) \<and> w' = w1 \<and>
      col_reduced col = d1 \<and> col_pages col = pages + 1 \<and>
      col_changes col = changes + length (page_changes page)"
    then show ?thesis using delta_reads.last[OF fetch] lim d1
      by (intro exI[of _ "page_changes page"] exI[of _ 1]) auto
  qed
qed

lemma collect_cycle:
  assumes "collect P sc policy cursor [] [] 0 0 w = (Inr (Got col), w')"
  shows "\<exists>chs. delta_reads P sc policy cursor w chs (col_pages col) (col_final col) w' \<and>
    dict_ok (col_reduced col) \<and> map_of (col_reduced col) = last_change chs \<and> col_changes col = length chs \<and>
    length (col_reduced col) \<le> length chs"
proof -
  have eta: "(\<lambda>k. case g k of None \<Rightarrow> map_of [] k | Some c \<Rightarrow> Some c) = g" for g :: "pystr \<Rightarrow> delta_change option"
    by (auto split: option.splits)
  show ?thesis using collect_reads[OF assms] by (auto simp: eta)
qed

lemma sorted_values_length: "length (sorted_values d) = length d"
  by (simp add: sorted_values_def)

lemma ended_outcome: "ended oc sc p c d = Inr x \<Longrightarrow> \<exists>r. x = Ended r \<and> res_outcome r = oc \<and> committed_cursor r = None"
  by (auto simp: ended_def make_result_def result_simps split: if_splits)

lemma fetch_Ended:
  "fetch_with_retry P' sc policy p c cur n w = (Inr (Ended r), w') \<Longrightarrow> res_outcome r \<in> {RESET_REQUIRED, RETRY_LATER} \<and> committed_cursor r = None"
proof (induction P' sc policy p c cur n w rule: fetch_with_retry.induct)
  case (1 P' scope policy pages changes cursor attempts w)
  from 1(2) 1(1) show ?case
    by (subst (asm) fetch_with_retry.simps)
       (fastforce dest: ended_outcome split: prod.splits sum.splits graph_error.splits if_splits simp: Let_def)
qed

lemma collect_Ended:
  "collect P' sc policy cur vis d p c w = (Inr (Ended r), w') \<Longrightarrow> res_outcome r \<in> {RESET_REQUIRED, RETRY_LATER} \<and> committed_cursor r = None"
proof (induction P' sc policy cur vis d p c w rule: collect.induct)
  case (1 P scope policy cursor visited d pages changes w)
  from 1(2) 1(1) show ?case
    by (subst (asm) collect.simps)
       (auto dest: fetch_Ended split: prod.splits sum.splits fetched.splits option.splits if_splits)
qed

section \<open>The contract of the store\<close>

locale graph_store =
  fixes P :: "'w graph_port"
  assumes commit_published: "g_commit P sc expected final chs w = (Inr st, w') \<Longrightarrow>
      map_option st_cursor (g_load P sc w) = expected \<and> g_load P sc w' = Some st \<and> st_cursor st = final \<and>
      st_generation st = (case g_load P sc w of None \<Rightarrow> 1 | Some s \<Rightarrow> st_generation s + 1) \<and>
      items_of (Some st) = apply_changes chs (items_of (g_load P sc w))"
    and commit_refused: "g_commit P sc expected final chs w = (Inl e, w') \<Longrightarrow> g_load P sc' w' = g_load P sc' w"
    and commit_elsewhere: "g_commit P sc expected final chs w = (r, w') \<Longrightarrow> scope_id sc' \<noteq> scope_id sc \<Longrightarrow>
      g_load P sc' w' = g_load P sc' w"
begin

text \<open>A committed cycle published exactly the changes it read, applied in the order they were read.\<close>

lemma committed:
  assumes "reconcile_graph P sc policy w = (Inr r, w')" "committed_cursor r = Some f"
  shows "\<exists>cursor chs n w1 st x. delta_reads P sc (case policy of None \<Rightarrow> default_sync_policy | Some p \<Rightarrow> p) cursor w chs n f w1 \<and>
    collect P sc (case policy of None \<Rightarrow> default_sync_policy | Some p \<Rightarrow> p) cursor [] [] 0 0 w = (x, w1) \<and>
    map_option st_cursor (g_load P sc w1) = map_option st_cursor (g_load P sc w) \<and>
    g_load P sc w' = Some st \<and> st_cursor st = f \<and>
    items_of (Some st) = apply_changes chs (items_of (g_load P sc w1)) \<and>
    pages_seen r = n \<and> changes_seen r = length chs"
proof -
  let ?pol = "case policy of None \<Rightarrow> default_sync_policy | Some p \<Rightarrow> p"
  from assms obtain cursor col w1 st where
    col: "collect P sc ?pol cursor [] [] 0 0 w = (Inr (Got col), w1)"
    and cm: "g_commit P sc (map_option st_cursor (g_load P sc w)) (col_final col)
        (sorted_values (col_reduced col)) w1 = (Inr st, w')"
    and r: "pages_seen r = col_pages col" "changes_seen r = col_changes col"
      "committed_cursor r = Some (st_cursor st)"
    by (auto simp: reconcile_graph_def Let_def make_result_def split: prod.splits sum.splits fetched.splits
        if_splits dest!: collect_Ended)
  from collect_cycle[OF col] obtain chs where
    reads: "delta_reads P sc ?pol cursor w chs (col_pages col) (col_final col) w1" and d: "dict_ok (col_reduced col)"
    and m: "map_of (col_reduced col) = last_change chs" and n: "col_changes col = length chs"
    by blast
  show ?thesis
    using commit_published[OF cm] col reads n r assms(2) unfolding reduced_effect[OF d m] by auto
qed

end

section \<open>Cycles that leave the store alone\<close>

lemma fetch_keeps:
  assumes "\<And>c w r w'. I w \<Longrightarrow> g_fetch P sc c w = (r, w') \<Longrightarrow> I w'" "\<And>n w. I w \<Longrightarrow> I (g_sleep P n w)"
    and "fetch_with_retry P sc policy p c cur n w = (r, w')" "I w"
  shows "I w'"
  using assms
proof (induction P sc policy p c cur n w rule: fetch_with_retry.induct)
  case (1 P scope policy pages changes cursor attempts w)
  obtain r1 w1 where f: "g_fetch P scope cursor w = (r1, w1)" by fastforce
  then have "I w1" using 1(2,5) by blast
  with f 1 show ?case
    by (subst (asm) fetch_with_retry.simps) (auto simp: Let_def split: sum.splits graph_error.splits if_splits)
qed

lemma collect_keeps:
  assumes "\<And>c w r w'. I w \<Longrightarrow> g_fetch P sc c w = (r, w') \<Longrightarrow> I w'" "\<And>n w. I w \<Longrightarrow> I (g_sleep P n w)"
    and "collect P sc policy cur vis d p c w = (r, w')" "I w"
  shows "I w'"
  using assms
proof (induction P sc policy cur vis d p c w rule: collect.induct)
  case (1 P scope policy cursor visited d pages changes w)
  obtain r1 w1 where f: "fetch_with_retry P scope policy pages changes cursor 0 w = (r1, w1)" by fastforce
  have "I w1" by (rule fetch_keeps[OF 1(2,3) f 1(5)])
  with f 1 show ?case
    by (subst (asm) collect.simps)
       (auto split: sum.splits fetched.splits option.splits if_splits)
qed

locale graph_reader = graph_store +
  assumes fetch_reads: "g_fetch P sc c w = (r, w') \<Longrightarrow> g_load P sc' w' = g_load P sc' w"
    and sleep_reads: "g_load P sc' (g_sleep P n w) = g_load P sc' w"
begin

lemma collect_reads_only:
  assumes "collect P sc policy cur vis d p c w = (r, w')"
  shows "g_load P sc' w' = g_load P sc' w"
  using collect_keeps[where I = "\<lambda>v. g_load P sc' v = g_load P sc' w", OF _ _ assms] fetch_reads sleep_reads
  by metis

lemma committed_from_start:
  assumes "reconcile_graph P sc policy w = (Inr r, w')" "committed_cursor r = Some f"
  shows "\<exists>cursor chs w1 st. delta_reads P sc (case policy of None \<Rightarrow> default_sync_policy | Some p \<Rightarrow> p) cursor w chs (pages_seen r) f w1 \<and>
    g_load P sc w' = Some st \<and> st_cursor st = f \<and> changes_seen r = length chs \<and>
    items_of (Some st) = apply_changes chs (items_of (g_load P sc w))"
proof -
  from committed[OF assms] obtain cursor chs n w1 st x where
    c: "delta_reads P sc (case policy of None \<Rightarrow> default_sync_policy | Some p \<Rightarrow> p) cursor w chs n f w1"
      "collect P sc (case policy of None \<Rightarrow> default_sync_policy | Some p \<Rightarrow> p) cursor [] [] 0 0 w = (x, w1)"
      "g_load P sc w' = Some st" "st_cursor st = f" "pages_seen r = n" "changes_seen r = length chs"
      "items_of (Some st) = apply_changes chs (items_of (g_load P sc w1))"
    by blast
  show ?thesis using c collect_reads_only[OF c(2), of sc] by auto
qed

text \<open>Either the cycle reports the published cursor or no state changed.\<close>

lemma all_or_nothing:
  assumes "reconcile_graph P sc policy w = (r, w')"
  shows "(\<exists>res f. r = Inr res \<and> committed_cursor res = Some f) \<or> (\<forall>sc'. g_load P sc' w' = g_load P sc' w)"
proof -
  let ?pol = "case policy of None \<Rightarrow> default_sync_policy | Some p \<Rightarrow> p"
  from assms consider "w' = w"
    | cursor x where "collect P sc ?pol cursor [] [] 0 0 w = (x, w')"
    | cursor col e f w1 e1 where "collect P sc ?pol cursor [] [] 0 0 w = (Inr (Got col), w1)"
        "g_commit P sc e f (sorted_values (col_reduced col)) w1 = (Inl e1, w')"
    | cursor col e f w1 st where "collect P sc ?pol cursor [] [] 0 0 w = (Inr (Got col), w1)"
        "g_commit P sc e f (sorted_values (col_reduced col)) w1 = (Inr st, w')"
        "r = make_result \<lparr>res_outcome = (if sorted_values (col_reduced col) = [] then UNCHANGED else APPLIED),
          res_scope = scope_id sc, pages_seen = col_pages col, changes_seen = col_changes col,
          changes_applied = length (sorted_values (col_reduced col)),
          committed_cursor = Some (st_cursor st), retry_after_seconds = None\<rparr>"
    by (auto simp: reconcile_graph_def Let_def split: prod.splits sum.splits fetched.splits)
  then show ?thesis
  proof cases
    case 2 then show ?thesis using collect_reads_only by metis
  next
    case 3 then show ?thesis using collect_reads_only commit_refused by metis
  next
    case 4
    from collect_cycle[OF 4(1)] have "length (sorted_values (col_reduced col)) \<le> col_changes col"
      by (auto simp: sorted_values_length)
    then show ?thesis using 4(3) by (simp add: make_result_def sync_result_valid_def)
  qed simp
qed

end

section \<open>The length of a cycle\<close>

lemma fetch_calls:
  assumes "\<And>c w r w'. g_fetch P sc c w = (r, w') \<Longrightarrow> calls w' \<le> calls w + (1::nat)"
    and "\<And>n w. calls (g_sleep P n w) = calls w"
    and "fetch_with_retry P sc policy p c cur n w = (r, w')"
  shows "calls w' \<le> calls w + (max_retries policy - n) + 1"
  using assms
proof (induction P sc policy p c cur n w rule: fetch_with_retry.induct)
  case (1 P scope policy pages changes cursor attempts w)
  obtain r1 w1 where f: "g_fetch P scope cursor w = (r1, w1)" by fastforce
  then have c1: "calls w1 \<le> calls w + 1" using 1(2) by blast
  have run: "fetch_with_retry P scope policy pages changes cursor attempts w = (r, w')" by (rule 1(4))
  show ?case
  proof (cases "w' = w1")
    case False
    then obtain hint delay where t: "r1 = Inl (Throttle hint)"
      and d: "delay = (case hint of Some d \<Rightarrow> d | None \<Rightarrow> fallback_delay policy attempts)"
      and lim: "\<not> (max_server_delay_seconds policy < delay \<or> max_retries policy \<le> attempts)"
      and rec: "fetch_with_retry P scope policy pages changes cursor (attempts + 1) (g_sleep P delay w1) = (r, w')"
      using run f by (subst (asm) fetch_with_retry.simps)
        (auto simp: Let_def split: sum.splits graph_error.splits if_splits)
    have "calls w' \<le> calls (g_sleep P delay w1) + (max_retries policy - (attempts + 1)) + 1"
      by (rule 1(1)[OF f[symmetric] t refl d lim _ 1(3) rec]) (rule 1(2))
    then show ?thesis using c1 lim 1(3) by simp
  qed (use c1 in simp)
qed

lemma collect_calls:
  assumes "\<And>c w r w'. g_fetch P sc c w = (r, w') \<Longrightarrow> calls w' \<le> calls w + (1::nat)"
    and "\<And>n w. calls (g_sleep P n w) = calls w"
    and "collect P sc policy cur vis d p c w = (r, w')" "p \<le> max_pages policy"
  shows "calls w' \<le> calls w + (max_pages policy + 1 - p) * (max_retries policy + 1)"
  using assms
proof (induction P sc policy cur vis d p c w rule: collect.induct)
  case (1 P scope policy cursor visited d pages changes w)
  obtain r1 w1 where f: "fetch_with_retry P scope policy pages changes cursor 0 w = (r1, w1)" by fastforce
  have c1: "calls w1 \<le> calls w + (max_retries policy + 1)"
    using fetch_calls[OF 1(2,3) f] by simp
  have run: "collect P scope policy cursor visited d pages changes w = (r, w')" by (rule 1(4))
  have n: "(max_pages policy + 1 - pages) * (max_retries policy + 1) =
      (max_retries policy + 1) + (max_pages policy - pages) * (max_retries policy + 1)"
    using 1(5) by (simp add: Suc_diff_le)
  show ?case
  proof (cases "w' = w \<or> w' = w1")
    case False
    then obtain page d1 c' where fr: "cursor \<notin> set visited" and t: "r1 = Inr (Got page)"
      and lim: "\<not> max_pages policy < pages + 1" "\<not> (page_scope page \<noteq> scope_id scope \<or> requested_cursor page \<noteq> cursor)"
        "\<not> max_changes policy < changes + length (page_changes page)"
      and ab: "absorb scope (page_changes page) d = Inr d1" and nx: "next_cursor page = Some c'"
      and rec: "collect P scope policy c' (cursor # visited) d1 (pages + 1)
          (changes + length (page_changes page)) w1 = (r, w')"
      using run f by (subst (asm) collect.simps)
        (auto split: sum.splits fetched.splits option.splits if_splits)
    have "calls w' \<le> calls w1 + (max_pages policy + 1 - (pages + 1)) * (max_retries policy + 1)"
      using lim by (intro 1(1)[OF fr f[symmetric] t refl lim ab nx _ 1(3) rec] 1(2)) simp_all
    then show ?thesis using c1 unfolding n by simp
  qed (use c1 n in auto)
qed

locale graph_meter =
  fixes P :: "'w graph_port" and calls :: "'w \<Rightarrow> nat"
  assumes fetch_cost: "g_fetch P sc c w = (r, w') \<Longrightarrow> calls w' \<le> calls w + 1"
    and sleep_free: "calls (g_sleep P n w) = calls w"
    and commit_free: "g_commit P sc e f chs w = (st, w') \<Longrightarrow> calls w' = calls w"
begin

lemma reconcile_calls:
  assumes "reconcile_graph P sc policy w = (r, w')"
    and "pol = (case policy of None \<Rightarrow> default_sync_policy | Some p \<Rightarrow> p)"
  shows "calls w' \<le> calls w + (max_pages pol + 1) * (max_retries pol + 1)"
proof (cases "w' = w")
  case False
  then obtain cursor x w1 where col: "collect P sc pol cursor [] [] 0 0 w = (x, w1)" and le: "calls w' = calls w1"
    using assms by (auto simp: reconcile_graph_def Let_def split: prod.splits sum.splits fetched.splits
        dest!: commit_free)
  show ?thesis using collect_calls[OF _ _ col] fetch_cost sleep_free le by simp
qed simp

end

end
