(* ===== verification/Graph_Store.thy ===== *)
theory Graph_Store
  imports Graph_Sync
begin

text \<open>
  The adapters of \<open>adapters/mock_graph.py\<close>: \<open>MockGraphDeltaAdapter\<close>, which serves queued pages under
  opaque scoped handles, and \<open>InMemoryGraphStateStore\<close>.  Both live in \<open>mock_world\<close>; every dict is an
  association list.  The store fulfils \<open>graph_reader\<close>, so the guarantees of the service hold for it.
\<close>

section \<open>The adapters\<close>

datatype mock_outcome =
    MockPage "delta_change list" "pystr option" "pystr option" | MockThrottle "nat option" | MockReset

record mock_world =
  m_initial :: "(pystr \<times> pystr) list"
  m_raw :: "((pystr \<times> pystr) \<times> pystr) list"
  m_scenarios :: "((pystr \<times> pystr) \<times> mock_outcome list) list"
  m_requests :: "(pystr \<times> pystr) list"
  m_states :: "(pystr \<times> sync_state) list"
  m_fail_next :: bool
  m_commit_count :: nat

definition empty_world :: mock_world where
  "empty_world = \<lparr>m_initial = [], m_raw = [], m_scenarios = [], m_requests = [], m_states = [],
     m_fail_next = False, m_commit_count = 0\<rparr>"

definition cursor_digest :: "(json \<Rightarrow> pystr) \<Rightarrow> graph_scope \<Rightarrow> pystr \<Rightarrow> graph_error + pystr" where
  "cursor_digest cs sc raw =
     (case graph_scoped_digest cs (scope_id sc) ''cursor'' raw of Inl _ \<Rightarrow> Inl RecordInvalid | Inr h \<Rightarrow> Inr h)"

definition register_cursor ::
  "(json \<Rightarrow> pystr) \<Rightarrow> graph_scope \<Rightarrow> pystr \<Rightarrow> mock_world \<Rightarrow> graph_error + pystr \<times> mock_world" where
  "register_cursor cs sc raw w = sbind (cursor_digest cs sc raw) (\<lambda>h.
     Inr (h, w\<lparr>m_raw := AList.update (scope_id sc, h) raw (m_raw w)\<rparr>))"

definition register_initial ::
  "(json \<Rightarrow> pystr) \<Rightarrow> graph_scope \<Rightarrow> pystr \<Rightarrow> mock_world \<Rightarrow> graph_error + pystr \<times> mock_world" where
  "register_initial cs sc raw w = sbind (register_cursor cs sc raw w) (\<lambda>(h, w1).
     Inr (h, w1\<lparr>m_initial := AList.update (scope_id sc) h (m_initial w1)\<rparr>))"

definition queue_of :: "mock_world \<Rightarrow> pystr \<times> pystr \<Rightarrow> mock_outcome list" where
  "queue_of w k = (case map_of (m_scenarios w) k of None \<Rightarrow> [] | Some q \<Rightarrow> q)"

definition enqueue_outcome :: "graph_scope \<Rightarrow> pystr \<Rightarrow> mock_outcome \<Rightarrow> mock_world \<Rightarrow> mock_world" where
  "enqueue_outcome sc raw x w =
     w\<lparr>m_scenarios := AList.update (scope_id sc, raw) (queue_of w (scope_id sc, raw) @ [x]) (m_scenarios w)\<rparr>"

definition register_optional ::
  "(json \<Rightarrow> pystr) \<Rightarrow> graph_scope \<Rightarrow> pystr option \<Rightarrow> mock_world \<Rightarrow> graph_error + mock_world" where
  "register_optional cs sc raw w = (case raw of None \<Rightarrow> Inr w
     | Some r \<Rightarrow> sbind (register_cursor cs sc r w) (\<lambda>(_, w1). Inr w1))"

text \<open>A \<open>MockGraphPage\<close> has exactly one of the two cursors (\<open>__post_init__\<close>).\<close>

definition add_page ::
  "(json \<Rightarrow> pystr) \<Rightarrow> graph_scope \<Rightarrow> pystr \<Rightarrow> delta_change list \<Rightarrow> pystr option \<Rightarrow> pystr option \<Rightarrow> mock_world \<Rightarrow>
   graph_error + mock_world" where
  "add_page cs sc raw changes next_raw delta_raw w =
     (if (next_raw = None) = (delta_raw = None) then Inl RecordInvalid
      else sbind (register_cursor cs sc raw w) (\<lambda>(_, w1).
        sbind (register_optional cs sc next_raw w1) (\<lambda>w2.
        sbind (register_optional cs sc delta_raw w2) (\<lambda>w3.
        Inr (enqueue_outcome sc raw (MockPage changes next_raw delta_raw) w3)))))"

definition add_throttle ::
  "(json \<Rightarrow> pystr) \<Rightarrow> graph_scope \<Rightarrow> pystr \<Rightarrow> nat option \<Rightarrow> mock_world \<Rightarrow> graph_error + mock_world" where
  "add_throttle cs sc raw hint w = sbind (register_cursor cs sc raw w) (\<lambda>(_, w1).
     Inr (enqueue_outcome sc raw (MockThrottle hint) w1))"

definition add_reset ::
  "(json \<Rightarrow> pystr) \<Rightarrow> graph_scope \<Rightarrow> pystr \<Rightarrow> mock_world \<Rightarrow> graph_error + mock_world" where
  "add_reset cs sc raw w = sbind (register_cursor cs sc raw w) (\<lambda>(_, w1).
     Inr (enqueue_outcome sc raw MockReset w1))"

definition initial_cursor :: "graph_scope \<Rightarrow> mock_world \<Rightarrow> graph_error + pystr" where
  "initial_cursor sc w = need (map_of (m_initial w) (scope_id sc)) (ConnectorError ''initial cursor unavailable'')"

definition page_handle :: "(json \<Rightarrow> pystr) \<Rightarrow> graph_scope \<Rightarrow> pystr option \<Rightarrow> mock_world \<Rightarrow> graph_error + pystr option" where
  "page_handle cs sc raw w = (case raw of None \<Rightarrow> Inr None
     | Some r \<Rightarrow> sbind (cursor_digest cs sc r) (\<lambda>h.
         if map_of (m_raw w) (scope_id sc, h) \<noteq> Some r then Inl (ConnectorError ''cursor unavailable'')
         else Inr (Some h)))"

definition build_page ::
  "(json \<Rightarrow> pystr) \<Rightarrow> graph_scope \<Rightarrow> pystr \<Rightarrow> mock_outcome \<Rightarrow> mock_world \<Rightarrow> graph_error + delta_page" where
  "build_page cs sc handle x w =
     (case x of MockThrottle hint \<Rightarrow> Inl (Throttle hint) | MockReset \<Rightarrow> Inl CursorReset
      | MockPage changes next_raw delta_raw \<Rightarrow>
          sbind (page_handle cs sc next_raw w) (\<lambda>n.
          sbind (page_handle cs sc delta_raw w) (\<lambda>d.
          let page = \<lparr>page_scope = scope_id sc, requested_cursor = handle, page_changes = changes,
                next_cursor = n, delta_cursor = d\<rparr>
          in if delta_page_valid cs page then Inr page else Inl (ConnectorError ''connector page invalid''))))"

definition fetch_page ::
  "(json \<Rightarrow> pystr) \<Rightarrow> graph_scope \<Rightarrow> pystr \<Rightarrow> mock_world \<Rightarrow> (graph_error + delta_page) \<times> mock_world" where
  "fetch_page cs sc handle w =
     (case map_of (m_raw w) (scope_id sc, handle) of
        None \<Rightarrow> (Inl (ConnectorError ''cursor unavailable''), w)
      | Some raw \<Rightarrow>
          (case queue_of w (scope_id sc, raw) of
             [] \<Rightarrow> (Inl (ConnectorError ''cursor unavailable''), w)
           | x # xs \<Rightarrow>
               let w1 = w\<lparr>m_scenarios := AList.update (scope_id sc, raw) xs (m_scenarios w),
                          m_requests := m_requests w @ [(scope_id sc, handle)]\<rparr>
               in (build_page cs sc handle x w1, w1)))"

definition load_state :: "graph_scope \<Rightarrow> mock_world \<Rightarrow> sync_state option" where
  "load_state sc w = map_of (m_states w) (scope_id sc)"

type_synonym item_dict = "(pystr \<times> stored_item) list"

definition item_dict_of :: "sync_state option \<Rightarrow> item_dict" where
  "item_dict_of s = (case s of None \<Rightarrow> []
     | Some st \<Rightarrow> fold (\<lambda>i. AList.update (item_key (itm_key i)) i) (st_items st) [])"

fun store_changes :: "(json \<Rightarrow> pystr) \<Rightarrow> delta_change list \<Rightarrow> item_dict \<Rightarrow> graph_error + item_dict" where
  "store_changes cs [] d = Inr d"
| "store_changes cs (c # chs) d =
     (if stored_item_valid cs (stored_of c)
      then store_changes cs chs (AList.update (item_key (chg_key c)) (stored_of c) d)
      else Inl RecordInvalid)"

definition commit_state ::
  "(json \<Rightarrow> pystr) \<Rightarrow> graph_scope \<Rightarrow> pystr option \<Rightarrow> pystr \<Rightarrow> delta_change list \<Rightarrow> mock_world \<Rightarrow>
   (graph_error + sync_state) \<times> mock_world" where
  "commit_state cs sc expected final changes w =
     (let current = load_state sc w in
      if map_option st_cursor current \<noteq> expected then (Inl StateConflict, w)
      else if list_ex (\<lambda>c. key_scope (chg_key c) \<noteq> scope_id sc) changes
      then (Inl (ConnectorError ''state change scope is invalid''), w)
      else case store_changes cs changes (item_dict_of current) of
        Inl e \<Rightarrow> (Inl e, w)
      | Inr items \<Rightarrow>
          let prospective = \<lparr>st_scope = scope_id sc, st_cursor = final,
                st_generation = (case current of Some s \<Rightarrow> st_generation s + 1 | None \<Rightarrow> 1),
                st_items = sorted_values items\<rparr>
          in if \<not> sync_state_valid cs prospective then (Inl (ConnectorError ''state publication failed''), w)
             else if m_fail_next w
             then (Inl (ConnectorError ''state publication failed''), w\<lparr>m_fail_next := False\<rparr>)
             else (Inr prospective, w\<lparr>m_states := AList.update (scope_id sc) prospective (m_states w),
                     m_commit_count := m_commit_count w + 1\<rparr>))"

definition mock_port :: "(json \<Rightarrow> pystr) \<Rightarrow> mock_world graph_port" where
  "mock_port cs = \<lparr>g_initial = initial_cursor, g_fetch = fetch_page cs, g_load = load_state,
     g_commit = commit_state cs, g_sleep = (\<lambda>n w. w)\<rparr>"

section \<open>The store keeps its contract\<close>

abbreviation item_ok :: "item_dict \<Rightarrow> bool" where
  "item_ok \<equiv> keyed (\<lambda>i. item_key (itm_key i))"

lemma stored_of_key [simp]: "itm_key (stored_of c) = chg_key c"
  by (simp add: stored_of_def)

lemma dict_of_items:
  "item_ok d \<Longrightarrow> item_ok (fold (\<lambda>i. AList.update (item_key (itm_key i)) i) is d) \<and>
    map_of (fold (\<lambda>i. AList.update (item_key (itm_key i)) i) is d) =
    map_of d ++ map_of (rev (map (\<lambda>i. (item_key (itm_key i), i)) is))"
  by (induction "is" arbitrary: d) (auto simp: keyed_update update_conv' map_add_def fun_eq_iff split: option.splits)

lemma item_dict_of: "item_ok (item_dict_of s) \<and> map_of (item_dict_of s) = items_of s"
  using dict_of_items[OF keyed_empty] by (cases s) (auto simp: item_dict_of_def items_of_def)

lemma store_changes_Inr:
  "store_changes cs chs d = Inr d' \<Longrightarrow> item_ok d \<Longrightarrow> item_ok d' \<and> map_of d' = apply_changes chs (map_of d)"
  by (induction chs arbitrary: d) (auto simp: keyed_update update_conv' apply_change_def split: if_splits)

lemma commit_Inr:
  assumes "commit_state cs sc expected final chs w = (Inr st, w')"
  shows "map_option st_cursor (load_state sc w) = expected" "sync_state_valid cs st" "st_scope st = scope_id sc"
    and "w' = w\<lparr>m_states := AList.update (scope_id sc) st (m_states w), m_commit_count := m_commit_count w + 1\<rparr>"
    and "st_cursor st = final"
    and "st_generation st = (case load_state sc w of None \<Rightarrow> 1 | Some s \<Rightarrow> st_generation s + 1)"
    and "items_of (Some st) = apply_changes chs (items_of (load_state sc w))"
proof -
  from assms obtain items where it: "store_changes cs chs (item_dict_of (load_state sc w)) = Inr items"
    and st: "st = \<lparr>st_scope = scope_id sc, st_cursor = final,
                st_generation = (case load_state sc w of Some s \<Rightarrow> st_generation s + 1 | None \<Rightarrow> 1),
                st_items = sorted_values items\<rparr>"
    by (auto simp: commit_state_def Let_def split: if_splits sum.splits)
  have "item_ok items" "map_of items = apply_changes chs (items_of (load_state sc w))"
    using store_changes_Inr[OF it] item_dict_of[of "load_state sc w"] by auto
  then show "items_of (Some st) = apply_changes chs (items_of (load_state sc w))"
    by (simp add: st items_of_def keyed_sorted_values(2))
qed (use assms in \<open>auto simp: commit_state_def Let_def split: if_splits sum.splits option.splits\<close>)

lemma commit_Inl: "commit_state cs sc expected final chs w = (Inl e, w') \<Longrightarrow> m_states w' = m_states w"
  by (auto simp: commit_state_def Let_def split: if_splits sum.splits)

lemma fetch_states: "fetch_page cs sc h w = (r, w') \<Longrightarrow> m_states w' = m_states w"
  by (auto simp: fetch_page_def Let_def split: option.splits list.splits)

lemma commit_requests: "commit_state cs sc e f chs w = (r, w') \<Longrightarrow> m_requests w' = m_requests w"
  by (auto simp: commit_state_def Let_def split: if_splits sum.splits)

lemma fetch_requests: "fetch_page cs sc h w = (r, w') \<Longrightarrow> length (m_requests w') \<le> length (m_requests w) + 1"
  by (auto simp: fetch_page_def Let_def split: option.splits list.splits)

interpretation mg: graph_reader "mock_port cs" for cs
proof
  fix sc sc' :: graph_scope and expected final chs w st w' e r
  show "g_commit (mock_port cs) sc expected final chs w = (Inr st, w') \<Longrightarrow>
      map_option st_cursor (g_load (mock_port cs) sc w) = expected \<and> g_load (mock_port cs) sc w' = Some st \<and>
      st_cursor st = final \<and>
      st_generation st = (case g_load (mock_port cs) sc w of None \<Rightarrow> 1 | Some s \<Rightarrow> st_generation s + 1) \<and>
      items_of (Some st) = apply_changes chs (items_of (g_load (mock_port cs) sc w))"
    using commit_Inr[of cs sc expected final chs w st w']
    by (simp add: mock_port_def) (simp add: load_state_def update_conv')
  show "g_commit (mock_port cs) sc expected final chs w = (r, w') \<Longrightarrow> scope_id sc' \<noteq> scope_id sc \<Longrightarrow>
      g_load (mock_port cs) sc' w' = g_load (mock_port cs) sc' w"
    by (cases r) (auto simp: mock_port_def load_state_def update_conv' dest: commit_Inl commit_Inr(4))
qed (auto simp: mock_port_def load_state_def dest: commit_Inl fetch_states)

interpretation mm: graph_meter "mock_port cs" "\<lambda>w. length (m_requests w)" for cs
  by unfold_locales (auto simp: mock_port_def dest: fetch_requests commit_requests)

end
