(* ===== verification/Graph_Properties.thy ===== *)
theory Graph_Properties
  imports Graph_Store
begin

text \<open>
  Properties of the drive synchronisation, with a concrete drive: two pages of changes, the second
  of which deletes the item the first one added.
\<close>

section \<open>A concrete drive\<close>

definition gx_cs :: "json \<Rightarrow> pystr" where
  "gx_cs j = U ''s'' @ filter (\<lambda>c. 49 \<le> c \<and> c \<le> 57) (flat j)"

definition gx_scope :: graph_scope where
  "gx_scope = projr (make_graph_scope gx_cs (U ''1'') (U ''2'') (U ''3''))"

definition gx_key :: "string \<Rightarrow> graph_item_key" where
  "gx_key i = projr (make_graph_item_key gx_cs gx_scope (U i))"

definition gx_upsert :: "nat \<Rightarrow> string \<Rightarrow> delta_change" where
  "gx_upsert n i = \<lparr>chg_ordinal = n, chg_key = gx_key i, chg_kind = UPSERT,
     chg_revision = Some (projr (make_revision_hints gx_cs gx_scope (gx_key i) (Some (U ''5'')) None None)),
     chg_permission = Some (projr (make_permission_ref gx_cs (\<lambda>_. U ''t'') gx_scope (gx_key i) (U ''6'') (U ''7'') 0))\<rparr>"

definition gx_delete :: "nat \<Rightarrow> string \<Rightarrow> delta_change" where
  "gx_delete n i = \<lparr>chg_ordinal = n, chg_key = gx_key i, chg_kind = DELETE, chg_revision = None,
     chg_permission = None\<rparr>"

lemmas graph_eval = U_def graph_identity_def graph_scoped_digest_def provider_value_ok_def digest_kind_ok_def lower_letter_def
  make_graph_scope_def scope_identity_def make_graph_item_key_def item_identity_def make_revision_hints_def
  optional_digest_def revision_hints_valid_def make_permission_ref_def

lemma gx_scope_value: "gx_scope = \<lparr>tenant_id = [49], site_id_digest = [115, 49, 50],
    drive_id_digest = [115, 49, 49, 50, 51], scope_id = [115, 49, 49, 50, 49, 49, 50, 51]\<rparr>"
  by (simp add: gx_scope_def gx_cs_def graph_eval Let_def cong: sbind_weak_cong)

lemma gx_key_values:
  "gx_key ''4'' = \<lparr>key_scope = [115, 49, 49, 50, 49, 49, 50, 51], key_item_digest = [115, 49, 49, 50, 49, 49, 50, 51, 52],
    item_key = [115, 49, 49, 50, 49, 49, 50, 51, 49, 49, 50, 49, 49, 50, 51, 52]\<rparr>"
  "gx_key ''9'' = \<lparr>key_scope = [115, 49, 49, 50, 49, 49, 50, 51], key_item_digest = [115, 49, 49, 50, 49, 49, 50, 51, 57],
    item_key = [115, 49, 49, 50, 49, 49, 50, 51, 49, 49, 50, 49, 49, 50, 51, 57]\<rparr>"
  by (simp_all add: gx_key_def gx_scope_value gx_cs_def graph_eval Let_def cong: sbind_weak_cong)

definition gx_world :: mock_world where
  "gx_world = projr (sbind (register_initial gx_cs gx_scope (U ''8'') empty_world) (\<lambda>(_, w1).
     sbind (add_page gx_cs gx_scope (U ''8'') [gx_upsert 0 ''4'', gx_upsert 1 ''9''] (Some (U ''88'')) None w1) (\<lambda>w2.
     sbind (add_throttle gx_cs gx_scope (U ''88'') (Some 3) w2) (\<lambda>w3.
     add_page gx_cs gx_scope (U ''88'') [gx_delete 0 ''4''] None (Some (U ''888'')) w3))))"

definition gx_run :: "(graph_error + sync_result) \<times> mock_world" where
  "gx_run = reconcile_graph (mock_port gx_cs) gx_scope None gx_world"

lemmas adapter_eval = register_cursor_def register_initial_def queue_of_def enqueue_outcome_def register_optional_def
  add_page_def add_throttle_def cursor_digest_def empty_world_def

lemmas gx_values = gx_scope_value gx_key_values gx_upsert_def gx_delete_def

lemma gx_world_value: "gx_world = \<lparr>m_initial = [(scope_id gx_scope, U ''s11211238'')],
    m_raw = [((scope_id gx_scope, U ''s11211238''), U ''8''), ((scope_id gx_scope, U ''s112112388''), U ''88''),
      ((scope_id gx_scope, U ''s1121123888''), U ''888'')],
    m_scenarios = [((scope_id gx_scope, U ''8''), [MockPage [gx_upsert 0 ''4'', gx_upsert 1 ''9''] (Some (U ''88'')) None]),
      ((scope_id gx_scope, U ''88''), [MockThrottle (Some 3), MockPage [gx_delete 0 ''4''] None (Some (U ''888''))])],
    m_requests = [], m_states = [], m_fail_next = False, m_commit_count = 0\<rparr>"
  by (simp add: gx_world_def gx_scope_value gx_cs_def adapter_eval graph_eval Let_def cong: sbind_weak_cong)

lemmas sync_eval = reconcile_graph_def collect.simps fetch_with_retry.simps mock_port_def initial_cursor_def fetch_page_def
  build_page_def page_handle_def load_state_def commit_state_def item_dict_of_def sorted_values_def make_result_def
  default_sync_policy_def sync_result_valid_def delta_page_valid_def delta_change_valid_def graph_item_key_valid_def
  evidence_closed_def stored_item_valid_def sync_state_valid_def stored_of_def item_keys_def sorted_unique_def

lemma gx_committed: "fst gx_run = Inr \<lparr>res_outcome = APPLIED, res_scope = scope_id gx_scope, pages_seen = 2,
    changes_seen = 3, changes_applied = 2, committed_cursor = Some (U ''s1121123888''), retry_after_seconds = None\<rparr>"
  by (simp add: gx_run_def gx_world_value gx_values gx_cs_def adapter_eval graph_eval sync_eval Let_def cong: sbind_weak_cong)

section \<open>Publication\<close>

text \<open>
  C11.  A synchronisation either reports a committed cursor or leaves the published state of every
  scope as it was: errors, resets, throttling and injected failures never publish a part of a cycle.
\<close>

theorem sync_is_all_or_nothing:
  assumes "reconcile_graph (mock_port cs) sc policy w = (r, w')"
  shows "(\<exists>res f. r = Inr res \<and> committed_cursor res = Some f) \<or> (\<forall>sc'. load_state sc' w' = load_state sc' w)"
  using mg.all_or_nothing[OF assms] by (simp add: mock_port_def)

theorem sync_is_all_or_nothing_witness:
  "\<forall>sc'. load_state sc' (snd (reconcile_graph (mock_port gx_cs) gx_scope None empty_world)) = load_state sc' empty_world"
proof -
  have "fst (reconcile_graph (mock_port gx_cs) gx_scope None empty_world) =
      Inl (ConnectorError ''initial cursor unavailable'')"
    by (simp add: reconcile_graph_def mock_port_def load_state_def initial_cursor_def empty_world_def)
  moreover have "(\<exists>res f. fst (reconcile_graph (mock_port gx_cs) gx_scope None empty_world) = Inr res \<and>
        committed_cursor res = Some f) \<or>
      (\<forall>sc'. load_state sc' (snd (reconcile_graph (mock_port gx_cs) gx_scope None empty_world)) = load_state sc' empty_world)"
    by (rule sync_is_all_or_nothing[OF prod.collapse[symmetric]])
  ultimately show ?thesis by simp
qed

text \<open>
  C10.  A committed synchronisation has the effect of applying every change the client served, in the
  order it was served, to the items of the state the cycle started from, although the service keeps
  only the last change of each item and commits them sorted by key.  The state's cursor is the final
  one, and the scope's other partitions are untouched.
\<close>

theorem committed_sync_applies_every_change:
  assumes "reconcile_graph (mock_port cs) sc policy w = (Inr res, w')" "committed_cursor res = Some f"
  shows "\<exists>cursor chs w1 st.
    delta_reads (mock_port cs) sc (case policy of None \<Rightarrow> default_sync_policy | Some p \<Rightarrow> p) cursor w chs (pages_seen res) f w1 \<and>
    load_state sc w' = Some st \<and> st_cursor st = f \<and> changes_seen res = length chs \<and>
    items_of (Some st) = apply_changes chs (items_of (load_state sc w))"
  using mg.committed_from_start[OF assms] by (simp add: mock_port_def)

theorem committed_sync_applies_every_change_witness:
  "\<exists>chs st. load_state gx_scope (snd gx_run) = Some st \<and> st_cursor st = U ''s1121123888'' \<and> length chs = 3 \<and>
    items_of (Some st) = apply_changes chs (\<lambda>_. None)"
proof -
  have "reconcile_graph (mock_port gx_cs) gx_scope None gx_world =
    (Inr \<lparr>res_outcome = APPLIED, res_scope = scope_id gx_scope, pages_seen = 2, changes_seen = 3, changes_applied = 2,
      committed_cursor = Some (U ''s1121123888''), retry_after_seconds = None\<rparr>, snd gx_run)"
    using gx_committed by (metis gx_run_def prod.collapse)
  from committed_sync_applies_every_change[OF this] show ?thesis
    by (auto simp: gx_world_value load_state_def items_of_def)
qed

definition states_ok :: "(json \<Rightarrow> pystr) \<Rightarrow> mock_world \<Rightarrow> bool" where
  "states_ok cs w \<longleftrightarrow> list_all (\<lambda>(k, st). st_scope st = k \<and> sync_state_valid cs st) (m_states w)"

lemma commit_states_ok:
  assumes "commit_state cs sc e f chs w = (r, w')" "states_ok cs w"
  shows "states_ok cs w'"
proof (cases r)
  case (Inr st)
  note c = commit_Inr(2,3,4)[OF assms(1)[unfolded Inr]]
  then show ?thesis using assms(2) set_update_subset[of "scope_id sc" st "m_states w"]
    by (fastforce simp: states_ok_def list_all_iff)
qed (use assms commit_Inl in \<open>auto simp: states_ok_def\<close>)

text \<open>
  Every published state stays valid: it belongs to the scope it is stored under, and its items
  are sorted, unique, of that scope and well-formed.
\<close>

lemma sync_keeps_states_valid:
  assumes "states_ok cs w" "reconcile_graph (mock_port cs) sc policy w = (r, w')"
  shows "states_ok cs w'"
proof -
  let ?pol = "case policy of None \<Rightarrow> default_sync_policy | Some p \<Rightarrow> p"
  have keep: "states_ok cs w1" if "collect (mock_port cs) sc ?pol cursor [] [] 0 0 w = (x, w1)" for cursor x w1
    by (rule collect_keeps[where I = "states_ok cs", OF _ _ that assms(1)])
       (auto simp: mock_port_def states_ok_def dest: fetch_states)
  from assms(2) show ?thesis
    using assms(1) by (auto simp: reconcile_graph_def Let_def mock_port_def split: prod.splits sum.splits fetched.splits
        dest!: keep[unfolded mock_port_def] intro: commit_states_ok)
qed

theorem sync_keeps_states_valid_witness: "states_ok gx_cs (snd gx_run)"
proof -
  have "states_ok gx_cs gx_world" by (simp add: states_ok_def gx_world_value)
  from sync_keeps_states_valid[OF this prod.collapse[symmetric]] show ?thesis unfolding gx_run_def by this
qed

text \<open>
  A commit is refused as a conflict exactly if the scope's cursor is no longer the one the cycle
  started from, and then nothing is written: of two cycles that started from the same state only one
  can publish.
\<close>

lemma stale_commit_is_refused:
  "commit_state cs sc expected final changes w = (Inl StateConflict, w) \<longleftrightarrow>
   map_option st_cursor (load_state sc w) \<noteq> expected"
proof -
  have "store_changes cs chs d \<noteq> Inl StateConflict" for chs d
    by (induction chs arbitrary: d) auto
  then show ?thesis by (auto simp: commit_state_def Let_def split: sum.splits)
qed

section \<open>Bounds\<close>

text \<open>
  C12.  A synchronisation ends after at most \<open>(max_pages + 1) * (max_retries + 1)\<close> requests to the
  client, whatever it answers.
\<close>

theorem sync_request_bound:
  assumes "reconcile_graph (mock_port cs) sc (Some policy) w = (r, w')"
  shows "length (m_requests w') \<le> length (m_requests w) + (max_pages policy + 1) * (max_retries policy + 1)"
  using mm.reconcile_calls[OF assms refl] by simp

theorem sync_request_bound_witness:
  "length (m_requests (snd (reconcile_graph (mock_port gx_cs) gx_scope (Some default_sync_policy) gx_world))) \<le> 606"
  using sync_request_bound[OF prod.collapse[symmetric], of gx_cs gx_scope default_sync_policy gx_world]
  by (simp add: gx_world_value default_sync_policy_def)

text \<open>
  A throttle hint above a day is not reported as \<open>RETRY_LATER\<close>: the result that would carry the
  delay is itself invalid, so the service raises a validation error.
\<close>

lemma long_throttle_raises:
  assumes "g_fetch P sc cursor w = (Inl (Throttle (Some d)), w1)" "86400 < d" "sync_policy_valid policy"
  shows "fetch_with_retry P sc policy pages changes cursor n w = (Inl RecordInvalid, w1)"
  using assms
  by (simp add: fetch_with_retry.simps sync_policy_valid_def ended_def make_result_def sync_result_valid_def)

definition gx_throttled :: mock_world where
  "gx_throttled = projr (sbind (register_initial gx_cs gx_scope (U ''8'') empty_world)
     (\<lambda>(_, w1). add_throttle gx_cs gx_scope (U ''8'') (Some 90000) w1))"

theorem long_throttle_raises_witness:
  "fst (fetch_with_retry (mock_port gx_cs) gx_scope default_sync_policy 0 0 (U ''s11211238'') 0 gx_throttled) =
     Inl RecordInvalid"
proof -
  have "fst (g_fetch (mock_port gx_cs) gx_scope (U ''s11211238'') gx_throttled) = Inl (Throttle (Some 90000))"
    by (simp add: gx_throttled_def gx_scope_value gx_cs_def adapter_eval graph_eval sync_eval Let_def
        cong: sbind_weak_cong)
  then obtain w1 where "g_fetch (mock_port gx_cs) gx_scope (U ''s11211238'') gx_throttled =
      (Inl (Throttle (Some 90000)), w1)" by (metis prod.collapse)
  from long_throttle_raises[OF this, of default_sync_policy 0 0 0] show ?thesis
    by (simp add: sync_policy_valid_def default_sync_policy_def)
qed

section \<open>Separation of tenants\<close>

text \<open>
  Item keys are a namespace per tenant, site and drive: with a collision-free hash two items
  have the same key exactly if all four provider identifiers agree.
\<close>

lemma item_keys_separate_tenants:
  assumes "inj cs"
    and "make_graph_scope cs t s d = Inr sc" "make_graph_item_key cs sc i = Inr k"
    and "make_graph_scope cs t' s' d' = Inr sc'" "make_graph_item_key cs sc' i' = Inr k'"
  shows "item_key k = item_key k' \<longleftrightarrow> t = t' \<and> s = s' \<and> d = d' \<and> i = i'"
  using graph_scope_separates[OF assms(1,2,4)] item_key_separates[OF assms(1,3,5)] by blast

theorem item_keys_separate_tenants_witness:
  "item_key (projr (make_graph_item_key numbering (projr (make_graph_scope numbering (U ''a'') (U ''s'') (U ''d''))) (U ''i''))) \<noteq>
   item_key (projr (make_graph_item_key numbering (projr (make_graph_scope numbering (U ''b'') (U ''s'') (U ''d''))) (U ''i'')))"
proof -
  have ok: "\<exists>sc k. make_graph_scope numbering (U t) (U ''s'') (U ''d'') = Inr sc \<and> make_graph_item_key numbering sc (U ''i'') = Inr k" for t
    by (simp add: graph_eval Let_def)
  obtain sc k where a: "make_graph_scope numbering (U ''a'') (U ''s'') (U ''d'') = Inr sc" "make_graph_item_key numbering sc (U ''i'') = Inr k"
    using ok by blast
  obtain sc' k' where b: "make_graph_scope numbering (U ''b'') (U ''s'') (U ''d'') = Inr sc'" "make_graph_item_key numbering sc' (U ''i'') = Inr k'"
    using ok by blast
  have "item_key k \<noteq> item_key k'"
    using item_keys_separate_tenants[OF inj_numbering a b] by (simp add: U_def)
  then show ?thesis by (simp add: a b)
qed

end
