(* ===== verification/Context_Domain.thy ===== *)
theory Context_Domain
  imports Ardp_Prelude
begin

text \<open>
  Records of the context compiler (\<open>domain/context.py\<close>, \<open>domain/context_compilation.py\<close>,
  \<open>domain/context_relevance.py\<close>, \<open>domain/semantic_retrieval.py\<close>): scopes, provenance, trust,
  candidates, the selection policy and its limits.  Enumerations are datatypes with their text
  \<open>*_value\<close>; UUIDs, digests and media types are texts; a source locator is the JSON it is dumped to.
\<close>

section \<open>Enumerations\<close>

datatype context_mode = MODE_SUMMARY | MODE_EXACT | MODE_NUMERIC | MODE_VISUAL | MODE_VERIFICATION | MODE_MIXED

fun mode_value :: "context_mode \<Rightarrow> pystr" where
  "mode_value MODE_SUMMARY = U ''summary''"
| "mode_value MODE_EXACT = U ''exact''"
| "mode_value MODE_NUMERIC = U ''numeric''"
| "mode_value MODE_VISUAL = U ''visual''"
| "mode_value MODE_VERIFICATION = U ''verification''"
| "mode_value MODE_MIXED = U ''mixed''"

datatype budget_unit = TOKENS | CHARACTERS | BYTES

fun unit_value :: "budget_unit \<Rightarrow> pystr" where
  "unit_value TOKENS = U ''tokens''"
| "unit_value CHARACTERS = U ''characters''"
| "unit_value BYTES = U ''bytes''"

datatype evidence_rep =
    REP_METADATA | REP_OUTLINE | REP_SUMMARY | REP_EXACT | REP_STRUCTURED | REP_VISUAL_HANDLE | REP_ORIGINAL_HANDLE

fun rep_value :: "evidence_rep \<Rightarrow> pystr" where
  "rep_value REP_METADATA = U ''metadata''"
| "rep_value REP_OUTLINE = U ''outline''"
| "rep_value REP_SUMMARY = U ''summary''"
| "rep_value REP_EXACT = U ''exact''"
| "rep_value REP_STRUCTURED = U ''structured''"
| "rep_value REP_VISUAL_HANDLE = U ''visual_handle''"
| "rep_value REP_ORIGINAL_HANDLE = U ''original_handle''"

lemma rep_value_eq_iff [simp]: "rep_value a = rep_value b \<longleftrightarrow> a = b"
  by (cases a; cases b) (simp_all add: U_def)

datatype trust_zone = LOCAL_TRUSTED | ORGANIZATION_TRUSTED | EXTERNAL_UNTRUSTED | MODEL_DERIVED

fun zone_value :: "trust_zone \<Rightarrow> pystr" where
  "zone_value LOCAL_TRUSTED = U ''local_trusted''"
| "zone_value ORGANIZATION_TRUSTED = U ''organization_trusted''"
| "zone_value EXTERNAL_UNTRUSTED = U ''external_untrusted''"
| "zone_value MODEL_DERIVED = U ''model_derived''"

datatype integrity_state = VERIFIED_SHA256 | UNVERIFIED

fun integrity_value :: "integrity_state \<Rightarrow> pystr" where
  "integrity_value VERIFIED_SHA256 = U ''verified_sha256''"
| "integrity_value UNVERIFIED = U ''unverified''"

datatype sensitivity = PUBLIC | INTERNAL | CONFIDENTIAL | RESTRICTED | SENS_UNKNOWN

fun sensitivity_value :: "sensitivity \<Rightarrow> pystr" where
  "sensitivity_value PUBLIC = U ''public''"
| "sensitivity_value INTERNAL = U ''internal''"
| "sensitivity_value CONFIDENTIAL = U ''confidential''"
| "sensitivity_value RESTRICTED = U ''restricted''"
| "sensitivity_value SENS_UNKNOWN = U ''unknown''"

text \<open>The order of \<open>_SENSITIVITY_RANK\<close> (\<open>services/context_ranking.py\<close>).\<close>

fun sensitivity_rank :: "sensitivity \<Rightarrow> nat" where
  "sensitivity_rank PUBLIC = 0"
| "sensitivity_rank INTERNAL = 1"
| "sensitivity_rank CONFIDENTIAL = 2"
| "sensitivity_rank RESTRICTED = 3"
| "sensitivity_rank SENS_UNKNOWN = 4"

lemma sensitivity_rank_eq_iff [simp]: "sensitivity_rank a = sensitivity_rank b \<longleftrightarrow> a = b"
  by (cases a; cases b) simp_all

instantiation sensitivity :: linorder
begin

definition less_eq_sensitivity :: "sensitivity \<Rightarrow> sensitivity \<Rightarrow> bool" where
  "less_eq_sensitivity a b \<longleftrightarrow> sensitivity_rank a \<le> sensitivity_rank b"

definition less_sensitivity :: "sensitivity \<Rightarrow> sensitivity \<Rightarrow> bool" where
  "less_sensitivity a b \<longleftrightarrow> sensitivity_rank a < sensitivity_rank b"

instance
  by standard (auto simp: less_eq_sensitivity_def less_sensitivity_def dest: antisym)

end

datatype freshness = FRESH_CURRENT | FRESH_HISTORICAL | FRESH_STALE

datatype selection_outcome = SELECTED | OMITTED | REJECTED | STALE_OUT

section \<open>Scopes, provenance and trust\<close>

record version_scope =
  vs_document :: pystr
  vs_version :: pystr
  vs_representation :: pystr

definition scope_key :: "version_scope \<Rightarrow> pystr \<times> pystr \<times> pystr" where
  "scope_key s = (vs_document s, vs_version s, vs_representation s)"

lemma scope_key_eq_iff [simp]: "scope_key a = scope_key b \<longleftrightarrow> a = b"
  by (auto simp: scope_key_def intro: version_scope.equality)

record block_provenance =
  bp_scope :: version_scope
  bp_block :: pystr
  bp_source :: json

record projection_provenance =
  pp_scope :: version_scope
  pp_source_version :: pystr
  pp_native :: pystr
  pp_reference :: pystr
  pp_projection :: pystr

datatype provenance = Block block_provenance | Projection projection_provenance

fun provenance_scope :: "provenance \<Rightarrow> version_scope" where
  "provenance_scope (Block b) = bp_scope b"
| "provenance_scope (Projection p) = pp_scope p"

fun provenance_evidence :: "provenance \<Rightarrow> pystr" where
  "provenance_evidence (Block b) = bp_block b"
| "provenance_evidence (Projection p) = pp_projection p"

fun provenance_valid :: "provenance \<Rightarrow> bool" where
  "provenance_valid (Block b) = True"
| "provenance_valid (Projection p) = (vs_version (pp_scope p) = pp_source_version p)"

text \<open>Content is always data: \<open>role\<close> and \<open>instruction_execution_allowed\<close> are constants.\<close>

record trust_class =
  tr_zone :: trust_zone
  tr_integrity :: integrity_state
  tr_sensitivity :: sensitivity

record stored_object =
  so_id :: pystr
  so_length :: nat

section \<open>Candidates\<close>

record relevance =
  rel_policy :: pystr
  rel_total_signals :: nat
  rel_matched_signals :: nat
  rel_total_weight :: nat
  rel_matched_weight :: nat
  rel_score :: nat
  rel_volatile_matched :: bool
  rel_meets_minimum :: bool

definition relevance_valid :: "relevance \<Rightarrow> bool" where
  "relevance_valid r \<longleftrightarrow> rel_total_signals r \<le> 256 \<and> rel_total_weight r \<le> 25600 \<and> rel_score r \<le> 1000000 \<and>
     rel_matched_signals r \<le> rel_total_signals r \<and> rel_matched_weight r \<le> rel_total_weight r \<and>
     rel_score r = (if rel_total_weight r = 0 then 0 else rel_matched_weight r * 1000000 div rel_total_weight r)"

record semantic_obs =
  sem_recipe :: pystr
  sem_policy :: pystr
  sem_score :: int
  sem_volatile_matched :: bool
  sem_meets_minimum :: bool
  sem_cache_hit :: bool

record candidate =
  c_evidence :: pystr
  c_scope :: version_scope
  c_provenance :: provenance
  c_rep :: evidence_rep
  c_source_order :: nat
  c_body :: "stored_object option"
  c_media_type :: "pystr option"
  c_handle :: "pystr option"
  c_artifact :: "pystr option"
  c_cost :: "stored_object option"
  c_trust :: trust_class
  c_fresh :: freshness
  c_coverage :: nat
  c_occurrences :: nat
  c_reason :: pystr
  c_high_value :: bool
  c_tier :: nat
  c_relevance :: "relevance option"
  c_semantic :: "semantic_obs option"

definition body_shape :: "candidate \<Rightarrow> bool" where
  "body_shape c \<longleftrightarrow> c_body c \<noteq> None \<and> c_media_type c \<noteq> None"

definition handle_shape :: "candidate \<Rightarrow> bool" where
  "handle_shape c \<longleftrightarrow> c_handle c \<noteq> None \<and> c_artifact c \<noteq> None \<and> c_cost c \<noteq> None"

definition candidate_valid :: "candidate \<Rightarrow> bool" where
  "candidate_valid c \<longleftrightarrow> c_tier c \<le> 1 \<and> provenance_valid (c_provenance c) \<and>
     c_scope c = provenance_scope (c_provenance c) \<and> c_evidence c = provenance_evidence (c_provenance c) \<and>
     body_shape c \<noteq> handle_shape c \<and> (c_body c = None) = (c_media_type c = None) \<and>
     (if handle_shape c
      then c_rep c = REP_VISUAL_HANDLE \<and> c_handle c = c_artifact c \<and>
        map_option so_id (c_cost c) = c_artifact c
      else c_rep c \<noteq> REP_VISUAL_HANDLE)"

section \<open>Policy and limits\<close>

record selection_policy =
  pol_mode :: context_mode
  pol_required :: "evidence_rep list"
  pol_zones :: "trust_zone list"
  pol_max_sensitivity :: sensitivity

definition selection_policy_valid :: "selection_policy \<Rightarrow> bool" where
  "selection_policy_valid p \<longleftrightarrow> sorted_unique (map rep_value (pol_required p)) \<and> pol_zones p \<noteq> [] \<and>
     sorted_unique (map zone_value (pol_zones p))"

record compile_limits =
  lim_scopes :: nat
  lim_discovered :: nat
  lim_candidates :: nat
  lim_body_bytes :: nat
  lim_decisions :: nat
  lim_bundle_units :: nat

definition compile_limits_valid :: "compile_limits \<Rightarrow> bool" where
  "compile_limits_valid l \<longleftrightarrow> 1 \<le> lim_scopes l \<and> lim_scopes l \<le> 32 \<and>
     1 \<le> lim_discovered l \<and> lim_discovered l \<le> 10000 \<and> 1 \<le> lim_candidates l \<and> lim_candidates l \<le> 512 \<and>
     1024 \<le> lim_body_bytes l \<and> lim_body_bytes l \<le> 8 * 1024 * 1024 \<and>
     1 \<le> lim_decisions l \<and> lim_decisions l \<le> 12000 \<and>
     1024 \<le> lim_bundle_units l \<and> lim_bundle_units l \<le> 16 * 1024 * 1024 \<and>
     lim_candidates l \<le> lim_discovered l \<and> lim_candidates l \<le> lim_decisions l"

record algorithm_id =
  alg_name :: pystr
  alg_version :: pystr
  alg_hash :: pystr

record estimator_id =
  est_name :: pystr
  est_version :: pystr
  est_unit :: budget_unit
  est_hash :: pystr

record compile_request =
  rq_task :: pystr
  rq_documents :: "pystr list"
  rq_limit :: nat
  rq_estimator :: estimator_id
  rq_policy :: selection_policy
  rq_limits :: compile_limits

definition compile_request_valid :: "compile_request \<Rightarrow> bool" where
  "compile_request_valid r \<longleftrightarrow> 1 \<le> length (rq_task r) \<and> length (rq_task r) \<le> 4096 \<and>
     1 \<le> length (rq_documents r) \<and> length (rq_documents r) \<le> 32 \<and>
     1 \<le> rq_limit r \<and> rq_limit r \<le> 16 * 1024 * 1024 \<and> selection_policy_valid (rq_policy r) \<and>
     compile_limits_valid (rq_limits r) \<and> sorted_unique (rq_documents r) \<and>
     length (rq_documents r) \<le> lim_scopes (rq_limits r) \<and> rq_limit r \<le> lim_bundle_units (rq_limits r)"

record corpus_snapshot =
  snap_scopes :: "version_scope list"
  snap_created :: int

definition corpus_snapshot_valid :: "corpus_snapshot \<Rightarrow> bool" where
  "corpus_snapshot_valid s \<longleftrightarrow> 1 \<le> length (snap_scopes s) \<and> length (snap_scopes s) \<le> 32 \<and>
     sorted_unique (map scope_key (snap_scopes s))"

end
