(* ===== verification/Context_Ranking.thy ===== *)
theory Context_Ranking
  imports Context_Domain "HOL-Library.Sublist"
begin

text \<open>
  Classification and allocation of candidates (\<open>services/context_ranking.py\<close>,
  \<open>domain/context_ranking.py\<close>): policy checks and exact deduplication, the two total orders, body
  deduplication, the quota per source, the ranked prefix and the round robin within a retrieval tier.
  Sort keys are tuples ordered lexicographically, as in Python; \<open>sort_key\<close> is stable like \<open>sorted\<close>.
\<close>

section \<open>Failures\<close>

datatype context_error =
    Cancelled string | IntegrityFailure string | LimitExceeded string | ConfigurationMismatch string
  | NotFound string | InvalidRecord

section \<open>Classification\<close>

fun preferred :: "context_mode \<Rightarrow> evidence_rep list" where
  "preferred MODE_SUMMARY = [REP_SUMMARY]"
| "preferred MODE_EXACT = [REP_EXACT]"
| "preferred MODE_NUMERIC = [REP_EXACT, REP_STRUCTURED]"
| "preferred MODE_VISUAL = [REP_VISUAL_HANDLE]"
| "preferred MODE_VERIFICATION = [REP_EXACT]"
| "preferred MODE_MIXED = [REP_EXACT, REP_STRUCTURED]"

definition required_representations :: "selection_policy \<Rightarrow> evidence_rep list" where
  "required_representations p = (if pol_required p \<noteq> [] then pol_required p else preferred (pol_mode p))"

type_synonym identity = "pystr \<times> pystr \<times> pystr \<times> pystr \<times> pystr"

definition candidate_identity :: "candidate \<Rightarrow> identity" where
  "candidate_identity c = (vs_document (c_scope c), vs_version (c_scope c), vs_representation (c_scope c),
     c_evidence c, rep_value (c_rep c))"

definition primary_score :: "candidate \<Rightarrow> int" where
  "primary_score c = (case c_semantic c of Some s \<Rightarrow> sem_score s | None \<Rightarrow> int (c_coverage c))"

type_synonym tail_key = "pystr \<times> pystr \<times> pystr \<times> nat \<times> pystr \<times> pystr"

definition tail_key :: "candidate \<Rightarrow> tail_key" where
  "tail_key c = (vs_document (c_scope c), vs_version (c_scope c), vs_representation (c_scope c),
     c_source_order c, rep_value (c_rep c), c_evidence c)"

definition candidate_total_order_key :: "candidate \<Rightarrow> bool \<times> nat \<times> int \<times> int \<times> tail_key" where
  "candidate_total_order_key c =
     (\<not> c_high_value c, c_tier c, - primary_score c, - int (c_occurrences c), tail_key c)"

definition rel_field :: "(relevance \<Rightarrow> nat) \<Rightarrow> candidate \<Rightarrow> int" where
  "rel_field f c = (case c_relevance c of None \<Rightarrow> 0 | Some r \<Rightarrow> int (f r))"

definition rank_key :: "candidate \<Rightarrow> bool \<times> nat \<times> int \<times> int \<times> int \<times> int \<times> int \<times> tail_key" where
  "rank_key c = (\<not> c_high_value c, c_tier c, - primary_score c, - int (c_occurrences c),
     - rel_field rel_score c, - rel_field rel_matched_weight c, - rel_field rel_matched_signals c, tail_key c)"

record classified =
  cl_ordered :: "candidate list"
  cl_rejected :: "(candidate \<times> pystr) list"
  cl_stale :: "candidate list"

definition admitted :: "selection_policy \<Rightarrow> candidate \<Rightarrow> candidate" where
  "admitted p c = c\<lparr>c_high_value := c_rep c \<in> set (preferred (pol_mode p))\<rparr>"

definition no_candidates :: classified where
  "no_candidates = \<lparr>cl_ordered = [], cl_rejected = [], cl_stale = []\<rparr>"

definition put_ordered :: "candidate \<Rightarrow> classified \<Rightarrow> classified" where
  "put_ordered c r = r\<lparr>cl_ordered := c # cl_ordered r\<rparr>"

definition put_rejected :: "candidate \<Rightarrow> string \<Rightarrow> classified \<Rightarrow> classified" where
  "put_rejected c reason r = r\<lparr>cl_rejected := (c, U reason) # cl_rejected r\<rparr>"

definition put_stale :: "candidate \<Rightarrow> classified \<Rightarrow> classified" where
  "put_stale c r = r\<lparr>cl_stale := c # cl_stale r\<rparr>"

text \<open>\<open>rel\<close> is the identity of the relevance policy, if there is one.\<close>

fun classify_loop ::
  "selection_policy \<Rightarrow> pystr option \<Rightarrow> candidate list \<Rightarrow> identity list \<Rightarrow> context_error + classified" where
  "classify_loop p rel [] seen = Inr no_candidates"
| "classify_loop p rel (c # cs) seen =
     (if c_fresh c \<noteq> FRESH_CURRENT
      then sbind (classify_loop p rel cs seen) (\<lambda>r. Inr (put_stale c r))
      else if tr_zone (c_trust c) \<notin> set (pol_zones p)
      then sbind (classify_loop p rel cs seen) (\<lambda>r. Inr (put_rejected c ''trust_zone_not_allowed'' r))
      else if sensitivity_rank (tr_sensitivity (c_trust c)) > sensitivity_rank (pol_max_sensitivity p)
      then sbind (classify_loop p rel cs seen) (\<lambda>r. Inr (put_rejected c ''sensitivity_exceeded'' r))
      else if candidate_identity c \<in> set seen
      then sbind (classify_loop p rel cs seen) (\<lambda>r. Inr (put_rejected c ''duplicate_candidate'' r))
      else
        let seen' = candidate_identity c # seen;
            keep = sbind (classify_loop p rel cs seen') (\<lambda>r. Inr (put_ordered (admitted p c) r))
        in (case rel of
              None \<Rightarrow> keep
            | Some policy_id \<Rightarrow>
                if c_rep c = REP_VISUAL_HANDLE then keep
                else (case c_relevance c of
                    None \<Rightarrow> Inl (IntegrityFailure ''candidate_relevance_missing'')
                  | Some r \<Rightarrow>
                      if rel_policy r \<noteq> policy_id
                      then Inl (IntegrityFailure ''candidate_relevance_policy_mismatch'')
                      else if \<not> rel_meets_minimum r
                      then sbind (classify_loop p rel cs seen')
                        (\<lambda>k. Inr (put_rejected c ''insufficient_relevance'' k))
                      else keep)))"

definition classify_candidates ::
  "candidate list \<Rightarrow> selection_policy \<Rightarrow> pystr option \<Rightarrow> context_error + classified" where
  "classify_candidates cs p rel = sbind (classify_loop p rel cs []) (\<lambda>r.
     Inr (r\<lparr>cl_ordered := sort_key candidate_total_order_key (cl_ordered r)\<rparr>))"

section \<open>Allocation\<close>

record allocation_policy =
  al_max_per_document :: nat
  al_ranked_prefix :: nat

definition allocation_policy_valid :: "allocation_policy \<Rightarrow> bool" where
  "allocation_policy_valid p \<longleftrightarrow> 1 \<le> al_max_per_document p \<and> al_max_per_document p \<le> 512 \<and> al_ranked_prefix p \<le> 64"

fun drop_duplicate_bodies ::
  "candidate list \<Rightarrow> pystr list \<Rightarrow> candidate list \<times> (candidate \<times> pystr) list" where
  "drop_duplicate_bodies [] seen = ([], [])"
| "drop_duplicate_bodies (c # cs) seen =
     (case c_body c of
        None \<Rightarrow> (case drop_duplicate_bodies cs seen of (u, r) \<Rightarrow> (c # u, r))
      | Some b \<Rightarrow>
          if so_id b \<in> set seen
          then (case drop_duplicate_bodies cs seen of (u, r) \<Rightarrow> (u, (c, U ''duplicate_content_candidate'') # r))
          else (case drop_duplicate_bodies cs (so_id b # seen) of (u, r) \<Rightarrow> (c # u, r)))"

type_synonym source = "pystr \<times> pystr"

definition source_of :: "candidate \<Rightarrow> source" where
  "source_of c = (vs_document (c_scope c), vs_version (c_scope c))"

type_synonym queues = "(source \<times> candidate list) list"

definition queue_at :: "queues \<Rightarrow> source \<Rightarrow> candidate list" where
  "queue_at qs s = (case map_of qs s of None \<Rightarrow> [] | Some q \<Rightarrow> q)"

fun fill_queues :: "nat \<Rightarrow> candidate list \<Rightarrow> queues \<Rightarrow> queues \<times> (candidate \<times> pystr) list" where
  "fill_queues m [] qs = (qs, [])"
| "fill_queues m (c # cs) qs =
     (if m \<le> length (queue_at qs (source_of c))
      then (case fill_queues m cs (AList.update (source_of c) (queue_at qs (source_of c)) qs) of
              (qs', r) \<Rightarrow> (qs', (c, U ''source_quota_exceeded'') # r))
      else fill_queues m cs (AList.update (source_of c) (queue_at qs (source_of c) @ [c]) qs))"

text \<open>The queues that have an \<open>i\<close>-th element emit it, in their order; the loop stops when none has.\<close>

definition row_of :: "candidate list list \<Rightarrow> nat \<Rightarrow> candidate list" where
  "row_of qs i = map (\<lambda>q. q ! i) (filter (\<lambda>q. i < length q) qs)"

lemma row_of_empty: "row_of qs i = [] \<longleftrightarrow> (\<forall>q\<in>set qs. length q \<le> i)"
  by (auto simp: row_of_def filter_empty_conv not_less)

function round_robin :: "candidate list list \<Rightarrow> nat \<Rightarrow> candidate list" where
  "round_robin qs i = (if row_of qs i = [] then [] else row_of qs i @ round_robin qs (i + 1))"
  by pat_completeness auto

termination
proof (relation "measure (\<lambda>(qs, i). Max (insert 0 (length ` set qs)) - i)")
  fix qs i assume "row_of qs i \<noteq> []"
  then obtain q where "q \<in> set qs" "i < length q" by (auto simp: row_of_empty not_le)
  then have "i < Max (insert 0 (length ` set qs))"
    by (intro less_le_trans[OF _ Max_ge, of i "length q"]) auto
  then show "((qs, i + 1), qs, i) \<in> measure (\<lambda>(qs, i). Max (insert 0 (length ` set qs)) - i)" by simp
qed simp

declare round_robin.simps [simp del]

definition tier_queues :: "candidate list list \<Rightarrow> nat \<Rightarrow> candidate list list" where
  "tier_queues qs t = sort_key (\<lambda>q. rank_key (hd q))
     (filter (\<lambda>q. q \<noteq> []) (map (filter (\<lambda>c. c_tier c = t)) qs))"

record allocation =
  alloc_ordered :: "candidate list"
  alloc_rejected :: "(candidate \<times> pystr) list"

definition allocate_lexical_candidates :: "candidate list \<Rightarrow> allocation_policy \<Rightarrow> allocation" where
  "allocate_lexical_candidates cs p =
     (let (unique, dups) = drop_duplicate_bodies (sort_key rank_key cs) [];
          (queues, over) = fill_queues (al_max_per_document p) unique [];
          prefix = take (al_ranked_prefix p) (sort_key rank_key (concat (map snd queues)));
          rest = map (\<lambda>(s, q). filter (\<lambda>c. candidate_identity c \<notin> candidate_identity ` set prefix) q) queues;
          tiers = remdups (sort (map c_tier (concat rest)))
      in \<lparr>alloc_ordered = prefix @ concat (map (\<lambda>t. round_robin (tier_queues rest t) 0) tiers),
          alloc_rejected = dups @ over\<rparr>)"

definition allocate_candidates :: "classified \<Rightarrow> allocation_policy option \<Rightarrow> classified" where
  "allocate_candidates k policy =
     (case policy of None \<Rightarrow> k
      | Some p \<Rightarrow> (let a = allocate_lexical_candidates (cl_ordered k) p
          in k\<lparr>cl_ordered := alloc_ordered a, cl_rejected := cl_rejected k @ alloc_rejected a\<rparr>))"

definition bounded_candidates :: "classified \<Rightarrow> nat \<Rightarrow> candidate list \<times> bool" where
  "bounded_candidates k m = (take m (cl_ordered k), m < length (cl_ordered k))"

section \<open>Classification is a partition\<close>

lemmas put_defs = put_ordered_def put_rejected_def put_stale_def no_candidates_def

text \<open>Everything but the flag \<open>high_value\<close>, which classification sets.\<close>

definition unrated :: "candidate \<Rightarrow> candidate" where
  "unrated c = c\<lparr>c_high_value := False\<rparr>"

lemma unrated_admitted [simp]: "unrated (admitted p c) = unrated c"
  by (simp add: unrated_def admitted_def)

lemma identity_admitted [simp]: "candidate_identity (admitted p c) = candidate_identity c"
  by (simp add: candidate_identity_def admitted_def)

definition eligible :: "selection_policy \<Rightarrow> pystr option \<Rightarrow> candidate \<Rightarrow> bool" where
  "eligible p rel c \<longleftrightarrow> c_fresh c = FRESH_CURRENT \<and> tr_zone (c_trust c) \<in> set (pol_zones p) \<and>
     tr_sensitivity (c_trust c) \<le> pol_max_sensitivity p \<and>
     (rel = None \<or> c_rep c = REP_VISUAL_HANDLE \<or>
       (case c_relevance c of None \<Rightarrow> False | Some r \<Rightarrow> rel = Some (rel_policy r) \<and> rel_meets_minimum r)) \<and>
     c_high_value c = (c_rep c \<in> set (preferred (pol_mode p)))"

lemma eligible_admitted [simp]:
  "eligible p rel (admitted p c) \<longleftrightarrow> c_fresh c = FRESH_CURRENT \<and> tr_zone (c_trust c) \<in> set (pol_zones p) \<and>
     \<not> sensitivity_rank (tr_sensitivity (c_trust c)) > sensitivity_rank (pol_max_sensitivity p) \<and>
     (rel = None \<or> c_rep c = REP_VISUAL_HANDLE \<or>
       (case c_relevance c of None \<Rightarrow> False | Some r \<Rightarrow> rel = Some (rel_policy r) \<and> rel_meets_minimum r))"
  by (simp add: eligible_def admitted_def less_eq_sensitivity_def not_less)

definition partitions ::
  "selection_policy \<Rightarrow> pystr option \<Rightarrow> candidate list \<Rightarrow> identity set \<Rightarrow> classified \<Rightarrow> bool" where
  "partitions p rel cs seen r \<longleftrightarrow>
     image_mset unrated (mset (cl_ordered r) + mset (map fst (cl_rejected r)) + mset (cl_stale r)) =
       image_mset unrated (mset cs) \<and>
     (\<forall>c\<in>set (cl_ordered r). eligible p rel c \<and> candidate_identity c \<notin> seen) \<and>
     distinct (map candidate_identity (cl_ordered r)) \<and> (\<forall>c\<in>set (cl_stale r). c_fresh c \<noteq> FRESH_CURRENT)"

named_theorems partition_intros

lemma partitions_nil [partition_intros]: "partitions p rel [] seen no_candidates"
  by (simp add: partitions_def no_candidates_def)

lemma partitions_stale [partition_intros]:
  "c_fresh c \<noteq> FRESH_CURRENT \<Longrightarrow> partitions p rel cs seen r \<Longrightarrow> partitions p rel (c # cs) seen (put_stale c r)"
  by (auto simp: partitions_def put_stale_def)

lemma partitions_rejected [partition_intros]:
  "partitions p rel cs seen r \<Longrightarrow> partitions p rel (c # cs) seen (put_rejected c reason r)"
  by (auto simp: partitions_def put_rejected_def)

lemma partitions_mono: "partitions p rel cs (insert i seen) r \<Longrightarrow> partitions p rel cs seen r"
  by (auto simp: partitions_def)

lemma partitions_ordered [partition_intros]:
  "eligible p rel (admitted p c) \<Longrightarrow> candidate_identity c \<notin> seen \<Longrightarrow>
   partitions p rel cs (insert (candidate_identity c) seen) r \<Longrightarrow>
   partitions p rel (c # cs) seen (put_ordered (admitted p c) r)"
  by (auto simp: partitions_def put_ordered_def)

lemma classify_step:
  assumes "classify_loop p rel (c # cs) seen = Inr r"
  obtains (stale) k where "c_fresh c \<noteq> FRESH_CURRENT" "classify_loop p rel cs seen = Inr k" "r = put_stale c k"
  | (early) k reason where "classify_loop p rel cs seen = Inr k" "r = put_rejected c reason k"
  | (late) k reason where "classify_loop p rel cs (candidate_identity c # seen) = Inr k" "r = put_rejected c reason k"
  | (ordered) k where "candidate_identity c \<notin> set seen" "eligible p rel (admitted p c)"
      "classify_loop p rel cs (candidate_identity c # seen) = Inr k" "r = put_ordered (admitted p c) k"
  using assms
  by (auto simp: Let_def split: if_splits option.splits elim!: sbind_InrE)

lemma classify_loop_partitions:
  "classify_loop p rel cs seen = Inr r \<Longrightarrow> partitions p rel cs (set seen) r"
proof (induction cs arbitrary: seen r)
  case (Cons c cs)
  from Cons.prems show ?case
  proof (cases rule: classify_step)
    case (late k reason)
    then show ?thesis
      using Cons.IH[OF late(1)] by (auto intro!: partitions_rejected intro: partitions_mono)
  next
    case (ordered k)
    then show ?thesis using Cons.IH[OF ordered(3)] by (auto intro!: partitions_ordered)
  qed (auto intro: partition_intros dest: Cons.IH)
qed (auto intro: partition_intros)

lemma classify_partitions:
  assumes "classify_candidates cs p rel = Inr r"
  shows "partitions p rel cs {} r" "sorted (map candidate_total_order_key (cl_ordered r))"
  using assms classify_loop_partitions[of p rel cs "[]"]
  by (auto simp: classify_candidates_def partitions_def elim!: sbind_InrE)

section \<open>Allocation is a partition\<close>

definition bodies :: "candidate list \<Rightarrow> pystr list" where
  "bodies cs = map (\<lambda>c. so_id (the (c_body c))) (filter (\<lambda>c. c_body c \<noteq> None) cs)"

lemma bodies_simps [simp]:
  "bodies [] = []" "c_body c = None \<Longrightarrow> bodies (c # cs) = bodies cs"
  "c_body c = Some b \<Longrightarrow> bodies (c # cs) = so_id b # bodies cs"
  by (simp_all add: bodies_def)

lemma distinct_subset:
  assumes "distinct ys" "mset xs \<subseteq># mset ys"
  shows "distinct xs"
  unfolding distinct_count_atmost_1
proof
  fix a
  have "count (mset xs) a \<le> count (mset ys) a" using assms(2) by (rule mset_subset_eq_count)
  also have "\<dots> \<le> 1" using assms(1) by (simp add: distinct_count_atmost_1)
  finally show "count (mset xs) a = (if a \<in> set xs then 1 else 0)"
    by (cases "a \<in># mset xs") (auto simp: not_in_iff le_Suc_eq)
qed

lemma bodies_subset: "mset xs \<subseteq># mset ys \<Longrightarrow> distinct (bodies ys) \<Longrightarrow> distinct (bodies xs)"
  by (erule distinct_subset) (simp add: bodies_def image_mset_subseteq_mono multiset_filter_mono)

lemma drop_step:
  assumes "drop_duplicate_bodies (c # cs) seen = (u, r)"
  obtains (plain) u1 where "c_body c = None" "drop_duplicate_bodies cs seen = (u1, r)" "u = c # u1"
  | (dup) b r1 where "c_body c = Some b" "so_id b \<in> set seen" "drop_duplicate_bodies cs seen = (u, r1)"
      "r = (c, U ''duplicate_content_candidate'') # r1"
  | (fresh) b u1 where "c_body c = Some b" "so_id b \<notin> set seen"
      "drop_duplicate_bodies cs (so_id b # seen) = (u1, r)" "u = c # u1"
  using assms by (auto split: option.splits if_splits prod.splits)

lemma drop_duplicate_bodies:
  assumes "drop_duplicate_bodies cs seen = (u, r)"
  shows "mset u + mset (map fst r) = mset cs \<and> subseq u cs \<and> distinct (bodies u) \<and> (\<forall>b\<in>set (bodies u). b \<notin> set seen)"
  using assms
proof (induction cs arbitrary: seen u r)
  case (Cons c cs)
  from Cons.prems show ?case
  proof (cases rule: drop_step)
    case (plain u1) then show ?thesis using Cons.IH[OF plain(2)] by simp
  next
    case (dup b r1) then show ?thesis using Cons.IH[OF dup(3)] by (simp add: list_emb_Cons)
  next
    case (fresh b u1) then show ?thesis using Cons.IH[OF fresh(3)] by auto
  qed
qed simp

lemma update_sum:
  "mset (concat (map snd (AList.update k v qs))) + mset (queue_at qs k) = mset (concat (map snd qs)) + mset v"
  by (induction qs) (auto simp: queue_at_def ac_simps)

lemma queue_at_update [simp]: "queue_at (AList.update k v qs) s = (if s = k then v else queue_at qs s)"
  by (simp add: queue_at_def update_conv')

text \<open>The quota admits the first \<open>m\<close> candidates of every source and rejects the others.\<close>

lemma fill_queues_sum:
  "fill_queues m cs qs = (qs', r) \<Longrightarrow>
   mset (concat (map snd qs')) + mset (map fst r) = mset (concat (map snd qs)) + mset cs"
proof (induction cs arbitrary: qs qs' r)
  case (Cons c cs)
  let ?q = "queue_at qs (source_of c)"
  show ?case
  proof (cases "m \<le> length ?q")
    case True
    with Cons.prems obtain r1 where f: "fill_queues m cs (AList.update (source_of c) ?q qs) = (qs', r1)"
      "r = (c, U ''source_quota_exceeded'') # r1" by (auto split: prod.splits)
    from Cons.IH[OF f(1)] update_sum[of "source_of c" ?q qs] show ?thesis by (simp add: f(2))
  next
    case False
    with Cons.prems have f: "fill_queues m cs (AList.update (source_of c) (?q @ [c]) qs) = (qs', r)" by simp
    have "mset (concat (map snd (AList.update (source_of c) (?q @ [c]) qs))) = add_mset c (mset (concat (map snd qs)))"
      using update_sum[of "source_of c" "?q @ [c]" qs] by simp
    with Cons.IH[OF f] show ?thesis by simp
  qed
qed simp

lemma fill_queues_at:
  "fill_queues m cs qs = (qs', r) \<Longrightarrow> length (queue_at qs s) \<le> m \<Longrightarrow>
   queue_at qs' s = queue_at qs s @ take (m - length (queue_at qs s)) (filter (\<lambda>c. source_of c = s) cs)"
proof (induction cs arbitrary: qs qs' r)
  case (Cons c cs)
  let ?q = "queue_at qs (source_of c)"
  show ?case
  proof (cases "m \<le> length ?q")
    case True
    with Cons.prems obtain r1 where f: "fill_queues m cs (AList.update (source_of c) ?q qs) = (qs', r1)"
      by (auto split: prod.splits)
    from Cons.IH[OF f] Cons.prems(2) True show ?thesis by (cases "source_of c = s") auto
  next
    case False
    with Cons.prems have f: "fill_queues m cs (AList.update (source_of c) (?q @ [c]) qs) = (qs', r)" by simp
    from Cons.IH[OF f] Cons.prems(2) False show ?thesis
      by (cases "source_of c = s") (auto simp: take_Cons' Suc_diff_le)
  qed
qed simp

lemma fill_queues_keyed:
  "fill_queues m cs qs = (qs', r) \<Longrightarrow> distinct (map fst qs) \<Longrightarrow> (\<forall>(s, q)\<in>set qs. \<forall>c\<in>set q. source_of c = s) \<Longrightarrow>
   distinct (map fst qs') \<and> (\<forall>(s, q)\<in>set qs'. \<forall>c\<in>set q. source_of c = s)"
proof (induction cs arbitrary: qs qs' r)
  case (Cons c cs)
  have upd: "distinct (map fst (AList.update (source_of c) v qs)) \<and>
      (\<forall>(s, q)\<in>set (AList.update (source_of c) v qs). \<forall>c\<in>set q. source_of c = s)"
    if "\<forall>x\<in>set v. source_of x = source_of c" for v
    using Cons.prems(2,3) that set_update_subset[of "source_of c" v qs] by (fastforce simp: distinct_update)
  have q: "\<forall>x\<in>set (queue_at qs (source_of c)). source_of x = source_of c"
  proof (cases "map_of qs (source_of c)")
    case (Some q)
    with Cons.prems(3) map_of_SomeD[OF Some] show ?thesis by (auto simp: queue_at_def)
  qed (simp add: queue_at_def)
  have q': "\<forall>x\<in>set (queue_at qs (source_of c) @ [c]). source_of x = source_of c" using q by simp
  show ?case
  proof (cases "m \<le> length (queue_at qs (source_of c))")
    case True
    with Cons.prems(1) obtain r1 where
      f: "fill_queues m cs (AList.update (source_of c) (queue_at qs (source_of c)) qs) = (qs', r1)"
      by (auto split: prod.splits)
    from upd[OF q] show ?thesis by (elim conjE) (rule Cons.IH[OF f])
  next
    case False
    with Cons.prems(1) have
      f: "fill_queues m cs (AList.update (source_of c) (queue_at qs (source_of c) @ [c]) qs) = (qs', r)" by simp
    from upd[OF q'] show ?thesis by (elim conjE) (rule Cons.IH[OF f])
  qed
qed simp

section \<open>The round robin\<close>

lemma row_sum: "mset (row_of qs i) + (\<Sum>q\<leftarrow>qs. mset (drop (Suc i) q)) = (\<Sum>q\<leftarrow>qs. mset (drop i q))"
proof (induction qs)
  case (Cons q qs)
  have "mset (drop i q) = (if i < length q then {#q ! i#} else {#}) + mset (drop (Suc i) q)"
    by (simp flip: Cons_nth_drop_Suc)
  with Cons show ?case by (auto simp: row_of_def)
qed (simp add: row_of_def)

lemma round_robin_sum: "mset (round_robin qs i) = (\<Sum>q\<leftarrow>qs. mset (drop i q))"
proof (induction qs i rule: round_robin.induct)
  case (1 qs i)
  show ?case
  proof (cases "row_of qs i = []")
    case True
    then have "(\<Sum>q\<leftarrow>qs. mset (drop i q)) = {#}" unfolding row_of_empty by (induction qs) auto
    with True show ?thesis by (simp add: round_robin.simps)
  next
    case False
    with 1 row_sum[of qs i] show ?thesis by (simp add: round_robin.simps[of qs i])
  qed
qed

section \<open>Allocation as a whole\<close>

lemma take_rest_sum:
  assumes "distinct (map candidate_identity xs)" "mset ys = mset xs"
  shows "mset (take n ys) + mset (filter (\<lambda>c. candidate_identity c \<notin> candidate_identity ` set (take n ys)) xs) = mset xs"
proof -
  let ?out = "\<lambda>c. candidate_identity c \<notin> candidate_identity ` set (take n ys)"
  have d: "distinct (map candidate_identity ys)"
    using assms by (metis mset_eq_imp_distinct_iff mset_map)
  have "distinct (map candidate_identity (take n ys) @ map candidate_identity (drop n ys))"
    using d by (simp flip: map_append)
  then have "filter ?out (drop n ys) = drop n ys" "filter ?out (take n ys) = []"
    by (auto intro!: filter_True filter_False)
  then have "filter ?out ys = drop n ys"
    by (metis append_take_drop_id filter_append append_Nil)
  then have "mset (filter ?out xs) = mset (drop n ys)"
    using assms(2) by (metis mset_filter)
  then show ?thesis using assms(2) by (metis append_take_drop_id mset_append)
qed

lemma tier_sum:
  "(\<Sum>t\<leftarrow>ts. mset (filter (\<lambda>c. c_tier c = t) xs)) = mset (filter (\<lambda>c. c_tier c \<in> set ts) xs)" if "distinct ts"
  using that
proof (induction ts)
  case (Cons t ts)
  have "mset (filter (\<lambda>c. c_tier c = t) xs) + mset (filter (\<lambda>c. c_tier c \<in> set ts) xs) =
      mset (filter (\<lambda>c. c_tier c \<in> set (t # ts)) xs)"
    using Cons.prems by (induction xs) auto
  with Cons show ?case by simp
qed simp

lemma tier_queues_sum: "mset (round_robin (tier_queues qs t) 0) = mset (filter (\<lambda>c. c_tier c = t) (concat qs))"
proof -
  have "(\<Sum>q\<leftarrow>filter (\<lambda>q. q \<noteq> []) ys. mset q) = (\<Sum>q\<leftarrow>ys. mset q)" for ys :: "candidate list list"
    by (induction ys) auto
  moreover have "(\<Sum>q\<leftarrow>tier_queues qs t. mset q) =
      (\<Sum>q\<leftarrow>filter (\<lambda>q. q \<noteq> []) (map (filter (\<lambda>c. c_tier c = t)) qs). mset q)"
    unfolding tier_queues_def by (simp add: sum_mset_sum_list[symmetric] del: sum_mset_sum_list)
  moreover have "(\<Sum>q\<leftarrow>map (filter (\<lambda>c. c_tier c = t)) qs. mset q) = mset (filter (\<lambda>c. c_tier c = t) (concat qs))"
    by (induction qs) auto
  ultimately show ?thesis by (simp add: round_robin_sum)
qed

lemma tiers_sum:
  "mset (concat (map (\<lambda>t. round_robin (tier_queues qs t) 0) (remdups (sort (map c_tier (concat qs)))))) = mset (concat qs)"
proof -
  let ?ts = "remdups (sort (map c_tier (concat qs)))"
  have "mset (concat (map (\<lambda>t. round_robin (tier_queues qs t) 0) ts)) =
      (\<Sum>t\<leftarrow>ts. mset (filter (\<lambda>c. c_tier c = t) (concat qs)))" for ts
    by (induction ts) (auto simp: tier_queues_sum simp del: filter_concat)
  then have "mset (concat (map (\<lambda>t. round_robin (tier_queues qs t) 0) ?ts)) =
      mset (filter (\<lambda>c. c_tier c \<in> set ?ts) (concat qs))"
    by (simp only: tier_sum[OF distinct_remdups])
  moreover have "filter (\<lambda>c. c_tier c \<in> set ?ts) (concat qs) = concat qs"
    by (rule filter_True) auto
  ultimately show ?thesis by simp
qed

lemma concat_filter: "concat (map (\<lambda>(s, q). filter p q) qs) = filter p (concat (map snd qs))"
  by (induction qs) auto

lemma source_filter:
  assumes "distinct (map fst qs)" "\<forall>(s, q)\<in>set qs. \<forall>c\<in>set q. source_of c = s"
  shows "filter (\<lambda>c. source_of c = s) (concat (map snd qs)) = queue_at qs s"
  using assms
proof (induction qs)
  case (Cons x qs)
  obtain k q where x: "x = (k, q)" by fastforce
  have "filter (\<lambda>c. source_of c = s) q = (if k = s then q else [])"
    using Cons.prems(2) by (auto simp: x intro!: filter_True filter_False)
  moreover have "s \<notin> fst ` set qs \<Longrightarrow> queue_at qs s = []"
    using map_of_eq_None_iff[of qs s] by (simp add: queue_at_def)
  ultimately show ?case using Cons by (auto simp: x queue_at_def)
qed (simp add: queue_at_def)

text \<open>
  Nothing is lost or invented; every source has at most its quota, taken from its best ranked
  candidates with new bodies; bodies are distinct; and the best \<open>ranked_prefix\<close> come first.
\<close>

lemma allocate_partition:
  assumes "distinct (map candidate_identity cs)" and a_def: "a = allocate_lexical_candidates cs p"
  shows "mset (alloc_ordered a) + mset (map fst (alloc_rejected a)) = mset cs"
    and "distinct (bodies (alloc_ordered a))"
    and "length (filter (\<lambda>c. source_of c = s) (alloc_ordered a)) \<le> al_max_per_document p"
    and "take (al_ranked_prefix p) (alloc_ordered a) = take (al_ranked_prefix p) (sort_key rank_key (alloc_ordered a))"
proof -
  obtain u dups where d: "drop_duplicate_bodies (sort_key rank_key cs) [] = (u, dups)" by fastforce
  obtain qs over where f: "fill_queues (al_max_per_document p) u [] = (qs, over)" by fastforce
  define prefix where "prefix = take (al_ranked_prefix p) (sort_key rank_key (concat (map snd qs)))"
  define rest where "rest = map (\<lambda>(s, q). filter (\<lambda>c. candidate_identity c \<notin> candidate_identity ` set prefix) q) qs"
  define tail where "tail = concat (map (\<lambda>t. round_robin (tier_queues rest t) 0) (remdups (sort (map c_tier (concat rest)))))"
  have a: "alloc_ordered a = prefix @ tail" "alloc_rejected a = dups @ over"
    by (simp_all add: a_def allocate_lexical_candidates_def d f Let_def prefix_def rest_def tail_def)
  note D = drop_duplicate_bodies[OF d] and F = fill_queues_sum[OF f]
  have sub: "mset (concat (map snd qs)) + mset (map fst over) = mset u" using F by simp
  have "mset u \<subseteq># mset cs" using D by (metis mset_sort mset_subset_eq_add_left)
  then have "distinct (map candidate_identity u)"
    by (intro distinct_subset[OF assms(1)]) (simp add: image_mset_subseteq_mono)
  then have dq: "distinct (map candidate_identity (concat (map snd qs)))"
    by (rule distinct_subset) (use sub in \<open>metis image_mset_subseteq_mono mset_map mset_subset_eq_add_left\<close>)
  have "mset tail = mset (concat rest)" unfolding tail_def by (rule tiers_sum)
  moreover have "concat rest = filter (\<lambda>c. candidate_identity c \<notin> candidate_identity ` set prefix) (concat (map snd qs))"
    unfolding rest_def by (rule concat_filter)
  moreover have "mset prefix + mset (filter (\<lambda>c. candidate_identity c \<notin> candidate_identity ` set prefix)
      (concat (map snd qs))) = mset (concat (map snd qs))"
    unfolding prefix_def by (rule take_rest_sum[OF dq]) simp
  ultimately have "mset prefix + mset tail = mset (concat (map snd qs))" by simp
  then have ord: "mset (alloc_ordered a) = mset (concat (map snd qs))" by (simp add: a(1))
  show "mset (alloc_ordered a) + mset (map fst (alloc_rejected a)) = mset cs"
    using D sub by (simp add: ord a(2)) (metis add.assoc add.commute mset_map mset_sort)
  have "mset (alloc_ordered a) \<subseteq># mset u" using sub by (metis ord mset_subset_eq_add_left)
  then show "distinct (bodies (alloc_ordered a))" by (rule bodies_subset) (use D in simp)
  have "length (filter (\<lambda>c. source_of c = s) (alloc_ordered a)) =
      length (filter (\<lambda>c. source_of c = s) (concat (map snd qs)))"
    using ord by (metis mset_filter size_mset)
  also have "\<dots> = length (queue_at qs s)"
    using fill_queues_keyed[OF f] by (subst source_filter) auto
  also have "\<dots> \<le> al_max_per_document p"
    using fill_queues_at[OF f, of s] by (simp add: queue_at_def)
  finally show "length (filter (\<lambda>c. source_of c = s) (alloc_ordered a)) \<le> al_max_per_document p" .
  let ?all = "concat (map snd qs)"
  have "inj_on rank_key (set ?all)"
    using dq by (auto simp: inj_on_def distinct_map rank_key_def tail_key_def candidate_identity_def)
  then have "sort_key rank_key (alloc_ordered a) = sort_key rank_key ?all"
    using ord by (intro sort_key_inj_key_eq) (simp_all add: mset_eq_setD[OF ord])
  moreover have "take (al_ranked_prefix p) (prefix @ tail) = prefix"
  proof (cases "al_ranked_prefix p \<le> length ?all")
    case False
    then have "mset prefix = mset ?all" by (simp add: prefix_def)
    with ord have "mset tail = {#}" by (simp add: a(1))
    with False show ?thesis by (simp add: prefix_def)
  qed (simp add: prefix_def)
  ultimately show "take (al_ranked_prefix p) (alloc_ordered a) =
      take (al_ranked_prefix p) (sort_key rank_key (alloc_ordered a))"
    by (simp add: a(1) prefix_def)
qed

end
