(* ===== verification/Context_Budget.thy ===== *)
theory Context_Budget
  imports Context_Domain
begin

text \<open>
  Budget measurement (\<open>adapters/context_estimators.py\<close>): the estimators, the fixed point of a payload
  that states its own size, and the shortcut for two embedded decimal fields.  A canonical payload is
  the UTF-8 encoding of a text, so it is measured on the text.  The canonical encoder
  (\<open>rfc8785.dumps\<close>) is the parameter \<open>enc\<close>; what RFC 8785 says of its structure is the locale
  \<open>canonical_json\<close>, which \<open>jcs\<close>, written from the RFC, fulfils.
\<close>

section \<open>Decimal numerals\<close>

fun dec :: "nat \<Rightarrow> pystr" where
  "dec n = (if n < 10 then [48 + n] else dec (n div 10) @ [48 + n mod 10])"

declare dec.simps [simp del]

lemma dec_nonempty [simp]: "dec n \<noteq> []"
  by (subst dec.simps) simp

lemma dec_upper: "n < 10 ^ length (dec n)"
proof (induction n rule: dec.induct)
  case (1 n)
  then show ?case by (subst dec.simps) auto
qed

lemma dec_lower: "0 < n \<Longrightarrow> 10 ^ (length (dec n) - 1) \<le> n"
proof (induction n rule: dec.induct)
  case (1 n)
  show ?case
  proof (cases "n < 10")
    case False
    obtain l where l: "length (dec (n div 10)) = Suc l" by (cases "dec (n div 10)") auto
    with 1 False have "10 ^ l \<le> n div 10" by simp
    then have "10 * 10 ^ l \<le> n" by linarith
    with False l show ?thesis by (subst dec.simps) simp
  qed (use 1 in \<open>simp add: dec.simps\<close>)
qed

lemma dec_length_le:
  assumes "n < 10 ^ k" "0 < k"
  shows "length (dec n) \<le> k"
proof (cases "n = 0")
  case False
  then have "(10::nat) ^ (length (dec n) - 1) < 10 ^ k"
    by (intro le_less_trans[OF dec_lower assms(1)]) simp
  then have "length (dec n) - 1 < k" by (rule power_less_imp_less_exp[rotated]) simp
  then show ?thesis by simp
qed (use assms in \<open>simp add: dec.simps\<close>)

lemma dec_mono: "m \<le> n \<Longrightarrow> length (dec m) \<le> length (dec n)"
  using dec_length_le[of m "length (dec n)"] dec_upper[of n] by simp

section \<open>Fixed points\<close>

datatype fixed_point_error = Diverged

fun fixed_point_loop :: "nat \<Rightarrow> (nat \<Rightarrow> nat) \<Rightarrow> nat \<Rightarrow> fixed_point_error + nat" where
  "fixed_point_loop 0 f usage = Inl Diverged"
| "fixed_point_loop (Suc k) f usage = (if f usage = usage then Inr usage else fixed_point_loop k f (f usage))"

definition default_iterations :: nat where
  "default_iterations = 8"

definition fixed_point_measure :: "(nat \<Rightarrow> pystr) \<Rightarrow> (pystr \<Rightarrow> nat) \<Rightarrow> fixed_point_error + nat" where
  "fixed_point_measure builder units = fixed_point_loop default_iterations (\<lambda>usage. units (builder usage)) 0"

definition additive_usage_fixed_point :: "nat \<Rightarrow> fixed_point_error + nat" where
  "additive_usage_fixed_point zero_usage =
     fixed_point_loop default_iterations (\<lambda>usage. zero_usage + 2 * (length (dec usage) - 1)) 0"

lemma fixed_point_loop_Inr: "fixed_point_loop k f u = Inr v \<Longrightarrow> f v = v"
  by (induction k arbitrary: u) (auto split: if_splits)

lemma fixed_point_loop_least:
  assumes "mono f" "fixed_point_loop k f u = Inr v" "u \<le> x" "f x = x"
  shows "v \<le> x"
  using assms(2,3)
proof (induction k arbitrary: u)
  case (Suc k)
  have "f u \<le> x" using monoD[OF assms(1) Suc.prems(2)] assms(4) by simp
  with Suc show ?case by (auto split: if_splits)
qed simp

lemma fixed_point_loop_reaches:
  "f ((f ^^ k) u) = (f ^^ k) u \<Longrightarrow> k < n \<Longrightarrow> \<exists>v. fixed_point_loop n f u = Inr v"
proof (induction n arbitrary: u k)
  case (Suc n)
  then show ?case by (cases k) (auto simp: funpow_swap1)
qed simp

text \<open>Adding less than the room left by the number of digits makes a numeral at most one digit longer.\<close>

lemma digits_step: "length (dec (z + 2 * length (dec z))) \<le> length (dec z) + 1"
proof (rule dec_length_le)
  have "2 * k \<le> 9 * 10 ^ k" for k :: nat
  proof (induction k)
    case (Suc k)
    have "(1::nat) \<le> 10 ^ k" by (rule one_le_power) simp
    then have "2 \<le> 81 * (10::nat) ^ k" by linarith
    with Suc show ?case by simp
  qed simp
  then have "2 * length (dec z) \<le> 9 * 10 ^ length (dec z)" .
  then show "z + 2 * length (dec z) < 10 ^ (length (dec z) + 1)"
    using dec_upper[of z] by simp
qed simp

lemma additive_converges:
  "\<exists>u. additive_usage_fixed_point z = Inr u \<and> u = z + 2 * (length (dec u) - 1) \<and>
    (\<forall>x. x = z + 2 * (length (dec x) - 1) \<longrightarrow> u \<le> x)"
proof -
  let ?f = "\<lambda>usage. z + 2 * (length (dec usage) - 1)"
  have mono: "mono ?f" by (auto intro!: monoI diff_le_mono dec_mono)
  have f0: "?f 0 = z" by (simp add: dec.simps)
  let ?d = "length (dec z)"
  have up: "z \<le> ?f z" "?f z \<le> z + 2 * ?d" by auto
  then have d1: "?d \<le> length (dec (?f z))" "length (dec (?f z)) \<le> ?d + 1"
    using dec_mono[OF up(1)] dec_mono[OF up(2)] digits_step[of z] by auto
  have conv: "?f (?f (?f z)) = ?f (?f z)"
  proof (cases "length (dec (?f z)) = ?d")
    case False
    with d1 have l: "length (dec (?f z)) = ?d + 1" by simp
    then have ff: "?f (?f z) = z + 2 * ?d" by simp
    have "length (dec (?f z)) \<le> length (dec (z + 2 * ?d))" by (rule dec_mono) (use up in simp)
    with digits_step[of z] l have "length (dec (z + 2 * ?d)) = ?d + 1" by simp
    with ff show ?thesis by simp
  qed simp
  have "(?f ^^ 3) 0 = ?f (?f z)" by (simp only: f0 numeral_3_eq_3 funpow.simps comp_def id_def)
  then have "?f ((?f ^^ 3) 0) = (?f ^^ 3) 0" by (simp only: conv)
  from fixed_point_loop_reaches[where f = ?f, OF this, of 8]
  obtain u where u: "additive_usage_fixed_point z = Inr u"
    unfolding additive_usage_fixed_point_def default_iterations_def by auto
  have "?f u = u" using u fixed_point_loop_Inr by (simp add: additive_usage_fixed_point_def)
  moreover have "u \<le> x" if "?f x = x" for x
    using fixed_point_loop_least[OF mono] u that by (simp add: additive_usage_fixed_point_def)
  ultimately show ?thesis using u by fastforce
qed

section \<open>Estimators\<close>

fun utf8_width :: "nat \<Rightarrow> nat" where
  "utf8_width c = (if c < 0x80 then 1 else if c < 0x800 then 2 else if c < 0x10000 then 3 else 4)"

definition utf8_bytes :: "pystr \<Rightarrow> nat" where
  "utf8_bytes s = sum_list (map utf8_width s)"

definition unicode_characters :: "pystr \<Rightarrow> nat" where
  "unicode_characters s = length s"

definition conservative_tokens :: "pystr \<Rightarrow> nat" where
  "conservative_tokens s = sum_list (map utf8_width s)"

text \<open>Every installed estimator adds up over the parts of a payload and counts an ASCII character once.\<close>

locale estimator =
  fixes units :: "pystr \<Rightarrow> nat"
  assumes units_append: "units (a @ b) = units a + units b"
    and units_ascii: "c < 128 \<Longrightarrow> units [c] = 1"
begin

lemma units_nil [simp]: "units [] = 0"
  using units_append[of "[]" "[]"] by simp

lemma units_ascii_cons: "c < 128 \<Longrightarrow> units (c # s) = Suc (units s)"
  using units_append[of "[c]" s] units_ascii by simp

lemma units_dec [simp]: "units (dec n) = length (dec n)"
proof (induction n rule: dec.induct)
  case (1 n)
  have "n mod 10 < 10" by simp
  then have d: "48 + n mod 10 < 128" by linarith
  show ?case
  proof (cases "n < 10")
    case False
    with 1 d show ?thesis by (subst (1 2) dec.simps) (simp add: units_append units_ascii)
  qed (simp add: dec.simps units_ascii)
qed

end

interpretation bytes: estimator utf8_bytes
  by unfold_locales (auto simp: utf8_bytes_def)

interpretation chars: estimator unicode_characters
  by unfold_locales (auto simp: unicode_characters_def)

interpretation tokens: estimator conservative_tokens
  by unfold_locales (auto simp: conservative_tokens_def)

section \<open>Canonical JSON\<close>

fun join_comma :: "pystr list \<Rightarrow> pystr" where
  "join_comma [] = []"
| "join_comma [x] = x"
| "join_comma (x # xs) = x @ [44] @ join_comma xs"

text \<open>An object's members appear in some order that depends on the keys only.\<close>

locale canonical_json =
  fixes enc :: "json \<Rightarrow> pystr"
  assumes enc_int: "enc (JInt (int n)) = dec n"
    and enc_arr: "enc (JArr js) = [91] @ join_comma (map enc js) @ [93]"
    and enc_obj: "distinct (map fst kvs) \<Longrightarrow> \<exists>ms. mset ms = mset kvs \<and>
      enc (JObj kvs) = [123] @ join_comma (map (\<lambda>(k, v). enc (JStr k) @ [58] @ enc v) ms) @ [125]"

locale budgeted = canonical_json + estimator
begin

lemma units_join: "units (join_comma xs) = (\<Sum>x\<leftarrow>xs. units x) + (length xs - 1)"
  by (induction xs rule: join_comma.induct)
     (auto simp: units_append units_ascii_cons)

definition member :: "pystr \<times> json \<Rightarrow> nat" where
  "member kv = units (enc (JStr (fst kv))) + 1 + units (enc (snd kv))"

lemma units_obj:
  assumes "distinct (map fst kvs)"
  shows "units (enc (JObj kvs)) = (\<Sum>kv\<leftarrow>kvs. member kv) + (length kvs - 1) + 2"
proof -
  from enc_obj[OF assms] obtain ms where ms: "mset ms = mset kvs"
    "enc (JObj kvs) = [123] @ join_comma (map (\<lambda>(k, v). enc (JStr k) @ [58] @ enc v) ms) @ [125]" by blast
  have "(\<Sum>x\<leftarrow>map (\<lambda>(k, v). enc (JStr k) @ [58] @ enc v) ms. units x) = (\<Sum>kv\<leftarrow>ms. member kv)"
    by (induction ms) (auto simp: member_def units_append units_ascii_cons)
  also have "\<dots> = (\<Sum>kv\<leftarrow>kvs. member kv)" using ms(1) by (metis mset_map sum_mset_sum_list)
  moreover have "length ms = length kvs" using ms(1) by (metis size_mset)
  ultimately show ?thesis
    by (simp add: ms(2) units_append units_ascii_cons units_join)
qed

lemma units_arr: "units (enc (JArr js)) = (\<Sum>j\<leftarrow>js. units (enc j)) + (length js - 1) + 2"
  by (simp add: enc_arr units_append units_ascii_cons units_join comp_def)

lemma units_int: "units (enc (JInt (int n))) = length (dec n)"
  by (simp add: enc_int)

end

section \<open>The encoder of RFC 8785\<close>

definition hex_digit :: "nat \<Rightarrow> nat" where
  "hex_digit n = (if n < 10 then 48 + n else 87 + n)"

definition escape :: "nat \<Rightarrow> pystr" where
  "escape c =
     (if c = 34 then [92, 34] else if c = 92 then [92, 92]
      else if c = 8 then [92, 98] else if c = 9 then [92, 116] else if c = 10 then [92, 110]
      else if c = 12 then [92, 102] else if c = 13 then [92, 114]
      else if c < 32 then [92, 117, 48, 48, hex_digit (c div 16), hex_digit (c mod 16)] else [c])"

definition quote :: "pystr \<Rightarrow> pystr" where
  "quote s = [34] @ concat (map escape s) @ [34]"

definition utf16 :: "pystr \<Rightarrow> nat list" where
  "utf16 s = concat (map (\<lambda>c. if c < 0x10000 then [c]
     else [0xD800 + (c - 0x10000) div 1024, 0xDC00 + (c - 0x10000) mod 1024]) s)"

fun jcs :: "json \<Rightarrow> pystr" where
  "jcs JNull = U ''null''"
| "jcs (JBool b) = (if b then U ''true'' else U ''false'')"
| "jcs (JInt i) = (if i < 0 then [45] @ dec (nat (- i)) else dec (nat i))"
| "jcs (JStr s) = quote s"
| "jcs (JArr js) = [91] @ join_comma (map jcs js) @ [93]"
| "jcs (JObj kvs) = [123] @ join_comma (map (\<lambda>(k, v). quote k @ [58] @ v)
     (sort_key (\<lambda>m. utf16 (fst m)) (map (\<lambda>(k, j). (k, jcs j)) kvs))) @ [125]"

lemma insort_key_map: "insort_key key (g x) (map g xs) = map g (insort_key (key \<circ> g) x xs)"
  by (induction xs) auto

lemma sort_key_map: "sort_key key (map g xs) = map g (sort_key (key \<circ> g) xs)"
  by (induction xs) (auto simp: sort_key_def insort_key_map comp_def)

lemma jcs_obj:
  "\<exists>ms. mset ms = mset kvs \<and>
    jcs (JObj kvs) = [123] @ join_comma (map (\<lambda>(k, v). jcs (JStr k) @ [58] @ jcs v) ms) @ [125]"
proof -
  have "map (\<lambda>(k, v). quote k @ [58] @ v) (sort_key (\<lambda>m. utf16 (fst m)) (map (\<lambda>(k, j). (k, jcs j)) kvs)) =
      map (\<lambda>(k, v). jcs (JStr k) @ [58] @ jcs v) (sort_key (\<lambda>m. utf16 (fst m)) kvs)"
    by (simp add: sort_key_map comp_def case_prod_beta)
  then show ?thesis by (intro exI[of _ "sort_key (\<lambda>m. utf16 (fst m)) kvs"]) simp
qed

interpretation rfc8785: canonical_json jcs
  by unfold_locales (use jcs_obj in \<open>simp_all\<close>)

interpretation json_bytes: budgeted jcs utf8_bytes
  by unfold_locales

interpretation json_chars: budgeted jcs unicode_characters
  by unfold_locales

interpretation json_tokens: budgeted jcs conservative_tokens
  by unfold_locales

end
