(* ===== verification/Context_Compiler.thy ===== *)
theory Context_Compiler
  imports Context_Ranking Context_Budget
begin

text \<open>
  The compiler itself (\<open>services/context_compiler.py\<close> with its helpers \<open>context_evidence.py\<close> and
  \<open>context_relevance.py\<close>): snapshot, discovery, classification, budgeted selection, ledger, bundle
  and receipt.  The environment \<open>compiler_env\<close> holds what the service is given: candidate sources,
  object store, catalog reads, estimator, canonical encoder, hashes and the parsers of stored bodies.
  \<open>cancel n\<close> is the answer to the service's \<open>n\<close>-th poll.  \<open>select_loop\<close> has both budgeting modes.
\<close>

section \<open>Selected items and their JSON\<close>

record content_body =
  ct_media :: pystr
  ct_body :: json

record evidence_item =
  it_provenance :: provenance
  it_rep :: evidence_rep
  it_content :: "content_body option"
  it_handle :: "pystr option"
  it_artifact :: "pystr option"
  it_reason :: pystr
  it_trust :: trust_class

definition evidence_item_valid :: "evidence_item \<Rightarrow> bool" where
  "evidence_item_valid i \<longleftrightarrow> (it_content i \<noteq> None \<or> it_handle i \<noteq> None) \<and>
     (it_rep i \<in> {REP_VISUAL_HANDLE, REP_ORIGINAL_HANDLE} \<longrightarrow> it_handle i \<noteq> None) \<and>
     (it_rep i = REP_SUMMARY \<longrightarrow> it_artifact i \<noteq> None)"

fun scope_members :: "version_scope \<Rightarrow> (pystr \<times> json) list" where
  "scope_members s = [(U ''document_id'', JStr (vs_document s)), (U ''version_id'', JStr (vs_version s)),
     (U ''representation_id'', JStr (vs_representation s))]"

fun provenance_json :: "provenance \<Rightarrow> json" where
  "provenance_json (Block b) = JObj ([(U ''record_type'', JStr (U ''block''))] @ scope_members (bp_scope b) @
     [(U ''block_id'', JStr (bp_block b)), (U ''source'', bp_source b)])"
| "provenance_json (Projection p) = JObj ([(U ''record_type'', JStr (U ''evidence_projection''))] @
     scope_members (pp_scope p) @
     [(U ''source_version_id'', JStr (pp_source_version p)),
      (U ''native_representation_id'', JStr (pp_native p)),
      (U ''evidence_reference_id'', JStr (pp_reference p)),
      (U ''evidence_projection_id'', JStr (pp_projection p))])"

definition trust_json :: "trust_class \<Rightarrow> json" where
  "trust_json t = JObj [(U ''zone'', JStr (zone_value (tr_zone t))), (U ''role'', JStr (U ''data'')),
     (U ''instruction_execution_allowed'', JBool False),
     (U ''integrity'', JStr (integrity_value (tr_integrity t))),
     (U ''sensitivity'', JStr (sensitivity_value (tr_sensitivity t)))]"

definition content_json :: "content_body \<Rightarrow> json" where
  "content_json c = JObj [(U ''content_role'', JStr (U ''untrusted_data'')),
     (U ''delimiter'', JStr (U ''openardp-evidence-v1'')), (U ''media_type'', JStr (ct_media c)),
     (U ''body'', ct_body c)]"

definition item_json :: "evidence_item \<Rightarrow> json" where
  "item_json i = JObj [(U ''extensions'', JObj []), (U ''provenance'', provenance_json (it_provenance i)),
     (U ''representation'', JStr (rep_value (it_rep i))), (U ''content'', j_opt content_json (it_content i)),
     (U ''artifact_handle'', j_opt JStr (it_handle i)), (U ''artifact_id'', j_opt JStr (it_artifact i)),
     (U ''reason'', JStr (it_reason i)), (U ''trust'', trust_json (it_trust i))]"

definition item_evidence_id :: "evidence_item \<Rightarrow> pystr" where
  "item_evidence_id i = provenance_evidence (it_provenance i)"

definition trace_json :: "evidence_item \<Rightarrow> nat \<Rightarrow> json" where
  "trace_json i n = JObj [(U ''extensions'', JObj []), (U ''evidence_id'', JStr (item_evidence_id i)),
     (U ''final_order'', JInt (int n)), (U ''reason_code'', JStr (it_reason i))]"

definition estimator_json :: "estimator_id \<Rightarrow> json" where
  "estimator_json e = JObj [(U ''name'', JStr (est_name e)), (U ''version'', JStr (est_version e)),
     (U ''unit'', JStr (unit_value (est_unit e))), (U ''config_hash'', JStr (est_hash e))]"

definition algorithm_json :: "algorithm_id \<Rightarrow> json" where
  "algorithm_json a = JObj [(U ''name'', JStr (alg_name a)), (U ''version'', JStr (alg_version a)),
     (U ''config_hash'', JStr (alg_hash a))]"

definition policy_json :: "selection_policy \<Rightarrow> json" where
  "policy_json p = JObj [(U ''mode'', JStr (mode_value (pol_mode p))),
     (U ''required_evidence'', JArr (map (\<lambda>r. JStr (rep_value r)) (pol_required p))),
     (U ''allowed_trust_zones'', JArr (map (\<lambda>z. JStr (zone_value z)) (pol_zones p))),
     (U ''maximum_sensitivity'', JStr (sensitivity_value (pol_max_sensitivity p))),
     (U ''freshness'', JStr (U ''current_only'')), (U ''include_history'', JBool False),
     (U ''response_reserve_percent'', JInt 10), (U ''provenance_target_percent'', JInt 10)]"

section \<open>Notices\<close>

type_synonym bundle_notice = "pystr \<times> pystr"
type_synonym missing_entry = "evidence_rep \<times> pystr"

definition notice_json :: "bundle_notice \<Rightarrow> json" where
  "notice_json n = JObj [(U ''extensions'', JObj []), (U ''code'', JStr (fst n)), (U ''message'', JStr (snd n))]"

definition missing_json :: "missing_entry \<Rightarrow> json" where
  "missing_json m = JObj [(U ''extensions'', JObj []), (U ''evidence_type'', JStr (rep_value (fst m))),
     (U ''reason_code'', JStr (snd m)), (U ''scope'', JNull)]"

definition missing_evidence :: "selection_policy \<Rightarrow> evidence_item list \<Rightarrow> missing_entry list \<times> pystr list" where
  "missing_evidence p items =
     (let required = remdups (required_representations p);
          satisfied = map it_rep items;
          unmet = (if set required \<inter> set satisfied = {}
            then map (\<lambda>r. (r, U ''required_evidence_unavailable'')) (sort_key rep_value required) else []);
          visual = REP_VISUAL_HANDLE \<in> set required \<and> REP_VISUAL_HANDLE \<notin> set satisfied
      in (unmet @ (if visual \<and> \<not> list_ex (\<lambda>m. fst m = REP_VISUAL_HANDLE) unmet
            then [(REP_VISUAL_HANDLE, U ''visual_evidence_required'')] else []),
          if visual then [U ''visual_evidence_required''] else []))"

definition compilation_notices :: "bool \<Rightarrow> bool \<Rightarrow> bool \<Rightarrow> bundle_notice list \<times> pystr list" where
  "compilation_notices truncated relevance_abstained semantic_abstained =
     (let ws = (if truncated then [(U ''discovery_truncated'',
                 U ''Discovery or evaluation was truncated at configured limits.'')] else []) @
               (if relevance_abstained then [(U ''no_relevant_evidence'',
                 U ''No verified candidate met the configured minimum relevance policy.'')] else []) @
               (if semantic_abstained then [(U ''no_semantic_evidence'',
                 U ''No verified candidate met the configured semantic retrieval policy.'')] else [])
      in (ws, map fst ws))"

definition is_relevance_abstention ::
  "candidate list \<Rightarrow> candidate list \<Rightarrow> (candidate \<times> pystr) list \<Rightarrow> pystr option \<Rightarrow> bool" where
  "is_relevance_abstention discovered ordered rejected rel =
     (let n = length (filter (\<lambda>(_, reason). reason = U ''insufficient_relevance'') rejected)
      in rel \<noteq> None \<and> ordered = [] \<and> (discovered = [] \<or> (0 < n \<and> n = length rejected)))"

section \<open>The environment\<close>

record content_block =
  cb_block :: pystr
  cb_scope :: version_scope
  cb_text :: "pystr option"
  cb_structured :: "json option"

type_synonym bytes = "nat list"

record compiler_env =
  ce_enc :: "json \<Rightarrow> pystr"
  ce_units :: "pystr \<Rightarrow> nat"
  ce_estimator :: estimator_id
  ce_algorithm :: algorithm_id
  ce_relevance :: "pystr option"
  ce_allocation :: "allocation_policy option"
  ce_semantic_abstention :: bool
  ce_additive :: bool
  ce_sources :: "(pystr \<Rightarrow> corpus_snapshot \<Rightarrow> compile_limits \<Rightarrow> context_error + candidate list) list"
  ce_document :: "pystr \<Rightarrow> bool option"
  ce_head :: "pystr \<Rightarrow> (version_scope \<times> int) option option"
  ce_verify :: "pystr \<Rightarrow> nat \<Rightarrow> stored_object option"
  ce_chunks :: "pystr \<Rightarrow> bytes list option"
  ce_parse_block :: "bytes \<Rightarrow> content_block option"
  ce_decode :: "bytes \<Rightarrow> pystr option"
  ce_parse_json :: "pystr \<Rightarrow> json option"
  ce_iso :: "int \<Rightarrow> pystr"
  ce_sha256 :: "pystr \<Rightarrow> pystr"
  ce_uuid5 :: "pystr \<Rightarrow> pystr"

text \<open>Reads that fail with a store or catalog error are \<open>None\<close>.\<close>

definition read_verified :: "compiler_env \<Rightarrow> stored_object \<Rightarrow> context_error + bytes" where
  "read_verified E so =
     sbind (need (ce_verify E (so_id so) (so_length so)) (IntegrityFailure ''selected_object_invalid'')) (\<lambda>v.
     sbind (need (ce_chunks E (so_id v)) (IntegrityFailure ''selected_object_invalid'')) (\<lambda>chunks.
     if length (concat chunks) \<noteq> so_length v then Inl (IntegrityFailure ''selected_object_length_changed'')
     else Inr (concat chunks)))"

definition block_content :: "compiler_env \<Rightarrow> candidate \<Rightarrow> block_provenance \<Rightarrow> context_error + content_body" where
  "block_content E c p =
     sbind (need (c_body c) (IntegrityFailure ''selected_block_body_missing'')) (\<lambda>so.
     sbind (read_verified E so) (\<lambda>payload.
     sbind (need (ce_parse_block E payload) (IntegrityFailure ''selected_block_invalid'')) (\<lambda>b.
     if cb_block b \<noteq> bp_block p \<or> cb_scope b \<noteq> bp_scope p then Inl (IntegrityFailure ''selected_block_mismatch'')
     else (case cb_text b of
         Some t \<Rightarrow> Inr \<lparr>ct_media = U ''text/plain'', ct_body = JStr t\<rparr>
       | None \<Rightarrow> (case cb_structured b of
           Some j \<Rightarrow> Inr \<lparr>ct_media = U ''application/json'', ct_body = j\<rparr>
         | None \<Rightarrow> Inl (IntegrityFailure ''selected_block_without_content''))))))"

definition projection_content :: "compiler_env \<Rightarrow> candidate \<Rightarrow> context_error + content_body" where
  "projection_content E c =
     sbind (need (c_body c) (IntegrityFailure ''selected_projection_body_missing'')) (\<lambda>so.
     sbind (need (c_media_type c) (IntegrityFailure ''selected_projection_body_missing'')) (\<lambda>media.
     sbind (read_verified E so) (\<lambda>payload.
     sbind (need (ce_decode E payload) (IntegrityFailure ''selected_projection_not_utf8'')) (\<lambda>body.
     if media = U ''application/json''
     then sbind (need (ce_parse_json E body) (IntegrityFailure ''selected_projection_noncanonical_json'')) (\<lambda>v.
       if ce_enc E v \<noteq> body then Inl (IntegrityFailure ''selected_projection_noncanonical_json'')
       else Inr \<lparr>ct_media = U ''application/json'', ct_body = v\<rparr>)
     else Inr \<lparr>ct_media = U ''text/plain'', ct_body = JStr body\<rparr>))))"

definition build_item :: "compiler_env \<Rightarrow> candidate \<Rightarrow> context_error + evidence_item" where
  "build_item E c =
     sbind (if c_rep c = REP_VISUAL_HANDLE
       then if c_handle c = None \<or> c_artifact c = None then Inl (IntegrityFailure ''selected_visual_handle_invalid'')
         else Inr \<lparr>it_provenance = c_provenance c, it_rep = c_rep c, it_content = None, it_handle = c_handle c,
                it_artifact = c_artifact c, it_reason = c_reason c, it_trust = c_trust c\<rparr>
       else sbind (case c_provenance c of Block p \<Rightarrow> block_content E c p | Projection _ \<Rightarrow> projection_content E c)
         (\<lambda>content. Inr \<lparr>it_provenance = c_provenance c, it_rep = c_rep c, it_content = Some content,
            it_handle = None, it_artifact = None, it_reason = c_reason c, it_trust = c_trust c\<rparr>)) (\<lambda>item.
     if evidence_item_valid item then Inr item else Inl InvalidRecord)"

section \<open>The bundle\<close>

definition budget_json :: "compile_request \<Rightarrow> nat \<Rightarrow> json" where
  "budget_json rq used = JObj [(U ''unit'', JStr (unit_value (est_unit (rq_estimator rq)))),
     (U ''limit'', JInt (int (rq_limit rq))), (U ''estimated_used'', JInt (int used)),
     (U ''estimator'', estimator_json (rq_estimator rq)), (U ''actual_used'', JInt (int used))]"

definition traces :: "evidence_item list \<Rightarrow> json list" where
  "traces items = map (\<lambda>(n, i). trace_json i n) (enumerate 0 items)"

definition bundle_members ::
  "compiler_env \<Rightarrow> compile_request \<Rightarrow> corpus_snapshot \<Rightarrow> evidence_item list \<Rightarrow> missing_entry list \<Rightarrow>
   bundle_notice list \<Rightarrow> nat \<Rightarrow> (pystr \<times> json) list" where
  "bundle_members E rq snap items missing warnings used =
     [(U ''extensions'', JObj []), (U ''schema_version'', JStr (U ''0.2.0'')),
      (U ''created_at'', JStr (ce_iso E (snap_created snap))), (U ''query'', JStr (rq_task rq)),
      (U ''mode'', JStr (mode_value (pol_mode (rq_policy rq)))), (U ''budget'', budget_json rq used),
      (U ''versions'', JArr (map (\<lambda>s. JObj (scope_members s)) (snap_scopes snap))),
      (U ''items'', JArr (map item_json items)), (U ''selection_trace'', JArr (traces items)),
      (U ''warnings'', JArr (map notice_json warnings)), (U ''missing_evidence'', JArr (map missing_json missing))]"

definition zero_uuid :: pystr where
  "zero_uuid = U ''00000000-0000-0000-0000-000000000000''"

definition canonical_bundle ::
  "compiler_env \<Rightarrow> compile_request \<Rightarrow> corpus_snapshot \<Rightarrow> evidence_item list \<Rightarrow> missing_entry list \<Rightarrow>
   bundle_notice list \<Rightarrow> nat \<Rightarrow> pystr" where
  "canonical_bundle E rq snap items missing warnings used =
     ce_enc E (JObj ((U ''bundle_id'', JStr zero_uuid) # bundle_members E rq snap items missing warnings used))"

section \<open>Selection\<close>

definition lift_fixed :: "fixed_point_error + nat \<Rightarrow> context_error + nat" where
  "lift_fixed r = (case r of Inl _ \<Rightarrow> Inl (LimitExceeded ''budget_fixed_point_diverged'') | Inr n \<Rightarrow> Inr n)"

record selection =
  sel_items :: "(candidate \<times> evidence_item \<times> int) list"
  sel_omitted :: "(candidate \<times> int) list"
  sel_used :: nat
  sel_zero :: nat

definition tentative_zero :: "compiler_env \<Rightarrow> selection \<Rightarrow> evidence_item \<Rightarrow> nat" where
  "tentative_zero E s item =
     (if ce_additive E
      then sel_zero s + (if sel_items s \<noteq> [] then 2 * ce_units E [44] else 0) +
        ce_units E (ce_enc E (item_json item)) + ce_units E (ce_enc E (trace_json item (length (sel_items s))))
      else sel_zero s)"

definition tentative_usage ::
  "compiler_env \<Rightarrow> compile_request \<Rightarrow> corpus_snapshot \<Rightarrow> selection \<Rightarrow> evidence_item \<Rightarrow> context_error + nat" where
  "tentative_usage E rq snap s item = lift_fixed
     (if ce_additive E then additive_usage_fixed_point (tentative_zero E s item)
      else fixed_point_measure
        (canonical_bundle E rq snap (map (\<lambda>e. fst (snd e)) (sel_items s) @ [item]) [] []) (ce_units E))"

fun select_loop ::
  "compiler_env \<Rightarrow> compile_request \<Rightarrow> corpus_snapshot \<Rightarrow> nat \<Rightarrow> (nat \<Rightarrow> bool) \<Rightarrow> nat \<Rightarrow> candidate list \<Rightarrow>
   selection \<Rightarrow> context_error + selection" where
  "select_loop E rq snap cap cancel n [] s = Inr s"
| "select_loop E rq snap cap cancel n (c # cs) s =
     (if cancel n then Inl (Cancelled ''cancelled_during_selection'')
      else sbind (build_item E c) (\<lambda>item.
        sbind (tentative_usage E rq snap s item) (\<lambda>usage.
        select_loop E rq snap cap cancel (n + 1) cs
          (if usage \<le> cap
           then \<lparr>sel_items = sel_items s @ [(c, item, int usage - int (sel_used s))], sel_omitted = sel_omitted s,
                 sel_used = usage, sel_zero = tentative_zero E s item\<rparr>
           else s\<lparr>sel_omitted := sel_omitted s @ [(c, int usage - int (sel_used s))]\<rparr>))))"

definition select_candidates ::
  "compiler_env \<Rightarrow> compile_request \<Rightarrow> corpus_snapshot \<Rightarrow> candidate list \<Rightarrow> nat \<Rightarrow> (nat \<Rightarrow> bool) \<Rightarrow>
   context_error + nat \<times> selection" where
  "select_candidates E rq snap ordered cap cancel =
     (let zero = (if ce_additive E then ce_units E (canonical_bundle E rq snap [] [] [] 0) else 0)
      in sbind (lift_fixed (if ce_additive E then additive_usage_fixed_point zero
           else fixed_point_measure (canonical_bundle E rq snap [] [] []) (ce_units E))) (\<lambda>base.
         if cap < base then Inl (LimitExceeded ''base_bundle_exceeds_budget'')
         else sbind (select_loop E rq snap cap cancel 3 ordered
             \<lparr>sel_items = [], sel_omitted = [], sel_used = base, sel_zero = zero\<rparr>) (\<lambda>s.
           Inr (base, s))))"

section \<open>Ledger, bundle and receipt\<close>

record ledger =
  lg_unit :: budget_unit
  lg_limit :: int
  lg_reserved :: int
  lg_ceiling :: int
  lg_target :: int
  lg_base :: int
  lg_incremental :: int
  lg_used :: int
  lg_remaining :: int

definition ledger_valid :: "ledger \<Rightarrow> bool" where
  "ledger_valid l \<longleftrightarrow> 1 \<le> lg_limit l \<and> lg_limit l \<le> 16 * 1024 * 1024 \<and> 1 \<le> lg_reserved l \<and> 0 \<le> lg_ceiling l \<and>
     1 \<le> lg_target l \<and> 0 \<le> lg_base l \<and> 0 \<le> lg_incremental l \<and> 0 \<le> lg_used l \<and> 0 \<le> lg_remaining l \<and>
     (let reserve = (lg_limit l + 9) div 10
      in lg_reserved l = reserve \<and> lg_target l = reserve \<and> lg_ceiling l = lg_limit l - reserve) \<and>
     lg_used l = lg_base l + lg_incremental l \<and> lg_used l \<le> lg_ceiling l \<and>
     lg_remaining l = lg_ceiling l - lg_used l"

definition make_ledger :: "compile_request \<Rightarrow> nat \<Rightarrow> nat \<Rightarrow> ledger" where
  "make_ledger rq base used =
     (let limit = int (rq_limit rq); reserve = (limit + 9) div 10
      in \<lparr>lg_unit = est_unit (rq_estimator rq), lg_limit = limit, lg_reserved = reserve, lg_ceiling = limit - reserve,
          lg_target = reserve, lg_base = int base, lg_incremental = int used - int base, lg_used = int used,
          lg_remaining = limit - reserve - int used\<rparr>)"

definition ledger_json :: "ledger \<Rightarrow> json" where
  "ledger_json l = JObj [(U ''unit'', JStr (unit_value (lg_unit l))), (U ''limit'', JInt (lg_limit l)),
     (U ''response_reserved'', JInt (lg_reserved l)), (U ''bundle_ceiling'', JInt (lg_ceiling l)),
     (U ''provenance_target'', JInt (lg_target l)), (U ''base_bundle_used'', JInt (lg_base l)),
     (U ''selected_incremental_used'', JInt (lg_incremental l)), (U ''bundle_used'', JInt (lg_used l)),
     (U ''remaining'', JInt (lg_remaining l))]"

record context_bundle =
  bu_id :: pystr
  bu_created :: int
  bu_query :: pystr
  bu_mode :: context_mode
  bu_estimator :: estimator_id
  bu_limit :: nat
  bu_used :: nat
  bu_versions :: "version_scope list"
  bu_items :: "evidence_item list"
  bu_trace :: "(pystr \<times> nat \<times> pystr) list"
  bu_warnings :: "bundle_notice list"
  bu_missing :: "missing_entry list"

definition item_identity_key :: "evidence_item \<Rightarrow> pystr \<times> pystr \<times> pystr \<times> bool \<times> pystr \<times> pystr" where
  "item_identity_key i = (vs_document (provenance_scope (it_provenance i)), vs_version (provenance_scope (it_provenance i)),
     vs_representation (provenance_scope (it_provenance i)),
     (case it_provenance i of Block _ \<Rightarrow> False | Projection _ \<Rightarrow> True), item_evidence_id i, rep_value (it_rep i))"

definition bundle_valid :: "context_bundle \<Rightarrow> bool" where
  "bundle_valid b \<longleftrightarrow> 1 \<le> length (bu_versions b) \<and> length (bu_versions b) \<le> 32 \<and>
     sorted_unique (map scope_key (bu_versions b)) \<and>
     list_all (\<lambda>i. provenance_scope (it_provenance i) \<in> set (bu_versions b)) (bu_items b) \<and>
     list_all evidence_item_valid (bu_items b) \<and> distinct (map item_identity_key (bu_items b)) \<and>
     (bu_items b \<noteq> [] \<or> bu_missing b \<noteq> []) \<and> bu_used b \<le> bu_limit b"

definition identity_sha256 :: "compiler_env \<Rightarrow> string \<Rightarrow> json \<Rightarrow> pystr" where
  "identity_sha256 E domain payload = ce_sha256 E (ce_enc E (JObj
     [(U ''canonicalization'', JStr (U ''RFC8785'')), (U ''domain'', JStr (U domain)),
      (U ''identity_version'', JInt 1), (U ''payload'', payload)]))"

definition build_bundle ::
  "compiler_env \<Rightarrow> compile_request \<Rightarrow> corpus_snapshot \<Rightarrow> evidence_item list \<Rightarrow> missing_entry list \<Rightarrow>
   bundle_notice list \<Rightarrow> nat \<Rightarrow> context_error + context_bundle" where
  "build_bundle E rq snap items missing warnings used =
     (let b = \<lparr>bu_id = ce_uuid5 E (identity_sha256 E ''openardp:context-bundle''
            (JObj (bundle_members E rq snap items missing warnings used))),
          bu_created = snap_created snap, bu_query = rq_task rq, bu_mode = pol_mode (rq_policy rq),
          bu_estimator = rq_estimator rq, bu_limit = rq_limit rq, bu_used = used, bu_versions = snap_scopes snap,
          bu_items = items, bu_trace = map (\<lambda>(n, i). (item_evidence_id i, n, it_reason i)) (enumerate 0 items),
          bu_warnings = warnings, bu_missing = missing\<rparr>
      in if bundle_valid b then Inr b else Inl InvalidRecord)"

record decision =
  de_outcome :: selection_outcome
  de_evidence :: pystr
  de_scope :: version_scope
  de_rep :: evidence_rep
  de_reason :: pystr
  de_high_value :: bool
  de_coverage :: nat
  de_occurrences :: nat
  de_source_order :: nat
  de_cost :: int
  de_order :: "nat option"
  de_extensions :: json

definition relevance_extensions :: "candidate \<Rightarrow> json" where
  "relevance_extensions c = JObj
     ((case c_relevance c of None \<Rightarrow> []
       | Some r \<Rightarrow> [(U ''https://openardp.example/ns/context-relevance/v1'', JObj
           [(U ''matched_signals'', JInt (int (rel_matched_signals r))),
            (U ''matched_weight'', JInt (int (rel_matched_weight r))),
            (U ''meets_minimum'', JBool (rel_meets_minimum r)), (U ''policy_id'', JStr (rel_policy r)),
            (U ''score_millionths'', JInt (int (rel_score r))),
            (U ''total_signals'', JInt (int (rel_total_signals r))),
            (U ''total_weight'', JInt (int (rel_total_weight r))),
            (U ''volatile_time_matched'', JBool (rel_volatile_matched r))])]) @
      (case c_semantic c of None \<Rightarrow> []
       | Some s \<Rightarrow> [(U ''https://openardp.example/ns/semantic-retrieval/v1'', JObj
           [(U ''provider_recipe_id'', JStr (sem_recipe s)), (U ''policy_id'', JStr (sem_policy s)),
            (U ''score_millionths'', JInt (sem_score s)),
            (U ''volatile_time_matched'', JBool (sem_volatile_matched s)),
            (U ''meets_minimum'', JBool (sem_meets_minimum s)), (U ''cache_hit'', JBool (sem_cache_hit s))])]))"

definition candidate_object_cost :: "candidate \<Rightarrow> context_error + int" where
  "candidate_object_cost c =
     (case (if c_body c \<noteq> None then c_body c else c_cost c) of
        None \<Rightarrow> Inl (IntegrityFailure ''candidate_cost_object_missing'') | Some so \<Rightarrow> Inr (int (so_length so)))"

definition receipt_decision ::
  "candidate \<Rightarrow> selection_outcome \<Rightarrow> int option \<Rightarrow> pystr option \<Rightarrow> nat option \<Rightarrow> context_error + decision" where
  "receipt_decision c oc cost reason order =
     sbind (case cost of Some n \<Rightarrow> Inr n | None \<Rightarrow> candidate_object_cost c) (\<lambda>n.
     if n < 0 \<or> 9007199254740991 < n \<or> (oc = SELECTED) \<noteq> (order \<noteq> None) then Inl InvalidRecord
     else Inr \<lparr>de_outcome = oc, de_evidence = c_evidence c, de_scope = c_scope c, de_rep = c_rep c,
       de_reason = (case reason of Some r \<Rightarrow> r | None \<Rightarrow> c_reason c), de_high_value = c_high_value c,
       de_coverage = c_coverage c, de_occurrences = c_occurrences c, de_source_order = c_source_order c,
       de_cost = n, de_order = order, de_extensions = relevance_extensions c\<rparr>)"

fun each :: "('a \<Rightarrow> 'e + 'b) \<Rightarrow> 'a list \<Rightarrow> 'e + 'b list" where
  "each f [] = Inr []"
| "each f (x # xs) = sbind (f x) (\<lambda>y. sbind (each f xs) (\<lambda>ys. Inr (y # ys)))"

record receipt =
  rc_id :: pystr
  rc_created :: int
  rc_task :: pystr
  rc_algorithm :: algorithm_id
  rc_estimator :: estimator_id
  rc_policy :: selection_policy
  rc_policy_digest :: pystr
  rc_snapshot :: "version_scope list"
  rc_budget :: ledger
  rc_selected :: "decision list"
  rc_omitted :: "decision list"
  rc_rejected :: "decision list"
  rc_stale :: "decision list"
  rc_truncated :: bool
  rc_notices :: "pystr list"

definition decision_subject :: "decision \<Rightarrow> identity" where
  "decision_subject d = (vs_document (de_scope d), vs_version (de_scope d), vs_representation (de_scope d),
     de_evidence d, rep_value (de_rep d))"

definition all_decisions :: "receipt \<Rightarrow> decision list" where
  "all_decisions r = rc_selected r @ rc_omitted r @ rc_rejected r @ rc_stale r"

definition receipt_valid :: "receipt \<Rightarrow> bool" where
  "receipt_valid r \<longleftrightarrow> 1 \<le> length (rc_snapshot r) \<and> length (rc_snapshot r) \<le> 32 \<and>
     sorted_unique (map scope_key (rc_snapshot r)) \<and>
     list_all (\<lambda>d. de_outcome d = SELECTED) (rc_selected r) \<and> list_all (\<lambda>d. de_outcome d = OMITTED) (rc_omitted r) \<and>
     list_all (\<lambda>d. de_outcome d = REJECTED) (rc_rejected r) \<and> list_all (\<lambda>d. de_outcome d = STALE_OUT) (rc_stale r) \<and>
     list_all (\<lambda>d. de_scope d \<in> set (rc_snapshot r)) (all_decisions r) \<and>
     distinct (map decision_subject (all_decisions r)) \<and>
     map de_order (rc_selected r) = map Some [0..<length (rc_selected r)] \<and>
     est_unit (rc_estimator r) = lg_unit (rc_budget r)"

fun outcome_value :: "selection_outcome \<Rightarrow> pystr" where
  "outcome_value SELECTED = U ''selected''"
| "outcome_value OMITTED = U ''omitted''"
| "outcome_value REJECTED = U ''rejected''"
| "outcome_value STALE_OUT = U ''stale''"

definition decision_json :: "decision \<Rightarrow> json" where
  "decision_json d = JObj [(U ''extensions'', de_extensions d), (U ''outcome'', JStr (outcome_value (de_outcome d))),
     (U ''evidence_id'', JStr (de_evidence d)), (U ''scope'', JObj (scope_members (de_scope d))),
     (U ''representation'', JStr (rep_value (de_rep d))), (U ''reason_code'', JStr (de_reason d)),
     (U ''high_value'', JBool (de_high_value d)), (U ''term_coverage'', JInt (int (de_coverage d))),
     (U ''occurrences'', JInt (int (de_occurrences d))), (U ''source_order'', JInt (int (de_source_order d))),
     (U ''estimated_cost'', JInt (de_cost d)), (U ''final_order'', j_opt (\<lambda>n. JInt (int n)) (de_order d))]"

definition receipt_json :: "compiler_env \<Rightarrow> receipt \<Rightarrow> json" where
  "receipt_json E r = JObj [(U ''extensions'', JObj []), (U ''contract_version'', JStr (U ''0.1.0'')),
     (U ''stability'', JStr (U ''experimental'')), (U ''identity_version'', JInt 1),
     (U ''created_at'', JStr (ce_iso E (rc_created r))), (U ''task_digest'', JStr (rc_task r)),
     (U ''algorithm'', algorithm_json (rc_algorithm r)), (U ''estimator'', estimator_json (rc_estimator r)),
     (U ''policy'', policy_json (rc_policy r)), (U ''policy_digest'', JStr (rc_policy_digest r)),
     (U ''corpus_snapshot'', JArr (map (\<lambda>s. JObj (scope_members s)) (rc_snapshot r))),
     (U ''budget'', ledger_json (rc_budget r)),
     (U ''selected'', JArr (map decision_json (rc_selected r))),
     (U ''omitted'', JArr (map decision_json (rc_omitted r))),
     (U ''rejected'', JArr (map decision_json (rc_rejected r))),
     (U ''stale'', JArr (map decision_json (rc_stale r))), (U ''truncated'', JBool (rc_truncated r)),
     (U ''notices'', JArr (map (\<lambda>c. JObj [(U ''extensions'', JObj []), (U ''code'', JStr c),
        (U ''subject_id'', JNull)]) (rc_notices r)))]"

definition build_receipt ::
  "compiler_env \<Rightarrow> compile_request \<Rightarrow> corpus_snapshot \<Rightarrow> ledger \<Rightarrow> selection \<Rightarrow> classified \<Rightarrow> bool \<Rightarrow> pystr list \<Rightarrow>
   context_error + receipt" where
  "build_receipt E rq snap lg s k truncated notices =
     sbind (each (\<lambda>(n, (c, _, cost)). receipt_decision c SELECTED (Some cost) None (Some n))
       (enumerate 0 (sel_items s))) (\<lambda>sel.
     sbind (each (\<lambda>(c, cost). receipt_decision c OMITTED (Some cost) None None) (sel_omitted s)) (\<lambda>om.
     sbind (each (\<lambda>(c, reason). receipt_decision c REJECTED None (Some reason) None) (cl_rejected k)) (\<lambda>rej.
     sbind (each (\<lambda>c. receipt_decision c STALE_OUT None (Some (U ''stale_freshness_excluded'')) None)
       (cl_stale k)) (\<lambda>st.
     let r = \<lparr>rc_id = [], rc_created = snap_created snap, rc_task = ce_sha256 E (rq_task rq),
           rc_algorithm = ce_algorithm E, rc_estimator = rq_estimator rq, rc_policy = rq_policy rq,
           rc_policy_digest = identity_sha256 E ''openardp:context-policy'' (policy_json (rq_policy rq)),
           rc_snapshot = snap_scopes snap, rc_budget = lg, rc_selected = sel, rc_omitted = om, rc_rejected = rej,
           rc_stale = st, rc_truncated = truncated, rc_notices = notices\<rparr>;
         r' = r\<lparr>rc_id := identity_sha256 E ''openardp:selection-receipt'' (receipt_json E r)\<rparr>
     in if receipt_valid r' then Inr r' else Inl InvalidRecord))))"

section \<open>Compilation\<close>

record compile_result =
  cr_bundle :: context_bundle
  cr_receipt :: receipt

fun discover ::
  "compiler_env \<Rightarrow> compile_request \<Rightarrow> corpus_snapshot \<Rightarrow>
   (pystr \<Rightarrow> corpus_snapshot \<Rightarrow> compile_limits \<Rightarrow> context_error + candidate list) list \<Rightarrow> candidate list \<Rightarrow> bool \<Rightarrow>
   context_error + candidate list \<times> bool" where
  "discover E rq snap [] found truncated = Inr (found, truncated)"
| "discover E rq snap (f # fs) found truncated =
     sbind (f (rq_task rq) snap (rq_limits rq)) (\<lambda>more.
     let m = lim_discovered (rq_limits rq); all = found @ more
     in if m < length all then discover E rq snap fs (take m all) True
        else discover E rq snap fs all truncated)"

definition compile_with_snapshot ::
  "compiler_env \<Rightarrow> compile_request \<Rightarrow> corpus_snapshot \<Rightarrow> (nat \<Rightarrow> bool) \<Rightarrow> context_error + compile_result" where
  "compile_with_snapshot E rq snap cancel =
     (if cancel 1 then Inl (Cancelled ''cancelled_before_discovery'')
      else sbind (discover E rq snap (ce_sources E) [] False) (\<lambda>(discovered, cut1).
      if cancel 2 then Inl (Cancelled ''cancelled_before_selection'')
      else sbind (classify_candidates discovered (rq_policy rq) (ce_relevance E)) (\<lambda>k0.
      let k = allocate_candidates k0 (ce_allocation E);
          (ordered, cut2) = bounded_candidates k (lim_candidates (rq_limits rq));
          truncated = (cut1 \<or> cut2);
          limit = rq_limit rq; cap = limit - (limit + 9) div 10
      in sbind (select_candidates E rq snap ordered cap cancel) (\<lambda>(base, s).
         let items = map (\<lambda>e. fst (snd e)) (sel_items s);
             (missing, notices1) = missing_evidence (rq_policy rq) items;
             (warnings, notices2) = compilation_notices truncated
               (is_relevance_abstention discovered ordered (cl_rejected k) (ce_relevance E))
               (ce_semantic_abstention E \<and> ordered = [])
         in sbind (if missing \<noteq> [] \<or> warnings \<noteq> []
              then sbind (lift_fixed (fixed_point_measure
                  (canonical_bundle E rq snap items missing warnings) (ce_units E))) (\<lambda>used.
                if cap < used then Inl (LimitExceeded ''bundle_exceeds_budget'') else Inr used)
              else Inr (sel_used s)) (\<lambda>used.
            if lim_decisions (rq_limits rq) < length (sel_items s) + length (sel_omitted s) +
                 length (cl_rejected k) + length (cl_stale k)
            then Inl (LimitExceeded ''max_decisions_exceeded'')
            else if \<not> ledger_valid (make_ledger rq base used) then Inl InvalidRecord
            else sbind (build_bundle E rq snap items missing warnings used) (\<lambda>b.
              sbind (build_receipt E rq snap (make_ledger rq base used) s k truncated (notices1 @ notices2)) (\<lambda>r.
              Inr \<lparr>cr_bundle = b, cr_receipt = r\<rparr>)))))))"

fun resolve_scopes :: "compiler_env \<Rightarrow> pystr list \<Rightarrow> context_error + (version_scope \<times> int) list" where
  "resolve_scopes E [] = Inr []"
| "resolve_scopes E (d # ds) =
     sbind (need (ce_document E d) (IntegrityFailure ''catalog_read_failed'')) (\<lambda>present.
     if \<not> present then Inl (NotFound ''document_missing'')
     else sbind (need (ce_head E d) (IntegrityFailure ''catalog_read_failed'')) (\<lambda>head.
       sbind (need head (NotFound ''ready_head_missing'')) (\<lambda>h.
       sbind (resolve_scopes E ds) (\<lambda>hs. Inr (h # hs)))))"

definition resolve_snapshot :: "compiler_env \<Rightarrow> compile_request \<Rightarrow> context_error + corpus_snapshot" where
  "resolve_snapshot E rq = sbind (resolve_scopes E (rq_documents rq)) (\<lambda>hs.
     let snap = \<lparr>snap_scopes = map fst hs, snap_created = Max (set (map snd hs))\<rparr>
     in if corpus_snapshot_valid snap then Inr snap else Inl InvalidRecord)"

definition compile_context ::
  "compiler_env \<Rightarrow> compile_request \<Rightarrow> (nat \<Rightarrow> bool) \<Rightarrow> context_error + compile_result" where
  "compile_context E rq cancel =
     (if cancel 0 then Inl (Cancelled ''cancelled_before_snapshot'')
      else if ce_estimator E \<noteq> rq_estimator rq then Inl (ConfigurationMismatch ''estimator_mismatch'')
      else sbind (resolve_snapshot E rq) (\<lambda>snap. compile_with_snapshot E rq snap cancel))"

end
