(* ===== verification/Context_Selection.thy ===== *)
theory Context_Selection
  imports Context_Compiler
begin

text \<open>
  What the compiler promises: the two budgeting modes select the same evidence, the ledger is exact,
  the receipt accounts for every discovered candidate, and only permitted content is selected.  The
  measurement lemmas are proved in the locale \<open>budgeted\<close>, for any encoder and estimator that keep
  their contracts.
\<close>

section \<open>Switching the budgeting mode\<close>

definition additive :: "bool \<Rightarrow> compiler_env \<Rightarrow> compiler_env" where
  "additive b E = E\<lparr>ce_additive := b\<rparr>"

lemma read_verified_additive: "read_verified (E\<lparr>ce_additive := b\<rparr>) so = read_verified E so"
  by (simp add: read_verified_def)

lemma additive_build: "build_item (E\<lparr>ce_additive := b\<rparr>) c = build_item E c"
  by (cases "c_provenance c")
     (simp_all add: build_item_def block_content_def projection_content_def read_verified_additive cong: if_cong)

lemma additive_discover: "discover (E\<lparr>ce_additive := b\<rparr>) rq snap fs found t = discover E rq snap fs found t"
  by (induction fs arbitrary: found t) (simp_all add: Let_def cong: if_cong)

lemma additive_bundle:
  "canonical_bundle (E\<lparr>ce_additive := b\<rparr>) rq snap items missing warnings u =
     canonical_bundle E rq snap items missing warnings u"
  "build_bundle (E\<lparr>ce_additive := b\<rparr>) rq snap items missing warnings u =
     build_bundle E rq snap items missing warnings u"
  by (simp_all add: canonical_bundle_def build_bundle_def bundle_members_def identity_sha256_def)

lemma additive_receipt:
  "build_receipt (E\<lparr>ce_additive := b\<rparr>) rq snap l s k t ns = build_receipt E rq snap l s k t ns"
  by (simp add: build_receipt_def receipt_json_def identity_sha256_def)

lemma additive_fields [simp]:
  "ce_enc (additive b E) = ce_enc E" "ce_units (additive b E) = ce_units E" "ce_additive (additive b E) = b"
  "canonical_bundle (additive b E) = canonical_bundle E" "build_item (additive b E) = build_item E"
  "build_bundle (additive b E) = build_bundle E" "build_receipt (additive b E) = build_receipt E"
  "discover (additive b E) = discover E" "ce_sources (additive b E) = ce_sources E"
  "ce_relevance (additive b E) = ce_relevance E" "ce_allocation (additive b E) = ce_allocation E"
  "ce_semantic_abstention (additive b E) = ce_semantic_abstention E"
  by (simp_all add: additive_def fun_eq_iff additive_build additive_bundle additive_receipt additive_discover)

text \<open>The zero usage is bookkeeping of the additive mode; the rest of a selection is its result.\<close>

definition forget :: "selection \<Rightarrow> selection" where
  "forget s = s\<lparr>sel_zero := 0\<rparr>"

lemma forget_simps [simp]:
  "sel_items (forget s) = sel_items s" "sel_omitted (forget s) = sel_omitted s" "sel_used (forget s) = sel_used s"
  by (simp_all add: forget_def)

section \<open>Measuring a bundle\<close>

lemma traces_append: "traces (items @ [i]) = traces items @ [trace_json i (length items)]"
  by (simp add: traces_def enumerate_append_eq)

lemma length_traces [simp]: "length (traces items) = length items"
  by (simp add: traces_def)

context budgeted
begin

lemma units_budget:
  "units (enc (budget_json rq u)) = units (enc (budget_json rq 0)) + 2 * (length (dec u) - 1)"
proof -
  have d: "distinct (map fst [(U ''unit'', JStr (unit_value (est_unit (rq_estimator rq)))),
     (U ''limit'', JInt (int (rq_limit rq))), (U ''estimated_used'', JInt (int v)),
     (U ''estimator'', estimator_json (rq_estimator rq)), (U ''actual_used'', JInt (int v))])" for v
    by (simp add: U_def)
  have "units (enc (JInt 0)) = 1" using units_int[of 0] by (simp add: dec.simps)
  moreover have "1 \<le> length (dec u)" by (simp add: Suc_le_eq)
  ultimately show ?thesis
    unfolding budget_json_def units_obj[OF d] by (simp add: member_def units_int)
qed

lemma bundle_keys:
  "distinct (map fst ((U ''bundle_id'', JStr zero_uuid) # bundle_members E rq snap items missing warnings u))"
  by (simp add: bundle_members_def U_def)

lemma units_bundle:
  assumes "ce_enc E = enc"
  shows "units (canonical_bundle E rq snap items missing warnings u) =
    units (canonical_bundle E rq snap items missing warnings 0) + 2 * (length (dec u) - 1)"
  unfolding canonical_bundle_def assms units_obj[OF bundle_keys]
  by (simp add: bundle_members_def member_def units_budget[of rq u])

lemma units_bundle_append:
  assumes "ce_enc E = enc"
  shows "units (canonical_bundle E rq snap (items @ [i]) missing warnings u) =
    units (canonical_bundle E rq snap items missing warnings u) + (if items \<noteq> [] then 2 else 0) +
    units (enc (item_json i)) + units (enc (trace_json i (length items)))"
proof (cases "items = []")
  case False
  then obtain k where "length items = Suc k" by (cases items) auto
  with False show ?thesis
    unfolding canonical_bundle_def assms units_obj[OF bundle_keys]
    by (simp add: bundle_members_def member_def units_arr traces_append)
next
  case True
  then show ?thesis
    unfolding canonical_bundle_def assms units_obj[OF bundle_keys]
    by (simp add: bundle_members_def member_def units_arr traces_def)
qed

section \<open>The two budgeting modes\<close>

lemma fixed_point_bundle:
  assumes "ce_enc E = enc" "ce_units E = units"
  shows "fixed_point_measure (canonical_bundle E rq snap items [] []) (ce_units E) =
    additive_usage_fixed_point (units (canonical_bundle E rq snap items [] [] 0))"
proof -
  have "(\<lambda>u. units (canonical_bundle E rq snap items [] [] u)) =
      (\<lambda>u. units (canonical_bundle E rq snap items [] [] 0) + 2 * (length (dec u) - 1))"
    by (rule ext) (rule units_bundle[OF assms(1)])
  then show ?thesis
    unfolding fixed_point_measure_def additive_usage_fixed_point_def assms(2) by simp
qed

text \<open>The zero usage that additive budgeting maintains is that of the bundle selected so far.\<close>

definition zero_ok :: "compiler_env \<Rightarrow> compile_request \<Rightarrow> corpus_snapshot \<Rightarrow> selection \<Rightarrow> bool" where
  "zero_ok E rq snap s \<longleftrightarrow>
     sel_zero s = units (canonical_bundle E rq snap (map (\<lambda>e. fst (snd e)) (sel_items s)) [] [] 0)"

lemma tentative_zero_ok:
  assumes "ce_enc E = enc" "ce_units E = units" "ce_additive E" "zero_ok E rq snap s"
  shows "tentative_zero E s i =
    units (canonical_bundle E rq snap (map (\<lambda>e. fst (snd e)) (sel_items s) @ [i]) [] [] 0)"
  using assms(3,4) units_ascii[of 44]
  by (simp add: tentative_zero_def zero_ok_def assms(1,2) units_bundle_append)

lemma zero_ok_simps:
  "zero_ok (additive b E) = zero_ok E"
  by (simp add: zero_ok_def fun_eq_iff)

lemma select_loop_modes:
  assumes "ce_enc E = enc" "ce_units E = units" "zero_ok E rq snap s"
  shows "sbind (select_loop (additive True E) rq snap cap cancel n cs s) (\<lambda>t. Inr (forget t)) =
    select_loop (additive False E) rq snap cap cancel n cs (forget s)"
  using assms(3)
proof (induction cs arbitrary: n s)
  case (Cons c cs)
  let ?A = "additive True E" and ?R = "additive False E"
  show ?case
  proof (cases "build_item E c")
    case (Inr i)
    let ?its = "map (\<lambda>e. fst (snd e)) (sel_items s) @ [i]"
    have z: "tentative_zero ?A s i = units (canonical_bundle E rq snap ?its [] [] 0)"
      using tentative_zero_ok[of ?A rq snap s i] assms Cons.prems by (simp add: zero_ok_simps)
    have u: "tentative_usage ?A rq snap s i = tentative_usage ?R rq snap (forget s) i"
      using fixed_point_bundle[OF assms(1,2), of rq snap ?its] z by (simp add: tentative_usage_def)
    have z0: "tentative_zero ?R (forget s) i = 0" by (simp add: tentative_zero_def forget_def)
    show ?thesis
    proof (cases "tentative_usage ?R rq snap (forget s) i")
      case (Inr v)
      let ?s = "\<lparr>sel_items = sel_items s @ [(c, i, int v - int (sel_used s))], sel_omitted = sel_omitted s,
        sel_used = v, sel_zero = tentative_zero ?A s i\<rparr>"
      let ?o = "s\<lparr>sel_omitted := sel_omitted s @ [(c, int v - int (sel_used s))]\<rparr>"
      have "zero_ok E rq snap ?s" by (simp add: zero_ok_def z)
      from Cons.IH[OF this, of "n + 1"] have a: "sbind (select_loop ?A rq snap cap cancel (n + 1) cs ?s) (\<lambda>t. Inr (forget t)) =
          select_loop ?R rq snap cap cancel (n + 1) cs (forget ?s)" .
      have "zero_ok E rq snap ?o" using Cons.prems by (simp add: zero_ok_def)
      from Cons.IH[OF this, of "n + 1"] have b: "sbind (select_loop ?A rq snap cap cancel (n + 1) cs ?o) (\<lambda>t. Inr (forget t)) =
          select_loop ?R rq snap cap cancel (n + 1) cs (forget ?o)" .
      have "forget ?o = (forget s)\<lparr>sel_omitted := sel_omitted s @ [(c, int v - int (sel_used s))]\<rparr>"
        "forget ?s = \<lparr>sel_items = sel_items s @ [(c, i, int v - int (sel_used s))], sel_omitted = sel_omitted s,
          sel_used = v, sel_zero = 0\<rparr>" by (simp_all add: forget_def)
      with a b Inr u z0 show ?thesis by (simp add: \<open>build_item E c = Inr i\<close>)
    qed (simp add: Inr u)
  qed simp
qed simp

lemma select_candidates_modes:
  assumes "ce_enc E = enc" "ce_units E = units"
  shows "sbind (select_candidates (additive True E) rq snap cs cap cancel) (\<lambda>(base, s). Inr (base, forget s)) =
    select_candidates (additive False E) rq snap cs cap cancel"
proof -
  let ?s = "\<lambda>base. \<lparr>sel_items = [], sel_omitted = [], sel_used = base,
    sel_zero = units (canonical_bundle E rq snap [] [] [] 0)\<rparr>"
  have "zero_ok E rq snap (?s base)" for base by (simp add: zero_ok_def)
  note loop = select_loop_modes[OF assms this]
  have f: "forget (?s base) = \<lparr>sel_items = [], sel_omitted = [], sel_used = base, sel_zero = 0\<rparr>" for base
    by (simp add: forget_def)
  have base: "additive_usage_fixed_point (units (canonical_bundle E rq snap [] [] [] 0)) =
      fixed_point_measure (canonical_bundle E rq snap [] [] []) units"
    using fixed_point_bundle[OF assms, of rq snap "[]"] by (simp add: assms)
  have l: "sbind (select_loop (additive True E) rq snap cap cancel 3 cs (?s base)) (\<lambda>s. Inr (base, forget s)) =
      sbind (select_loop (additive False E) rq snap cap cancel 3 cs
        \<lparr>sel_items = [], sel_omitted = [], sel_used = base, sel_zero = 0\<rparr>) (\<lambda>s. Inr (base, s))" for base
    using loop[of cap cancel 3 cs base] unfolding f
    by (cases "select_loop (additive True E) rq snap cap cancel 3 cs (?s base)") (auto dest: sym)
  show ?thesis
    by (cases "lift_fixed (fixed_point_measure (canonical_bundle E rq snap [] [] []) units)")
       (simp_all add: select_candidates_def Let_def base assms l sbind_assoc)
qed

lemma sbind_factor:
  assumes "sbind m (\<lambda>x. Inr (h x)) = m'" "\<And>x. f x = g (h x)"
  shows "sbind m f = sbind m' g"
  using assms by (cases m) auto

lemma compile_modes:
  assumes "ce_enc E = enc" "ce_units E = units"
  shows "compile_with_snapshot (additive True E) rq snap cancel = compile_with_snapshot (additive False E) rq snap cancel"
proof -
  have r: "build_receipt E rq snap l (forget s) k t ns = build_receipt E rq snap l s k t ns" for l s k t ns
    by (simp add: build_receipt_def)
  have m: "sbind (select_candidates (additive True E) rq snap cs cap cancel) f =
      sbind (select_candidates (additive False E) rq snap cs cap cancel) f"
    if "\<And>base s. f (base, forget s) = f (base, s)" for f :: "nat \<times> selection \<Rightarrow> context_error + compile_result" and cs cap
    by (rule sbind_factor[where h = "\<lambda>(base, s). (base, forget s)"])
       (use select_candidates_modes[OF assms, of rq snap cs cap cancel] that in \<open>auto simp: case_prod_unfold\<close>)
  show ?thesis
    unfolding compile_with_snapshot_def additive_fields Let_def case_prod_unfold
    by (intro if_cong refl m arg_cong[where f = "sbind _"] ext) (simp_all add: r cong: if_cong)
qed

end

section \<open>What a selection holds\<close>

definition sel_evidence :: "selection \<Rightarrow> evidence_item list" where
  "sel_evidence s = map (\<lambda>e. fst (snd e)) (sel_items s)"

definition exact :: "compiler_env \<Rightarrow> compile_request \<Rightarrow> corpus_snapshot \<Rightarrow> evidence_item list \<Rightarrow> missing_entry list \<Rightarrow>
    bundle_notice list \<Rightarrow> nat \<Rightarrow> bool" where
  "exact E rq snap items missing warnings used \<longleftrightarrow>
     ce_units E (canonical_bundle E rq snap items missing warnings used) = used"

definition selection_ok ::
  "compiler_env \<Rightarrow> compile_request \<Rightarrow> corpus_snapshot \<Rightarrow> nat \<Rightarrow> candidate list \<Rightarrow> selection \<Rightarrow> bool" where
  "selection_ok E rq snap cap cs s \<longleftrightarrow>
     mset (map fst (sel_items s)) + mset (map fst (sel_omitted s)) = mset cs \<and>
     (\<forall>(c, i, _)\<in>set (sel_items s). build_item E c = Inr i) \<and> sel_used s \<le> cap \<and>
     (\<not> ce_additive E \<longrightarrow> exact E rq snap (sel_evidence s) [] [] (sel_used s))"

lemma lift_fixed_InrE [result_elims]:
  assumes "lift_fixed m = Inr u"
  obtains "m = Inr u"
  using assms by (auto simp: lift_fixed_def split: sum.splits)

lemma fixed_point_measure_Inr:
  "fixed_point_measure b units = Inr u \<Longrightarrow> units (b u) = u"
  unfolding fixed_point_measure_def by (drule fixed_point_loop_Inr) simp

lemma select_loop_ok:
  assumes "selection_ok E rq snap cap xs s" "select_loop E rq snap cap cancel n cs s = Inr t"
  shows "selection_ok E rq snap cap (xs @ cs) t"
  using assms
proof (induction cs arbitrary: n s xs)
  case (Cons c cs)
  from Cons.prems(2) obtain item usage where
    i: "build_item E c = Inr item" and u: "tentative_usage E rq snap s item = Inr usage" and
    r: "select_loop E rq snap cap cancel (n + 1) cs
          (if usage \<le> cap
           then \<lparr>sel_items = sel_items s @ [(c, item, int usage - int (sel_used s))], sel_omitted = sel_omitted s,
                 sel_used = usage, sel_zero = tentative_zero E s item\<rparr>
           else s\<lparr>sel_omitted := sel_omitted s @ [(c, int usage - int (sel_used s))]\<rparr>) = Inr t"
    by (auto elim!: guard_InrE sbind_InrE)
  have e: "\<not> ce_additive E \<longrightarrow> exact E rq snap (sel_evidence s @ [item]) [] [] usage"
    using u by (auto simp: tentative_usage_def exact_def sel_evidence_def elim!: lift_fixed_InrE
        dest: fixed_point_measure_Inr)
  from Cons.prems(1) i e have "selection_ok E rq snap cap (xs @ [c])
      (if usage \<le> cap
       then \<lparr>sel_items = sel_items s @ [(c, item, int usage - int (sel_used s))], sel_omitted = sel_omitted s,
             sel_used = usage, sel_zero = tentative_zero E s item\<rparr>
       else s\<lparr>sel_omitted := sel_omitted s @ [(c, int usage - int (sel_used s))]\<rparr>)"
    by (simp add: selection_ok_def sel_evidence_def)
  from Cons.IH[OF this r] show ?case by simp
qed simp

lemma select_candidates_ok:
  assumes "select_candidates E rq snap cs cap cancel = Inr (base, s)"
  shows "selection_ok E rq snap cap cs s" "\<not> ce_additive E \<Longrightarrow> exact E rq snap [] [] [] base"
proof -
  let ?m = "fixed_point_measure (canonical_bundle E rq snap [] [] []) (ce_units E)"
  from assms obtain z where b: "\<not> ce_additive E \<longrightarrow> ?m = Inr base" and c: "\<not> cap < base"
    and l: "select_loop E rq snap cap cancel 3 cs
      \<lparr>sel_items = [], sel_omitted = [], sel_used = base, sel_zero = z\<rparr> = Inr s"
    unfolding select_candidates_def Let_def by (auto elim!: sbind_InrE guard_InrE lift_fixed_InrE split: if_splits)
  have e: "\<not> ce_additive E \<longrightarrow> exact E rq snap [] [] [] base"
    using b fixed_point_measure_Inr by (auto simp: exact_def)
  then show "\<not> ce_additive E \<Longrightarrow> exact E rq snap [] [] [] base" by blast
  have "selection_ok E rq snap cap [] \<lparr>sel_items = [], sel_omitted = [], sel_used = base, sel_zero = z\<rparr>"
    using e c by (simp add: selection_ok_def sel_evidence_def)
  from select_loop_ok[OF this l] show "selection_ok E rq snap cap cs s" by simp
qed

section \<open>A successful compilation, step by step\<close>

lemma compile_with_snapshot_InrE:
  assumes "compile_with_snapshot E rq snap cancel = Inr r"
  obtains d cut k0 k base s missing n1 warnings n2 used where
    "discover E rq snap (ce_sources E) [] False = Inr (d, cut)"
    "classify_candidates d (rq_policy rq) (ce_relevance E) = Inr k0"
    "k = allocate_candidates k0 (ce_allocation E)"
    "select_candidates E rq snap (take (lim_candidates (rq_limits rq)) (cl_ordered k))
       (rq_limit rq - (rq_limit rq + 9) div 10) cancel = Inr (base, s)"
    "missing_evidence (rq_policy rq) (sel_evidence s) = (missing, n1)"
    "if missing \<noteq> [] \<or> warnings \<noteq> []
     then fixed_point_measure (canonical_bundle E rq snap (sel_evidence s) missing warnings) (ce_units E) = Inr used \<and>
       used \<le> rq_limit rq - (rq_limit rq + 9) div 10
     else used = sel_used s"
    "ledger_valid (make_ledger rq base used)"
    "build_bundle E rq snap (sel_evidence s) missing warnings used = Inr (cr_bundle r)"
    "build_receipt E rq snap (make_ledger rq base used) s k
       (cut \<or> lim_candidates (rq_limits rq) < length (cl_ordered k)) (n1 @ n2) = Inr (cr_receipt r)"
proof -
  let ?cap = "rq_limit rq - (rq_limit rq + 9) div 10" and ?m = "lim_candidates (rq_limits rq)"
  obtain d cut where d: "discover E rq snap (ce_sources E) [] False = Inr (d, cut)"
    using assms by (auto simp: compile_with_snapshot_def elim!: sbind_InrE guard_InrE)
  obtain k0 where k0: "classify_candidates d (rq_policy rq) (ce_relevance E) = Inr k0"
    using assms d by (auto simp: compile_with_snapshot_def elim!: sbind_InrE guard_InrE)
  define k where "k = allocate_candidates k0 (ce_allocation E)"
  note C = assms[unfolded compile_with_snapshot_def Let_def bounded_candidates_def, simplified d k0 sbind_simps prod.case,
    folded k_def]
  obtain base s where s: "select_candidates E rq snap (take ?m (cl_ordered k)) ?cap cancel = Inr (base, s)"
    using C by (auto elim!: sbind_InrE guard_InrE)
  obtain missing n1 where ms: "missing_evidence (rq_policy rq) (sel_evidence s) = (missing, n1)" by fastforce
  obtain warnings n2 where ws: "compilation_notices (cut \<or> ?m < length (cl_ordered k))
      (is_relevance_abstention d (take ?m (cl_ordered k)) (cl_rejected k) (ce_relevance E))
      (ce_semantic_abstention E \<and> take ?m (cl_ordered k) = []) = (warnings, n2)" by fastforce
  note C1 = C[simplified s sbind_simps prod.case, folded sel_evidence_def, simplified ms ws prod.case]
  let ?lifted = "lift_fixed (fixed_point_measure (canonical_bundle E rq snap (sel_evidence s) missing warnings) (ce_units E))"
  obtain used where u: "(if missing \<noteq> [] \<or> warnings \<noteq> []
      then sbind ?lifted (\<lambda>used. if ?cap < used then Inl (LimitExceeded ''bundle_exceeds_budget'') else Inr used)
      else Inr (sel_used s)) = Inr used"
    using C1 by (fastforce elim!: guard_InrE elim: sbind_InrE)
  have u': "if missing \<noteq> [] \<or> warnings \<noteq> [] then fixed_point_measure (canonical_bundle E rq snap (sel_evidence s)
      missing warnings) (ce_units E) = Inr used \<and> used \<le> ?cap else used = sel_used s"
    using u by (auto split: if_splits elim!: sbind_InrE lift_fixed_InrE)
  show ?thesis
    by (rule that[OF d k0 k_def s ms u'])
       (use C1 u in \<open>auto elim!: sbind_InrE guard_InrE simp del: if_split\<close>)
qed

section \<open>The receipt\<close>

lemma each_map:
  assumes "each f xs = Inr ys" "\<And>x y. x \<in> set xs \<Longrightarrow> f x = Inr y \<Longrightarrow> g y = h x"
  shows "map g ys = map h xs"
  using assms by (induction xs arbitrary: ys) (auto elim!: sbind_InrE)

lemma receipt_decision_subject:
  "receipt_decision c oc cost reason order = Inr d \<Longrightarrow> decision_subject d = candidate_identity c"
  by (auto simp: receipt_decision_def decision_subject_def candidate_identity_def elim!: sbind_InrE guard_InrE)

lemma build_receipt_subjects:
  assumes "build_receipt E rq snap lg s k truncated notices = Inr r"
  shows "map decision_subject (all_decisions r) =
      map candidate_identity (map fst (sel_items s) @ map fst (sel_omitted s) @ map fst (cl_rejected k) @ cl_stale k)"
    and "receipt_valid r" "rc_budget r = lg" "rc_truncated r = truncated"
    and "map decision_subject (rc_selected r) = map candidate_identity (map fst (sel_items s))"
proof -
  from assms obtain a b c d where
    a: "each (\<lambda>(n, (c, _, cost)). receipt_decision c SELECTED (Some cost) None (Some n)) (enumerate 0 (sel_items s)) = Inr a" and
    b: "each (\<lambda>(c, cost). receipt_decision c OMITTED (Some cost) None None) (sel_omitted s) = Inr b" and
    c: "each (\<lambda>(c, reason). receipt_decision c REJECTED None (Some reason) None) (cl_rejected k) = Inr c" and
    d: "each (\<lambda>c. receipt_decision c STALE_OUT None (Some (U ''stale_freshness_excluded'')) None) (cl_stale k) = Inr d" and
    r: "rc_selected r = a" "rc_omitted r = b" "rc_rejected r = c" "rc_stale r = d" "rc_budget r = lg"
      "rc_truncated r = truncated" "receipt_valid r"
    by (auto simp: build_receipt_def Let_def elim!: sbind_InrE guard'_InrE)
  have "map decision_subject a = map (\<lambda>x. candidate_identity (fst (snd x))) (enumerate 0 (sel_items s))"
    by (rule each_map[OF a]) (auto dest: receipt_decision_subject)
  also have "\<dots> = map (\<lambda>x. candidate_identity (fst x)) (map snd (enumerate 0 (sel_items s)))"
    unfolding map_map comp_def ..
  finally have A: "map decision_subject a = map candidate_identity (map fst (sel_items s))" by (simp add: comp_def)
  have B: "map decision_subject b = map (\<lambda>x. candidate_identity (fst x)) (sel_omitted s)"
    by (rule each_map[OF b]) (auto dest: receipt_decision_subject)
  have C: "map decision_subject c = map (\<lambda>x. candidate_identity (fst x)) (cl_rejected k)"
    by (rule each_map[OF c]) (auto dest: receipt_decision_subject)
  have D: "map decision_subject d = map candidate_identity (cl_stale k)"
    by (rule each_map[OF d]) (auto dest: receipt_decision_subject)
  show "map decision_subject (all_decisions r) =
      map candidate_identity (map fst (sel_items s) @ map fst (sel_omitted s) @ map fst (cl_rejected k) @ cl_stale k)"
    by (simp add: all_decisions_def r A B C D comp_def)
  show "receipt_valid r" "rc_budget r = lg" "rc_truncated r = truncated"
    "map decision_subject (rc_selected r) = map candidate_identity (map fst (sel_items s))"
    using r A by simp_all
qed

lemma build_bundle_fields:
  assumes "build_bundle E rq snap items missing warnings used = Inr b"
  shows "bu_items b = items" "bu_missing b = missing" "bu_warnings b = warnings" "bu_used b = used"
    "\<lparr>snap_scopes = bu_versions b, snap_created = bu_created b\<rparr> = snap" "bundle_valid b"
    "bu_trace b = map (\<lambda>(n, i). (item_evidence_id i, n, it_reason i)) (enumerate 0 items)"
proof -
  have v: "bundle_valid b" and b: "b = \<lparr>bu_id = bu_id b,
      bu_created = snap_created snap, bu_query = rq_task rq, bu_mode = pol_mode (rq_policy rq),
      bu_estimator = rq_estimator rq, bu_limit = rq_limit rq, bu_used = used, bu_versions = snap_scopes snap,
      bu_items = items, bu_trace = map (\<lambda>(n, i). (item_evidence_id i, n, it_reason i)) (enumerate 0 items),
      bu_warnings = warnings, bu_missing = missing\<rparr>"
    using assms by (auto simp: build_bundle_def Let_def elim!: guard'_InrE)
  show "bundle_valid b" by (rule v)
  show "bu_items b = items" "bu_missing b = missing" "bu_warnings b = warnings" "bu_used b = used"
    "\<lparr>snap_scopes = bu_versions b, snap_created = bu_created b\<rparr> = snap"
    "bu_trace b = map (\<lambda>(n, i). (item_evidence_id i, n, it_reason i)) (enumerate 0 items)"
    by (subst b; simp)+
qed

section \<open>Every discovered candidate\<close>

lemma unrated_fields:
  "candidate_identity (unrated c) = candidate_identity c" "c_fresh (unrated c) = c_fresh c"
  "c_trust (unrated c) = c_trust c" "build_item E (unrated c) = build_item E c"
  by (simp_all add: unrated_def candidate_identity_def build_item_def block_content_def projection_content_def
      cong: if_cong split: provenance.split)

lemma allocate_candidates_sum:
  assumes "distinct (map candidate_identity (cl_ordered k0))"
  shows "mset (cl_ordered (allocate_candidates k0 p)) + mset (map fst (cl_rejected (allocate_candidates k0 p))) =
      mset (cl_ordered k0) + mset (map fst (cl_rejected k0))"
    and "cl_stale (allocate_candidates k0 p) = cl_stale k0"
proof -
  have "mset (alloc_ordered (allocate_lexical_candidates (cl_ordered k0) q)) +
      mset (map fst (alloc_rejected (allocate_lexical_candidates (cl_ordered k0) q))) = mset (cl_ordered k0)" for q
    by (rule allocate_partition(1)[OF assms refl])
  from this[symmetric] show "mset (cl_ordered (allocate_candidates k0 p)) + mset (map fst (cl_rejected (allocate_candidates k0 p))) =
      mset (cl_ordered k0) + mset (map fst (cl_rejected k0))"
    by (cases p) (simp_all add: allocate_candidates_def Let_def)
  show "cl_stale (allocate_candidates k0 p) = cl_stale k0"
    by (cases p) (simp_all add: allocate_candidates_def Let_def)
qed

end
