(* ===== verification/Context_Example.thy ===== *)
theory Context_Example
  imports Context_Selection
begin

text \<open>
  A compilation evaluated on concrete data: one document, one exact block, the canonical encoder
  \<open>jcs\<close> and the character estimator.  \<open>cx_env cs\<close> has one candidate source per element of \<open>cs\<close>.
  It shows that the hypotheses of the properties can hold.
\<close>

section \<open>The request and its environment\<close>

definition cx_scope :: version_scope where
  "cx_scope = \<lparr>vs_document = U ''d'', vs_version = U ''v'', vs_representation = U ''r''\<rparr>"

definition cx_candidate :: candidate where
  "cx_candidate = \<lparr>c_evidence = U ''b'', c_scope = cx_scope,
     c_provenance = Block \<lparr>bp_scope = cx_scope, bp_block = U ''b'', bp_source = JNull\<rparr>, c_rep = REP_EXACT,
     c_source_order = 0, c_body = Some \<lparr>so_id = U ''o'', so_length = 2\<rparr>, c_media_type = Some (U ''text/plain''),
     c_handle = None, c_artifact = None, c_cost = None,
     c_trust = \<lparr>tr_zone = LOCAL_TRUSTED, tr_integrity = VERIFIED_SHA256, tr_sensitivity = INTERNAL\<rparr>,
     c_fresh = FRESH_CURRENT, c_coverage = 1, c_occurrences = 1, c_reason = U ''m'', c_high_value = False, c_tier = 0,
     c_relevance = None, c_semantic = None\<rparr>"

definition cx_estimator :: estimator_id where
  "cx_estimator = \<lparr>est_name = U ''c'', est_version = U ''1'', est_unit = CHARACTERS, est_hash = U ''h''\<rparr>"

definition cx_policy :: selection_policy where
  "cx_policy = \<lparr>pol_mode = MODE_EXACT, pol_required = [], pol_zones = [LOCAL_TRUSTED], pol_max_sensitivity = INTERNAL\<rparr>"

definition cx_limits :: compile_limits where
  "cx_limits = \<lparr>lim_scopes = 32, lim_discovered = 100, lim_candidates = 10, lim_body_bytes = 1024, lim_decisions = 100,
     lim_bundle_units = 4096\<rparr>"

definition cx_request :: compile_request where
  "cx_request = \<lparr>rq_task = U ''q'', rq_documents = [U ''d''], rq_limit = 4000, rq_estimator = cx_estimator,
     rq_policy = cx_policy, rq_limits = cx_limits\<rparr>"

definition cx_env :: "candidate list \<Rightarrow> compiler_env" where
  "cx_env cs = \<lparr>ce_enc = jcs, ce_units = unicode_characters, ce_estimator = cx_estimator,
     ce_algorithm = \<lparr>alg_name = U ''a'', alg_version = U ''1'', alg_hash = U ''h''\<rparr>, ce_relevance = None,
     ce_allocation = None, ce_semantic_abstention = False, ce_additive = True,
     ce_sources = map (\<lambda>c _ _ _. Inr [c]) cs, ce_document = (\<lambda>_. Some True),
     ce_head = (\<lambda>_. Some (Some (cx_scope, 5))), ce_verify = (\<lambda>i n. Some \<lparr>so_id = i, so_length = n\<rparr>),
     ce_chunks = (\<lambda>_. Some [U ''hi'']),
     ce_parse_block = (\<lambda>t. Some \<lparr>cb_block = U ''b'', cb_scope = cx_scope, cb_text = Some t, cb_structured = None\<rparr>),
     ce_decode = Some, ce_parse_json = (\<lambda>_. None), ce_iso = (\<lambda>_. U ''t''), ce_sha256 = (\<lambda>_. U ''h''),
     ce_uuid5 = (\<lambda>_. U ''u'')\<rparr>"

definition cx_snap :: corpus_snapshot where
  "cx_snap = \<lparr>snap_scopes = [cx_scope], snap_created = 5\<rparr>"

lemma cx_snapshot: "resolve_snapshot (cx_env cs) cx_request = Inr cx_snap"
  by (simp add: resolve_snapshot_def cx_request_def cx_env_def cx_snap_def corpus_snapshot_valid_def Let_def
      sorted_unique_def)


section \<open>Evaluation\<close>

lemmas cx_defs = cx_scope_def cx_candidate_def cx_estimator_def cx_policy_def cx_limits_def cx_request_def cx_env_def cx_snap_def

lemmas json_eval = U_def utf16_def quote_def escape_def dec.simps unicode_characters_def

text \<open>The empty bundle has 435 characters when it states that it has none.\<close>

lemma cx_base: "unicode_characters (canonical_bundle (cx_env cs) cx_request cx_snap [] [] [] 0) = 435"
  by (simp add: canonical_bundle_def bundle_members_def cx_defs budget_json_def estimator_json_def zero_uuid_def
      traces_def json_eval)

definition cx_item :: evidence_item where
  "cx_item = \<lparr>it_provenance = c_provenance cx_candidate, it_rep = REP_EXACT,
     it_content = Some \<lparr>ct_media = U ''text/plain'', ct_body = JStr (U ''hi'')\<rparr>, it_handle = None, it_artifact = None,
     it_reason = U ''m'', it_trust = c_trust cx_candidate\<rparr>"

lemma cx_build: "build_item (cx_env cs) cx_candidate = Inr cx_item"
  by (simp add: build_item_def block_content_def read_verified_def evidence_item_valid_def cx_item_def cx_defs U_def
      cong: sbind_weak_cong)

lemma cx_item_units:
  "unicode_characters (jcs (item_json cx_item)) = 479" "unicode_characters (jcs (trace_json cx_item 0)) = 69"
  by (simp_all add: item_json_def trace_json_def item_evidence_id_def content_json_def trust_json_def j_opt_def
      cx_item_def cx_defs json_eval)

definition cx_ordered :: candidate where
  "cx_ordered = cx_candidate\<lparr>c_high_value := True\<rparr>"

lemma cx_classify:
  "classify_candidates [cx_candidate] cx_policy None = Inr \<lparr>cl_ordered = [cx_ordered], cl_rejected = [], cl_stale = []\<rparr>"
  by (simp add: classify_candidates_def put_defs admitted_def cx_ordered_def cx_defs Let_def cong: sbind_weak_cong)

lemma cx_fixed: "additive_usage_fixed_point 435 = Inr 439" "additive_usage_fixed_point 983 = Inr 987"
proof -
  have i: "default_iterations = Suc (Suc (Suc (Suc (Suc (Suc (Suc (Suc 0)))))))" by (simp add: default_iterations_def)
  have l: "length (dec 0) = 1" "length (dec 435) = 3" "length (dec 439) = 3" "length (dec 983) = 3" "length (dec 987) = 3"
    by (simp_all add: dec.simps)
  show "additive_usage_fixed_point 435 = Inr 439" "additive_usage_fixed_point 983 = Inr 987"
    by (simp_all add: additive_usage_fixed_point_def i l)
qed

lemma cx_select: "select_candidates (cx_env cs) cx_request cx_snap [cx_ordered] 3600 (\<lambda>_. False) =
    Inr (439, \<lparr>sel_items = [(cx_ordered, cx_item, 548)], sel_omitted = [], sel_used = 987, sel_zero = 983\<rparr>)"
proof -
  have e: "ce_units (cx_env cs) = unicode_characters" "ce_enc (cx_env cs) = jcs" "ce_additive (cx_env cs)" by (simp_all add: cx_env_def)
  have b: "build_item (cx_env cs) cx_ordered = Inr cx_item"
    using cx_build unrated_fields(4)[of "cx_env cs" cx_ordered] by (simp add: cx_ordered_def unrated_def) (simp add: cx_candidate_def)
  have z: "tentative_zero (cx_env cs) \<lparr>sel_items = [], sel_omitted = [], sel_used = u, sel_zero = 435\<rparr> cx_item = 983" for u
    by (simp add: tentative_zero_def e cx_item_units)
  show ?thesis
    by (simp add: select_candidates_def e cx_base cx_fixed lift_fixed_def b z tentative_usage_def)
qed

lemma cx_compiles: "\<exists>r. compile_context (cx_env [cx_candidate]) cx_request (\<lambda>_. False) = Inr r"
proof -
  let ?E = "cx_env [cx_candidate]"
  let ?s = "\<lparr>sel_items = [(cx_ordered, cx_item, 548)], sel_omitted = [], sel_used = 987, sel_zero = 983\<rparr>"
  have f: "ce_sources ?E = [\<lambda>_ _ _. Inr [cx_candidate]]" "ce_relevance ?E = None" "ce_allocation ?E = None"
    "ce_semantic_abstention ?E = False" "ce_estimator ?E = rq_estimator cx_request" "rq_limit cx_request = 4000"
    "rq_policy cx_request = cx_policy" "lim_discovered (rq_limits cx_request) = 100"
    "lim_candidates (rq_limits cx_request) = 10" "lim_decisions (rq_limits cx_request) = 100"
    by (simp_all add: cx_env_def cx_request_def cx_limits_def)
  have m: "missing_evidence cx_policy [cx_item] = ([], [])"
    by (simp add: missing_evidence_def required_representations_def cx_policy_def cx_item_def)
  have n: "compilation_notices False False False = ([], [])" by (simp add: compilation_notices_def)
  have l: "ledger_valid (make_ledger cx_request 439 987)"
    by (simp add: ledger_valid_def make_ledger_def cx_request_def)
  obtain b where b: "build_bundle ?E cx_request cx_snap [cx_item] [] [] 987 = Inr b"
    by (simp add: build_bundle_def bundle_valid_def Let_def cx_snap_def evidence_item_valid_def cx_item_def cx_candidate_def
        cx_request_def sorted_unique_def)
  obtain q where q: "build_receipt ?E cx_request cx_snap (make_ledger cx_request 439 987) ?s
      \<lparr>cl_ordered = [cx_ordered], cl_rejected = [], cl_stale = []\<rparr> False [] = Inr q"
    by (simp add: build_receipt_def receipt_valid_def Let_def cx_snap_def receipt_decision_def all_decisions_def
        cx_ordered_def cx_candidate_def sorted_unique_def make_ledger_def cx_request_def)
  show ?thesis
    by (simp add: compile_context_def f cx_snapshot compile_with_snapshot_def cx_classify allocate_candidates_def
        bounded_candidates_def Let_def cx_select m is_relevance_abstention_def n l b q)
qed

end
