(* ===== verification/Context_Properties.thy ===== *)
theory Context_Properties
  imports Context_Example
begin

text \<open>
  The properties of the context compiler and an example compilation that shows their hypotheses can
  hold.  The canonical encoder is any function with the structure RFC 8785 gives
  (\<open>canonical_json\<close>); \<open>measures E\<close> also says that the estimator is one of the installed ones.
\<close>

section \<open>The compiler's measurement\<close>

definition measures :: "compiler_env \<Rightarrow> bool" where
  "measures E \<longleftrightarrow> canonical_json (ce_enc E) \<and> ce_units E \<in> {utf8_bytes, unicode_characters, conservative_tokens}"

lemma measures_budgeted: "measures E \<Longrightarrow> budgeted (ce_enc E) (ce_units E)"
  unfolding measures_def budgeted_def
  using bytes.estimator_axioms chars.estimator_axioms tokens.estimator_axioms by auto

lemma additive_self: "additive (ce_additive E) E = E"
  by (simp add: additive_def)

lemma reference_mode:
  assumes "measures E"
  shows "compile_with_snapshot E rq snap cancel = compile_with_snapshot (additive False E) rq snap cancel"
  using budgeted.compile_modes[OF measures_budgeted[OF assms] refl refl, of rq snap cancel] additive_self[of E]
  by (cases "ce_additive E") (metis (full_types))+

lemma additive_snapshot: "resolve_snapshot (additive b E) rq = resolve_snapshot E rq"
proof -
  have "resolve_scopes (additive b E) ds = resolve_scopes E ds" for ds
    by (induction ds) (simp_all add: additive_def cong: if_cong)
  then show ?thesis by (simp add: resolve_snapshot_def)
qed

lemma compile_context_InrE:
  assumes "compile_context E rq cancel = Inr r"
  obtains snap where "resolve_snapshot E rq = Inr snap" "compile_with_snapshot E rq snap cancel = Inr r"
    "ce_estimator E = rq_estimator rq"
  using assms by (auto simp: compile_context_def elim!: sbind_InrE guard_InrE)

lemma cx_measures: "measures (cx_env cs)"
  using rfc8785.canonical_json_axioms by (simp add: measures_def cx_env_def)

lemma cx_discover:
  "discover (cx_env [c]) cx_request cx_snap (ce_sources (cx_env [c])) [] False = Inr ([c], False)"
  "discover (cx_env [c, c]) cx_request cx_snap (ce_sources (cx_env [c, c])) [] False = Inr ([c, c], False)"
  by (simp_all add: cx_env_def cx_request_def cx_limits_def)

text \<open>
  C13.  Additive budgeting, which keeps a running total instead of encoding and measuring the whole
  bundle for every candidate, compiles every request to the same outcome as the reference mode,
  errors included, for every installed estimator.
\<close>

theorem budgeting_modes_agree:
  assumes "measures E"
  shows "compile_context (E\<lparr>ce_additive := True\<rparr>) rq cancel = compile_context (E\<lparr>ce_additive := False\<rparr>) rq cancel"
proof -
  have m: "measures (additive True E)" using assms by (simp add: measures_def)
  have t: "additive False (additive True E) = additive False E" "ce_estimator (additive b E) = ce_estimator E" for b
    by (simp_all add: additive_def)
  have "compile_context (additive True E) rq cancel = compile_context (additive False E) rq cancel"
    using reference_mode[OF m] by (simp add: compile_context_def additive_snapshot t cong: if_cong)
  then show ?thesis by (simp add: additive_def)
qed

theorem budgeting_modes_agree_witness:
  "measures (cx_env []) \<and> compile_context (cx_env []\<lparr>ce_additive := True\<rparr>) cx_request (\<lambda>_. False) =
     compile_context (cx_env []\<lparr>ce_additive := False\<rparr>) cx_request (\<lambda>_. False)"
  using budgeting_modes_agree[OF cx_measures] cx_measures by blast

text \<open>
  C17.  Measuring a bundle that states its own size ends within the eight rounds of the loop with the
  least consistent size, whatever the bundle holds, so a compilation never diverges.
\<close>

theorem bundle_measure_converges:
  assumes "measures E"
  shows "\<exists>u. fixed_point_measure (canonical_bundle E rq snap items missing warnings) (ce_units E) = Inr u \<and>
    ce_units E (canonical_bundle E rq snap items missing warnings u) = u \<and>
    (\<forall>v. ce_units E (canonical_bundle E rq snap items missing warnings v) = v \<longrightarrow> u \<le> v)"
proof -
  let ?b = "canonical_bundle E rq snap items missing warnings"
  obtain z where "\<And>u. ce_units E (?b u) = z + 2 * (length (dec u) - 1)"
    using budgeted.units_bundle[OF measures_budgeted[OF assms] refl] by metis
  then show ?thesis
    using additive_converges[of z] by (auto simp: fixed_point_measure_def additive_usage_fixed_point_def eq_commute)
qed

theorem bundle_measure_converges_witness:
  "\<exists>u. fixed_point_measure (canonical_bundle (cx_env []) cx_request cx_snap [cx_item] [] []) (ce_units (cx_env [])) = Inr u"
  using bundle_measure_converges[OF cx_measures] by blast

text \<open>
  C14.  The stated use of a compiled bundle is the measured size of its canonical form, within the limit
  less the tenth (rounded up) reserved for the response; the receipt's ledger adds up, and its base
  is the size of the empty bundle.
\<close>

theorem ledger_is_exact:
  assumes "measures E" and "compile_context E rq cancel = Inr r"
  shows "ce_units E (canonical_bundle E rq \<lparr>snap_scopes = bu_versions (cr_bundle r), snap_created = bu_created (cr_bundle r)\<rparr>
        (bu_items (cr_bundle r)) (bu_missing (cr_bundle r)) (bu_warnings (cr_bundle r)) (bu_used (cr_bundle r))) =
      bu_used (cr_bundle r) \<and>
    bu_used (cr_bundle r) + (rq_limit rq + 9) div 10 \<le> rq_limit rq \<and>
    lg_used (rc_budget (cr_receipt r)) = int (bu_used (cr_bundle r)) \<and>
    lg_base (rc_budget (cr_receipt r)) = int (ce_units E (canonical_bundle E rq
      \<lparr>snap_scopes = bu_versions (cr_bundle r), snap_created = bu_created (cr_bundle r)\<rparr> [] [] []
      (nat (lg_base (rc_budget (cr_receipt r)))))) \<and>
    ledger_valid (rc_budget (cr_receipt r))"
proof -
  from assms(2) obtain snap where "compile_with_snapshot E rq snap cancel = Inr r" by (rule compile_context_InrE)
  then have "compile_with_snapshot (additive False E) rq snap cancel = Inr r" by (simp flip: reference_mode[OF assms(1)])
  then show ?thesis
  proof (rule compile_with_snapshot_InrE)
    fix d cut k0 and k :: classified and base s missing n1 warnings n2 used
    let ?cap = "rq_limit rq - (rq_limit rq + 9) div 10"
    assume "select_candidates (additive False E) rq snap (take (lim_candidates (rq_limits rq)) (cl_ordered k)) ?cap
        cancel = Inr (base, s)"
    note S = select_candidates_ok[OF this]
    have ok: "selection_ok E rq snap ?cap (take (lim_candidates (rq_limits rq)) (cl_ordered k)) s"
      "exact E rq snap (sel_evidence s) [] [] (sel_used s)" "exact E rq snap [] [] [] base"
      using S by (auto simp: selection_ok_def exact_def)
    assume u: "if missing \<noteq> [] \<or> warnings \<noteq> [] then fixed_point_measure (canonical_bundle (additive False E) rq snap
        (sel_evidence s) missing warnings) (ce_units (additive False E)) = Inr used \<and> used \<le> ?cap else used = sel_used s"
    have x: "exact E rq snap (sel_evidence s) missing warnings used"
      using u ok(2) by (auto simp: exact_def dest: fixed_point_measure_Inr split: if_splits)
    have le: "used \<le> ?cap" using u ok(1) by (auto simp: selection_ok_def split: if_splits)
    assume v: "ledger_valid (make_ledger rq base used)"
    then have "1 \<le> rq_limit rq" by (simp add: ledger_valid_def make_ledger_def Let_def)
    with le have le': "used + (rq_limit rq + 9) div 10 \<le> rq_limit rq" by linarith
    assume b: "build_bundle (additive False E) rq snap (sel_evidence s) missing warnings used = Inr (cr_bundle r)"
    assume "build_receipt (additive False E) rq snap (make_ledger rq base used) s k
        (cut \<or> lim_candidates (rq_limits rq) < length (cl_ordered k)) (n1 @ n2) = Inr (cr_receipt r)"
    then have "rc_budget (cr_receipt r) = make_ledger rq base used" by (rule build_receipt_subjects)
    with v x le' ok(3) show ?thesis
      unfolding build_bundle_fields[OF b] by (simp add: exact_def make_ledger_def Let_def)
  qed
qed

theorem ledger_is_exact_witness:
  "\<exists>r. compile_context (cx_env [cx_candidate]) cx_request (\<lambda>_. False) = Inr r \<and>
     bu_used (cr_bundle r) + 400 \<le> 4000 \<and> lg_used (rc_budget (cr_receipt r)) = int (bu_used (cr_bundle r))"
proof -
  obtain r where r: "compile_context (cx_env [cx_candidate]) cx_request (\<lambda>_. False) = Inr r" using cx_compiles ..
  from ledger_is_exact[OF cx_measures r] r show ?thesis by (auto simp: cx_request_def)
qed

section \<open>Every discovered candidate\<close>

text \<open>The subjects of all candidates that the compiler accounts for, and how they leave it.\<close>

lemma compile_decisions:
  assumes "compile_with_snapshot E rq snap cancel = Inr r"
    and "discover E rq snap (ce_sources E) [] False = Inr (d, t)"
  obtains left where
    "mset (map decision_subject (all_decisions (cr_receipt r))) + mset left = mset (map candidate_identity d)"
    "\<not> rc_truncated (cr_receipt r) \<Longrightarrow> left = []" "receipt_valid (cr_receipt r)"
  using assms(1)
proof (rule compile_with_snapshot_InrE)
  fix d' cut' k0 and k :: classified and base s missing n1 warnings n2 used
  let ?m = "lim_candidates (rq_limits rq)"
  assume d: "discover E rq snap (ce_sources E) [] False = Inr (d', cut')"
    and k0: "classify_candidates d' (rq_policy rq) (ce_relevance E) = Inr k0"
    and k: "k = allocate_candidates k0 (ce_allocation E)"
    and s: "select_candidates E rq snap (take ?m (cl_ordered k)) (rq_limit rq - (rq_limit rq + 9) div 10) cancel = Inr (base, s)"
    and r: "build_receipt E rq snap (make_ledger rq base used) s k (cut' \<or> ?m < length (cl_ordered k)) (n1 @ n2) =
      Inr (cr_receipt r)"
  define left where "left = map candidate_identity (drop ?m (cl_ordered k))"
  have P: "partitions (rq_policy rq) (ce_relevance E) d {} k0" using classify_partitions[OF k0] d assms(2) by simp
  then have K: "mset (cl_ordered k) + mset (map fst (cl_rejected k)) = mset (cl_ordered k0) + mset (map fst (cl_rejected k0))"
    "cl_stale k = cl_stale k0"
    unfolding k using allocate_candidates_sum[of k0 "ce_allocation E"] by (auto simp: partitions_def)
  have S: "mset (map fst (sel_items s)) + mset (map fst (sel_omitted s)) = mset (take ?m (cl_ordered k))"
    using select_candidates_ok(1)[OF s] by (simp add: selection_ok_def)
  have u: "image_mset candidate_identity (image_mset unrated X) = image_mset candidate_identity X" for X
    by (simp add: multiset.map_comp comp_def unrated_fields)
  have "image_mset candidate_identity (mset (cl_ordered k0) + mset (map fst (cl_rejected k0)) + mset (cl_stale k0)) =
      image_mset candidate_identity (mset d)"
    using P u by (metis partitions_def)
  moreover have "mset (take ?m (cl_ordered k)) + mset (drop ?m (cl_ordered k)) = mset (cl_ordered k)"
    by (metis append_take_drop_id mset_append)
  then have "mset (map fst (sel_items s) @ map fst (sel_omitted s) @ map fst (cl_rejected k) @ cl_stale k) +
      mset (drop ?m (cl_ordered k)) = mset (cl_ordered k0) + mset (map fst (cl_rejected k0)) + mset (cl_stale k0)"
    using S K by (simp add: ac_simps) (metis (no_types, lifting) add.assoc add.commute)
  ultimately have "mset (map decision_subject (all_decisions (cr_receipt r))) + mset left = mset (map candidate_identity d)"
    unfolding build_receipt_subjects(1)[OF r] left_def by (metis image_mset_union mset_map)
  moreover have "left = []" if "\<not> rc_truncated (cr_receipt r)"
    using that build_receipt_subjects(4)[OF r] by (simp add: left_def)
  ultimately show ?thesis using build_receipt_subjects(2)[OF r] by (rule that)
qed

text \<open>
  C15.  The receipt of a compilation decides no candidate that was not discovered, none twice, and, unless
  it says that it is truncated, every one: its decisions are the discovered candidates' identities.
\<close>

theorem receipt_accounts_for_every_candidate:
  assumes "compile_context E rq cancel = Inr r" "resolve_snapshot E rq = Inr snap"
    and "discover E rq snap (ce_sources E) [] False = Inr (d, t)"
  shows "mset (map decision_subject (all_decisions (cr_receipt r))) \<subseteq># mset (map candidate_identity d) \<and>
    (\<not> rc_truncated (cr_receipt r) \<longrightarrow>
      mset (map decision_subject (all_decisions (cr_receipt r))) = mset (map candidate_identity d)) \<and>
    distinct (map decision_subject (all_decisions (cr_receipt r)))"
proof -
  from assms(1,2) have "compile_with_snapshot E rq snap cancel = Inr r" by (auto elim: compile_context_InrE)
  from compile_decisions[OF this assms(3)] obtain left where
    l: "mset (map decision_subject (all_decisions (cr_receipt r))) + mset left = mset (map candidate_identity d)"
      "\<not> rc_truncated (cr_receipt r) \<Longrightarrow> left = []" "receipt_valid (cr_receipt r)"
    by blast
  from l(1) have "mset (map decision_subject (all_decisions (cr_receipt r))) \<subseteq># mset (map candidate_identity d)"
    by (metis mset_subset_eq_add_left)
  with l show ?thesis by (auto simp: receipt_valid_def)
qed

theorem receipt_accounts_for_every_candidate_witness:
  "\<exists>r. compile_context (cx_env [cx_candidate]) cx_request (\<lambda>_. False) = Inr r \<and>
     mset (map decision_subject (all_decisions (cr_receipt r))) \<subseteq># {#candidate_identity cx_candidate#}"
proof -
  obtain r where r: "compile_context (cx_env [cx_candidate]) cx_request (\<lambda>_. False) = Inr r" using cx_compiles ..
  from receipt_accounts_for_every_candidate[OF r cx_snapshot cx_discover(1)] r show ?thesis by auto
qed

lemma ordered_length:
  assumes "classify_candidates d p rel = Inr k0"
  shows "length (cl_ordered (allocate_candidates k0 q)) \<le> length d"
proof -
  note P = classify_partitions(1)[OF assms]
  have "size (mset (cl_ordered k0)) + size (mset (map fst (cl_rejected k0))) + size (mset (cl_stale k0)) = size (mset d)"
    using P by (metis partitions_def size_image_mset size_union)
  moreover have "size (mset (cl_ordered (allocate_candidates k0 q))) \<le> size (mset (cl_ordered k0)) + size (mset (map fst (cl_rejected k0)))"
    using allocate_candidates_sum(1)[of k0 q] P by (metis le_add1 partitions_def size_union)
  ultimately show ?thesis by simp
qed

text \<open>
  If the candidate sources together discover one candidate twice and nothing is cut off, the
  compilation fails: the duplicate is rejected with a reason, but the receipt's validator
  forbids two decisions about one candidate, so the whole compilation raises.
\<close>

lemma duplicate_discovery_fails:
  assumes "resolve_snapshot E rq = Inr snap" and "discover E rq snap (ce_sources E) [] False = Inr (d, False)"
    and "length d \<le> lim_candidates (rq_limits rq)" and "\<not> distinct (map candidate_identity d)"
  shows "\<exists>e. compile_context E rq cancel = Inl e"
proof (rule ccontr)
  assume "\<nexists>e. compile_context E rq cancel = Inl e"
  then obtain r where "compile_context E rq cancel = Inr r" by (cases "compile_context E rq cancel") auto
  then have c: "compile_with_snapshot E rq snap cancel = Inr r" using assms(1) by (auto elim: compile_context_InrE)
  then have "\<not> rc_truncated (cr_receipt r)"
  proof (rule compile_with_snapshot_InrE)
    fix d' t' k0 and k :: classified and base s missing n1 warnings n2 used
    assume d: "discover E rq snap (ce_sources E) [] False = Inr (d', t')"
      and "classify_candidates d' (rq_policy rq) (ce_relevance E) = Inr k0" "k = allocate_candidates k0 (ce_allocation E)"
      and r: "build_receipt E rq snap (make_ledger rq base used) s k
        (t' \<or> lim_candidates (rq_limits rq) < length (cl_ordered k)) (n1 @ n2) = Inr (cr_receipt r)"
    then have "length (cl_ordered k) \<le> length d'" using ordered_length by blast
    with d assms(2,3) have "\<not> (t' \<or> lim_candidates (rq_limits rq) < length (cl_ordered k))" by simp
    then show "\<not> rc_truncated (cr_receipt r)" unfolding build_receipt_subjects(4)[OF r] .
  qed
  with compile_decisions[OF c assms(2)] have
    "mset (map decision_subject (all_decisions (cr_receipt r))) = mset (map candidate_identity d)"
    "receipt_valid (cr_receipt r)" by (metis add.right_neutral mset.simps(1))+
  then have "distinct (map candidate_identity d)"
    unfolding receipt_valid_def by (metis mset_eq_imp_distinct_iff)
  with assms(4) show False ..
qed

theorem duplicate_discovery_fails_witness:
  "\<exists>e. compile_context (cx_env [cx_candidate, cx_candidate]) cx_request (\<lambda>_. False) = Inl e"
  by (rule duplicate_discovery_fails[OF cx_snapshot cx_discover(2)]) (simp_all add: cx_request_def cx_limits_def)

section \<open>Permitted content\<close>

lemma build_item_fields:
  assumes "build_item E c = Inr i"
  shows "it_trust i = c_trust c" "it_provenance i = c_provenance c" "it_rep i = c_rep c" "it_reason i = c_reason c"
  using assms by (auto simp: build_item_def elim!: sbind_InrE guard'_InrE guard_InrE split: if_splits)

lemma ordered_eligible:
  assumes "classify_candidates d p rel = Inr k0" "c \<in> set (cl_ordered (allocate_candidates k0 q))"
  shows "eligible p rel c" "\<exists>c'\<in>set d. unrated c' = unrated c"
proof -
  note P = classify_partitions(1)[OF assms(1), unfolded partitions_def]
  have "c \<in># mset (cl_ordered k0) + mset (map fst (cl_rejected k0))"
    using assms(2) allocate_candidates_sum(1)[of k0 q] P by (metis set_mset_mset union_iff)
  have o: "c \<in> set (cl_ordered k0)"
  proof (cases q)
    case (Some a)
    have "mset (alloc_ordered (allocate_lexical_candidates (cl_ordered k0) a)) \<subseteq># mset (cl_ordered k0)"
      using allocate_partition(1)[OF _ refl, of "cl_ordered k0" a] P by (metis mset_subset_eq_add_left)
    with assms(2) Some show ?thesis by (auto simp: allocate_candidates_def Let_def dest: mset_subset_eqD)
  qed (use assms(2) in \<open>simp add: allocate_candidates_def\<close>)
  then show "eligible p rel c" using P by blast
  have "unrated c \<in># image_mset unrated (mset (cl_ordered k0) + mset (map fst (cl_rejected k0)) + mset (cl_stale k0))"
    using o by auto
  then have "unrated c \<in># image_mset unrated (mset d)" using P by metis
  then show "\<exists>c'\<in>set d. unrated c' = unrated c" by auto
qed

text \<open>
  C16.  Every item of a compiled bundle was built from a discovered candidate that is current, lies in an
  allowed trust zone and does not exceed the policy's sensitivity (unknown counts as the highest), and
  it carries that candidate's trust, so only permitted content leaves the compiler.
\<close>

theorem only_permitted_content_is_selected:
  assumes "compile_context E rq cancel = Inr r" "resolve_snapshot E rq = Inr snap"
    and "discover E rq snap (ce_sources E) [] False = Inr (d, t)" and "i \<in> set (bu_items (cr_bundle r))"
  shows "\<exists>c\<in>set d. build_item E c = Inr i \<and> it_trust i = c_trust c \<and> c_fresh c = FRESH_CURRENT \<and>
    tr_zone (it_trust i) \<in> set (pol_zones (rq_policy rq)) \<and>
    tr_sensitivity (it_trust i) \<le> pol_max_sensitivity (rq_policy rq)"
proof -
  from assms(1,2) have "compile_with_snapshot E rq snap cancel = Inr r" by (auto elim: compile_context_InrE)
  then show ?thesis
  proof (rule compile_with_snapshot_InrE)
    fix d' t' k0 and k :: classified and base s missing n1 warnings n2 used
    let ?m = "lim_candidates (rq_limits rq)"
    assume d: "discover E rq snap (ce_sources E) [] False = Inr (d', t')"
      and k0: "classify_candidates d' (rq_policy rq) (ce_relevance E) = Inr k0" "k = allocate_candidates k0 (ce_allocation E)"
      and s: "select_candidates E rq snap (take ?m (cl_ordered k)) (rq_limit rq - (rq_limit rq + 9) div 10) cancel = Inr (base, s)"
      and b: "build_bundle E rq snap (sel_evidence s) missing warnings used = Inr (cr_bundle r)"
    note S = select_candidates_ok(1)[OF s, unfolded selection_ok_def]
    from assms(4) obtain c n where c: "(c, i, n) \<in> set (sel_items s)"
      by (auto simp: build_bundle_fields(1)[OF b] sel_evidence_def)
    then have "c \<in># mset (map fst (sel_items s)) + mset (map fst (sel_omitted s))" by force
    then have "c \<in> set (take ?m (cl_ordered k))" using S by (metis set_mset_mset)
    then have "c \<in> set (cl_ordered (allocate_candidates k0 (ce_allocation E)))" using k0(2) by (auto dest: in_set_takeD)
    note el = ordered_eligible[OF k0(1) this]
    then obtain c' where c': "c' \<in> set d'" "unrated c' = unrated c" by blast
    have "build_item E c = Inr i" using S c by blast
    then have i: "build_item E c' = Inr i" "it_trust i = c_trust c'" "c_fresh c' = c_fresh c"
      using c'(2) build_item_fields(1) by (metis unrated_fields)+
    have "c_trust c' = c_trust c" using c'(2) by (metis unrated_fields(3))
    with i el(1) c'(1) d assms(3) show ?thesis by (intro bexI[of _ c']) (auto simp: eligible_def)
  qed
qed

lemma cx_items:
  assumes "compile_context (cx_env [cx_candidate]) cx_request (\<lambda>_. False) = Inr r"
  shows "bu_items (cr_bundle r) \<noteq> []"
proof -
  from assms have "compile_with_snapshot (cx_env [cx_candidate]) cx_request cx_snap (\<lambda>_. False) = Inr r"
    using cx_snapshot by (auto elim: compile_context_InrE)
  then show ?thesis
  proof (rule compile_with_snapshot_InrE)
    fix d t k0 and k :: classified and base s missing n1 warnings n2 used
    assume d: "discover (cx_env [cx_candidate]) cx_request cx_snap (ce_sources (cx_env [cx_candidate])) [] False = Inr (d, t)"
      and k0: "classify_candidates d (rq_policy cx_request) (ce_relevance (cx_env [cx_candidate])) = Inr k0"
      and k: "k = allocate_candidates k0 (ce_allocation (cx_env [cx_candidate]))"
      and s: "select_candidates (cx_env [cx_candidate]) cx_request cx_snap
        (take (lim_candidates (rq_limits cx_request)) (cl_ordered k))
        (rq_limit cx_request - (rq_limit cx_request + 9) div 10) (\<lambda>_. False) = Inr (base, s)"
      and b: "build_bundle (cx_env [cx_candidate]) cx_request cx_snap (sel_evidence s) missing warnings used = Inr (cr_bundle r)"
    have "d = [cx_candidate]" using d cx_discover(1)[of cx_candidate] by (simp del: discover.simps)
    moreover have "rq_policy cx_request = cx_policy" "ce_relevance (cx_env [cx_candidate]) = None"
      "ce_allocation (cx_env [cx_candidate]) = None" "rq_limit cx_request = 4000"
      "lim_candidates (rq_limits cx_request) = 10" by (simp_all add: cx_request_def cx_env_def cx_limits_def)
    note f = this
    ultimately have "cl_ordered k = [cx_ordered]" using k0 k cx_classify by (auto simp: allocate_candidates_def)
    with s have "sel_evidence s = [cx_item]"
      using cx_select[of "[cx_candidate]"] by (auto simp: f sel_evidence_def)
    then show ?thesis by (simp add: build_bundle_fields(1)[OF b])
  qed
qed

theorem only_permitted_content_is_selected_witness:
  "\<exists>r i. compile_context (cx_env [cx_candidate]) cx_request (\<lambda>_. False) = Inr r \<and> i \<in> set (bu_items (cr_bundle r)) \<and>
     it_trust i = c_trust cx_candidate"
proof -
  obtain r where r: "compile_context (cx_env [cx_candidate]) cx_request (\<lambda>_. False) = Inr r" using cx_compiles ..
  obtain i where i: "i \<in> set (bu_items (cr_bundle r))" using cx_items[OF r] by (cases "bu_items (cr_bundle r)") auto
  from only_permitted_content_is_selected[OF r cx_snapshot cx_discover(1) i] r i show ?thesis by auto
qed

text \<open>
  The content of a built item comes from the candidate's stored body: the object is verified, its
  bytes have the verified length, a block parses to the block and scope the candidate names, a
  JSON projection is in canonical form; a visual handle carries no content at all.
\<close>

lemma built_content_is_verified:
  assumes "build_item E c = Inr i"
  shows "if c_rep c = REP_VISUAL_HANDLE then it_content i = None \<and> it_handle i = c_handle c \<and> it_artifact i = c_artifact c
    else \<exists>so v chunks. c_body c = Some so \<and> ce_verify E (so_id so) (so_length so) = Some v \<and>
      ce_chunks E (so_id v) = Some chunks \<and> length (concat chunks) = so_length v \<and>
      (case c_provenance c of
         Block p \<Rightarrow> \<exists>b. ce_parse_block E (concat chunks) = Some b \<and> cb_block b = bp_block p \<and> cb_scope b = bp_scope p \<and>
           (case cb_text b of Some t \<Rightarrow> it_content i = Some \<lparr>ct_media = U ''text/plain'', ct_body = JStr t\<rparr>
            | None \<Rightarrow> it_content i = Some \<lparr>ct_media = U ''application/json'', ct_body = the (cb_structured b)\<rparr>)
       | Projection _ \<Rightarrow> \<exists>t. ce_decode E (concat chunks) = Some t \<and>
           (if c_media_type c = Some (U ''application/json'')
            then \<exists>j. it_content i = Some \<lparr>ct_media = U ''application/json'', ct_body = j\<rparr> \<and> ce_enc E j = t
            else it_content i = Some \<lparr>ct_media = U ''text/plain'', ct_body = JStr t\<rparr>))"
proof (cases "c_rep c = REP_VISUAL_HANDLE")
  case False
  then obtain content where
    c: "(case c_provenance c of Block p \<Rightarrow> block_content E c p | Projection _ \<Rightarrow> projection_content E c) = Inr content"
    and i: "it_content i = Some content"
    using assms by (auto simp: build_item_def elim!: sbind_InrE guard'_InrE)
  show ?thesis
  proof (cases "c_provenance c")
    case (Block p)
    with c have "block_content E c p = Inr content" by simp
    then obtain so v chunks b where "c_body c = Some so" "ce_verify E (so_id so) (so_length so) = Some v"
      "ce_chunks E (so_id v) = Some chunks" "length (concat chunks) = so_length v"
      "ce_parse_block E (concat chunks) = Some b" "cb_block b = bp_block p" "cb_scope b = bp_scope p"
      "(case cb_text b of
          Some t \<Rightarrow> Inr \<lparr>ct_media = U ''text/plain'', ct_body = JStr t\<rparr>
        | None \<Rightarrow> (case cb_structured b of
            Some j \<Rightarrow> Inr \<lparr>ct_media = U ''application/json'', ct_body = j\<rparr>
          | None \<Rightarrow> Inl (IntegrityFailure ''selected_block_without_content''))) = Inr content"
      unfolding block_content_def read_verified_def by (auto elim!: sbind_InrE guard_InrE need_InrE)
    then show ?thesis using False i Block by (cases "cb_text b") (auto split: option.splits)
  next
    case (Projection p)
    with c have "projection_content E c = Inr content" by simp
    then show ?thesis using False i Projection
      by (auto simp: projection_content_def read_verified_def elim!: sbind_InrE guard_InrE need_InrE split: if_splits)
  qed
qed (use assms in \<open>auto simp: build_item_def elim!: sbind_InrE guard'_InrE guard_InrE\<close>)

theorem built_content_is_verified_witness:
  "\<exists>so v chunks. c_body cx_candidate = Some so \<and> ce_verify (cx_env []) (so_id so) (so_length so) = Some v \<and>
     ce_chunks (cx_env []) (so_id v) = Some chunks \<and> length (concat chunks) = so_length v"
  using built_content_is_verified[OF cx_build, of "[]"] by (auto simp: cx_candidate_def)

section \<open>Classification and allocation\<close>






text \<open>
  C19.  Allocation loses and invents no candidate; what it keeps has distinct bodies, no source has more
  than its quota, and the best \<open>ranked_prefix\<close> of what it keeps come first, in rank order.
\<close>

theorem allocation_respects_quotas:
  assumes "distinct (map candidate_identity cs)"
  shows "mset (alloc_ordered (allocate_lexical_candidates cs p)) +
      mset (map fst (alloc_rejected (allocate_lexical_candidates cs p))) = mset cs \<and>
    distinct (bodies (alloc_ordered (allocate_lexical_candidates cs p))) \<and>
    length (filter (\<lambda>c. source_of c = s) (alloc_ordered (allocate_lexical_candidates cs p))) \<le> al_max_per_document p \<and>
    take (al_ranked_prefix p) (alloc_ordered (allocate_lexical_candidates cs p)) =
      take (al_ranked_prefix p) (sort_key rank_key (alloc_ordered (allocate_lexical_candidates cs p)))"
  using allocate_partition[OF assms refl] by blast

theorem allocation_respects_quotas_witness:
  "distinct (map candidate_identity [cx_candidate]) \<and>
     length (filter (\<lambda>c. source_of c = (U ''d'', U ''v''))
       (alloc_ordered (allocate_lexical_candidates [cx_candidate] \<lparr>al_max_per_document = 1, al_ranked_prefix = 0\<rparr>))) \<le> 1"
  using allocation_respects_quotas[of "[cx_candidate]" "\<lparr>al_max_per_document = 1, al_ranked_prefix = 0\<rparr>"] by simp

end
