(* ===== verification/Recon_Domain.thy ===== *)
theory Recon_Domain
  imports Context_Domain Binary64
begin

text \<open>
  Records of block reconciliation (\<open>domain/reconciliation.py\<close>, \<open>domain/relation.py\<close>): scopes,
  block references, the facts the matcher needs of a block, lineage memberships, matches and plans.
  \<open>canon\<close> holds what the code takes from libraries: the digest of a canonical JSON value, the
  stored object of a canonical relation, the hash of a plan, case folding and \<open>repr\<close>.
\<close>

section \<open>Scopes and references\<close>

record rep_scope =
  rs_document :: pystr
  rs_version :: pystr
  rs_representation :: pystr

record block_ref =
  br_scope :: rep_scope
  br_block :: pystr

datatype block_kind =
    TITLE | HEADING | PARAGRAPH | LIST | LIST_ITEM | TABLE | CODE | EQUATION | PICTURE | CHART
  | NOTE | PAGE | SLIDE | OTHER

fun kind_value :: "block_kind \<Rightarrow> pystr" where
  "kind_value TITLE = U ''title''"
| "kind_value HEADING = U ''heading''"
| "kind_value PARAGRAPH = U ''paragraph''"
| "kind_value LIST = U ''list''"
| "kind_value LIST_ITEM = U ''list_item''"
| "kind_value TABLE = U ''table''"
| "kind_value CODE = U ''code''"
| "kind_value EQUATION = U ''equation''"
| "kind_value PICTURE = U ''picture''"
| "kind_value CHART = U ''chart''"
| "kind_value NOTE = U ''note''"
| "kind_value PAGE = U ''page''"
| "kind_value SLIDE = U ''slide''"
| "kind_value OTHER = U ''other''"

lemma kind_value_eq_iff [simp]: "kind_value a = kind_value b \<longleftrightarrow> a = b"
  by (cases a; cases b) (simp_all add: U_def)

section \<open>Blocks\<close>

record recon_block =
  rb_ref :: block_ref
  rb_parent :: "pystr option"
  rb_kind :: block_kind
  rb_order :: nat
  rb_ordinal :: nat
  rb_hash :: pystr
  rb_text :: "pystr option"
  rb_structured :: "pystr option"
  rb_asset :: "pystr option"
  rb_native :: "pystr option"
  rb_lineage :: "pystr option"
  rb_run :: "pystr option"

abbreviation rb_block :: "recon_block \<Rightarrow> pystr" where
  "rb_block b \<equiv> br_block (rb_ref b)"

definition max_blocks :: nat where "max_blocks = 100000"
definition max_recon_depth :: nat where "max_recon_depth = 32"
definition max_text :: nat where "max_text = 4096"
definition max_distance :: nat where "max_distance = 8"
definition max_comparisons :: nat where "max_comparisons = 1000000"
definition max_gap :: nat where "max_gap = 256"
definition min_similarity :: nat where "min_similarity = 970000"
definition min_margin :: nat where "min_margin = 50000"

definition algorithm_version :: pystr where
  "algorithm_version = U ''openardp-block-reconcile-v1''"

datatype recon_error = ReconError string | ReconLimit string | ReconInvalid

definition recon_block_valid :: "recon_block \<Rightarrow> bool" where
  "recon_block_valid b \<longleftrightarrow> (rb_lineage b = None) = (rb_run b = None) \<and> rb_parent b \<noteq> Some (rb_block b) \<and>
     rb_ordinal b < max_blocks \<and>
     (case rb_text b of None \<Rightarrow> True | Some t \<Rightarrow> length t \<le> max_text * 16)"

section \<open>Memberships, matches and plans\<close>

record membership =
  mb_lineage :: pystr
  mb_ref :: block_ref
  mb_hash :: pystr
  mb_binding :: pystr
  mb_run :: pystr

datatype match_method = NATIVE_ID | EXACT_CONTENT | ASSET_OR_TABLE | SIMILARITY | SEQUENCE

text \<open>The confidence of a relation is a binary64 fraction.\<close>

record relation =
  re_id :: pystr
  re_source :: block_ref
  re_target :: block_ref
  re_confidence :: "nat \<times> nat"
  re_algorithm :: pystr
  re_created :: int

record block_match =
  bm_previous :: block_ref
  bm_current :: block_ref
  bm_lineage :: pystr
  bm_previous_hash :: pystr
  bm_current_hash :: pystr
  bm_method :: match_method
  bm_ppm :: nat
  bm_reusable :: bool
  bm_relation :: relation
  bm_object :: stored_object

record plan =
  pl_run :: pystr
  pl_previous :: rep_scope
  pl_current :: rep_scope
  pl_algorithm :: pystr
  pl_config :: pystr
  pl_seeds :: "membership list"
  pl_members :: "membership list"
  pl_matches :: "block_match list"
  pl_inactive :: "pystr list"
  pl_matched :: nat
  pl_reusable :: nat
  pl_new :: nat
  pl_ambiguous :: nat
  pl_comparisons :: nat
  pl_fingerprint :: pystr
  pl_created :: int

record canon =
  cn_digest :: "json \<Rightarrow> pystr"
  cn_object :: "relation \<Rightarrow> stored_object"
  cn_plan :: "plan \<Rightarrow> pystr"
  cn_casefold :: "pystr \<Rightarrow> pystr"
  cn_repr2 :: "pystr \<times> pystr \<Rightarrow> pystr"
  cn_repr3 :: "pystr option \<times> pystr \<times> pystr \<Rightarrow> pystr"

section \<open>Identities\<close>

text \<open>The formats of the identifiers that enter a digest are those of their types.\<close>

definition identity_digest :: "canon \<Rightarrow> string \<Rightarrow> json \<Rightarrow> pystr" where
  "identity_digest C domain payload = cn_digest C (JObj
     [(U ''canonicalization'', JStr (U ''RFC8785'')), (U ''domain'', JStr (U domain)),
      (U ''identity_version'', JInt 1), (U ''payload'', payload)])"

definition rep_scope_json :: "rep_scope \<Rightarrow> json" where
  "rep_scope_json s = JObj [(U ''document_id'', JStr (rs_document s)), (U ''version_id'', JStr (rs_version s)),
     (U ''representation_id'', JStr (rs_representation s))]"

definition block_ref_json :: "block_ref \<Rightarrow> json" where
  "block_ref_json r = JObj [(U ''record_type'', JStr (U ''block'')),
     (U ''document_id'', JStr (rs_document (br_scope r))), (U ''version_id'', JStr (rs_version (br_scope r))),
     (U ''representation_id'', JStr (rs_representation (br_scope r))), (U ''block_id'', JStr (br_block r))]"

definition block_lineage_id :: "canon \<Rightarrow> block_ref \<Rightarrow> pystr" where
  "block_lineage_id C r = identity_digest C ''openardp:block-lineage'' (JObj [(U ''origin'', block_ref_json r)])"

definition evidence_binding_id :: "canon \<Rightarrow> pystr \<Rightarrow> pystr \<Rightarrow> pystr" where
  "evidence_binding_id C lineage hash = identity_digest C ''openardp:evidence-binding''
     (JObj [(U ''lineage_id'', JStr lineage), (U ''canonical_hash'', JStr hash)])"

definition relation_identity :: "canon \<Rightarrow> block_ref \<Rightarrow> block_ref \<Rightarrow> pystr" where
  "relation_identity C source target = identity_digest C ''openardp:relation''
     (JObj [(U ''kind'', JStr (U ''same_logical_block_as'')), (U ''source'', block_ref_json source),
        (U ''target'', block_ref_json target)])"

definition recon_config_hash :: "canon \<Rightarrow> pystr" where
  "recon_config_hash C = cn_digest C (JObj [(U ''algorithm_version'', JStr algorithm_version),
     (U ''max_blocks'', JInt (int max_blocks)), (U ''max_depth'', JInt (int max_recon_depth)),
     (U ''max_similarity_text'', JInt (int max_text)),
     (U ''max_similarity_order_distance'', JInt (int max_distance)),
     (U ''max_similarity_comparisons'', JInt (int max_comparisons)),
     (U ''max_sequence_gap'', JInt (int max_gap)), (U ''min_similarity_ppm'', JInt (int min_similarity)),
     (U ''min_winner_margin_ppm'', JInt (int min_margin))])"

definition reconciliation_run_id :: "canon \<Rightarrow> rep_scope \<Rightarrow> rep_scope \<Rightarrow> pystr" where
  "reconciliation_run_id C previous current = identity_digest C ''openardp:reconciliation-run''
     (JObj [(U ''previous_scope'', rep_scope_json previous), (U ''current_scope'', rep_scope_json current),
        (U ''algorithm_version'', JStr algorithm_version), (U ''config_hash'', JStr (recon_config_hash C))])"

section \<open>Validators\<close>

definition membership_valid :: "canon \<Rightarrow> membership \<Rightarrow> bool" where
  "membership_valid C m \<longleftrightarrow> mb_binding m = evidence_binding_id C (mb_lineage m) (mb_hash m)"

definition relation_valid :: "canon \<Rightarrow> relation \<Rightarrow> bool" where
  "relation_valid C r \<longleftrightarrow> re_source r \<noteq> re_target r \<and>
     rs_document (br_scope (re_source r)) = rs_document (br_scope (re_target r)) \<and>
     br_scope (re_source r) \<noteq> br_scope (re_target r) \<and> fst (re_confidence r) \<le> snd (re_confidence r) \<and>
     re_id r = relation_identity C (re_source r) (re_target r)"

definition ppm_confidence :: "nat \<Rightarrow> nat \<times> nat" where
  "ppm_confidence ppm = fdiv ppm 1000000"

definition block_match_valid :: "canon \<Rightarrow> block_match \<Rightarrow> bool" where
  "block_match_valid C m \<longleftrightarrow>
     rs_document (br_scope (bm_previous m)) = rs_document (br_scope (bm_current m)) \<and>
     br_scope (bm_previous m) \<noteq> br_scope (bm_current m) \<and> bm_ppm m \<le> 1000000 \<and>
     bm_reusable m = (bm_previous_hash m = bm_current_hash m) \<and>
     re_source (bm_relation m) = bm_current m \<and> re_target (bm_relation m) = bm_previous m \<and>
     re_algorithm (bm_relation m) = algorithm_version \<and> re_confidence (bm_relation m) = ppm_confidence (bm_ppm m) \<and>
     bm_object m = cn_object C (bm_relation m)"

text \<open>The fingerprint covers everything but the time and itself.\<close>

definition result_fingerprint :: "canon \<Rightarrow> plan \<Rightarrow> pystr" where
  "result_fingerprint C p = cn_plan C (p\<lparr>pl_created := 0, pl_fingerprint := []\<rparr>)"

definition plan_valid :: "canon \<Rightarrow> plan \<Rightarrow> bool" where
  "plan_valid C p \<longleftrightarrow> pl_comparisons p \<le> max_comparisons \<and>
     pl_run p = reconciliation_run_id C (pl_previous p) (pl_current p) \<and>
     pl_algorithm p = algorithm_version \<and> pl_config p = recon_config_hash C \<and>
     pl_matched p = length (pl_matches p) \<and>
     pl_reusable p = length (filter bm_reusable (pl_matches p)) \<and>
     int (pl_new p) = int (length (pl_members p)) - int (length (pl_matches p)) \<and>
     sorted_unique (pl_inactive p) \<and> pl_fingerprint p = result_fingerprint C p"

end
