(* ===== verification/Recon_Match.thy ===== *)
theory Recon_Match
  imports Recon_Domain
begin

text \<open>
  The bounded matcher (\<open>domain/reconciliation.py\<close>): validation of both block sets, the three phases
  of unique keys, the similarity phase, the sequence phase and the plan.  A matching holds the code's
  dictionaries and sets as lists; a later entry shadows an earlier one.  Indices are ordinals.
  \<open>difflib.SequenceMatcher.ratio\<close> is written out from its documentation.
\<close>

section \<open>Similarity\<close>

fun lcp :: "pystr \<Rightarrow> pystr \<Rightarrow> nat" where
  "lcp (x # xs) (y # ys) = (if x = y then Suc (lcp xs ys) else 0)"
| "lcp _ _ = 0"

text \<open>The longest common block, the earliest in the first text, then in the second.\<close>

definition longest_match :: "pystr \<Rightarrow> pystr \<Rightarrow> nat \<times> nat \<times> nat" where
  "longest_match a b = foldl (\<lambda>best (i, j). case best of (_, _, k) \<Rightarrow>
       (let l = lcp (drop i a) (drop j b) in if k < l then (i, j, l) else best)) (0, 0, 0)
     (List.product [0..<length a] [0..<length b])"

lemma lcp_le: "lcp xs ys \<le> length xs" "lcp xs ys \<le> length ys"
  by (induction xs ys rule: lcp.induct) auto

lemma longest_match_bounds:
  "longest_match a b = (i, j, k) \<Longrightarrow> i + k \<le> length a \<and> j + k \<le> length b"
proof -
  let ?f = "\<lambda>best (i, j). case best of (_, _, k) \<Rightarrow>
    (let l = lcp (drop i a) (drop j b) in if k < l then (i, j, l) else best)"
  have inv: "(\<forall>p\<in>set ps. fst p < length a \<and> snd p < length b) \<Longrightarrow>
      fst best + snd (snd best) \<le> length a \<and> fst (snd best) + snd (snd best) \<le> length b \<Longrightarrow>
      fst (foldl ?f best ps) + snd (snd (foldl ?f best ps)) \<le> length a \<and>
      fst (snd (foldl ?f best ps)) + snd (snd (foldl ?f best ps)) \<le> length b" for ps best
  proof (induction ps arbitrary: best)
    case (Cons p ps)
    obtain i j where p: "p = (i, j)" by fastforce
    have "fst (?f best p) + snd (snd (?f best p)) \<le> length a \<and> fst (snd (?f best p)) + snd (snd (?f best p)) \<le> length b"
      using Cons.prems lcp_le[of "drop i a" "drop j b"] by (auto simp: p Let_def split: prod.splits)
    with Cons show ?case by simp
  qed simp
  show "longest_match a b = (i, j, k) \<Longrightarrow> i + k \<le> length a \<and> j + k \<le> length b"
    using inv[of "List.product [0..<length a] [0..<length b]" "(0, 0, 0)"]
    by (auto simp: longest_match_def)
qed

function matched_size :: "pystr \<Rightarrow> pystr \<Rightarrow> nat" where
  "matched_size a b = (case longest_match a b of (i, j, k) \<Rightarrow>
     if k = 0 then 0
     else k + matched_size (take i a) (take j b) + matched_size (drop (i + k) a) (drop (j + k) b))"
  by pat_completeness auto
termination
  by (relation "measure (\<lambda>(a, b). length a)") (auto dest!: sym[THEN longest_match_bounds])

declare matched_size.simps [simp del]

definition similarity_ppm :: "pystr \<Rightarrow> pystr \<Rightarrow> nat" where
  "similarity_ppm previous current =
     (let total = length previous + length current
      in fround (fmul (if total = 0 then (1, 1) else fdiv (2 * matched_size previous current) total) 1000000))"

definition is_space :: "nat \<Rightarrow> bool" where
  "is_space c \<longleftrightarrow> 9 \<le> c \<and> c \<le> 13 \<or> 28 \<le> c \<and> c \<le> 32 \<or> c = 0x85 \<or> c = 0xA0 \<or> c = 0x1680 \<or>
     0x2000 \<le> c \<and> c \<le> 0x200A \<or> c = 0x2028 \<or> c = 0x2029 \<or> c = 0x202F \<or> c = 0x205F \<or> c = 0x3000"

fun collapse :: "bool \<Rightarrow> pystr \<Rightarrow> pystr" where
  "collapse inside [] = []"
| "collapse inside (c # cs) =
     (if is_space c then (if inside then collapse True cs else 32 # collapse True cs) else c # collapse False cs)"

definition strip :: "pystr \<Rightarrow> pystr" where
  "strip s = rev (dropWhile is_space (rev (dropWhile is_space s)))"

definition normalized_text :: "canon \<Rightarrow> pystr \<Rightarrow> pystr" where
  "normalized_text C s = take max_text (strip (collapse False (cn_casefold C s)))"

section \<open>Validation\<close>

definition by_id :: "recon_block list \<Rightarrow> pystr \<Rightarrow> recon_block option" where
  "by_id bs i = find (\<lambda>b. rb_block b = i) bs"

text \<open>The walk to the root; the number counts the levels it may still take.\<close>

fun check_chain :: "recon_block list \<Rightarrow> nat \<Rightarrow> pystr list \<Rightarrow> pystr option \<Rightarrow> recon_error + unit" where
  "check_chain bs n seen None = Inr ()"
| "check_chain bs n seen (Some p) =
     (if p \<in> set seen then Inl (ReconError ''reconciliation hierarchy is invalid'')
      else case by_id bs p of
          None \<Rightarrow> Inl (ReconError ''reconciliation hierarchy is invalid'')
        | Some b \<Rightarrow> (case n of
            0 \<Rightarrow> Inl (ReconLimit ''reconciliation hierarchy exceeds depth limit'')
          | Suc k \<Rightarrow> check_chain bs k (p # seen) (rb_parent b)))"

fun check_blocks :: "recon_block list \<Rightarrow> rep_scope \<Rightarrow> recon_block list \<Rightarrow> recon_error + unit" where
  "check_blocks bs scope [] = Inr ()"
| "check_blocks bs scope (b # rest) =
     (if br_scope (rb_ref b) \<noteq> scope then Inl (ReconError ''reconciliation block scope is inconsistent'')
      else sbind (check_chain bs max_recon_depth [] (rb_parent b)) (\<lambda>_. check_blocks bs scope rest))"

definition validate_block_set :: "recon_block list \<Rightarrow> rep_scope \<Rightarrow> recon_error + unit" where
  "validate_block_set bs scope =
     (if map rb_ordinal bs \<noteq> [0..<length bs] then Inl (ReconError ''reconciliation ordinals must be contiguous'')
      else if \<not> distinct (map rb_block bs) then Inl (ReconError ''reconciliation block identifiers must be unique'')
      else check_blocks bs scope bs)"

definition validate_aggregates ::
  "recon_block list \<Rightarrow> recon_block list \<Rightarrow> rep_scope \<Rightarrow> rep_scope \<Rightarrow> recon_error + unit" where
  "validate_aggregates old cur ps cs =
     (if max_blocks < length old \<or> max_blocks < length cur
      then Inl (ReconLimit ''reconciliation block count exceeds limit'')
      else if rs_document ps \<noteq> rs_document cs then Inl (ReconError ''reconciliation cannot cross documents'')
      else if ps = cs then Inl (ReconError ''reconciliation requires distinct scopes'')
      else sbind (validate_block_set old ps) (\<lambda>_. validate_block_set cur cs))"

section \<open>The matching\<close>

record matching =
  ma_assign :: "(nat \<times> nat \<times> match_method \<times> nat) list"
  ma_used :: "nat list"
  ma_parents :: "(pystr \<times> pystr) list"
  ma_seen :: "nat list"

definition no_matching :: matching where
  "no_matching = \<lparr>ma_assign = [], ma_used = [], ma_parents = [], ma_seen = []\<rparr>"

definition assign ::
  "recon_block list \<Rightarrow> recon_block list \<Rightarrow> nat \<Rightarrow> nat \<Rightarrow> match_method \<Rightarrow> nat \<Rightarrow> matching \<Rightarrow> matching" where
  "assign old cur ci pi method ppm m =
     m\<lparr>ma_assign := (ci, pi, method, ppm) # ma_assign m, ma_used := pi # ma_used m,
       ma_parents := (rb_block (cur ! ci), rb_block (old ! pi)) # ma_parents m\<rparr>"

definition unassigned :: "recon_block list \<Rightarrow> matching \<Rightarrow> nat list" where
  "unassigned cur m = filter (\<lambda>i. map_of (ma_assign m) i = None) [0..<length cur]"

definition unused :: "recon_block list \<Rightarrow> matching \<Rightarrow> nat list" where
  "unused old m = filter (\<lambda>i. i \<notin> set (ma_used m)) [0..<length old]"

definition see :: "nat list \<Rightarrow> matching \<Rightarrow> matching" where
  "see cs m = m\<lparr>ma_seen := cs @ ma_seen m\<rparr>"

definition parent_compatible :: "recon_block \<Rightarrow> recon_block \<Rightarrow> (pystr \<times> pystr) list \<Rightarrow> bool" where
  "parent_compatible p c parents =
     (case (rb_parent p, rb_parent c) of
        (None, None) \<Rightarrow> True
      | (Some pp, Some cp) \<Rightarrow> map_of parents cp = Some pp
      | _ \<Rightarrow> False)"

section \<open>Phases of unique keys\<close>

definition group :: "(recon_block \<Rightarrow> 'k option) \<Rightarrow> recon_block list \<Rightarrow> nat list \<Rightarrow> 'k \<Rightarrow> nat list" where
  "group key bs ixs v = filter (\<lambda>i. key (bs ! i) = Some v) ixs"

definition group_keys :: "(recon_block \<Rightarrow> 'k option) \<Rightarrow> recon_block list \<Rightarrow> nat list \<Rightarrow> 'k list" where
  "group_keys key bs ixs = remdups (List.map_filter (\<lambda>i. key (bs ! i)) ixs)"

definition shared_keys ::
  "(recon_block \<Rightarrow> 'k option) \<Rightarrow> ('k \<Rightarrow> pystr) \<Rightarrow> recon_block list \<Rightarrow> recon_block list \<Rightarrow> nat list \<Rightarrow> nat list \<Rightarrow> 'k list" where
  "shared_keys key rep old cur ps cs =
     sort_key rep (filter (\<lambda>v. v \<in> set (group_keys key cur cs)) (group_keys key old ps))"

fun phase_keys ::
  "recon_block list \<Rightarrow> recon_block list \<Rightarrow> ('k \<Rightarrow> nat list) \<Rightarrow> ('k \<Rightarrow> nat list) \<Rightarrow> match_method \<Rightarrow> bool \<Rightarrow>
   'k list \<Rightarrow> matching \<Rightarrow> matching \<times> bool" where
  "phase_keys old cur pg cg method need_parent [] m = (m, False)"
| "phase_keys old cur pg cg method need_parent (v # vs) m =
     (let m1 = see (cg v) m
      in case (pg v, cg v) of
          ([pi], [ci]) \<Rightarrow>
            if need_parent \<and> \<not> parent_compatible (old ! pi) (cur ! ci) (ma_parents m1)
            then phase_keys old cur pg cg method need_parent vs m1
            else (case phase_keys old cur pg cg method need_parent vs
                     (assign old cur ci pi method 1000000 m1) of (m2, _) \<Rightarrow> (m2, True))
        | _ \<Rightarrow> phase_keys old cur pg cg method need_parent vs m1)"

definition phase_pass ::
  "recon_block list \<Rightarrow> recon_block list \<Rightarrow> (recon_block \<Rightarrow> 'k option) \<Rightarrow> ('k \<Rightarrow> pystr) \<Rightarrow> match_method \<Rightarrow> bool \<Rightarrow>
   matching \<Rightarrow> matching \<times> bool" where
  "phase_pass old cur key rep method need_parent m =
     (let ps = unused old m; cs = unassigned cur m
      in phase_keys old cur (group key old ps) (group key cur cs) method need_parent
           (shared_keys key rep old cur ps cs) m)"

lemma assign_simps [simp]:
  "ma_assign (assign old cur ci pi method ppm m) = (ci, pi, method, ppm) # ma_assign m"
  "ma_used (assign old cur ci pi method ppm m) = pi # ma_used m"
  "ma_parents (assign old cur ci pi method ppm m) = (rb_block (cur ! ci), rb_block (old ! pi)) # ma_parents m"
  "ma_seen (assign old cur ci pi method ppm m) = ma_seen m"
  "ma_assign (see cs m) = ma_assign m" "ma_used (see cs m) = ma_used m" "ma_parents (see cs m) = ma_parents m"
  "ma_seen (see cs m) = cs @ ma_seen m"
  by (simp_all add: assign_def see_def)

lemma unassigned_see [simp]: "unassigned cur (see cs m) = unassigned cur m"
  by (simp add: unassigned_def)

lemma unassigned_assign: "set (unassigned cur (assign old cur ci pi method ppm m)) = set (unassigned cur m) - {ci}"
  by (auto simp: unassigned_def split: if_splits)

lemma length_unassigned_less:
  "set (unassigned cur m) \<subset> set (unassigned cur m') \<Longrightarrow> length (unassigned cur m) < length (unassigned cur m')"
  by (metis List.finite_set psubset_card_mono distinct_card distinct_filter distinct_upt unassigned_def)

lemma phase_keys_step:
  assumes "phase_keys old cur pg cg method np (v # vs) m = (m', b)"
  obtains (skip) "phase_keys old cur pg cg method np vs (see (cg v) m) = (m', b)"
  | (take) pi ci b1 where "pg v = [pi]" "cg v = [ci]"
      "np \<longrightarrow> parent_compatible (old ! pi) (cur ! ci) (ma_parents m)"
      "phase_keys old cur pg cg method np vs (assign old cur ci pi method 1000000 (see [ci] m)) = (m', b1)" "b"
  using assms by (auto simp: Let_def split: list.splits if_splits prod.splits)

lemma phase_keys_unassigned:
  "phase_keys old cur pg cg method np vs m = (m', b) \<Longrightarrow>
   set (unassigned cur m') \<subseteq> set (unassigned cur m) \<and>
   (b \<longrightarrow> (\<exists>v ci. cg v = [ci] \<and> ci \<notin> set (unassigned cur m')))"
proof (induction vs arbitrary: m m' b)
  case (Cons v vs)
  from Cons.prems show ?case
  proof (cases rule: phase_keys_step)
    case skip then show ?thesis using Cons.IH[OF skip] by simp
  next
    case (take pi ci b1)
    with Cons.IH[OF take(4)] show ?thesis by (auto simp: unassigned_assign)
  qed
qed simp

lemma phase_pass_less:
  assumes "phase_pass old cur key rep method np m = (m', True)"
  shows "length (unassigned cur m') < length (unassigned cur m)"
proof (rule length_unassigned_less)
  let ?cg = "group key cur (unassigned cur m)"
  from phase_keys_unassigned[OF assms[unfolded phase_pass_def Let_def]] obtain v ci where
    "set (unassigned cur m') \<subseteq> set (unassigned cur m)" "?cg v = [ci]" "ci \<notin> set (unassigned cur m')" by blast
  moreover have "set (?cg v) \<subseteq> set (unassigned cur m)" by (auto simp: group_def)
  ultimately show "set (unassigned cur m') \<subset> set (unassigned cur m)" by auto
qed

function phase ::
  "recon_block list \<Rightarrow> recon_block list \<Rightarrow> (recon_block \<Rightarrow> 'k option) \<Rightarrow> ('k \<Rightarrow> pystr) \<Rightarrow> match_method \<Rightarrow> bool \<Rightarrow>
   matching \<Rightarrow> matching" where
  "phase old cur key rep method need_parent m =
     (case phase_pass old cur key rep method need_parent m of (m', progress) \<Rightarrow>
        if progress then phase old cur key rep method need_parent m' else m')"
  by pat_completeness auto
termination
  by (relation "measure (\<lambda>(old, cur, key, rep, method, np, m). length (unassigned cur m))")
     (auto intro: phase_pass_less[OF sym])

declare phase.simps [simp del]

definition native_key :: "recon_block \<Rightarrow> (pystr \<times> pystr) option" where
  "native_key b = map_option (\<lambda>n. (n, kind_value (rb_kind b))) (rb_native b)"

definition exact_key :: "recon_block \<Rightarrow> (pystr \<times> pystr) option" where
  "exact_key b = Some (kind_value (rb_kind b), rb_hash b)"

definition asset_or_table_key :: "recon_block \<Rightarrow> (pystr \<times> pystr) option" where
  "asset_or_table_key b =
     (case rb_asset b of
        Some a \<Rightarrow> Some (kind_value (rb_kind b), a)
      | None \<Rightarrow> (case rb_structured b of
          Some h \<Rightarrow> if rb_kind b = TABLE then Some (kind_value (rb_kind b), h) else None
        | None \<Rightarrow> None))"

definition unique_phases :: "canon \<Rightarrow> recon_block list \<Rightarrow> recon_block list \<Rightarrow> matching" where
  "unique_phases C old cur =
     phase old cur asset_or_table_key (cn_repr2 C) ASSET_OR_TABLE True
       (phase old cur exact_key (cn_repr2 C) EXACT_CONTENT True
         (phase old cur native_key (cn_repr2 C) NATIVE_ID False no_matching))"

section \<open>The similarity phase\<close>

definition distance :: "nat \<Rightarrow> nat \<Rightarrow> nat" where
  "distance a b = (a - b) + (b - a)"

definition comparable :: "recon_block list \<Rightarrow> recon_block list \<Rightarrow> matching \<Rightarrow> nat \<Rightarrow> nat \<Rightarrow> bool" where
  "comparable old cur m ci pi \<longleftrightarrow> rb_text (cur ! ci) \<noteq> None \<and> rb_text (old ! pi) \<noteq> None \<and>
     rb_kind (cur ! ci) = rb_kind (old ! pi) \<and> parent_compatible (old ! pi) (cur ! ci) (ma_parents m) \<and>
     distance (rb_order (cur ! ci)) (rb_order (old ! pi)) \<le> max_distance"

definition comparisons :: "recon_block list \<Rightarrow> recon_block list \<Rightarrow> matching \<Rightarrow> (nat \<times> nat) list" where
  "comparisons old cur m =
     filter (\<lambda>(ci, pi). comparable old cur m ci pi) (List.product (unassigned cur m) (unused old m))"

definition score :: "canon \<Rightarrow> recon_block list \<Rightarrow> recon_block list \<Rightarrow> nat \<Rightarrow> nat \<Rightarrow> nat" where
  "score C old cur ci pi = similarity_ppm (normalized_text C (the (rb_text (old ! pi))))
     (normalized_text C (the (rb_text (cur ! ci))))"

definition similar_pairs :: "canon \<Rightarrow> recon_block list \<Rightarrow> recon_block list \<Rightarrow> (nat \<times> nat) list \<Rightarrow> (nat \<times> nat \<times> nat) list" where
  "similar_pairs C old cur pairs =
     filter (\<lambda>(ci, pi, ppm). min_similarity \<le> ppm) (map (\<lambda>(ci, pi). (ci, pi, score C old cur ci pi)) pairs)"

text \<open>Candidates by falling score, then by rising index.\<close>

definition ranked :: "(nat \<times> nat) list \<Rightarrow> (nat \<times> nat) list" where
  "ranked xs = sort_key (\<lambda>(ppm, i). (- int ppm, i)) xs"

definition forward :: "(nat \<times> nat \<times> nat) list \<Rightarrow> nat \<Rightarrow> (nat \<times> nat) list" where
  "forward ts ci = ranked (map (\<lambda>(_, pi, ppm). (ppm, pi)) (filter (\<lambda>(c, _, _). c = ci) ts))"

definition backward :: "(nat \<times> nat \<times> nat) list \<Rightarrow> nat \<Rightarrow> (nat \<times> nat) list" where
  "backward ts pi = ranked (map (\<lambda>(ci, _, ppm). (ppm, ci)) (filter (\<lambda>(_, p, _). p = pi) ts))"

definition clear_winner :: "(nat \<times> nat) list \<Rightarrow> nat \<Rightarrow> bool" where
  "clear_winner xs ppm = (case xs of _ # (second, _) # _ \<Rightarrow> second + min_margin \<le> ppm | _ \<Rightarrow> True)"

fun assign_similar ::
  "recon_block list \<Rightarrow> recon_block list \<Rightarrow> (nat \<times> nat \<times> nat) list \<Rightarrow> nat list \<Rightarrow> matching \<Rightarrow> matching" where
  "assign_similar old cur ts [] m = m"
| "assign_similar old cur ts (ci # cs) m =
     (case forward ts ci of
        [] \<Rightarrow> assign_similar old cur ts cs m
      | (ppm, pi) # _ \<Rightarrow>
          assign_similar old cur ts cs
            (if map_of (ma_assign m) ci \<noteq> None \<or> pi \<in> set (ma_used m) \<or>
                \<not> clear_winner (forward ts ci) ppm \<or> snd (hd (backward ts pi)) \<noteq> ci \<or>
                \<not> clear_winner (backward ts pi) ppm
             then m else assign old cur ci pi SIMILARITY ppm m))"

section \<open>The sequence phase\<close>

definition gap_key_old :: "recon_block \<Rightarrow> (pystr option \<times> pystr \<times> pystr) option" where
  "gap_key_old b = Some (rb_parent b, kind_value (rb_kind b), rb_hash b)"

definition gap_key_cur :: "(pystr \<times> pystr) list \<Rightarrow> recon_block \<Rightarrow> (pystr option \<times> pystr \<times> pystr) option" where
  "gap_key_cur parents b =
     Some (Option.bind (rb_parent b) (map_of parents), kind_value (rb_kind b), rb_hash b)"

fun gap_keys ::
  "recon_block list \<Rightarrow> recon_block list \<Rightarrow> ('k \<Rightarrow> nat list) \<Rightarrow> ('k \<Rightarrow> nat list) \<Rightarrow> 'k list \<Rightarrow> matching \<Rightarrow> matching" where
  "gap_keys old cur pg cg [] m = m"
| "gap_keys old cur pg cg (v # vs) m =
     (let m1 = see (cg v) m
      in gap_keys old cur pg cg vs
        (case (pg v, cg v) of
           ([pi], [ci]) \<Rightarrow>
             if max_gap < distance (rb_order (old ! pi)) (rb_order (cur ! ci)) \<or>
                \<not> parent_compatible (old ! pi) (cur ! ci) (ma_parents m1)
             then m1 else assign old cur ci pi SEQUENCE 1000000 m1
         | _ \<Rightarrow> m1))"

definition sequence_gaps :: "canon \<Rightarrow> recon_block list \<Rightarrow> recon_block list \<Rightarrow> matching \<Rightarrow> matching" where
  "sequence_gaps C old cur m =
     (let ps = unused old m; cs = unassigned cur m;
          pk = group_keys gap_key_old old ps; ck = group_keys (gap_key_cur (ma_parents m)) cur cs
      in gap_keys old cur (group gap_key_old old ps) (group (gap_key_cur (ma_parents m)) cur cs)
           (sort_key (cn_repr3 C) (filter (\<lambda>v. v \<in> set ck) pk)) m)"

section \<open>The plan\<close>

definition previous_lineage :: "canon \<Rightarrow> recon_block \<Rightarrow> pystr" where
  "previous_lineage C b = (case rb_lineage b of Some l \<Rightarrow> l | None \<Rightarrow> block_lineage_id C (rb_ref b))"

definition make_membership :: "canon \<Rightarrow> recon_block \<Rightarrow> pystr \<Rightarrow> pystr \<Rightarrow> membership" where
  "make_membership C b lineage run_id = \<lparr>mb_lineage = lineage, mb_ref = rb_ref b, mb_hash = rb_hash b,
     mb_binding = evidence_binding_id C lineage (rb_hash b),
     mb_run = (case rb_run b of Some r \<Rightarrow> r | None \<Rightarrow> run_id)\<rparr>"

definition make_relation :: "canon \<Rightarrow> recon_block \<Rightarrow> recon_block \<Rightarrow> nat \<Rightarrow> int \<Rightarrow> relation" where
  "make_relation C p c ppm created = \<lparr>re_id = relation_identity C (rb_ref c) (rb_ref p), re_source = rb_ref c,
     re_target = rb_ref p, re_confidence = ppm_confidence ppm, re_algorithm = algorithm_version, re_created = created\<rparr>"

definition make_match ::
  "canon \<Rightarrow> recon_block \<Rightarrow> recon_block \<Rightarrow> pystr \<Rightarrow> match_method \<Rightarrow> nat \<Rightarrow> int \<Rightarrow> block_match" where
  "make_match C p c lineage method ppm created =
     (let r = make_relation C p c ppm created
      in \<lparr>bm_previous = rb_ref p, bm_current = rb_ref c, bm_lineage = lineage, bm_previous_hash = rb_hash p,
          bm_current_hash = rb_hash c, bm_method = method, bm_ppm = ppm, bm_reusable = (rb_hash p = rb_hash c),
          bm_relation = r, bm_object = cn_object C r\<rparr>)"

fun plan_members ::
  "canon \<Rightarrow> recon_block list \<Rightarrow> matching \<Rightarrow> pystr \<Rightarrow> int \<Rightarrow> nat \<Rightarrow> recon_block list \<Rightarrow>
   recon_error + block_match list \<times> membership list" where
  "plan_members C old m run_id created i [] = Inr ([], [])"
| "plan_members C old m run_id created i (c # cs) =
     (case map_of (ma_assign m) i of
        None \<Rightarrow> sbind (plan_members C old m run_id created (i + 1) cs) (\<lambda>(ms, mbs).
          Inr (ms, make_membership C c (previous_lineage C c) run_id # mbs))
      | Some (pi, method, ppm) \<Rightarrow>
          let p = old ! pi; lineage = previous_lineage C p; x = make_match C p c lineage method ppm created
          in if rb_lineage c \<noteq> None \<and> rb_lineage c \<noteq> Some lineage
             then Inl (ReconError ''existing target lineage conflicts with accepted match'')
             else if \<not> relation_valid C (bm_relation x) \<or> \<not> block_match_valid C x then Inl ReconInvalid
             else sbind (plan_members C old m run_id created (i + 1) cs) (\<lambda>(ms, mbs).
               Inr (x # ms, make_membership C c lineage run_id # mbs)))"

definition make_plan ::
  "canon \<Rightarrow> recon_block list \<Rightarrow> recon_block list \<Rightarrow> rep_scope \<Rightarrow> rep_scope \<Rightarrow> int \<Rightarrow> int \<Rightarrow> matching \<Rightarrow> nat \<Rightarrow>
   recon_error + plan" where
  "make_plan C old cur ps cs ready_at created m n =
     (let run_id = reconciliation_run_id C ps cs;
          seeds = map (\<lambda>b. make_membership C b (previous_lineage C b) run_id) old
      in sbind (plan_members C old m run_id ready_at 0 cur) (\<lambda>(ms, mbs).
         let inactive = sort (filter (\<lambda>d. d \<notin> set (map mb_binding mbs)) (map mb_binding seeds));
             p = \<lparr>pl_run = run_id, pl_previous = ps, pl_current = cs, pl_algorithm = algorithm_version,
               pl_config = recon_config_hash C, pl_seeds = seeds, pl_members = mbs, pl_matches = ms, pl_inactive = inactive,
               pl_matched = length ms, pl_reusable = length (filter bm_reusable ms), pl_new = length cur - length ms,
               pl_ambiguous = length (filter (\<lambda>i. i \<in> set (ma_seen m)) (unassigned cur m)), pl_comparisons = n,
               pl_fingerprint = [], pl_created = created\<rparr>;
             p' = p\<lparr>pl_fingerprint := result_fingerprint C p\<rparr>
         in if plan_valid C p' then Inr p' else Inl ReconInvalid))"

definition similarity_phase ::
  "canon \<Rightarrow> recon_block list \<Rightarrow> recon_block list \<Rightarrow> matching \<Rightarrow> matching" where
  "similarity_phase C old cur m =
     (let pairs = comparisons old cur m; ts = similar_pairs C old cur pairs
      in assign_similar old cur ts (unassigned cur m) (see (map fst pairs) m))"

definition full_matching :: "canon \<Rightarrow> recon_block list \<Rightarrow> recon_block list \<Rightarrow> matching" where
  "full_matching C old cur = sequence_gaps C old cur (similarity_phase C old cur (unique_phases C old cur))"

definition reconcile_blocks ::
  "canon \<Rightarrow> recon_block list \<Rightarrow> recon_block list \<Rightarrow> rep_scope \<Rightarrow> rep_scope \<Rightarrow> int \<Rightarrow> int \<Rightarrow> recon_error + plan" where
  "reconcile_blocks C old cur ps cs ready_at created =
     sbind (validate_aggregates old cur ps cs) (\<lambda>_.
       let n = length (comparisons old cur (unique_phases C old cur))
       in if max_comparisons < n then Inl (ReconLimit ''similarity comparison budget exceeded'')
          else make_plan C old cur ps cs ready_at created (full_matching C old cur) n)"

end
