(* ===== verification/Recon_Invariant.thy ===== *)
theory Recon_Invariant
  imports Recon_Match
begin

text \<open>
  The invariant of a matching, kept by each of the five phases: it is a partial injection between
  blocks of one kind, each link has the evidence its method demands, and a link that is not by native
  identifier has linked parents.  Then the plan as a function of the final matching.
\<close>

section \<open>The invariant of a matching\<close>

definition evidence :: "canon \<Rightarrow> match_method \<Rightarrow> recon_block \<Rightarrow> recon_block \<Rightarrow> nat \<Rightarrow> bool" where
  "evidence C method p c ppm = (case method of
       NATIVE_ID \<Rightarrow> rb_native p = rb_native c \<and> rb_native p \<noteq> None \<and> ppm = 1000000
     | EXACT_CONTENT \<Rightarrow> rb_hash p = rb_hash c \<and> ppm = 1000000
     | ASSET_OR_TABLE \<Rightarrow> asset_or_table_key p = asset_or_table_key c \<and> asset_or_table_key p \<noteq> None \<and> ppm = 1000000
     | SIMILARITY \<Rightarrow> (\<exists>s t. rb_text p = Some s \<and> rb_text c = Some t \<and>
         ppm = similarity_ppm (normalized_text C s) (normalized_text C t)) \<and> min_similarity \<le> ppm \<and>
         distance (rb_order c) (rb_order p) \<le> max_distance
     | SEQUENCE \<Rightarrow> rb_hash p = rb_hash c \<and> ppm = 1000000 \<and> distance (rb_order p) (rb_order c) \<le> max_gap)"

definition link_ok ::
  "canon \<Rightarrow> recon_block list \<Rightarrow> recon_block list \<Rightarrow> (pystr \<times> pystr) list \<Rightarrow> nat \<times> nat \<times> match_method \<times> nat \<Rightarrow> bool" where
  "link_ok C old cur parents = (\<lambda>(ci, pi, method, ppm). ci < length cur \<and> pi < length old \<and>
     rb_kind (old ! pi) = rb_kind (cur ! ci) \<and> evidence C method (old ! pi) (cur ! ci) ppm \<and>
     (method \<noteq> NATIVE_ID \<longrightarrow> parent_compatible (old ! pi) (cur ! ci) parents))"

definition matching_ok :: "canon \<Rightarrow> recon_block list \<Rightarrow> recon_block list \<Rightarrow> matching \<Rightarrow> bool" where
  "matching_ok C old cur m \<longleftrightarrow> distinct (map fst (ma_assign m)) \<and> distinct (ma_used m) \<and>
     ma_used m = map (fst \<circ> snd) (ma_assign m) \<and>
     ma_parents m = map (\<lambda>(ci, pi, _). (rb_block (cur ! ci), rb_block (old ! pi))) (ma_assign m) \<and>
     (\<forall>l\<in>set (ma_assign m). link_ok C old cur (ma_parents m) l)"

lemma no_matching_ok [simp]: "matching_ok C old cur no_matching"
  by (simp add: matching_ok_def no_matching_def)

lemma see_ok [simp]: "matching_ok C old cur (see xs m) = matching_ok C old cur m"
  by (simp add: matching_ok_def)

lemma in_unassigned: "i \<in> set (unassigned cur m) \<longleftrightarrow> i < length cur \<and> i \<notin> fst ` set (ma_assign m)"
  by (auto simp: unassigned_def map_of_eq_None_iff)

lemma in_unused: "i \<in> set (unused old m) \<longleftrightarrow> i < length old \<and> i \<notin> set (ma_used m)"
  by (auto simp: unused_def)

lemma unused_see [simp]: "unused old (see cs m) = unused old m"
  by (simp add: unused_def)

lemma unused_assign: "set (unused old (assign old cur ci pi method ppm m)) = set (unused old m) - {pi}"
  by (auto simp: unused_def)

lemma parent_compatible_mono:
  "parent_compatible p c ps \<Longrightarrow> k \<notin> fst ` set ps \<Longrightarrow> parent_compatible p c ((k, v) # ps)"
  by (auto simp: parent_compatible_def map_of_eq_None_iff split: option.splits) (metis map_of_SomeD fst_conv image_eqI)

lemma link_ok_mono: "link_ok C old cur ps l \<Longrightarrow> k \<notin> fst ` set ps \<Longrightarrow> link_ok C old cur ((k, v) # ps) l"
  by (auto simp: link_ok_def intro: parent_compatible_mono)

lemma block_key_fresh:
  assumes "distinct (map rb_block cur)" "matching_ok C old cur m" "ci \<in> set (unassigned cur m)"
  shows "rb_block (cur ! ci) \<notin> fst ` set (ma_parents m)"
proof
  assume "rb_block (cur ! ci) \<in> fst ` set (ma_parents m)"
  then obtain cj pj x where l: "(cj, pj, x) \<in> set (ma_assign m)" "rb_block (cur ! ci) = rb_block (cur ! cj)"
    using assms(2) by (auto simp: matching_ok_def)
  have "cj < length cur" using assms(2) l(1) by (auto simp: matching_ok_def link_ok_def)
  then have "cj = ci" using assms(1,3) l(2) by (auto simp: distinct_conv_nth in_unassigned)
  then show False using l(1) assms(3) by (force simp: in_unassigned)
qed

lemma assign_ok:
  assumes "distinct (map rb_block cur)" "matching_ok C old cur m" "ci \<in> set (unassigned cur m)"
    "pi \<in> set (unused old m)" "link_ok C old cur (ma_parents m) (ci, pi, method, ppm)"
  shows "matching_ok C old cur (assign old cur ci pi method ppm m)"
proof -
  have new: "rb_block (cur ! ci) \<notin> fst ` set (ma_parents m)" using assms(1-3) by (rule block_key_fresh)
  have "link_ok C old cur ((rb_block (cur ! ci), rb_block (old ! pi)) # ma_parents m) l"
    if "l \<in> insert (ci, pi, method, ppm) (set (ma_assign m))" for l
    using that assms(2,5) link_ok_mono[OF _ new] unfolding matching_ok_def by blast
  then show ?thesis using assms(2-4) unfolding matching_ok_def assign_simps in_unassigned in_unused
    by (intro conjI) (auto simp: image_image)
qed

section \<open>Groups stay available within a pass\<close>

definition available ::
  "recon_block list \<Rightarrow> recon_block list \<Rightarrow> ('k \<Rightarrow> nat list) \<Rightarrow> ('k \<Rightarrow> nat list) \<Rightarrow> 'k list \<Rightarrow> matching \<Rightarrow> bool" where
  "available old cur pg cg vs m \<longleftrightarrow> distinct vs \<and>
     (\<forall>v w. v \<noteq> w \<longrightarrow> set (pg v) \<inter> set (pg w) = {} \<and> set (cg v) \<inter> set (cg w) = {}) \<and>
     (\<forall>v\<in>set vs. set (pg v) \<subseteq> set (unused old m) \<and> set (cg v) \<subseteq> set (unassigned cur m))"

lemma available_see [simp]: "available old cur pg cg vs (see cs m) = available old cur pg cg vs m"
  by (simp add: available_def)

lemma available_tl: "available old cur pg cg (v # vs) m \<Longrightarrow> available old cur pg cg vs m"
  by (simp add: available_def)

lemma available_assign:
  "available old cur pg cg (v # vs) m \<Longrightarrow> pg v = [pi] \<Longrightarrow> cg v = [ci] \<Longrightarrow>
   available old cur pg cg vs (assign old cur ci pi method ppm m)"
  by (auto simp: available_def unused_assign unassigned_assign) (metis disjoint_insert(2) list.simps(15))+

lemma available_group:
  "distinct vs \<Longrightarrow> available old cur (group kp old (unused old m)) (group kc cur (unassigned cur m)) vs m"
  by (auto simp: available_def group_def)

lemma phase_rule [consumes 1, case_names pass]:
  assumes "P m" and "\<And>m m' b. P m \<Longrightarrow> phase_pass old cur key rep method np m = (m', b) \<Longrightarrow> P m'"
  shows "P (phase old cur key rep method np m) \<and>
    (\<exists>m1. P m1 \<and> phase_pass old cur key rep method np m1 = (phase old cur key rep method np m, False))"
  using assms(1)
proof (induction "length (unassigned cur m)" arbitrary: m rule: less_induct)
  case less
  obtain m' b where p: "phase_pass old cur key rep method np m = (m', b)" by fastforce
  show ?case
  proof (cases b)
    case True
    have u: "phase old cur key rep method np m = phase old cur key rep method np m'"
      using p True by (subst phase.simps) simp
    have "length (unassigned cur m') < length (unassigned cur m)" using p True by (simp add: phase_pass_less)
    then show ?thesis unfolding u by (rule less.hyps) (rule assms(2)[OF less.prems p])
  next
    case False
    then have "phase old cur key rep method np m = m'" using p by (subst phase.simps) simp
    then show ?thesis using p False less.prems assms(2)[OF less.prems p] by auto
  qed
qed

text \<open>The three phases of unique keys share one contract: what an equal key proves.\<close>

locale key_phase =
  fixes key :: "recon_block \<Rightarrow> 'k option" and how :: match_method and need_parent :: bool
  assumes key_kind: "key p = Some v \<Longrightarrow> key c = Some v \<Longrightarrow> rb_kind p = rb_kind c"
    and key_evidence: "key p = Some v \<Longrightarrow> key c = Some v \<Longrightarrow> evidence C how p c 1000000"
    and key_parent: "how \<noteq> NATIVE_ID \<Longrightarrow> need_parent"
begin

lemma keys_ok:
  assumes "phase_keys old cur pg cg how need_parent vs m = (m', b)"
    and "\<And>v i. i \<in> set (pg v) \<Longrightarrow> key (old ! i) = Some v"
    and "\<And>v i. i \<in> set (cg v) \<Longrightarrow> key (cur ! i) = Some v"
    and "distinct (map rb_block cur)" "matching_ok C old cur m" "available old cur pg cg vs m"
  shows "matching_ok C old cur m'"
  using assms(1,5,6)
proof (induction vs arbitrary: m m' b)
  case (Cons v vs)
  from Cons.prems(1) show ?case
  proof (cases rule: phase_keys_step)
    case skip
    then show ?thesis using Cons.IH[OF skip] Cons.prems(2) available_tl[OF Cons.prems(3)] by simp
  next
    case (take pi ci b1)
    have i: "ci \<in> set (unassigned cur m)" "pi \<in> set (unused old m)"
      using Cons.prems(3) take(1,2) by (auto simp: available_def)
    have k: "key (old ! pi) = Some v" "key (cur ! ci) = Some v" using assms(2,3) take(1,2) by auto
    have "link_ok C old cur (ma_parents m) (ci, pi, how, 1000000)"
      using i take(3) key_kind[OF k] key_evidence[OF k] key_parent
      by (auto simp: link_ok_def in_unassigned in_unused)
    then have "matching_ok C old cur (assign old cur ci pi how 1000000 (see [ci] m))"
      using assms(4) Cons.prems(2) i by (intro assign_ok) auto
    moreover have "available old cur pg cg vs (assign old cur ci pi how 1000000 (see [ci] m))"
      using Cons.prems(3) take(1,2) by (intro available_assign) auto
    ultimately show ?thesis using Cons.IH[OF take(4)] by blast
  qed
qed simp

lemma pass_ok:
  assumes "phase_pass old cur key rep how need_parent m = (m', b)" "distinct (map rb_block cur)"
    "matching_ok C old cur m"
  shows "matching_ok C old cur m'"
  by (rule keys_ok[OF assms(1)[unfolded phase_pass_def Let_def] _ _ assms(2,3)])
     (auto simp: group_def shared_keys_def group_keys_def intro!: available_group)

lemma phase_ok:
  "distinct (map rb_block cur) \<Longrightarrow> matching_ok C old cur m \<Longrightarrow>
   matching_ok C old cur (phase old cur key rep how need_parent m)"
  by (rule phase_rule[THEN conjunct1]) (auto intro: pass_ok)

end

interpretation native: key_phase native_key NATIVE_ID False
  by unfold_locales (auto simp: native_key_def evidence_def)

interpretation exact: key_phase exact_key EXACT_CONTENT True
  by unfold_locales (auto simp: exact_key_def evidence_def)

interpretation asset: key_phase asset_or_table_key ASSET_OR_TABLE True
  by unfold_locales (auto simp: asset_or_table_key_def evidence_def simp del: kind_value.simps split: option.splits if_splits)

lemma unique_phases_ok:
  "distinct (map rb_block cur) \<Longrightarrow> matching_ok C old cur (unique_phases X old cur)"
  by (simp add: unique_phases_def native.phase_ok exact.phase_ok asset.phase_ok)

section \<open>The similarity phase\<close>

lemma forward_in: "forward ts ci = (ppm, pi) # xs \<Longrightarrow> (ci, pi, ppm) \<in> set ts"
proof -
  assume "forward ts ci = (ppm, pi) # xs"
  then have "(ppm, pi) \<in> set (forward ts ci)" by simp
  then show ?thesis by (auto simp: forward_def ranked_def)
qed

lemma assign_similar_ok:
  assumes "distinct (map rb_block cur)" "matching_ok C old cur m"
    "\<And>ci pi ppm. (ci, pi, ppm) \<in> set ts \<Longrightarrow> link_ok C old cur (ma_parents m) (ci, pi, SIMILARITY, ppm)"
  shows "matching_ok C old cur (assign_similar old cur ts cs m)"
  using assms(2,3)
proof (induction cs arbitrary: m)
  case (Cons ci cs)
  show ?case
  proof (cases "forward ts ci")
    case (Cons best xs)
    obtain ppm pi where b: "best = (ppm, pi)" by fastforce
    have link: "link_ok C old cur (ma_parents m) (ci, pi, SIMILARITY, ppm)"
      using Cons b forward_in Cons.prems(2) by blast
    let ?m = "assign old cur ci pi SIMILARITY ppm m"
    have keep: "matching_ok C old cur (assign_similar old cur ts cs ?m)"
      if free: "map_of (ma_assign m) ci = None" "pi \<notin> set (ma_used m)"
    proof -
      have i: "ci \<in> set (unassigned cur m)" "pi \<in> set (unused old m)"
        using free link by (auto simp: unassigned_def unused_def link_ok_def)
      have ok: "matching_ok C old cur ?m" using assms(1) Cons.prems(1) i link by (rule assign_ok)
      show ?thesis
        using Cons.prems(2) link_ok_mono[OF _ block_key_fresh[OF assms(1) Cons.prems(1) i(1)]]
        by (intro Cons.IH ok) auto
    qed
    show ?thesis using keep Cons.IH[OF Cons.prems] by (cases "map_of (ma_assign m) ci") (auto simp: Cons b)
  qed (use Cons in simp)
qed simp

lemma similar_pairs_link:
  assumes "matching_ok C old cur m" "(ci, pi, ppm) \<in> set (similar_pairs C old cur (comparisons old cur m))"
  shows "link_ok C old cur (ma_parents m) (ci, pi, SIMILARITY, ppm)"
  using assms by (auto simp: similar_pairs_def comparisons_def comparable_def link_ok_def evidence_def score_def
      in_unassigned in_unused)

lemma similarity_phase_ok:
  "distinct (map rb_block cur) \<Longrightarrow> matching_ok C old cur m \<Longrightarrow> matching_ok C old cur (similarity_phase C old cur m)"
  unfolding similarity_phase_def Let_def
  by (rule assign_similar_ok) (auto dest: similar_pairs_link)

section \<open>The sequence phase\<close>

lemma gap_keys_ok:
  assumes "distinct (map rb_block cur)" "matching_ok C old cur m" "available old cur pg cg vs m"
    and "\<And>v i j. i \<in> set (pg v) \<Longrightarrow> j \<in> set (cg v) \<Longrightarrow>
      rb_kind (old ! i) = rb_kind (cur ! j) \<and> rb_hash (old ! i) = rb_hash (cur ! j)"
  shows "matching_ok C old cur (gap_keys old cur pg cg vs m)"
  using assms(2,3)
proof (induction vs arbitrary: m)
  case (Cons v vs)
  let ?m = "see (cg v) m"
  have skip: "matching_ok C old cur (gap_keys old cur pg cg vs ?m)"
    using Cons.prems available_tl by (intro Cons.IH) auto
  have take: "matching_ok C old cur (gap_keys old cur pg cg vs (assign old cur ci pi SEQUENCE 1000000 ?m))"
    if g: "pg v = [pi]" "cg v = [ci]" "\<not> max_gap < distance (rb_order (old ! pi)) (rb_order (cur ! ci))"
      "parent_compatible (old ! pi) (cur ! ci) (ma_parents m)" for pi ci
  proof -
    have i: "ci \<in> set (unassigned cur ?m)" "pi \<in> set (unused old ?m)"
      using Cons.prems(2) g(1,2) by (auto simp: available_def)
    have "link_ok C old cur (ma_parents ?m) (ci, pi, SEQUENCE, 1000000)"
      using i g assms(4)[of pi v ci] by (auto simp: link_ok_def evidence_def in_unassigned in_unused)
    then have "matching_ok C old cur (assign old cur ci pi SEQUENCE 1000000 ?m)"
      using assms(1) Cons.prems(1) i by (intro assign_ok) simp_all
    then show ?thesis using Cons.prems(2) g(1,2) by (intro Cons.IH available_assign) simp_all
  qed
  show ?case using skip take by (auto simp: Let_def split: list.splits)
qed simp

lemma sequence_gaps_ok:
  "distinct (map rb_block cur) \<Longrightarrow> matching_ok C old cur m \<Longrightarrow> matching_ok C old cur (sequence_gaps X old cur m)"
  unfolding sequence_gaps_def Let_def
  by (rule gap_keys_ok)
     (auto simp: group_def gap_key_old_def gap_key_cur_def group_keys_def intro!: available_group)

lemma full_matching_ok:
  "distinct (map rb_block cur) \<Longrightarrow> matching_ok C old cur (full_matching C old cur)"
  by (simp add: full_matching_def sequence_gaps_ok similarity_phase_ok unique_phases_ok)

section \<open>What the plan says\<close>

definition linked :: "canon \<Rightarrow> recon_block list \<Rightarrow> recon_block list \<Rightarrow> matching \<Rightarrow> int \<Rightarrow> nat \<Rightarrow> block_match" where
  "linked C old cur m created i = (case the (map_of (ma_assign m) i) of
     (pi, method, ppm) \<Rightarrow> make_match C (old ! pi) (cur ! i) (previous_lineage C (old ! pi)) method ppm created)"

definition lineage_of :: "canon \<Rightarrow> recon_block list \<Rightarrow> recon_block list \<Rightarrow> matching \<Rightarrow> nat \<Rightarrow> pystr" where
  "lineage_of C old cur m i = (case map_of (ma_assign m) i of
     None \<Rightarrow> previous_lineage C (cur ! i) | Some (pi, _) \<Rightarrow> previous_lineage C (old ! pi))"

definition matched :: "matching \<Rightarrow> nat \<Rightarrow> bool" where
  "matched m i \<longleftrightarrow> map_of (ma_assign m) i \<noteq> None"

definition acceptable :: "canon \<Rightarrow> recon_block list \<Rightarrow> recon_block list \<Rightarrow> matching \<Rightarrow> int \<Rightarrow> nat \<Rightarrow> bool" where
  "acceptable C old cur m created i \<longleftrightarrow> matched m i \<longrightarrow>
     rb_lineage (cur ! i) \<in> {None, Some (lineage_of C old cur m i)} \<and>
     relation_valid C (bm_relation (linked C old cur m created i)) \<and> block_match_valid C (linked C old cur m created i)"

lemma plan_members_step:
  assumes "i < length cur"
  shows "plan_members C old m run t i (drop i cur) =
    (if matched m i \<and> rb_lineage (cur ! i) \<notin> {None, Some (lineage_of C old cur m i)}
     then Inl (ReconError ''existing target lineage conflicts with accepted match'')
     else if \<not> acceptable C old cur m t i then Inl ReconInvalid
     else sbind (plan_members C old m run t (Suc i) (drop (Suc i) cur)) (\<lambda>(ms, mbs).
       Inr ((if matched m i then [linked C old cur m t i] else []) @ ms,
         make_membership C (cur ! i) (lineage_of C old cur m i) run # mbs)))"
proof -
  have d: "drop i cur = cur ! i # drop (Suc i) cur" using assms by (rule Cons_nth_drop_Suc[symmetric])
  show ?thesis
    by (cases "map_of (ma_assign m) i")
       (auto simp: d matched_def acceptable_def linked_def lineage_of_def Let_def split: prod.split)
qed

lemma plan_members_Inr:
  "plan_members C old m run t i (drop i cur) = Inr (ms, mbs) \<Longrightarrow> i \<le> length cur \<Longrightarrow>
   ms = map (linked C old cur m t) (filter (matched m) [i..<length cur]) \<and>
   mbs = map (\<lambda>j. make_membership C (cur ! j) (lineage_of C old cur m j) run) [i..<length cur] \<and>
   (\<forall>j\<in>{i..<length cur}. acceptable C old cur m t j)"
proof (induction "length cur - i" arbitrary: i ms mbs)
  case (Suc n)
  then have i: "i < length cur" by simp
  from Suc.prems(1) obtain ms' mbs' where r: "plan_members C old m run t (Suc i) (drop (Suc i) cur) = Inr (ms', mbs')"
    "ms = (if matched m i then [linked C old cur m t i] else []) @ ms'"
    "mbs = make_membership C (cur ! i) (lineage_of C old cur m i) run # mbs'" "acceptable C old cur m t i"
    by (auto simp: plan_members_step[OF i] sbind_Inr_iff split: if_splits)
  have "{i..<length cur} = insert i {Suc i..<length cur}" using i by auto
  with Suc.hyps(1)[OF _ r(1)] Suc.hyps(2) i r(2-4) show ?case by (simp add: upt_conv_Cons)
qed auto

lemma plan_members_ok:
  "\<forall>j\<in>{i..<length cur}. acceptable C old cur m t j \<Longrightarrow> i \<le> length cur \<Longrightarrow>
   plan_members C old m run t i (drop i cur) =
     Inr (map (linked C old cur m t) (filter (matched m) [i..<length cur]),
          map (\<lambda>j. make_membership C (cur ! j) (lineage_of C old cur m j) run) [i..<length cur])"
proof (induction "length cur - i" arbitrary: i)
  case (Suc n)
  then have i: "i < length cur" by simp
  then have "acceptable C old cur m t i" using Suc.prems by simp
  moreover have "plan_members C old m run t (Suc i) (drop (Suc i) cur) =
     Inr (map (linked C old cur m t) (filter (matched m) [Suc i..<length cur]),
          map (\<lambda>j. make_membership C (cur ! j) (lineage_of C old cur m j) run) [Suc i..<length cur])"
    using Suc.hyps(2) Suc.prems i by (intro Suc.hyps(1)) auto
  ultimately show ?case using i by (auto simp: plan_members_step upt_conv_Cons acceptable_def)
qed auto

lemma check_blocks_scope: "check_blocks bs scope xs = Inr u \<Longrightarrow> b \<in> set xs \<Longrightarrow> br_scope (rb_ref b) = scope"
  by (induction xs) (auto simp: sbind_Inr_iff split: if_splits)

lemma reconcile_blocks_InrE:
  assumes "reconcile_blocks C old cur ps cs r t = Inr p"
  obtains "distinct (map rb_block old)" "distinct (map rb_block cur)"
    "matching_ok C old cur (full_matching C old cur)"
    "pl_matches p = map (linked C old cur (full_matching C old cur) r)
       (filter (matched (full_matching C old cur)) [0..<length cur])"
    "pl_members p = map (\<lambda>j. make_membership C (cur ! j) (lineage_of C old cur (full_matching C old cur) j)
       (reconciliation_run_id C ps cs)) [0..<length cur]"
    "\<forall>j<length cur. acceptable C old cur (full_matching C old cur) r j"
    "pl_seeds p = map (\<lambda>b. make_membership C b (previous_lineage C b) (reconciliation_run_id C ps cs)) old"
    "pl_inactive p = sort (filter (\<lambda>d. d \<notin> mb_binding ` set (pl_members p)) (map mb_binding (pl_seeds p)))"
    "plan_valid C p" "pl_ambiguous p = length (filter (\<lambda>i. i \<in> set (ma_seen (full_matching C old cur)))
       (unassigned cur (full_matching C old cur)))"
proof -
  from assms have v: "validate_aggregates old cur ps cs = Inr ()"
    by (cases "validate_aggregates old cur ps cs") (auto simp: reconcile_blocks_def)
  have d: "distinct (map rb_block old)" "distinct (map rb_block cur)"
    using v by (auto simp: validate_aggregates_def validate_block_set_def sbind_Inr_iff split: if_splits)
  from assms have mp: "make_plan C old cur ps cs r t (full_matching C old cur)
      (length (comparisons old cur (unique_phases C old cur))) = Inr p"
    by (auto simp: reconcile_blocks_def sbind_Inr_iff Let_def split: if_splits)
  then obtain ms mbs where pm: "plan_members C old (full_matching C old cur) (reconciliation_run_id C ps cs) r 0 cur = Inr (ms, mbs)"
    by (auto simp: make_plan_def sbind_Inr_iff Let_def)
  show thesis
    using that[OF d full_matching_ok[OF d(2)]] mp pm v plan_members_Inr[of _ _ _ _ _ 0 cur, simplified, OF pm]
    by (auto simp: make_plan_def Let_def split: if_splits)
qed

definition partner :: "matching \<Rightarrow> nat \<Rightarrow> nat" where
  "partner m i = fst (the (map_of (ma_assign m) i))"

definition parents_linked :: "block_match list \<Rightarrow> recon_block \<Rightarrow> recon_block \<Rightarrow> bool" where
  "parents_linked ms b c = (case (rb_parent b, rb_parent c) of
       (None, None) \<Rightarrow> True
     | (Some pp, Some cp) \<Rightarrow> \<exists>m\<in>set ms. br_block (bm_previous m) = pp \<and> br_block (bm_current m) = cp
     | _ \<Rightarrow> False)"

lemma matchedE:
  assumes "matching_ok C old cur m" "matched m i"
  obtains me ppm where "(i, partner m i, me, ppm) \<in> set (ma_assign m)" "map_of (ma_assign m) i = Some (partner m i, me, ppm)"
    "link_ok C old cur (ma_parents m) (i, partner m i, me, ppm)"
    "linked C' old cur m t i =
       make_match C' (old ! partner m i) (cur ! i) (previous_lineage C' (old ! partner m i)) me ppm t"
proof -
  from assms(2) obtain pi me ppm where a: "map_of (ma_assign m) i = Some (pi, me, ppm)" by (auto simp: matched_def)
  then have "(i, pi, me, ppm) \<in> set (ma_assign m)" by (rule map_of_SomeD)
  with assms(1) a show thesis by (intro that[of me ppm]) (auto simp: matching_ok_def partner_def linked_def)
qed

lemma make_match_fields [simp]:
  "bm_previous (make_match C p c l me ppm t) = rb_ref p" "bm_current (make_match C p c l me ppm t) = rb_ref c"
  "bm_lineage (make_match C p c l me ppm t) = l" "bm_method (make_match C p c l me ppm t) = me"
  "bm_ppm (make_match C p c l me ppm t) = ppm" "bm_previous_hash (make_match C p c l me ppm t) = rb_hash p"
  "bm_current_hash (make_match C p c l me ppm t) = rb_hash c"
  "bm_reusable (make_match C p c l me ppm t) = (rb_hash p = rb_hash c)"
  "bm_relation (make_match C p c l me ppm t) = make_relation C p c ppm t"
  "bm_object (make_match C p c l me ppm t) = cn_object C (make_relation C p c ppm t)"
  by (simp_all add: make_match_def Let_def)

lemma matched_iff: "matching_ok C old cur m \<Longrightarrow> matched m i \<longleftrightarrow> i \<in> fst ` set (ma_assign m)"
  by (auto simp: matched_def map_of_eq_None_iff)

lemma partner_inj:
  assumes "matching_ok C old cur m"
  shows "inj_on (partner m) {i. matched m i}"
proof (rule inj_onI)
  fix i j assume ij: "i \<in> {i. matched m i}" "j \<in> {i. matched m i}" "partner m i = partner m j"
  from assms ij(1) obtain a b where i: "(i, partner m i, a, b) \<in> set (ma_assign m)" by (auto elim: matchedE)
  from assms ij(2) obtain c d where j: "(j, partner m j, c, d) \<in> set (ma_assign m)" by (auto elim: matchedE)
  have "distinct (map (fst \<circ> snd) (ma_assign m))" using assms by (metis matching_ok_def)
  then have "inj_on (fst \<circ> snd) (set (ma_assign m))" by (simp add: distinct_map)
  from inj_onD[OF this _ i j] ij(3) show "i = j" by simp
qed

lemma refs_inj:
  assumes "distinct (map rb_block bs)" shows "inj_on (\<lambda>i. rb_ref (bs ! i)) {..<length bs}"
proof (rule inj_onI)
  fix i j assume "i \<in> {..<length bs}" "j \<in> {..<length bs}" "rb_ref (bs ! i) = rb_ref (bs ! j)"
  with assms show "i = j" by (metis nth_eq_iff_index_eq length_map nth_map lessThan_iff)
qed

lemma compatible_parents_linked:
  assumes ok: "matching_ok C old cur m" and c: "parent_compatible b c (ma_parents m)"
  shows "parents_linked (map (linked C' old cur m t) (filter (matched m) [0..<length cur])) b c"
proof (cases "rb_parent b")
  case (Some pp)
  with c obtain cp where cp: "rb_parent c = Some cp" "map_of (ma_parents m) cp = Some pp"
    by (auto simp: parent_compatible_def split: option.splits)
  from map_of_SomeD[OF cp(2)] ok obtain j pj x where j: "(j, pj, x) \<in> set (ma_assign m)" "cp = rb_block (cur ! j)" "pp = rb_block (old ! pj)"
    by (auto simp: matching_ok_def)
  have m: "matched m j" using ok j(1) by (force simp: matched_iff)
  have "map_of (ma_assign m) j = Some (pj, x)" using ok j(1) by (simp add: matching_ok_def)
  then have pj: "partner m j = pj" by (simp add: partner_def)
  from ok m obtain me ppm where l: "link_ok C old cur (ma_parents m) (j, partner m j, me, ppm)"
    "linked C' old cur m t j = make_match C' (old ! partner m j) (cur ! j) (previous_lineage C' (old ! partner m j)) me ppm t"
    by (rule matchedE)
  then show ?thesis using Some cp(1) m j pj
    by (auto simp: parents_linked_def link_ok_def intro!: bexI[of _ "linked C' old cur m t j"])
qed (use c in \<open>auto simp: parents_linked_def parent_compatible_def split: option.splits\<close>)

lemma linked_ends:
  assumes "matching_ok C old cur m" "matched m i"
  shows "bm_current (linked C' old cur m t i) = rb_ref (cur ! i)"
    "bm_previous (linked C' old cur m t i) = rb_ref (old ! partner m i)" "partner m i < length old"
  using assms by (auto simp: link_ok_def elim!: matchedE[where C' = C' and t = t])

lemma links_distinct:
  assumes d: "distinct (map rb_block old)" "distinct (map rb_block cur)" and ok: "matching_ok C old cur m"
    and links: "links = map (linked C' old cur m t) (filter (matched m) [0..<length cur])"
  shows "distinct (map bm_previous links)" "distinct (map bm_current links)"
proof -
  let ?ix = "set (filter (matched m) [0..<length cur])"
  have "inj_on (bm_current \<circ> linked C' old cur m t) ?ix"
  proof (rule inj_onI)
    fix i j assume ij: "i \<in> ?ix" "j \<in> ?ix"
      "(bm_current \<circ> linked C' old cur m t) i = (bm_current \<circ> linked C' old cur m t) j"
    then have "rb_ref (cur ! i) = rb_ref (cur ! j)" using linked_ends[OF ok] by auto
    then show "i = j" by (rule inj_onD[OF refs_inj[OF d(2)]]) (use ij in auto)
  qed
  then show "distinct (map bm_current links)" by (simp add: links distinct_map)
  have "inj_on (bm_previous \<circ> linked C' old cur m t) ?ix"
  proof (rule inj_onI)
    fix i j assume ij: "i \<in> ?ix" "j \<in> ?ix"
      "(bm_previous \<circ> linked C' old cur m t) i = (bm_previous \<circ> linked C' old cur m t) j"
    then have "rb_ref (old ! partner m i) = rb_ref (old ! partner m j)" using linked_ends[OF ok] by auto
    then have "partner m i = partner m j"
      by (rule inj_onD[OF refs_inj[OF d(1)]]) (use ij linked_ends(3)[OF ok] in auto)
    then show "i = j" by (rule inj_onD[OF partner_inj[OF ok]]) (use ij in auto)
  qed
  then show "distinct (map bm_previous links)" by (simp add: links distinct_map)
qed

lemma link_count:
  assumes "matching_ok C old cur m"
  shows "length (filter (matched m) [0..<length cur]) \<le> length old"
    and "length (filter (matched m) [0..<length cur]) + length (unassigned cur m) = length cur"
proof -
  let ?ix = "filter (matched m) [0..<length cur]"
  have "partner m ` set ?ix \<subseteq> {..<length old}" using linked_ends(3)[OF assms] by auto
  moreover have "inj_on (partner m) (set ?ix)" using partner_inj[OF assms] by (rule inj_on_subset) auto
  ultimately have "card (set ?ix) \<le> length old" by (metis card_inj_on_le card_lessThan finite_lessThan)
  then show "length ?ix \<le> length old" by (subst distinct_card[symmetric]) auto
  show "length ?ix + length (unassigned cur m) = length cur"
    using sum_length_filter_compl[of "matched m" "[0..<length cur]"]
    by (simp add: unassigned_def matched_def del: not_None_eq)
qed

text \<open>The binding of a reusable link is a binding of the current side.\<close>

lemma reusable_binding:
  assumes "matching_ok C old cur m" "matched m i" "bm_reusable (linked C' old cur m t i)"
  shows "mb_binding (make_membership C' (cur ! i) (lineage_of C' old cur m i) run) =
    evidence_binding_id C' (bm_lineage (linked C' old cur m t i)) (bm_previous_hash (linked C' old cur m t i))"
  using assms(1,2)
proof (rule matchedE[where C' = C' and t = t])
  fix me ppm
  assume "map_of (ma_assign m) i = Some (partner m i, me, ppm)"
    "linked C' old cur m t i =
       make_match C' (old ! partner m i) (cur ! i) (previous_lineage C' (old ! partner m i)) me ppm t"
  then show ?thesis using assms(3) by (simp add: lineage_of_def make_membership_def)
qed

end
