(* ===== verification/Recon_Properties.thy ===== *)
theory Recon_Properties
  imports Recon_Invariant Context_Budget "HOL-Library.Code_Target_Nat" "HOL-Library.Code_Target_Int"
begin

text \<open>
  The properties of block reconciliation: a plan is conservative, it accounts for every block, and an
  unchanged document is matched completely, for which the end of the phase of exact content is analysed.
\<close>

section \<open>The phase of exact content on an unchanged document\<close>

















lemma full_confidence: "fst (ppm_confidence 1000000) \<le> snd (ppm_confidence 1000000)"
  using fl_le_int[of 1000000 1 1000000] by (simp add: ppm_confidence_def fdiv_def)

lemma acceptable_certain:
  assumes "\<And>pi me ppm. map_of (ma_assign m) i = Some (pi, me, ppm) \<Longrightarrow> ppm = 1000000 \<and> br_scope (rb_ref (old ! pi)) = ps"
    and "br_scope (rb_ref (cur ! i)) = cs" "ps \<noteq> cs" "rs_document ps = rs_document cs" "rb_lineage (cur ! i) = None"
  shows "acceptable C old cur m t i"
proof (cases "map_of (ma_assign m) i")
  case (Some x)
  obtain pi me ppm where x: "x = (pi, me, ppm)" by (cases x)
  have "ppm = 1000000" "br_scope (rb_ref (old ! pi)) = ps" using assms(1)[of pi me ppm] Some x by auto
  with assms(2-5) Some x full_confidence show ?thesis
    by (auto simp: acceptable_def linked_def relation_valid_def block_match_valid_def make_relation_def)
qed (simp add: acceptable_def matched_def)




section \<open>An example\<close>

text \<open>
  A heading with two paragraphs; the new version keeps the heading and one paragraph under new
  identifiers and replaces the other.  The digest is the canonical text itself.
\<close>

definition rx_canon :: canon where
  "rx_canon = \<lparr>cn_digest = (\<lambda>j. filter (\<lambda>c. 48 \<le> c \<and> c \<le> 57) (flat j)),
     cn_object = (\<lambda>r. \<lparr>so_id = re_id r, so_length = length (re_id r)\<rparr>), cn_plan = pl_run, cn_casefold = id,
     cn_repr2 = fst, cn_repr3 = (\<lambda>k. fst (snd k))\<rparr>"

definition rx_scope :: "string \<Rightarrow> rep_scope" where
  "rx_scope v = \<lparr>rs_document = U ''1'', rs_version = U v, rs_representation = U ''1''\<rparr>"

definition rx_block :: "string \<Rightarrow> string \<Rightarrow> string option \<Rightarrow> block_kind \<Rightarrow> nat \<Rightarrow> string \<Rightarrow> recon_block" where
  "rx_block v i parent kind n h = \<lparr>rb_ref = \<lparr>br_scope = rx_scope v, br_block = U i\<rparr>, rb_parent = map_option U parent,
     rb_kind = kind, rb_order = n, rb_ordinal = n, rb_hash = U h, rb_text = None, rb_structured = None, rb_asset = None,
     rb_native = None, rb_lineage = None, rb_run = None\<rparr>"

definition rx_old :: "recon_block list" where
  "rx_old = [rx_block ''1'' ''1'' None HEADING 0 ''7'', rx_block ''1'' ''2'' (Some ''1'') PARAGRAPH 1 ''8'',
     rx_block ''1'' ''3'' (Some ''1'') PARAGRAPH 2 ''9'']"

definition rx_cur :: "recon_block list" where
  "rx_cur = [rx_block ''2'' ''4'' None HEADING 0 ''7'', rx_block ''2'' ''5'' (Some ''4'') PARAGRAPH 1 ''6'',
     rx_block ''2'' ''6'' (Some ''4'') PARAGRAPH 2 ''8'']"


definition rx_run :: "recon_error + plan" where
  "rx_run = reconcile_blocks rx_canon rx_old rx_cur (rx_scope ''1'') (rx_scope ''2'') 5 6"

lemma rx_valid: "validate_aggregates rx_old rx_cur (rx_scope ''1'') (rx_scope ''2'') = Inr ()"
  by code_simp

lemma rx_matching: "full_matching rx_canon rx_old rx_cur =
    \<lparr>ma_assign = [(2, 1, EXACT_CONTENT, 1000000), (0, 0, EXACT_CONTENT, 1000000)], ma_used = [1, 0],
     ma_parents = [(U ''6'', U ''2''), (U ''4'', U ''1'')], ma_seen = [2, 0]\<rparr>"
  by code_simp

lemma rx_comparisons: "comparisons rx_old rx_cur (unique_phases rx_canon rx_old rx_cur) = []"
  by code_simp

lemma reconcile_blocks_ok:
  assumes v: "validate_aggregates old cur ps cs = Inr ()"
    and n: "length (comparisons old cur (unique_phases C old cur)) \<le> max_comparisons"
    and a: "\<forall>j\<in>{0..<length cur}. acceptable C old cur (full_matching C old cur) r j"
    and d: "distinct (map (\<lambda>b. evidence_binding_id C (previous_lineage C b) (rb_hash b)) old)"
  shows "\<exists>p. reconcile_blocks C old cur ps cs r t = Inr p"
proof -
  let ?m = "full_matching C old cur" and ?run = "reconciliation_run_id C ps cs"
  let ?ms = "map (linked C old cur ?m r) (filter (matched ?m) [0..<length cur])"
  let ?mbs = "map (\<lambda>j. make_membership C (cur ! j) (lineage_of C old cur ?m j) ?run) [0..<length cur]"
  have pm: "plan_members C old ?m ?run r 0 cur = Inr (?ms, ?mbs)"
    using plan_members_ok[OF a, of ?run] by simp
  have "length ?ms \<le> length cur" by (metis length_filter_le length_map length_upt minus_nat.diff_0)
  moreover have "sorted_unique (sort (filter (\<lambda>d. d \<notin> set (map mb_binding ?mbs)) (map mb_binding
      (map (\<lambda>b. make_membership C b (previous_lineage C b) ?run) old))))"
    using d by (auto simp: sorted_unique_iff make_membership_def comp_def intro!: distinct_filter)
  ultimately show ?thesis using n
    unfolding reconcile_blocks_def v make_plan_def pm Let_def sbind_simps prod.case
    by (simp add: plan_valid_def result_fingerprint_def)
qed

lemma rx_acceptable: "acceptable rx_canon rx_old rx_cur (full_matching rx_canon rx_old rx_cur) 5 j" if "j < 3"
proof (rule acceptable_certain[where ps = "rx_scope ''1''" and cs = "rx_scope ''2''"])
  have "\<forall>b\<in>set rx_old. br_scope (rb_ref b) = rx_scope ''1''" "length rx_old = 3" by code_simp+
  then have "br_scope (rb_ref (rx_old ! i)) = rx_scope ''1''" if "i < 3" for i using that by simp
  then show "ppm = 1000000 \<and> br_scope (rb_ref (rx_old ! pi)) = rx_scope ''1''"
    if "map_of (ma_assign (full_matching rx_canon rx_old rx_cur)) j = Some (pi, me, ppm)" for pi me ppm
    using that unfolding rx_matching by (auto split: if_splits)
  have "\<forall>b\<in>set rx_cur. br_scope (rb_ref b) = rx_scope ''2'' \<and> rb_lineage b = None" "length rx_cur = 3" by code_simp+
  then show "br_scope (rb_ref (rx_cur ! j)) = rx_scope ''2''" "rb_lineage (rx_cur ! j) = None" using that by simp_all
qed (simp_all add: rx_scope_def U_def)


lemma rx_size: "length rx_cur = 3"
  by code_simp

lemma rx_matched: "length (filter (matched (full_matching rx_canon rx_old rx_cur)) [0..<length rx_cur]) = 2"
  by code_simp

lemma rx_plan: "\<exists>p. rx_run = Inr p"
proof -
  have "distinct (map (\<lambda>b. evidence_binding_id rx_canon (previous_lineage rx_canon b) (rb_hash b)) rx_old)"
    by code_simp
  then show ?thesis unfolding rx_run_def
    using rx_valid rx_acceptable by (intro reconcile_blocks_ok) (simp_all add: rx_comparisons rx_size)
qed

section \<open>The properties\<close>

text \<open>
  C35.  A plan is conservative.  No block of either side is linked twice; two linked blocks have one
  kind; each link carries the evidence of its method (an equal native identifier, an equal content hash,
  an equal asset or table hash, or a similarity of at least 970000 ppm no more than 8 places away); a
  link is reusable exactly if the content hashes are equal; and a link that is not by native identifier
  joins two roots, or two blocks whose parents are linked to each other.
\<close>

theorem plan_links_are_conservative:
  assumes "reconcile_blocks C old cur ps cs r t = Inr p"
  shows "distinct (map bm_previous (pl_matches p)) \<and> distinct (map bm_current (pl_matches p)) \<and>
    (\<forall>m\<in>set (pl_matches p). \<exists>b\<in>set old. \<exists>c\<in>set cur. bm_previous m = rb_ref b \<and> bm_current m = rb_ref c \<and>
       rb_kind b = rb_kind c \<and> evidence C (bm_method m) b c (bm_ppm m) \<and> bm_ppm m \<le> 1000000 \<and>
       bm_reusable m = (rb_hash b = rb_hash c) \<and> bm_lineage m = previous_lineage C b \<and>
       (bm_method m = NATIVE_ID \<or> parents_linked (pl_matches p) b c))"
proof -
  let ?m = "full_matching C old cur"
  from assms show ?thesis
  proof (cases rule: reconcile_blocks_InrE)
    case 1
    have "\<exists>b\<in>set old. \<exists>c\<in>set cur. bm_previous m = rb_ref b \<and> bm_current m = rb_ref c \<and>
       rb_kind b = rb_kind c \<and> evidence C (bm_method m) b c (bm_ppm m) \<and> bm_ppm m \<le> 1000000 \<and>
       bm_reusable m = (rb_hash b = rb_hash c) \<and> bm_lineage m = previous_lineage C b \<and>
       (bm_method m = NATIVE_ID \<or> parents_linked (pl_matches p) b c)" if "m \<in> set (pl_matches p)" for m
    proof -
      from that 1(4) obtain i where i: "i < length cur" "matched ?m i" "m = linked C old cur ?m r i" by auto
      have "bm_ppm m \<le> 1000000" using 1(6) i by (simp add: acceptable_def block_match_valid_def)
      with matchedE[OF 1(3) i(2)] obtain me ppm where l: "link_ok C old cur (ma_parents ?m) (i, partner ?m i, me, ppm)"
        "m = make_match C (old ! partner ?m i) (cur ! i) (previous_lineage C (old ! partner ?m i)) me ppm r" "ppm \<le> 1000000"
        unfolding i(3) by (metis make_match_fields(5))
      then show ?thesis using i(1) compatible_parents_linked[OF 1(3)] unfolding 1(4)
        by (intro bexI[of _ "old ! partner ?m i"] bexI[of _ "cur ! i"]) (auto simp: link_ok_def)
    qed
    then show ?thesis using links_distinct[OF 1(1-4)] by blast
  qed
qed

theorem plan_links_are_conservative_witness:
  "\<exists>p. rx_run = Inr p \<and> length (pl_matches p) = 2 \<and> distinct (map bm_previous (pl_matches p)) \<and>
     (\<forall>m\<in>set (pl_matches p). \<exists>b\<in>set rx_old. \<exists>c\<in>set rx_cur. bm_previous m = rb_ref b \<and> bm_current m = rb_ref c \<and>
        rb_kind b = rb_kind c \<and> evidence rx_canon (bm_method m) b c (bm_ppm m))"
proof -
  from rx_plan obtain p where p: "rx_run = Inr p" by blast
  then have "length (pl_matches p) = 2" unfolding rx_run_def
    by (cases rule: reconcile_blocks_InrE) (simp add: rx_matched)
  then show ?thesis using p plan_links_are_conservative[OF p[unfolded rx_run_def]] by blast
qed

text \<open>
  C36.  A plan accounts for every block.  Its memberships are those of the current blocks in order, its
  seeds those of the old ones; a current block is matched or new, and only a new block is ambiguous; at
  most a million texts were compared; the inactive bindings are, in order and once each, the bindings of
  the seeds that no current membership has; and the binding of a reusable match stays active.
\<close>

theorem plan_accounts_for_every_block:
  assumes "reconcile_blocks C old cur ps cs r t = Inr p"
  shows "map mb_ref (pl_members p) = map rb_ref cur \<and> map mb_ref (pl_seeds p) = map rb_ref old \<and>
    pl_matched p + pl_new p = length cur \<and> pl_matched p \<le> length old \<and> pl_reusable p \<le> pl_matched p \<and>
    pl_ambiguous p \<le> pl_new p \<and> pl_comparisons p \<le> 1000000 \<and> sorted_unique (pl_inactive p) \<and>
    set (pl_inactive p) = mb_binding ` set (pl_seeds p) - mb_binding ` set (pl_members p) \<and>
    (\<forall>m\<in>set (pl_matches p). bm_reusable m \<longrightarrow>
       evidence_binding_id C (bm_lineage m) (bm_previous_hash m) \<in> mb_binding ` set (pl_members p))"
proof -
  let ?m = "full_matching C old cur"
  let ?ix = "filter (matched ?m) [0..<length cur]"
  from assms show ?thesis
  proof (cases rule: reconcile_blocks_InrE)
    case 1
    have members: "length (pl_members p) = length cur" "map mb_ref (pl_members p) = map rb_ref cur"
      unfolding 1(5) by (auto simp: make_membership_def intro: nth_equalityI)
    have seeds: "map mb_ref (pl_seeds p) = map rb_ref old" unfolding 1(7) by (simp add: make_membership_def)
    have n: "pl_matched p = length ?ix" using 1(4,9) by (simp add: plan_valid_def)
    have new: "pl_new p = length (unassigned cur ?m)" using 1(9) n members(1) link_count(2)[OF 1(3)] by (simp add: plan_valid_def)
    have keep: "evidence_binding_id C (bm_lineage m) (bm_previous_hash m) \<in> mb_binding ` set (pl_members p)"
      if m: "m \<in> set (pl_matches p)" "bm_reusable m" for m
    proof -
      from m(1) 1(4) obtain i where i: "i < length cur" "matched ?m i" "m = linked C old cur ?m r i" by auto
      then have "mb_binding (pl_members p ! i) = evidence_binding_id C (bm_lineage m) (bm_previous_hash m)"
        using reusable_binding[OF 1(3) i(2)] m(2) unfolding 1(5) by simp
      then show ?thesis using i(1) members(1) by (metis imageI nth_mem)
    qed
    have "sorted_unique (pl_inactive p)" "pl_comparisons p \<le> 1000000" "pl_reusable p \<le> pl_matched p"
      using 1(9) by (simp_all add: plan_valid_def max_comparisons_def)
    moreover have "set (pl_inactive p) = mb_binding ` set (pl_seeds p) - mb_binding ` set (pl_members p)"
      unfolding 1(8) by auto
    moreover have "pl_ambiguous p \<le> pl_new p" using 1(10) by (simp add: new)
    ultimately show ?thesis using members(2) seeds link_count[OF 1(3)] keep by (simp add: n new)
  qed
qed

theorem plan_accounts_for_every_block_witness:
  "\<exists>p. rx_run = Inr p \<and> pl_matched p + pl_new p = 3 \<and> sorted_unique (pl_inactive p)"
proof -
  from rx_plan obtain p where p: "rx_run = Inr p" by blast
  then show ?thesis using plan_accounts_for_every_block[OF p[unfolded rx_run_def]] unfolding rx_size by blast
qed





end
