(* ===== verification/Derivation_Domain.thy ===== *)
theory Derivation_Domain
  imports Recon_Domain Job_Domain Context_Budget
begin

text \<open>
  Records of derived artifacts (\<open>domain/derivation.py\<close>, \<open>domain/derivation_lifecycle.py\<close>) and their
  validators: the generation record with its recipe, the dependencies, the slot, a publication, the
  lifecycle node and its events.  \<open>dcanon\<close> holds the digest of canonical JSON values, the canonical
  text of a record with the hash of its bytes, and the fingerprint of a node.
\<close>

section \<open>Generation records\<close>

datatype record_state = R_PENDING | R_READY | R_FAILED | R_STALE | R_REVOKED

record component =
  cp_name :: pystr
  cp_version :: pystr
  cp_profile :: "pystr option"

text \<open>\<open>dv_rest\<close> is what the code only carries: schema version, quality signals, trust, extensions.\<close>

record deriv_record =
  dv_artifact :: pystr
  dv_state :: record_state
  dv_generator :: component
  dv_model :: "pystr option"
  dv_inputs :: "pystr list"
  dv_config :: pystr
  dv_prompt :: "pystr option"
  dv_created :: int
  dv_completed :: "int option"
  dv_output :: "pystr option"
  dv_zone :: trust_zone
  dv_rest :: json

section \<open>Dependencies, slots, publications and nodes\<close>

datatype dep_kind = EVIDENCE_BINDING | OBJECT | DERIVATION_OUTPUT

record dependency =
  dp_ordinal :: nat
  dp_kind :: dep_kind
  dp_digest :: pystr
  dp_producer :: "pystr option"

record slot =
  sl_id :: pystr
  sl_namespace :: pystr
  sl_subject :: pystr
  sl_purpose :: pystr

record publication =
  pb_record :: deriv_record
  pb_object :: stored_object
  pb_output :: "stored_object option"
  pb_deps :: "dependency list"
  pb_slot :: slot
  pb_failure :: "pystr option"
  pb_at :: int

datatype node_state = N_CURRENT | N_STALE | N_FAILED | N_SUPERSEDED

record node =
  nd_artifact :: pystr
  nd_slot :: slot
  nd_state :: node_state
  nd_record :: deriv_record
  nd_object :: stored_object
  nd_output :: "stored_object option"
  nd_deps :: "dependency list"
  nd_revision :: nat
  nd_created :: int
  nd_updated :: int
  nd_failure :: "pystr option"
  nd_fingerprint :: pystr

record dcanon =
  dc_canon :: canon
  dc_text :: "deriv_record \<Rightarrow> pystr"
  dc_sha :: "pystr \<Rightarrow> pystr"
  dc_node :: "node \<Rightarrow> pystr"

section \<open>Identities\<close>

definition derivation_artifact_id :: "dcanon \<Rightarrow> deriv_record \<Rightarrow> pystr" where
  "derivation_artifact_id D r = identity_digest (dc_canon D) ''openardp:derivation'' (JObj
     [(U ''input_hashes'', JArr (map JStr (dv_inputs r))),
      (U ''generator'', JObj [(U ''name'', JStr (cp_name (dv_generator r))),
         (U ''version'', JStr (cp_version (dv_generator r))),
         (U ''profile'', j_opt JStr (cp_profile (dv_generator r)))]),
      (U ''model_id'', j_opt JStr (dv_model r)), (U ''config_hash'', JStr (dv_config r)),
      (U ''prompt_hash'', j_opt JStr (dv_prompt r))])"

definition derivation_slot_id :: "dcanon \<Rightarrow> slot \<Rightarrow> pystr" where
  "derivation_slot_id D s = identity_digest (dc_canon D) ''openardp:derivation-slot'' (JObj
     [(U ''namespace'', JStr (sl_namespace s)), (U ''subject_digest'', JStr (sl_subject s)),
      (U ''purpose'', JStr (sl_purpose s))])"

definition record_object :: "dcanon \<Rightarrow> deriv_record \<Rightarrow> stored_object" where
  "record_object D r = \<lparr>so_id = dc_sha D (dc_text D r), so_length = utf8_bytes (dc_text D r)\<rparr>"

definition node_fingerprint :: "dcanon \<Rightarrow> node \<Rightarrow> pystr" where
  "node_fingerprint D n = dc_node D (n\<lparr>nd_fingerprint := []\<rparr>)"

section \<open>Validators\<close>

definition deriv_record_valid :: "dcanon \<Rightarrow> deriv_record \<Rightarrow> bool" where
  "deriv_record_valid D r \<longleftrightarrow> dv_inputs r \<noteq> [] \<and> distinct (dv_inputs r) \<and>
     dv_artifact r = derivation_artifact_id D r \<and>
     (case dv_completed r of None \<Rightarrow> True | Some t \<Rightarrow> dv_created r \<le> t) \<and>
     (case dv_state r of
        R_PENDING \<Rightarrow> dv_completed r = None \<and> dv_output r = None
      | R_FAILED \<Rightarrow> dv_completed r \<noteq> None \<and> dv_output r = None
      | _ \<Rightarrow> dv_completed r \<noteq> None \<and> dv_output r \<noteq> None) \<and>
     dv_zone r = MODEL_DERIVED"

definition dependency_valid :: "dependency \<Rightarrow> bool" where
  "dependency_valid d \<longleftrightarrow> dp_ordinal d \<le> 100000 \<and> (dp_producer d \<noteq> None) = (dp_kind d = DERIVATION_OUTPUT)"

text \<open>\<open>^[a-z0-9](?:[a-z0-9.-]{0,126}[a-z0-9])?$\<close>, as a full match.\<close>

definition slot_token :: "pystr \<Rightarrow> bool" where
  "slot_token s \<longleftrightarrow> s \<noteq> [] \<and> length s \<le> 128 \<and> (lower_ascii (hd s) \<or> digit_ascii (hd s)) \<and>
     (lower_ascii (last s) \<or> digit_ascii (last s)) \<and>
     list_all (\<lambda>c. lower_ascii c \<or> digit_ascii c \<or> c \<in> set (U ''.-'')) s"

definition slot_valid :: "dcanon \<Rightarrow> slot \<Rightarrow> bool" where
  "slot_valid D s \<longleftrightarrow> slot_token (sl_namespace s) \<and> slot_token (sl_purpose s) \<and> sl_id s = derivation_slot_id D s"

definition publication_valid :: "dcanon \<Rightarrow> publication \<Rightarrow> bool" where
  "publication_valid D p \<longleftrightarrow> deriv_record_valid D (pb_record p) \<and> slot_valid D (pb_slot p) \<and>
     list_all dependency_valid (pb_deps p) \<and>
     (case pb_failure p of None \<Rightarrow> True | Some c \<Rightarrow> machine_token c) \<and>
     pb_object p = record_object D (pb_record p) \<and>
     map dp_ordinal (pb_deps p) = [0..<length (pb_deps p)] \<and>
     map dp_digest (pb_deps p) = dv_inputs (pb_record p) \<and>
     dv_created (pb_record p) \<le> pb_at p \<and>
     (case dv_completed (pb_record p) of None \<Rightarrow> True | Some t \<Rightarrow> t \<le> pb_at p) \<and>
     (case dv_state (pb_record p) of
        R_READY \<Rightarrow> pb_output p \<noteq> None \<and> dv_output (pb_record p) = map_option so_id (pb_output p) \<and> pb_failure p = None
      | R_FAILED \<Rightarrow> pb_output p = None \<and> pb_failure p \<noteq> None
      | _ \<Rightarrow> False)"

text \<open>The publication a node's validator rebuilds.\<close>

definition publication_of :: "node \<Rightarrow> publication" where
  "publication_of n = \<lparr>pb_record = nd_record n, pb_object = nd_object n, pb_output = nd_output n,
     pb_deps = nd_deps n, pb_slot = nd_slot n, pb_failure = nd_failure n, pb_at = nd_created n\<rparr>"

definition node_valid :: "dcanon \<Rightarrow> node \<Rightarrow> bool" where
  "node_valid D n \<longleftrightarrow> 1 \<le> nd_revision n \<and> nd_artifact n = dv_artifact (nd_record n) \<and> nd_created n \<le> nd_updated n \<and>
     publication_valid D (publication_of n) \<and>
     dv_state (nd_record n) = (if nd_state n = N_FAILED then R_FAILED else R_READY) \<and>
     nd_fingerprint n = node_fingerprint D n"

section \<open>Events\<close>

datatype event_reason = PUBLISHED | GENERATION_FAILED | DEPENDENCY_INACTIVE | REACTIVATED | SLOT_REPLACED

record deriv_event =
  de_artifact :: pystr
  de_sequence :: nat
  de_from :: "node_state option"
  de_to :: node_state
  de_reason :: event_reason
  de_run :: "pystr option"
  de_at :: int

definition deriv_event_valid :: "deriv_event \<Rightarrow> bool" where
  "deriv_event_valid e \<longleftrightarrow> 1 \<le> de_sequence e \<and> de_from e \<noteq> Some (de_to e) \<and>
     (if de_from e = None
      then de_reason e = (if de_to e = N_FAILED then GENERATION_FAILED else PUBLISHED) \<and> de_run e = None
      else if de_reason e \<in> {DEPENDENCY_INACTIVE, REACTIVATED} then de_run e \<noteq> None
      else de_run e = None)"

section \<open>Results\<close>

datatype disposition = COMMITTED | CONVERGED

record publication_result =
  pr_disposition :: disposition
  pr_node :: node
  pr_superseded :: "pystr list"

definition publication_result_valid :: "publication_result \<Rightarrow> bool" where
  "publication_result_valid r \<longleftrightarrow> sorted_unique (pr_superseded r) \<and>
     nd_artifact (pr_node r) \<notin> set (pr_superseded r) \<and> (pr_disposition r = CONVERGED \<longrightarrow> pr_superseded r = [])"

text \<open>The validator of a reconciliation result, on the two lists of artifact identifiers.\<close>

definition transition_ids_canonical :: "pystr list \<Rightarrow> pystr list \<Rightarrow> bool" where
  "transition_ids_canonical stale reactivated \<longleftrightarrow> sorted_unique stale \<and> sorted_unique reactivated \<and>
     set stale \<inter> set reactivated = {}"

section \<open>Nodes from publications and transitions\<close>

definition sealed :: "dcanon \<Rightarrow> node \<Rightarrow> node" where
  "sealed D n = n\<lparr>nd_fingerprint := node_fingerprint D n\<rparr>"

definition node_from_publication :: "dcanon \<Rightarrow> publication \<Rightarrow> node" where
  "node_from_publication D p = sealed D \<lparr>nd_artifact = dv_artifact (pb_record p), nd_slot = pb_slot p,
     nd_state = (if pb_output p \<noteq> None then N_CURRENT else N_FAILED), nd_record = pb_record p,
     nd_object = pb_object p, nd_output = pb_output p, nd_deps = pb_deps p, nd_revision = 1,
     nd_created = pb_at p, nd_updated = pb_at p, nd_failure = pb_failure p, nd_fingerprint = []\<rparr>"

definition moved :: "dcanon \<Rightarrow> node_state \<Rightarrow> int \<Rightarrow> node \<Rightarrow> node" where
  "moved D to_state at n = sealed D (n\<lparr>nd_state := to_state, nd_revision := nd_revision n + 1, nd_updated := at\<rparr>)"

definition publication_matches :: "node \<Rightarrow> publication \<Rightarrow> bool" where
  "publication_matches n p \<longleftrightarrow> nd_record n = pb_record p \<and> nd_object n = pb_object p \<and> nd_output n = pb_output p \<and>
     nd_deps n = pb_deps p \<and> nd_slot n = pb_slot p \<and> nd_failure n = pb_failure p"

lemma sealed_fields [simp]:
  "nd_artifact (sealed D n) = nd_artifact n" "nd_slot (sealed D n) = nd_slot n" "nd_state (sealed D n) = nd_state n"
  "nd_record (sealed D n) = nd_record n" "nd_object (sealed D n) = nd_object n" "nd_output (sealed D n) = nd_output n"
  "nd_deps (sealed D n) = nd_deps n" "nd_revision (sealed D n) = nd_revision n" "nd_created (sealed D n) = nd_created n"
  "nd_updated (sealed D n) = nd_updated n" "nd_failure (sealed D n) = nd_failure n"
  "nd_fingerprint (sealed D n) = node_fingerprint D n" "node_fingerprint D (sealed D n) = node_fingerprint D n"
  "publication_of (sealed D n) = publication_of n"
  by (simp_all add: sealed_def node_fingerprint_def publication_of_def)

lemma published_node_valid:
  assumes "publication_valid D p" shows "node_valid D (node_from_publication D p)"
proof -
  have "publication_of (node_from_publication D p) = p"
    by (simp add: node_from_publication_def publication_of_def)
  moreover have "dv_state (pb_record p) = (if pb_output p \<noteq> None then R_READY else R_FAILED)"
    using assms by (auto simp: publication_valid_def split: record_state.splits)
  ultimately show ?thesis using assms by (auto simp: node_valid_def node_from_publication_def)
qed

lemma moved_valid:
  "node_valid D n \<Longrightarrow> nd_state n \<noteq> N_FAILED \<Longrightarrow> to_state \<noteq> N_FAILED \<Longrightarrow>
   node_valid D (moved D to_state at n) \<longleftrightarrow> nd_created n \<le> at"
  by (auto simp: node_valid_def moved_def publication_of_def)

end
