(* ===== verification/Derivation_Catalog.thy ===== *)
theory Derivation_Catalog
  imports Derivation_Domain
begin

text \<open>
  The evidence tables and the derivation transactions (\<open>adapters/sqlite_catalog_derivations.py\<close>):
  loading and validating a node, moving it through its lifecycle with an event, checking the
  dependencies of a publication and publishing.  A table is a list of rows in insertion order; a
  transaction that raises rolls back, so an error carries no catalog.
\<close>

section \<open>Tables\<close>

record slot_row =
  sr_slot :: slot
  sr_current :: "pystr option"
  sr_created :: int
  sr_updated :: int

text \<open>The columns that repeat the recipe of the stored record.\<close>

type_synonym recipe = "component \<times> pystr option \<times> pystr \<times> pystr option \<times> int \<times> int option"

definition recipe_of :: "deriv_record \<Rightarrow> recipe" where
  "recipe_of r = (dv_generator r, dv_model r, dv_config r, dv_prompt r, dv_created r, dv_completed r)"

record node_row =
  nr_artifact :: pystr
  nr_slot :: pystr
  nr_state :: node_state
  nr_object :: pystr
  nr_record :: deriv_record
  nr_output :: "pystr option"
  nr_recipe :: recipe
  nr_revision :: nat
  nr_created :: int
  nr_updated :: int
  nr_failure :: "pystr option"
  nr_fingerprint :: pystr

record run_row =
  rr_run :: pystr
  rr_previous :: rep_scope
  rr_current :: rep_scope
  rr_algorithm :: pystr
  rr_config :: pystr
  rr_fingerprint :: pystr
  rr_matched :: nat
  rr_reusable :: nat
  rr_new :: nat
  rr_ambiguous :: nat
  rr_comparisons :: nat
  rr_created :: int

record lineage_row =
  lr_lineage :: pystr
  lr_origin :: block_ref
  lr_run :: pystr
  lr_created :: int

record relation_row =
  xr_relation :: pystr
  xr_run :: pystr
  xr_object :: pystr
  xr_method :: match_method
  xr_ppm :: nat
  xr_reusable :: bool
  xr_previous :: block_ref
  xr_current :: block_ref

text \<open>
  Representations with the time they became ready, the projected blocks of a representation in order,
  and the head of each document belong to the ingestion of documents; here they are only read.
\<close>

record evidence_catalog =
  ec_objects :: "stored_object list"
  ec_slots :: "slot_row list"
  ec_nodes :: "node_row list"
  ec_deps :: "(pystr \<times> dependency) list"
  ec_events :: "deriv_event list"
  ec_runs :: "run_row list"
  ec_lineages :: "lineage_row list"
  ec_members :: "membership list"
  ec_relations :: "relation_row list"
  ec_ready :: "(rep_scope \<times> int option) list"
  ec_blocks :: "block_ref list"
  ec_heads :: "rep_scope list"

datatype evidence_error =
    DerivationConflict string | DerivationDependencyError string | DerivationCycleError string
  | DerivationIntegrityError string | InvalidObjectReference | ReconciliationConflict string
  | ReconciliationScopeError string | ReconciliationIntegrityError string | RepresentationNotFound
  | RepresentationIncomplete | ValidationError | IntegrityError | TypeError

section \<open>Reading\<close>

definition find_node :: "evidence_catalog \<Rightarrow> pystr \<Rightarrow> node_row option" where
  "find_node c a = find (\<lambda>r. nr_artifact r = a) (ec_nodes c)"

definition find_slot :: "evidence_catalog \<Rightarrow> pystr \<Rightarrow> slot_row option" where
  "find_slot c i = find (\<lambda>s. sl_id (sr_slot s) = i) (ec_slots c)"

definition find_object :: "evidence_catalog \<Rightarrow> pystr \<Rightarrow> stored_object option" where
  "find_object c i = find (\<lambda>x. so_id x = i) (ec_objects c)"

definition state_of :: "evidence_catalog \<Rightarrow> pystr \<Rightarrow> node_state option" where
  "state_of c a = map_option nr_state (find_node c a)"

definition deps_of :: "evidence_catalog \<Rightarrow> pystr \<Rightarrow> dependency list" where
  "deps_of c a = sort_key dp_ordinal (map snd (filter (\<lambda>(x, _). x = a) (ec_deps c)))"

definition active_binding :: "evidence_catalog \<Rightarrow> pystr \<Rightarrow> bool" where
  "active_binding c d \<longleftrightarrow> list_ex (\<lambda>m. mb_binding m = d \<and> br_scope (mb_ref m) \<in> set (ec_heads c)) (ec_members c)"

definition node_of_row :: "node_row \<Rightarrow> slot \<Rightarrow> stored_object \<Rightarrow> stored_object option \<Rightarrow> dependency list \<Rightarrow> node" where
  "node_of_row r s object out deps = \<lparr>nd_artifact = nr_artifact r, nd_slot = s, nd_state = nr_state r,
     nd_record = nr_record r, nd_object = object, nd_output = out, nd_deps = deps, nd_revision = nr_revision r,
     nd_created = nr_created r, nd_updated = nr_updated r, nd_failure = nr_failure r,
     nd_fingerprint = nr_fingerprint r\<rparr>"

definition output_of :: "evidence_catalog \<Rightarrow> node_row \<Rightarrow> evidence_error + stored_object option" where
  "output_of c r = (case nr_output r of
       None \<Rightarrow> Inr None
     | Some i \<Rightarrow> (case find_object c i of None \<Rightarrow> Inl TypeError | Some x \<Rightarrow> Inr (Some x)))"

definition load_derivation :: "dcanon \<Rightarrow> evidence_catalog \<Rightarrow> pystr \<Rightarrow> evidence_error + node option" where
  "load_derivation D c a = (case find_node c a of
       None \<Rightarrow> Inr None
     | Some r \<Rightarrow> (case (find_object c (nr_object r), find_slot c (nr_slot r)) of
         (Some x, Some s) \<Rightarrow>
           if nr_recipe r \<noteq> recipe_of (nr_record r)
           then Inl (DerivationIntegrityError ''stored derivation recipe columns drifted'')
           else sbind (output_of c r) (\<lambda>out.
             let n = node_of_row r (sr_slot s) x out (deps_of c a)
             in if \<not> node_valid D n then Inl (DerivationIntegrityError ''stored derivation node is invalid'')
                else if nd_state n = N_CURRENT \<and> sr_current s \<noteq> Some a
                then Inl (DerivationIntegrityError ''current derivation slot pointer drifted'')
                else Inr (Some n))
       | _ \<Rightarrow> Inr None))"

fun event_chain :: "deriv_event list \<Rightarrow> bool" where
  "event_chain (e # f # es) \<longleftrightarrow> de_from f = Some (de_to e) \<and> event_chain (f # es)"
| "event_chain _ \<longleftrightarrow> True"

definition events_of :: "evidence_catalog \<Rightarrow> pystr \<Rightarrow> deriv_event list" where
  "events_of c a = sort_key de_sequence (filter (\<lambda>e. de_artifact e = a) (ec_events c))"

definition load_events :: "dcanon \<Rightarrow> evidence_catalog \<Rightarrow> pystr \<Rightarrow> evidence_error + deriv_event list" where
  "load_events D c a = (let es = events_of c a
     in if \<not> list_all deriv_event_valid es then Inl (DerivationIntegrityError ''stored derivation event is invalid'')
        else if \<not> event_chain es then Inl (DerivationIntegrityError ''derivation event chain drifted'')
        else if es = [] then Inr []
        else sbind (load_derivation D c a) (\<lambda>n.
          if map_option nd_state n \<noteq> Some (de_to (last es))
          then Inl (DerivationIntegrityError ''derivation event terminal state drifted'') else Inr es))"

section \<open>Constraints\<close>

definition size_between :: "nat \<Rightarrow> nat \<Rightarrow> pystr \<Rightarrow> bool" where
  "size_between lo hi s \<longleftrightarrow> lo \<le> length s \<and> length s \<le> hi"

definition opt_all :: "('a \<Rightarrow> bool) \<Rightarrow> 'a option \<Rightarrow> bool" where
  "opt_all p x = (case x of None \<Rightarrow> True | Some a \<Rightarrow> p a)"

definition node_row_check :: "dcanon \<Rightarrow> node_row \<Rightarrow> bool" where
  "node_row_check D r \<longleftrightarrow> size_between 2 1048576 (dc_text D (nr_record r)) \<and>
     (case nr_recipe r of (g, model, _) \<Rightarrow> size_between 1 255 (cp_name g) \<and> size_between 1 255 (cp_version g) \<and>
        opt_all (size_between 1 255) (cp_profile g) \<and> opt_all (size_between 1 1024) model) \<and>
     1 \<le> nr_revision r \<and> opt_all (size_between 1 128) (nr_failure r) \<and>
     (nr_state r = N_FAILED) = (nr_output r = None) \<and> (nr_state r = N_FAILED) = (nr_failure r \<noteq> None)"

text \<open>The primary key and the unique index on the current node of a slot.\<close>

definition nodes_constraints :: "dcanon \<Rightarrow> node_row list \<Rightarrow> bool" where
  "nodes_constraints D rs \<longleftrightarrow> list_all (node_row_check D) rs \<and> distinct (map nr_artifact rs) \<and>
     distinct (map nr_slot (filter (\<lambda>r. nr_state r = N_CURRENT) rs))"

definition put_nodes :: "dcanon \<Rightarrow> node_row list \<Rightarrow> evidence_catalog \<Rightarrow> evidence_error + evidence_catalog" where
  "put_nodes D rs c = (if nodes_constraints D rs then Inr (c\<lparr>ec_nodes := rs\<rparr>) else Inl IntegrityError)"

definition slots_constraints :: "slot_row list \<Rightarrow> bool" where
  "slots_constraints ss \<longleftrightarrow> distinct (map (sl_id \<circ> sr_slot) ss) \<and>
     distinct (map ((\<lambda>s. (sl_namespace s, sl_subject s, sl_purpose s)) \<circ> sr_slot) ss)"

section \<open>Writing\<close>

definition store_object :: "stored_object \<Rightarrow> evidence_catalog \<Rightarrow> evidence_error + evidence_catalog" where
  "store_object x c = (case find_object c (so_id x) of
       None \<Rightarrow> Inr (c\<lparr>ec_objects := ec_objects c @ [x]\<rparr>)
     | Some y \<Rightarrow> if so_length y = so_length x then Inr c else Inl InvalidObjectReference)"

definition append_derivation_event ::
  "pystr \<Rightarrow> node_state option \<Rightarrow> node_state \<Rightarrow> event_reason \<Rightarrow> pystr option \<Rightarrow> int \<Rightarrow> evidence_catalog \<Rightarrow>
   evidence_error + evidence_catalog" where
  "append_derivation_event a from_state to_state reason run at c =
     (let e = \<lparr>de_artifact = a,
            de_sequence = foldr max (map de_sequence (filter (\<lambda>e. de_artifact e = a) (ec_events c))) 0 + 1,
            de_from = from_state, de_to = to_state, de_reason = reason, de_run = run, de_at = at\<rparr>
      in if from_state = Some to_state \<or> find_node c a = None \<or>
            (case run of None \<Rightarrow> False | Some i \<Rightarrow> i \<notin> set (map rr_run (ec_runs c)))
         then Inl IntegrityError else Inr (c\<lparr>ec_events := ec_events c @ [e]\<rparr>))"

definition transition_derivation ::
  "dcanon \<Rightarrow> pystr \<Rightarrow> node_state \<Rightarrow> event_reason \<Rightarrow> pystr option \<Rightarrow> int \<Rightarrow> evidence_catalog \<Rightarrow>
   evidence_error + evidence_catalog" where
  "transition_derivation D a to_state reason run at c = sbind (load_derivation D c a) (\<lambda>loaded. case loaded of
       None \<Rightarrow> Inl (DerivationIntegrityError ''derivation transition target is absent'')
     | Some n \<Rightarrow>
         if nd_state n = to_state then Inr c
         else let n' = moved D to_state at n
           in if \<not> node_valid D n' then Inl ValidationError
              else sbind (put_nodes D (upd_where (\<lambda>r. nr_artifact r = a \<and> nr_revision r = nd_revision n)
                    (\<lambda>r. r\<lparr>nr_state := to_state, nr_revision := nd_revision n', nr_updated := at,
                       nr_fingerprint := nd_fingerprint n'\<rparr>) (ec_nodes c)) c) (\<lambda>c1.
                let c2 = (if nd_state n = N_CURRENT
                    then c1\<lparr>ec_slots := upd_where (\<lambda>s. sl_id (sr_slot s) = sl_id (nd_slot n) \<and> sr_current s = Some a)
                       (\<lambda>s. s\<lparr>sr_current := None, sr_updated := at\<rparr>) (ec_slots c1)\<rparr>
                    else c1)
                in append_derivation_event a (Some (nd_state n)) to_state reason run at c2))"

section \<open>Reachability over the dependency table\<close>

text \<open>
  The queue of a recursive common table expression with \<open>UNION\<close>: an element that is already in the
  result is dropped.  The universe holds every element a step can produce.
\<close>

lemma card_take: "x \<notin> S \<Longrightarrow> x \<in> set xs \<Longrightarrow> card (set xs - insert x S) < card (set xs - S)"
  by (rule psubset_card_mono) auto

function recurse :: "('a \<Rightarrow> 'a list) \<Rightarrow> 'a list \<Rightarrow> 'a list \<Rightarrow> 'a list \<Rightarrow> 'a list" where
  "recurse next_of space [] seen = seen"
| "recurse next_of space (x # queue) seen =
     (if x \<in> set seen \<or> x \<notin> set space then recurse next_of space queue seen
      else recurse next_of space (queue @ next_of x) (seen @ [x]))"
  by pat_completeness auto
termination
  by (relation "measures [\<lambda>(next_of, space, queue, seen). card (set space - set seen), \<lambda>(next_of, space, queue, seen). length queue]")
     (auto simp del: card_Diff_insert intro: card_take)

definition producers_of :: "evidence_catalog \<Rightarrow> pystr \<Rightarrow> pystr list" where
  "producers_of c a = List.map_filter (\<lambda>(x, d). if x = a then dp_producer d else None) (ec_deps c)"

definition all_producers :: "evidence_catalog \<Rightarrow> pystr list" where
  "all_producers c = List.map_filter (\<lambda>(x, d). dp_producer d) (ec_deps c)"

definition ancestry :: "evidence_catalog \<Rightarrow> pystr \<Rightarrow> pystr list" where
  "ancestry c a = recurse (producers_of c) (all_producers c) (producers_of c a) []"

section \<open>Publication\<close>

definition check_dependency :: "evidence_catalog \<Rightarrow> pystr \<Rightarrow> dependency \<Rightarrow> evidence_error + unit" where
  "check_dependency c a d = (case dp_kind d of
       EVIDENCE_BINDING \<Rightarrow> ensure (active_binding c (dp_digest d))
         (DerivationDependencyError ''evidence binding dependency is not active'')
     | OBJECT \<Rightarrow> ensure (find_object c (dp_digest d) \<noteq> None) (DerivationDependencyError ''object dependency is absent'')
     | DERIVATION_OUTPUT \<Rightarrow>
         (let p = the (dp_producer d)
          in if p = a then Inl (DerivationCycleError ''derivation cannot depend on itself'')
             else if \<not> (case find_node c p of None \<Rightarrow> False
                       | Some r \<Rightarrow> nr_state r = N_CURRENT \<and> nr_output r = Some (dp_digest d))
             then Inl (DerivationDependencyError ''producer dependency is absent, inactive or output-mismatched'')
             else if a \<in> set (ancestry c p) then Inl (DerivationCycleError ''derivation dependency would create a cycle'')
             else Inr ()))"

fun check_dependencies :: "evidence_catalog \<Rightarrow> pystr \<Rightarrow> dependency list \<Rightarrow> evidence_error + unit" where
  "check_dependencies c a [] = Inr ()"
| "check_dependencies c a (d # ds) = sbind (check_dependency c a d) (\<lambda>_. check_dependencies c a ds)"

definition open_slot :: "slot \<Rightarrow> int \<Rightarrow> evidence_catalog \<Rightarrow> evidence_error + evidence_catalog" where
  "open_slot s at c = (case find_slot c (sl_id s) of
       Some row \<Rightarrow> if sr_slot row = s then Inr c else Inl (DerivationConflict ''derivation slot has conflicting identity facts'')
     | None \<Rightarrow> (let ss = ec_slots c @ [\<lparr>sr_slot = s, sr_current = None, sr_created = at, sr_updated = at\<rparr>]
         in if slots_constraints ss then Inr (c\<lparr>ec_slots := ss\<rparr>) else Inl IntegrityError))"

text \<open>The successful nodes of a slot that a new output replaces, by identifier.\<close>

definition prior_nodes :: "evidence_catalog \<Rightarrow> pystr \<Rightarrow> pystr list" where
  "prior_nodes c i = sort (map nr_artifact (filter (\<lambda>r. nr_slot r = i \<and> nr_state r \<in> {N_CURRENT, N_STALE}) (ec_nodes c)))"

fun transitions ::
  "dcanon \<Rightarrow> node_state \<Rightarrow> event_reason \<Rightarrow> pystr option \<Rightarrow> int \<Rightarrow> pystr list \<Rightarrow> evidence_catalog \<Rightarrow>
   evidence_error + evidence_catalog" where
  "transitions D to_state reason run at [] c = Inr c"
| "transitions D to_state reason run at (a # rest) c =
     sbind (transition_derivation D a to_state reason run at c) (transitions D to_state reason run at rest)"

definition row_of_node :: "node \<Rightarrow> node_row" where
  "row_of_node n = \<lparr>nr_artifact = nd_artifact n, nr_slot = sl_id (nd_slot n), nr_state = nd_state n,
     nr_object = so_id (nd_object n), nr_record = nd_record n, nr_output = map_option so_id (nd_output n),
     nr_recipe = recipe_of (nd_record n), nr_revision = nd_revision n, nr_created = nd_created n,
     nr_updated = nd_updated n, nr_failure = nd_failure n, nr_fingerprint = nd_fingerprint n\<rparr>"

definition deps_constraints :: "evidence_catalog \<Rightarrow> (pystr \<times> dependency) list \<Rightarrow> bool" where
  "deps_constraints c ds \<longleftrightarrow> distinct (map (\<lambda>(a, d). (a, dp_ordinal d)) ds) \<and> distinct (map (\<lambda>(a, d). (a, dp_digest d)) ds) \<and>
     list_all (\<lambda>(a, d). opt_all (\<lambda>p. find_node c p \<noteq> None) (dp_producer d)) ds"

definition insert_node :: "dcanon \<Rightarrow> node \<Rightarrow> evidence_catalog \<Rightarrow> evidence_error + evidence_catalog" where
  "insert_node D n c = sbind (put_nodes D (ec_nodes c @ [row_of_node n]) c) (\<lambda>c1.
     let ds = ec_deps c1 @ map (\<lambda>d. (nd_artifact n, d)) (nd_deps n)
     in if \<not> deps_constraints c1 ds then Inl IntegrityError
        else let c2 = c1\<lparr>ec_deps := ds\<rparr>
          in Inr (if nd_state n = N_CURRENT
            then c2\<lparr>ec_slots := upd_where (\<lambda>s. sl_id (sr_slot s) = sl_id (nd_slot n))
               (\<lambda>s. s\<lparr>sr_current := Some (nd_artifact n), sr_updated := nd_created n\<rparr>) (ec_slots c2)\<rparr>
            else c2))"

definition publish_derivation ::
  "dcanon \<Rightarrow> publication \<Rightarrow> evidence_catalog \<Rightarrow> evidence_error + evidence_catalog \<times> publication_result" where
  "publish_derivation D p c =
     (let a = dv_artifact (pb_record p); at = pb_at p
      in sbind (load_derivation D c a) (\<lambda>existing. case existing of
         Some n \<Rightarrow>
           if publication_matches n p
           then Inr (c, \<lparr>pr_disposition = CONVERGED, pr_node = n, pr_superseded = []\<rparr>)
           else Inl (DerivationConflict ''derivation artifact has conflicting facts'')
       | None \<Rightarrow>
           sbind (check_dependencies c a (pb_deps p)) (\<lambda>_.
           sbind (store_object (pb_object p) c) (\<lambda>c1.
           sbind (case pb_output p of None \<Rightarrow> Inr c1 | Some x \<Rightarrow> store_object x c1) (\<lambda>c2.
           sbind (open_slot (pb_slot p) at c2) (\<lambda>c3.
             let prior = (if pb_output p \<noteq> None then prior_nodes c3 (sl_id (pb_slot p)) else [])
             in sbind (transitions D N_SUPERSEDED SLOT_REPLACED None at prior c3) (\<lambda>c4.
               let n = node_from_publication D p
               in if \<not> node_valid D n then Inl ValidationError
                  else sbind (insert_node D n c4) (\<lambda>c5.
                    sbind (append_derivation_event a None (nd_state n)
                        (if nd_state n = N_FAILED then GENERATION_FAILED else PUBLISHED) None at c5) (\<lambda>c6.
                    sbind (load_derivation D c6 a) (\<lambda>stored.
                      let r = \<lparr>pr_disposition = COMMITTED, pr_node = n, pr_superseded = prior\<rparr>
                      in if stored \<noteq> Some n
                         then Inl (DerivationIntegrityError ''derivation publication verification failed'')
                         else if \<not> publication_result_valid r then Inl ValidationError
                         else Inr (c6, r)))))))))))"

end
