(* ===== verification/Derivation_Lifecycle.thy ===== *)
theory Derivation_Lifecycle
  imports Derivation_Catalog
begin

text \<open>
  The derivation lifecycle of a reconciliation (\<open>adapters/sqlite_catalog_reconciliation.py\<close>):
  current nodes that rest on an inactive binding, directly or through current nodes, become stale;
  then stale nodes whose slot is free and whose dependencies are all current are reactivated, pass
  after pass, until a pass finds none.  The loop ends because a pass that reactivates a node leaves
  fewer stale ones.
\<close>

section \<open>Dependencies of a stored node\<close>

definition dependency_current :: "(pystr \<Rightarrow> bool) option \<Rightarrow> evidence_catalog \<Rightarrow> dependency \<Rightarrow> bool" where
  "dependency_current verified c d = (case dp_kind d of
       EVIDENCE_BINDING \<Rightarrow> active_binding c (dp_digest d)
     | OBJECT \<Rightarrow> find_object c (dp_digest d) \<noteq> None \<and> (case verified of None \<Rightarrow> False | Some f \<Rightarrow> f (dp_digest d))
     | DERIVATION_OUTPUT \<Rightarrow>
         (case Option.bind (dp_producer d) (find_node c) of None \<Rightarrow> False
          | Some r \<Rightarrow> nr_state r = N_CURRENT \<and> nr_output r = Some (dp_digest d)) \<and>
         (case verified of None \<Rightarrow> False | Some f \<Rightarrow> f (dp_digest d)))"

definition dependencies_current :: "(pystr \<Rightarrow> bool) option \<Rightarrow> evidence_catalog \<Rightarrow> pystr \<Rightarrow> bool" where
  "dependencies_current verified c a \<longleftrightarrow> list_all (dependency_current verified c) (deps_of c a)"

section \<open>Invalidation\<close>

definition current_nodes :: "evidence_catalog \<Rightarrow> pystr list" where
  "current_nodes c = map nr_artifact (filter (\<lambda>r. nr_state r = N_CURRENT) (ec_nodes c))"

definition rests_on :: "evidence_catalog \<Rightarrow> pystr list \<Rightarrow> pystr \<Rightarrow> bool" where
  "rests_on c inactive a \<longleftrightarrow>
     list_ex (\<lambda>(x, d). x = a \<and> dp_kind d = EVIDENCE_BINDING \<and> dp_digest d \<in> set inactive) (ec_deps c)"

definition consumes :: "evidence_catalog \<Rightarrow> pystr \<Rightarrow> pystr \<Rightarrow> bool" where
  "consumes c a b \<longleftrightarrow> list_ex (\<lambda>(x, d). x = b \<and> dp_kind d = DERIVATION_OUTPUT \<and> dp_producer d = Some a) (ec_deps c)"

definition invalidation_ids :: "evidence_catalog \<Rightarrow> pystr list \<Rightarrow> pystr list" where
  "invalidation_ids c inactive = sort (recurse (\<lambda>a. filter (consumes c a) (current_nodes c)) (current_nodes c)
     (filter (rests_on c inactive) (current_nodes c)) [])"

section \<open>Reactivation\<close>

definition stale_nodes :: "evidence_catalog \<Rightarrow> pystr list" where
  "stale_nodes c = filter (\<lambda>a. state_of c a = Some N_STALE) (remdups (map nr_artifact (ec_nodes c)))"

definition slot_free :: "evidence_catalog \<Rightarrow> pystr \<Rightarrow> bool" where
  "slot_free c a = (case Option.bind (find_node c a) (\<lambda>r. find_slot c (nr_slot r)) of
     None \<Rightarrow> False | Some s \<Rightarrow> sr_current s = None)"

definition candidates :: "evidence_catalog \<Rightarrow> pystr list" where
  "candidates c = sort (filter (slot_free c) (stale_nodes c))"

definition occupy :: "pystr \<Rightarrow> int \<Rightarrow> evidence_catalog \<Rightarrow> evidence_catalog" where
  "occupy a at c = (case find_node c a of None \<Rightarrow> c | Some r \<Rightarrow>
     c\<lparr>ec_slots := upd_where (\<lambda>s. sl_id (sr_slot s) = nr_slot r \<and> sr_current s = None)
        (\<lambda>s. s\<lparr>sr_current := Some a, sr_updated := at\<rparr>) (ec_slots c)\<rparr>)"

fun reactivate_pass ::
  "dcanon \<Rightarrow> (pystr \<Rightarrow> bool) option \<Rightarrow> pystr \<Rightarrow> int \<Rightarrow> pystr list \<Rightarrow> evidence_catalog \<Rightarrow>
   evidence_error + evidence_catalog \<times> pystr list" where
  "reactivate_pass D verified run at [] c = Inr (c, [])"
| "reactivate_pass D verified run at (a # rest) c =
     (if \<not> dependencies_current verified c a \<or> \<not> slot_free c a then reactivate_pass D verified run at rest c
      else sbind (transition_derivation D a N_CURRENT REACTIVATED (Some run) at (occupy a at c)) (\<lambda>c1.
        sbind (reactivate_pass D verified run at rest c1) (\<lambda>(c2, ids). Inr (c2, a # ids))))"

section \<open>What a transition changes\<close>

lemma find_upd_where:
  assumes "\<And>r. k (f r) = k r"
  shows "List.find (\<lambda>r. k r = b) (upd_where (\<lambda>r. k r = a \<and> q r) f rs) =
    map_option (\<lambda>r. if b = a \<and> q r then f r else r) (List.find (\<lambda>r. k r = b) rs)"
  using assms by (induction rs) (auto simp: upd_where_def)

definition restated :: "dcanon \<Rightarrow> node_state \<Rightarrow> int \<Rightarrow> node \<Rightarrow> node_row \<Rightarrow> node_row" where
  "restated D st at n r = r\<lparr>nr_state := st, nr_revision := nd_revision (moved D st at n), nr_updated := at,
     nr_fingerprint := nd_fingerprint (moved D st at n)\<rparr>"

lemma restated_fields [simp]:
  "nr_artifact (restated D st at n r) = nr_artifact r" "nr_slot (restated D st at n r) = nr_slot r"
  "nr_state (restated D st at n r) = st" "nr_object (restated D st at n r) = nr_object r"
  "nr_record (restated D st at n r) = nr_record r" "nr_output (restated D st at n r) = nr_output r"
  "nr_recipe (restated D st at n r) = nr_recipe r" "nr_failure (restated D st at n r) = nr_failure r"
  by (simp_all add: restated_def)

definition vacate :: "node \<Rightarrow> pystr \<Rightarrow> int \<Rightarrow> slot_row list \<Rightarrow> slot_row list" where
  "vacate n a at ss = (if nd_state n = N_CURRENT
     then upd_where (\<lambda>s. sl_id (sr_slot s) = sl_id (nd_slot n) \<and> sr_current s = Some a)
       (\<lambda>s. s\<lparr>sr_current := None, sr_updated := at\<rparr>) ss else ss)"

lemma transition_cases:
  assumes "transition_derivation D a st reason run at c = Inr c'"
  obtains (same) n where "load_derivation D c a = Inr (Some n)" "nd_state n = st" "c' = c"
  | (moved) n rows e where "load_derivation D c a = Inr (Some n)" "nd_state n \<noteq> st" "node_valid D (moved D st at n)"
      "rows = upd_where (\<lambda>r. nr_artifact r = a \<and> nr_revision r = nd_revision n) (restated D st at n) (ec_nodes c)"
      "nodes_constraints D rows" "de_artifact e = a" "de_from e = Some (nd_state n)" "de_to e = st" "de_reason e = reason"
      "de_run e = run" "de_at e = at"
      "de_sequence e = foldr max (map de_sequence (filter (\<lambda>e. de_artifact e = a) (ec_events c))) 0 + 1"
      "c' = c\<lparr>ec_nodes := rows, ec_slots := vacate n a at (ec_slots c), ec_events := ec_events c @ [e]\<rparr>"
proof -
  obtain n where n: "load_derivation D c a = Inr (Some n)"
  proof (cases "load_derivation D c a")
    case (Inl e)
    then have "transition_derivation D a st reason run at c = Inl e" by (simp only: transition_derivation_def sbind_simps)
    then show thesis using assms by simp
  next
    case (Inr x)
    show thesis
    proof (cases x)
      case None
      with Inr have "transition_derivation D a st reason run at c =
          Inl (DerivationIntegrityError ''derivation transition target is absent'')"
        by (simp only: transition_derivation_def sbind_simps option.case)
      then show thesis using assms by simp
    next
      case (Some n)
      with Inr that show thesis by blast
    qed
  qed
  show thesis
  proof (cases "nd_state n = st")
    case True
    with assms n have "c' = c" by (simp add: transition_derivation_def)
    with n True show thesis by (rule same)
  next
    case False
    let ?rows = "upd_where (\<lambda>r. nr_artifact r = a \<and> nr_revision r = nd_revision n) (restated D st at n) (ec_nodes c)"
    have rest: "(\<lambda>r. r\<lparr>nr_state := st, nr_revision := nd_revision (moved D st at n), nr_updated := at,
        nr_fingerprint := nd_fingerprint (moved D st at n)\<rparr>) = restated D st at n" by (simp add: restated_def fun_eq_iff)
    have eq: "transition_derivation D a st reason run at c =
       (if \<not> node_valid D (moved D st at n) then Inl ValidationError
        else sbind (put_nodes D ?rows c) (\<lambda>c1. append_derivation_event a (Some (nd_state n)) st reason run at
          (if nd_state n = N_CURRENT
           then c1\<lparr>ec_slots := upd_where (\<lambda>s. sl_id (sr_slot s) = sl_id (nd_slot n) \<and> sr_current s = Some a)
             (\<lambda>s. s\<lparr>sr_current := None, sr_updated := at\<rparr>) (ec_slots c1)\<rparr> else c1)))"
      by (simp add: transition_derivation_def n False Let_def rest)
    have v: "node_valid D (moved D st at n)" using assms eq by (auto split: if_splits)
    with assms eq obtain c1 where c1: "put_nodes D ?rows c = Inr c1" "append_derivation_event a (Some (nd_state n)) st reason run at
          (if nd_state n = N_CURRENT
           then c1\<lparr>ec_slots := upd_where (\<lambda>s. sl_id (sr_slot s) = sl_id (nd_slot n) \<and> sr_current s = Some a)
             (\<lambda>s. s\<lparr>sr_current := None, sr_updated := at\<rparr>) (ec_slots c1)\<rparr> else c1) = Inr c'"
      by (auto simp: sbind_Inr_iff)
    from c1(1) have k: "nodes_constraints D ?rows" "c1 = c\<lparr>ec_nodes := ?rows\<rparr>"
      by (auto simp: put_nodes_def split: if_splits)
    let ?e = "\<lparr>de_artifact = a, de_sequence = foldr max (map de_sequence (filter (\<lambda>e. de_artifact e = a) (ec_events c))) 0 + 1,
       de_from = Some (nd_state n), de_to = st, de_reason = reason, de_run = run, de_at = at\<rparr>"
    have res: "c' = c\<lparr>ec_nodes := ?rows, ec_slots := vacate n a at (ec_slots c), ec_events := ec_events c @ [?e]\<rparr>"
      using c1(2) unfolding k(2) append_derivation_event_def Let_def by (simp add: vacate_def split: if_splits)
    show thesis by (rule moved[OF n False v refl k(1) _ _ _ _ _ _ _ res]) simp_all
  qed
qed

lemma load_row:
  "load_derivation D c a = Inr (Some n) \<Longrightarrow> \<exists>r. find_node c a = Some r \<and> nd_artifact n = a \<and> nd_state n = nr_state r \<and>
     nd_revision n = nr_revision r \<and> sl_id (nd_slot n) = nr_slot r"
  by (auto simp: load_derivation_def node_of_row_def find_node_def find_slot_def sbind_Inr_iff Let_def
      split: option.splits if_splits dest!: find_in)

lemma transition_nodes:
  assumes "transition_derivation D a st reason run at c = Inr c'"
  shows "map nr_artifact (ec_nodes c') = map nr_artifact (ec_nodes c)"
    and "state_of c' b = (if b = a then Some st else state_of c b)"
proof -
  from assms show "map nr_artifact (ec_nodes c') = map nr_artifact (ec_nodes c)"
    by (cases rule: transition_cases) simp_all
  from assms show "state_of c' b = (if b = a then Some st else state_of c b)"
  proof (cases rule: transition_cases)
    case (same n)
    then show ?thesis using load_row[OF same(1)] by (auto simp: state_of_def)
  next
    case (moved n rows e)
    from load_row[OF moved(1)] obtain r where r: "find_node c a = Some r" "nd_revision n = nr_revision r" by blast
    have "find_node c' b = map_option (\<lambda>r. if b = a \<and> nr_revision r = nd_revision n then restated D st at n r else r)
        (find_node c b)"
      using moved(4,13) by (simp add: find_node_def find_upd_where)
    then show ?thesis using r by (auto simp: state_of_def option.map_comp comp_def)
  qed
qed

lemma occupy_fields [simp]: "ec_nodes (occupy a at c) = ec_nodes c" "state_of (occupy a at c) b = state_of c b"
  by (auto simp: occupy_def state_of_def find_node_def split: option.splits)

lemma reactivate_pass_nodes:
  "reactivate_pass D verified run at as c = Inr (c', ids) \<Longrightarrow>
   map nr_artifact (ec_nodes c') = map nr_artifact (ec_nodes c) \<and> set ids \<subseteq> set as \<and>
   (\<forall>b. state_of c' b = (if b \<in> set ids then Some N_CURRENT else state_of c b))"
proof (induction as arbitrary: c ids)
  case (Cons a as)
  show ?case
  proof (cases "\<not> dependencies_current verified c a \<or> \<not> slot_free c a")
    case False
    with Cons.prems obtain c1 ids1 where s: "transition_derivation D a N_CURRENT REACTIVATED (Some run) at (occupy a at c) = Inr c1"
      "reactivate_pass D verified run at as c1 = Inr (c', ids1)" "ids = a # ids1" by (auto simp: sbind_Inr_iff)
    from Cons.IH[OF s(2)] transition_nodes[OF s(1)] s(3) show ?thesis by auto
  qed (use Cons in auto)
qed simp

lemma reactivate_pass_less:
  assumes "reactivate_pass D verified run at (candidates c) c = Inr (c', ids)" "ids \<noteq> []"
  shows "length (stale_nodes c') < length (stale_nodes c)"
proof -
  note p = reactivate_pass_nodes[OF assms(1)]
  from assms(2) p obtain a where a: "a \<in> set ids" "a \<in> set (candidates c)" by (cases ids) auto
  then have "a \<in> set (stale_nodes c)" by (simp add: candidates_def)
  moreover have "set (stale_nodes c') \<subseteq> set (stale_nodes c) - {a}"
    using p a(1) by (auto simp: stale_nodes_def split: if_splits simp flip: set_map)
  ultimately have "set (stale_nodes c') \<subset> set (stale_nodes c)" by blast
  then have "card (set (stale_nodes c')) < card (set (stale_nodes c))" by (rule psubset_card_mono[rotated]) simp
  moreover have "distinct (stale_nodes d)" for d by (simp add: stale_nodes_def)
  ultimately show ?thesis by (simp add: distinct_card)
qed

function reactivate ::
  "dcanon \<Rightarrow> (pystr \<Rightarrow> bool) option \<Rightarrow> pystr \<Rightarrow> int \<Rightarrow> evidence_catalog \<Rightarrow>
   evidence_error + evidence_catalog \<times> pystr list" where
  "reactivate D verified run at c = (case reactivate_pass D verified run at (candidates c) c of
       Inl e \<Rightarrow> Inl e
     | Inr (c', ids) \<Rightarrow>
         if ids = [] then Inr (c', [])
         else (case reactivate D verified run at c' of
             Inl e \<Rightarrow> Inl e
           | Inr (c2, later) \<Rightarrow> Inr (c2, ids @ later)))"
  by pat_completeness auto
termination
  by (relation "measure (\<lambda>(D, verified, run, at, c). length (stale_nodes c))") (auto intro: reactivate_pass_less)

declare reactivate.simps [simp del]

section \<open>The lifecycle of a reconciliation\<close>

definition apply_lifecycle ::
  "dcanon \<Rightarrow> (pystr \<Rightarrow> bool) option \<Rightarrow> pystr \<Rightarrow> pystr list \<Rightarrow> int \<Rightarrow> evidence_catalog \<Rightarrow>
   evidence_error + evidence_catalog \<times> pystr list \<times> pystr list" where
  "apply_lifecycle D verified run inactive at c =
     (let stale = (if inactive \<noteq> [] then invalidation_ids c inactive else [])
      in sbind (transitions D N_STALE DEPENDENCY_INACTIVE (Some run) at stale c) (\<lambda>c1.
         sbind (reactivate D verified run at c1) (\<lambda>(c2, reactivated). Inr (c2, stale, reactivated))))"

end
