(* ===== verification/Derivation_Invariant.thy ===== *)
theory Derivation_Invariant
  imports Derivation_Lifecycle
begin

text \<open>
  The invariant of the evidence tables.  \<open>rows_inv\<close> says that every node loads as a valid node, that a
  slot has at most one current or stale node, that dependencies point to earlier nodes and that each
  node's events replay to its state; \<open>pointers_ok\<close> that the pointer of a slot names its current node;
  \<open>producers_ok\<close> that the producers of a current node are current or superseded.  The first two are
  kept by each lifecycle step, the third by whole transactions.
\<close>

section \<open>The invariant\<close>

definition live :: "node_state \<Rightarrow> bool" where
  "live s \<longleftrightarrow> s = N_CURRENT \<or> s = N_STALE"

definition slot_of :: "evidence_catalog \<Rightarrow> pystr \<Rightarrow> slot option" where
  "slot_of c i = map_option sr_slot (find_slot c i)"

definition row_ok :: "dcanon \<Rightarrow> evidence_catalog \<Rightarrow> node_row \<Rightarrow> bool" where
  "row_ok D c r \<longleftrightarrow> nr_recipe r = recipe_of (nr_record r) \<and>
     (\<exists>s x out. slot_of c (nr_slot r) = Some s \<and> find_object c (nr_object r) = Some x \<and> output_of c r = Inr out \<and>
        node_valid D (node_of_row r s x out (deps_of c (nr_artifact r))))"

definition node_log :: "evidence_catalog \<Rightarrow> pystr \<Rightarrow> deriv_event list" where
  "node_log c a = filter (\<lambda>e. de_artifact e = a) (ec_events c)"

definition node_log_ok :: "deriv_event list \<Rightarrow> node_state \<Rightarrow> bool" where
  "node_log_ok es s \<longleftrightarrow> es \<noteq> [] \<and> map de_sequence es = [1..<length es + 1] \<and> list_all deriv_event_valid es \<and>
     de_from (hd es) = None \<and> event_chain es \<and> de_to (last es) = s"

definition before :: "'a list \<Rightarrow> 'a \<Rightarrow> 'a \<Rightarrow> bool" where
  "before xs a b \<longleftrightarrow> (\<exists>ys zs. xs = ys @ b # zs \<and> a \<in> set ys)"

definition edges_ok :: "evidence_catalog \<Rightarrow> bool" where
  "edges_ok c \<longleftrightarrow> (\<forall>(a, d)\<in>set (ec_deps c). a \<in> nr_artifact ` set (ec_nodes c) \<and> dependency_valid d \<and>
     (\<forall>p. dp_producer d = Some p \<longrightarrow> before (map nr_artifact (ec_nodes c)) p a))"

definition rows_inv :: "dcanon \<Rightarrow> evidence_catalog \<Rightarrow> bool" where
  "rows_inv D c \<longleftrightarrow> nodes_constraints D (ec_nodes c) \<and> slots_constraints (ec_slots c) \<and>
     distinct (map so_id (ec_objects c)) \<and> (\<forall>r\<in>set (ec_nodes c). row_ok D c r) \<and>
     distinct (map nr_slot (filter (live \<circ> nr_state) (ec_nodes c))) \<and> edges_ok c \<and>
     (\<forall>r\<in>set (ec_nodes c). node_log_ok (node_log c (nr_artifact r)) (nr_state r)) \<and>
     (\<forall>e\<in>set (ec_events c). de_artifact e \<in> nr_artifact ` set (ec_nodes c))"

definition pointers_ok :: "evidence_catalog \<Rightarrow> bool" where
  "pointers_ok c \<longleftrightarrow> (\<forall>s\<in>set (ec_slots c). \<forall>a. sr_current s = Some a \<longleftrightarrow>
     (\<exists>r\<in>set (ec_nodes c). nr_artifact r = a \<and> nr_state r = N_CURRENT \<and> nr_slot r = sl_id (sr_slot s)))"

definition producers_ok :: "evidence_catalog \<Rightarrow> bool" where
  "producers_ok c \<longleftrightarrow> (\<forall>(a, d)\<in>set (ec_deps c). \<forall>p. dp_producer d = Some p \<longrightarrow> state_of c a = Some N_CURRENT \<longrightarrow>
     state_of c p \<in> {Some N_CURRENT, Some N_SUPERSEDED})"

definition evidence_inv :: "dcanon \<Rightarrow> evidence_catalog \<Rightarrow> bool" where
  "evidence_inv D c \<longleftrightarrow> rows_inv D c \<and> pointers_ok c \<and> producers_ok c"

section \<open>Reading under the invariant\<close>

lemma find_node_in: "find_node c a = Some r \<Longrightarrow> r \<in> set (ec_nodes c) \<and> nr_artifact r = a"
  unfolding find_node_def by (rule find_in)

lemma find_slot_in: "find_slot c i = Some s \<Longrightarrow> s \<in> set (ec_slots c) \<and> sl_id (sr_slot s) = i"
  unfolding find_slot_def by (rule find_in)

lemma find_node_row: "rows_inv D c \<Longrightarrow> r \<in> set (ec_nodes c) \<Longrightarrow> find_node c (nr_artifact r) = Some r"
  unfolding find_node_def by (rule find_unique) (simp_all add: rows_inv_def nodes_constraints_def)

lemma find_slot_row: "rows_inv D c \<Longrightarrow> s \<in> set (ec_slots c) \<Longrightarrow> find_slot c (sl_id (sr_slot s)) = Some s"
  unfolding find_slot_def using find_unique[of "sl_id \<circ> sr_slot" "ec_slots c" s]
  by (simp add: rows_inv_def slots_constraints_def)

lemma same_node: "rows_inv D c \<Longrightarrow> r \<in> set (ec_nodes c) \<Longrightarrow> r' \<in> set (ec_nodes c) \<Longrightarrow> nr_artifact r = nr_artifact r' \<Longrightarrow> r = r'"
  using find_node_row by (metis option.inject)

lemma state_of_row: "rows_inv D c \<Longrightarrow> r \<in> set (ec_nodes c) \<Longrightarrow> state_of c (nr_artifact r) = Some (nr_state r)"
  by (simp add: state_of_def find_node_row)

lemma state_of_Some: "state_of c a = Some s \<Longrightarrow> \<exists>r\<in>set (ec_nodes c). nr_artifact r = a \<and> nr_state r = s"
  by (auto simp: state_of_def dest: find_node_in)

text \<open>A node that satisfies the invariant loads, and what is loaded is the row.\<close>

lemma load_row_ok:
  assumes "find_node c a = Some r" "row_ok D c r"
    "nr_state r = N_CURRENT \<Longrightarrow> Option.bind (find_slot c (nr_slot r)) sr_current = Some a"
  shows "\<exists>s x out. load_derivation D c a = Inr (Some (node_of_row r s x out (deps_of c a))) \<and>
    node_valid D (node_of_row r s x out (deps_of c a)) \<and> slot_of c (nr_slot r) = Some s"
proof -
  have a: "nr_artifact r = a" using assms(1) by (rule find_node_in[THEN conjunct2])
  from assms(2) obtain s x out where w: "slot_of c (nr_slot r) = Some s" "find_object c (nr_object r) = Some x"
    "output_of c r = Inr out" "node_valid D (node_of_row r s x out (deps_of c a))" "nr_recipe r = recipe_of (nr_record r)"
    unfolding row_ok_def a by blast
  from w(1) obtain row where row: "find_slot c (nr_slot r) = Some row" "sr_slot row = s"
    by (auto simp: slot_of_def)
  have "nd_state (node_of_row r s x out (deps_of c a)) = nr_state r" by (simp add: node_of_row_def)
  then show ?thesis using w assms(1,3) row by (auto simp: load_derivation_def Let_def)
qed

lemma pointer_of_current:
  assumes "rows_inv D c" "pointers_ok c" "r \<in> set (ec_nodes c)" "nr_state r = N_CURRENT"
  shows "Option.bind (find_slot c (nr_slot r)) sr_current = Some (nr_artifact r)"
proof -
  from assms(1,3) obtain s where "find_slot c (nr_slot r) = Some s"
    by (auto simp: rows_inv_def row_ok_def slot_of_def)
  moreover from this have "s \<in> set (ec_slots c)" "sl_id (sr_slot s) = nr_slot r" by (auto dest: find_slot_in)
  ultimately show ?thesis using assms(2-4) by (auto simp: pointers_ok_def)
qed

lemma load_inv:
  assumes "rows_inv D c" "pointers_ok c" "find_node c a = Some r"
  shows "\<exists>s x out. load_derivation D c a = Inr (Some (node_of_row r s x out (deps_of c a))) \<and>
    node_valid D (node_of_row r s x out (deps_of c a)) \<and> slot_of c (nr_slot r) = Some s"
proof (rule load_row_ok[OF assms(3)])
  show "row_ok D c r" using assms(1,3) by (auto simp: rows_inv_def dest: find_node_in)
  show "Option.bind (find_slot c (nr_slot r)) sr_current = Some a" if "nr_state r = N_CURRENT"
    using pointer_of_current[OF assms(1,2) _ that] assms(3) by (auto dest: find_node_in)
qed

section \<open>One transition\<close>

lemma node_log_append: "node_log (c\<lparr>ec_events := ec_events c @ [e]\<rparr>) b = node_log c b @ (if de_artifact e = b then [e] else [])"
  by (simp add: node_log_def)

lemma event_chain_append: "es \<noteq> [] \<Longrightarrow> event_chain (es @ [e]) \<longleftrightarrow> event_chain es \<and> de_from e = Some (de_to (last es))"
  by (induction es rule: event_chain.induct) auto

lemma node_log_ok_append:
  assumes "node_log_ok es s" "deriv_event_valid e" "de_from e = Some s" "de_sequence e = length es + 1"
  shows "node_log_ok (es @ [e]) (de_to e)"
  using assms by (auto simp: node_log_ok_def event_chain_append hd_append)

lemma next_event_number: "map de_sequence es = [1..<length es + 1] \<Longrightarrow> foldr max (map de_sequence es) 0 = length es"
  by (cases es) (simp_all add: foldr_max_upt del: upt_Suc)

text \<open>A step that rewrites the state of one live node, whatever it does to the pointers of the slots.\<close>

definition put_state :: "dcanon \<Rightarrow> node_state \<Rightarrow> int \<Rightarrow> node \<Rightarrow> slot_row list \<Rightarrow> deriv_event \<Rightarrow> evidence_catalog \<Rightarrow> evidence_catalog" where
  "put_state D st at n slots e c = c\<lparr>ec_nodes := upd_where (\<lambda>r. nr_artifact r = nd_artifact n \<and> nr_revision r = nd_revision n)
     (restated D st at n) (ec_nodes c), ec_slots := slots, ec_events := ec_events c @ [e]\<rparr>"

lemma slot_of_map: "slot_of c i = List.find (\<lambda>s. sl_id s = i) (map sr_slot (ec_slots c))"
proof -
  have "map_option sr_slot (List.find (\<lambda>s. sl_id (sr_slot s) = i) ss) = List.find (\<lambda>s. sl_id s = i) (map sr_slot ss)" for ss
    by (induction ss) auto
  then show ?thesis by (simp add: slot_of_def find_slot_def)
qed

lemma distinct_filter_mono:
  "(\<And>x. x \<in> set xs \<Longrightarrow> P x \<Longrightarrow> Q x) \<Longrightarrow> distinct (map f (filter Q xs)) \<Longrightarrow> distinct (map f (filter P xs))"
  by (induction xs) (auto split: if_splits)

lemma moved_fields [simp]:
  "nd_artifact (moved D st at n) = nd_artifact n" "nd_slot (moved D st at n) = nd_slot n" "nd_state (moved D st at n) = st"
  "nd_record (moved D st at n) = nd_record n" "nd_object (moved D st at n) = nd_object n"
  "nd_output (moved D st at n) = nd_output n" "nd_deps (moved D st at n) = nd_deps n"
  "nd_revision (moved D st at n) = nd_revision n + 1" "nd_created (moved D st at n) = nd_created n"
  "nd_updated (moved D st at n) = at" "nd_failure (moved D st at n) = nd_failure n"
  by (simp_all add: moved_def)

lemma node_of_restated:
  assumes "n = node_of_row r s x out deps"
  shows "node_of_row (restated D st at n r) s x out deps = moved D st at n"
proof (rule node.equality)
  show "node.more (node_of_row (restated D st at n r) s x out deps) = node.more (moved D st at n)" by simp
  show "nd_fingerprint (node_of_row (restated D st at n r) s x out deps) = nd_fingerprint (moved D st at n)"
    by (simp add: node_of_row_def restated_def)
qed (simp_all add: node_of_row_def restated_def, simp_all add: assms node_of_row_def)

lemma before_mem: "before xs a b \<Longrightarrow> b \<in> set xs"
  by (auto simp: before_def)

lemma put_state_nodes:
  assumes "rows_inv D c" "find_node c a = Some r" "nd_artifact n = a" "nd_revision n = nr_revision r"
  shows "ec_nodes (put_state D st at n slots e c) = map (\<lambda>q. if q = r then restated D st at n r else q) (ec_nodes c)"
proof -
  have "(nr_artifact q = a \<and> nr_revision q = nr_revision r) = (q = r)" if "q \<in> set (ec_nodes c)" for q
    using same_node[OF assms(1) that] find_node_in[OF assms(2)] by metis
  then show ?thesis unfolding put_state_def upd_where_def assms(3,4) by simp
qed

lemma put_state_rows_inv:
  assumes inv: "rows_inv D c" and r: "find_node c a = Some r" "live (nr_state r)" and st: "st \<noteq> nr_state r"
    and n: "n = node_of_row r s x out (deps_of c a)" "slot_of c (nr_slot r) = Some s" "find_object c (nr_object r) = Some x"
      "output_of c r = Inr out"
    and ok: "node_valid D (moved D st at n)" "nodes_constraints D (ec_nodes (put_state D st at n slots e c))"
    and slots: "map sr_slot slots = map sr_slot (ec_slots c)"
    and e: "deriv_event_valid e" "de_artifact e = a" "de_from e = Some (nr_state r)" "de_to e = st"
      "de_sequence e = foldr max (map de_sequence (node_log c a)) 0 + 1"
  shows "rows_inv D (put_state D st at n slots e c)"
proof -
  let ?c = "put_state D st at n slots e c"
  have a: "r \<in> set (ec_nodes c)" "nr_artifact r = a" using find_node_in[OF r(1)] by auto
  have nd: "nd_artifact n = a" "nd_revision n = nr_revision r" using n(1) a by (simp_all add: node_of_row_def)
  have nodes: "ec_nodes ?c = map (\<lambda>q. if q = r then restated D st at n r else q) (ec_nodes c)"
    using inv r(1) nd by (rule put_state_nodes)
  then have ids: "map nr_artifact (ec_nodes ?c) = map nr_artifact (ec_nodes c)" by (auto simp: a)
  then have img: "nr_artifact ` set (ec_nodes ?c) = nr_artifact ` set (ec_nodes c)" by (metis set_map)
  have fo: "find_object ?c = find_object c" by (simp add: put_state_def find_object_def fun_eq_iff)
  have same: "ec_deps ?c = ec_deps c" "deps_of ?c = deps_of c" "find_object ?c = find_object c" "output_of ?c q = output_of c q"
    "slot_of ?c i = slot_of c i" for q i
    using fo by (simp_all only: output_of_def) (simp_all add: put_state_def deps_of_def slot_of_map slots fun_eq_iff)
  have row: "row_ok D ?c (restated D st at n r)"
  proof -
    have "node_of_row (restated D st at n r) s x out (deps_of ?c a) = moved D st at n"
      using n(1) unfolding same by (rule node_of_restated)
    moreover have "nr_recipe r = recipe_of (nr_record r)" using inv a(1) by (auto simp: rows_inv_def row_ok_def)
    moreover have "output_of ?c (restated D st at n r) = Inr out" using n(4) unfolding same unfolding output_of_def by simp
    ultimately show ?thesis using n(2,3) ok(1) a(2) by (auto simp: row_ok_def same)
  qed
  have "row_ok D ?c q" if "q \<in> set (ec_nodes c)" for q
    using that inv unfolding rows_inv_def row_ok_def same by blast
  with row have rows: "\<forall>q\<in>set (ec_nodes ?c). row_ok D ?c q" unfolding nodes by auto
  have "distinct (map nr_slot (filter (live \<circ> nr_state) (ec_nodes ?c)))"
  proof -
    have "map nr_slot (filter (live \<circ> nr_state) (ec_nodes ?c)) =
        map nr_slot (filter (\<lambda>q. live (nr_state (if q = r then restated D st at n r else q))) (ec_nodes c))"
      unfolding nodes filter_map map_map by (intro map_cong) (auto simp: comp_def)
    moreover have "distinct (map nr_slot (filter (live \<circ> nr_state) (ec_nodes c)))" using inv by (simp add: rows_inv_def)
    ultimately show ?thesis using r(2) by (auto intro!: distinct_filter_mono[where Q = "live \<circ> nr_state"])
  qed
  moreover have "node_log_ok (node_log ?c (nr_artifact q)) (nr_state q)" if q: "q \<in> set (ec_nodes ?c)" for q
  proof -
    have log: "node_log ?c b = node_log c b @ (if a = b then [e] else [])" for b
      using e(2) by (auto simp: node_log_def put_state_def)
    have old: "node_log_ok (node_log c (nr_artifact q')) (nr_state q')" if "q' \<in> set (ec_nodes c)" for q'
      using inv that by (simp add: rows_inv_def)
    from q consider "q = restated D st at n r" | "q \<in> set (ec_nodes c)" "q \<noteq> r" unfolding nodes by auto
    then show ?thesis
    proof cases
      case 1
      have "node_log_ok (node_log c a) (nr_state r)" using old[OF a(1)] a(2) by simp
      then have "node_log_ok (node_log c a @ [e]) st"
        using node_log_ok_append[of _ "nr_state r" e] e next_event_number[of "node_log c a"]
        by (auto simp: node_log_ok_def)
      with 1 show ?thesis by (simp add: log a(2))
    next
      case 2
      then have "nr_artifact q \<noteq> a" using same_node[OF inv 2(1) a(1)] a(2) by auto
      then show ?thesis using old[OF 2(1)] by (simp add: log)
    qed
  qed
  moreover have "\<forall>q\<in>set (ec_events ?c). de_artifact q \<in> nr_artifact ` set (ec_nodes ?c)"
  proof -
    have "a \<in> nr_artifact ` set (ec_nodes c)" using a by blast
    then show ?thesis using inv e(2) unfolding img by (simp add: rows_inv_def put_state_def)
  qed
  moreover have "slots_constraints (ec_slots ?c)"
    using inv arg_cong[OF slots, of "map sl_id"] arg_cong[OF slots, of "map (\<lambda>s. (sl_namespace s, sl_subject s, sl_purpose s))"]
    by (simp add: rows_inv_def slots_constraints_def put_state_def comp_def)
  moreover have "edges_ok ?c" using inv unfolding edges_ok_def rows_inv_def same img ids by simp
  moreover have "distinct (map so_id (ec_objects ?c))" using inv by (simp add: rows_inv_def put_state_def)
  ultimately show ?thesis using rows ok(2) unfolding rows_inv_def by blast
qed

section \<open>Transitions keep the rows\<close>

definition frame :: "evidence_catalog \<Rightarrow> evidence_catalog \<Rightarrow> bool" where
  "frame c c' \<longleftrightarrow> ec_objects c' = ec_objects c \<and> ec_deps c' = ec_deps c \<and> ec_runs c' = ec_runs c \<and>
     ec_lineages c' = ec_lineages c \<and> ec_members c' = ec_members c \<and> ec_relations c' = ec_relations c \<and>
     ec_ready c' = ec_ready c \<and> ec_blocks c' = ec_blocks c \<and> ec_heads c' = ec_heads c \<and>
     map nr_artifact (ec_nodes c') = map nr_artifact (ec_nodes c) \<and>
     map nr_slot (ec_nodes c') = map nr_slot (ec_nodes c) \<and> map nr_output (ec_nodes c') = map nr_output (ec_nodes c) \<and>
     map nr_created (ec_nodes c') = map nr_created (ec_nodes c)"

lemma frame_refl [simp]: "frame c c"
  by (simp add: frame_def)

lemma frame_trans: "frame a b \<Longrightarrow> frame b c \<Longrightarrow> frame a c"
  by (simp add: frame_def)

lemma load_InrE:
  assumes "load_derivation D c a = Inr (Some n)"
  obtains r s x out where "find_node c a = Some r" "n = node_of_row r s x out (deps_of c a)"
    "slot_of c (nr_slot r) = Some s" "find_object c (nr_object r) = Some x" "output_of c r = Inr out" "node_valid D n"
  using assms by (auto simp: load_derivation_def sbind_Inr_iff Let_def slot_of_def split: option.splits if_splits)

lemma transition_put_state:
  assumes "transition_derivation D a st reason run at c = Inr c'" "state_of c a = Some s0" "s0 \<noteq> st"
  obtains n r s x out e where "find_node c a = Some r" "nr_state r = s0" "n = node_of_row r s x out (deps_of c a)"
    "slot_of c (nr_slot r) = Some s" "find_object c (nr_object r) = Some x" "output_of c r = Inr out"
    "node_valid D n" "node_valid D (moved D st at n)" "c' = put_state D st at n (vacate n a at (ec_slots c)) e c"
    "nodes_constraints D (ec_nodes c')" "de_artifact e = a" "de_from e = Some s0" "de_to e = st"
    "de_reason e = reason" "de_run e = run" "de_sequence e = foldr max (map de_sequence (node_log c a)) 0 + 1"
proof -
  from assms(1) show thesis
  proof (cases rule: transition_cases)
    case (same n)
    then show thesis using load_row[OF same(1)] assms(2,3) by (auto simp: state_of_def)
  next
    case (moved n rows e)
    from moved(1) obtain r s x out where r: "find_node c a = Some r" "n = node_of_row r s x out (deps_of c a)"
      "slot_of c (nr_slot r) = Some s" "find_object c (nr_object r) = Some x" "output_of c r = Inr out" "node_valid D n"
      by (rule load_InrE)
    have "nd_artifact n = a" "nd_state n = nr_state r" using r(1,2) by (auto simp: node_of_row_def dest: find_node_in)
    moreover have "nr_state r = s0" using r(1) assms(2) by (simp add: state_of_def)
    ultimately show thesis
      by (intro that[OF r(1) _ r(2-6) moved(3), of e]) (use moved in \<open>simp_all add: put_state_def node_log_def\<close>)
  qed
qed

lemma transition_rows_inv:
  assumes t: "transition_derivation D a st reason run at c = Inr c'" and inv: "rows_inv D c"
    and s0: "state_of c a = Some s0" "live s0" "s0 \<noteq> st"
    and reason: "(run \<noteq> None) = (reason \<in> {DEPENDENCY_INACTIVE, REACTIVATED})"
  shows "rows_inv D c'" "frame c c'"
proof -
  from t s0(1,3) show "rows_inv D c'"
  proof (rule transition_put_state)
    fix n r s x out e
    assume n: "find_node c a = Some r" "nr_state r = s0" "n = node_of_row r s x out (deps_of c a)"
      "slot_of c (nr_slot r) = Some s" "find_object c (nr_object r) = Some x" "output_of c r = Inr out"
      "node_valid D (moved D st at n)" "c' = put_state D st at n (vacate n a at (ec_slots c)) e c"
      "nodes_constraints D (ec_nodes c')" "de_artifact e = a" "de_from e = Some s0" "de_to e = st"
      "de_reason e = reason" "de_run e = run" "de_sequence e = foldr max (map de_sequence (node_log c a)) 0 + 1"
    have "deriv_event_valid e" using n(11-15) s0(3) reason by (auto simp: deriv_event_valid_def)
    then show ?thesis unfolding n(8) using n s0
      by (intro put_state_rows_inv[OF inv n(1) _ _ n(3-6)]) (auto simp: vacate_def)
  qed
  from t s0(1,3) show "frame c c'"
  proof (rule transition_put_state)
    fix n r s x out e
    assume n: "find_node c a = Some r" "n = node_of_row r s x out (deps_of c a)"
      "c' = put_state D st at n (vacate n a at (ec_slots c)) e c"
    have "nd_artifact n = a" "nd_revision n = nr_revision r" using n(1,2) by (auto simp: node_of_row_def dest: find_node_in)
    from put_state_nodes[OF inv n(1) this] show ?thesis unfolding n(3) frame_def
      by (auto simp: put_state_def comp_def restated_def)
  qed
qed

section \<open>Pointers\<close>

lemma current_in_put_state:
  assumes inv: "rows_inv D c" and r: "find_node c a = Some r" "nd_artifact n = a" "nd_revision n = nr_revision r"
  shows "(\<exists>q\<in>set (ec_nodes (put_state D st at n slots e c)). nr_artifact q = b \<and> nr_state q = N_CURRENT \<and> nr_slot q = i) \<longleftrightarrow>
    (if b = a then st = N_CURRENT \<and> nr_slot r = i
     else \<exists>q\<in>set (ec_nodes c). nr_artifact q = b \<and> nr_state q = N_CURRENT \<and> nr_slot q = i)"
proof -
  have a: "r \<in> set (ec_nodes c)" "nr_artifact r = a" using find_node_in[OF r(1)] by auto
  have u: "q = r" if "q \<in> set (ec_nodes c)" "nr_artifact q = a" for q using same_node[OF inv that(1) a(1)] that a by simp
  let ?P = "\<lambda>q. nr_artifact q = b \<and> nr_state q = N_CURRENT \<and> nr_slot q = i"
  have "(\<exists>q\<in>set (ec_nodes (put_state D st at n slots e c)). ?P q) \<longleftrightarrow>
      (\<exists>q\<in>set (ec_nodes c). ?P (if q = r then restated D st at n r else q))"
    unfolding put_state_nodes[OF inv r] by (simp only: set_map bex_simps)
  also have "\<dots> \<longleftrightarrow> (if b = a then st = N_CURRENT \<and> nr_slot r = i else \<exists>q\<in>set (ec_nodes c). ?P q)"
  proof (cases "b = a")
    case True
    have "?P (if q = r then restated D st at n r else q) \<longleftrightarrow> q = r \<and> st = N_CURRENT \<and> nr_slot r = i"
      if "q \<in> set (ec_nodes c)" for q
    proof (cases "q = r")
      case False
      then have "nr_artifact q \<noteq> b" using u[OF that] True by blast
      then show ?thesis using False by simp
    qed (use a True in simp)
    then show ?thesis using True a(1) by auto
  next
    case False
    have "?P (if q = r then restated D st at n r else q) \<longleftrightarrow> ?P q" for q
      using a False by (cases "q = r") simp_all
    then show ?thesis using False by simp
  qed
  finally show ?thesis .
qed

lemma vacate_pointers:
  assumes inv: "rows_inv D c" and p: "pointers_ok c" and r: "find_node c a = Some r"
    and n: "n = node_of_row r s x out (deps_of c a)" "slot_of c (nr_slot r) = Some s" and st: "st \<noteq> N_CURRENT"
  shows "pointers_ok (put_state D st at n (vacate n a at (ec_slots c)) e c)"
proof -
  have a: "r \<in> set (ec_nodes c)" "nr_artifact r = a" using find_node_in[OF r] by auto
  have nd: "nd_artifact n = a" "nd_revision n = nr_revision r" "nd_state n = nr_state r" using n(1) a by (simp_all add: node_of_row_def)
  have slot: "sl_id (nd_slot n) = nr_slot r" using n by (auto simp: node_of_row_def slot_of_def dest: find_slot_in)
  have pa: "nr_state r = N_CURRENT \<and> nr_slot r = sl_id (sr_slot s)" if "s \<in> set (ec_slots c)" "sr_current s = Some a" for s
    using p that same_node[OF inv _ a(1)] a(2) unfolding pointers_ok_def by metis
  have "sr_current s = Some b \<longleftrightarrow> (if b = a then False else \<exists>q\<in>set (ec_nodes c). nr_artifact q = b \<and> nr_state q = N_CURRENT \<and> nr_slot q = sl_id (sr_slot s))"
    if "s \<in> set (vacate n a at (ec_slots c))" for s b
  proof (cases "s \<in> set (ec_slots c) \<and> \<not> (nr_state r = N_CURRENT \<and> sl_id (sr_slot s) = nr_slot r \<and> sr_current s = Some a)")
    case True
    then have "sr_current s \<noteq> Some a" using pa[of s] by auto
    moreover have "sr_current s = Some b \<longleftrightarrow> (\<exists>q\<in>set (ec_nodes c). nr_artifact q = b \<and> nr_state q = N_CURRENT \<and> nr_slot q = sl_id (sr_slot s))"
      using p True by (simp add: pointers_ok_def)
    ultimately show ?thesis by auto
  next
    case False
    with that obtain s0 where "s0 \<in> set (ec_slots c)" "sr_current s0 = Some a" "s = s0\<lparr>sr_current := None, sr_updated := at\<rparr>"
      "nr_state r = N_CURRENT"
      by (auto simp: vacate_def nd slot set_upd_where split: if_splits)
    moreover have "b = a" if "q \<in> set (ec_nodes c)" "nr_artifact q = b" "nr_state q = N_CURRENT" "nr_slot q = sl_id (sr_slot s0)" for q
    proof -
      have "sr_current s0 = Some b" using p that calculation(1) unfolding pointers_ok_def by blast
      then show ?thesis using calculation(2) by simp
    qed
    ultimately show ?thesis by auto
  qed
  then show ?thesis
    unfolding pointers_ok_def current_in_put_state[OF inv r nd(1,2)] using st by (auto simp: put_state_def)
qed

lemma rows_inv_slots:
  assumes "rows_inv D c" "map sr_slot slots = map sr_slot (ec_slots c)"
  shows "rows_inv D (c\<lparr>ec_slots := slots\<rparr>)"
proof -
  have fo: "find_object (c\<lparr>ec_slots := slots\<rparr>) = find_object c" by (simp add: find_object_def fun_eq_iff)
  have same: "deps_of (c\<lparr>ec_slots := slots\<rparr>) = deps_of c" "output_of (c\<lparr>ec_slots := slots\<rparr>) q = output_of c q"
    "slot_of (c\<lparr>ec_slots := slots\<rparr>) i = slot_of c i" "node_log (c\<lparr>ec_slots := slots\<rparr>) = node_log c" for q i
    using fo by (simp_all only: output_of_def) (simp_all add: deps_of_def slot_of_map assms(2) node_log_def fun_eq_iff)
  have "row_ok D (c\<lparr>ec_slots := slots\<rparr>) = row_ok D c" unfolding row_ok_def same fo ..
  moreover have "slots_constraints slots = slots_constraints (ec_slots c)"
    using arg_cong[OF assms(2), of "map sl_id"] arg_cong[OF assms(2), of "map (\<lambda>s. (sl_namespace s, sl_subject s, sl_purpose s))"]
    by (simp add: slots_constraints_def comp_def)
  ultimately show ?thesis using assms(1) unfolding rows_inv_def same by (simp add: edges_ok_def)
qed

lemma transition_inv:
  assumes t: "transition_derivation D a st reason run at c = Inr c'" and inv: "rows_inv D c" "pointers_ok c"
    and s0: "state_of c a = Some s0" "live s0" "s0 \<noteq> st" and st: "st \<noteq> N_CURRENT"
    and reason: "(run \<noteq> None) = (reason \<in> {DEPENDENCY_INACTIVE, REACTIVATED})"
  shows "rows_inv D c' \<and> pointers_ok c' \<and> frame c c'"
proof -
  from t s0(1,3) have "pointers_ok c'"
    by (rule transition_put_state) (use vacate_pointers[OF inv _ _ _ st] in blast)
  with transition_rows_inv[OF t inv(1) s0 reason] show ?thesis by blast
qed

section \<open>Transitions succeed\<close>

lemma put_state_constraints:
  assumes inv: "rows_inv D c" and r: "find_node c a = Some r" "live (nr_state r)"
    and n: "nd_artifact n = a" "nd_revision n = nr_revision r" and st: "st \<noteq> N_FAILED"
  shows "nodes_constraints D (ec_nodes (put_state D st at n slots e c))"
proof -
  let ?f = "\<lambda>q. if q = r then restated D st at n r else q"
  have a: "r \<in> set (ec_nodes c)" "nr_artifact r = a" using find_node_in[OF r(1)] by auto
  have old: "list_all (node_row_check D) (ec_nodes c)" "distinct (map nr_artifact (ec_nodes c))"
    "distinct (map nr_slot (filter (live \<circ> nr_state) (ec_nodes c)))"
    using inv by (simp_all add: rows_inv_def nodes_constraints_def)
  have "node_row_check D r" using old(1) a(1) by (simp add: list_all_iff)
  then have "node_row_check D (restated D st at n r)" using r(2) st
    by (auto simp: node_row_check_def live_def) (auto simp: restated_def)
  then have checks: "list_all (node_row_check D) (map ?f (ec_nodes c))" using old(1) by (auto simp: list_all_iff)
  have "map nr_artifact (map ?f (ec_nodes c)) = map nr_artifact (ec_nodes c)" by auto
  then have ids: "distinct (map nr_artifact (map ?f (ec_nodes c)))" using old(2) by (simp only:)
  have "map nr_slot (filter (\<lambda>q. nr_state q = N_CURRENT) (map ?f (ec_nodes c))) =
      map nr_slot (filter (\<lambda>q. nr_state (?f q) = N_CURRENT) (ec_nodes c))"
    unfolding filter_map map_map by (intro map_cong) (auto simp: comp_def)
  moreover have "distinct (map nr_slot (filter (\<lambda>q. nr_state (?f q) = N_CURRENT) (ec_nodes c)))"
    using old(3) r(2) by (rule_tac distinct_filter_mono[where Q = "live \<circ> nr_state"]) (auto simp: live_def split: if_splits)
  ultimately show ?thesis
    using checks ids unfolding put_state_nodes[OF inv r(1) n] nodes_constraints_def by simp
qed

lemma live_valid_move:
  assumes "node_valid D n" "live (nd_state n)" "st \<noteq> N_FAILED"
  shows "node_valid D (moved D st at n) \<longleftrightarrow> nd_created n \<le> at"
  using assms by (intro moved_valid) (auto simp: live_def)

lemma transition_total:
  assumes inv: "rows_inv D c" and load: "load_derivation D c a = Inr (Some n)" and st: "live (nd_state n)" "st \<noteq> N_FAILED"
    and ok: "nd_created n \<le> at" "opt_all (\<lambda>i. i \<in> rr_run ` set (ec_runs c)) run"
  shows "\<exists>c'. transition_derivation D a st reason run at c = Inr c'"
proof (cases "nd_state n = st")
  case False
  from load obtain r s x out where r: "find_node c a = Some r" "n = node_of_row r s x out (deps_of c a)" "node_valid D n"
    by (rule load_InrE)
  have nd: "nd_artifact n = a" "nd_revision n = nr_revision r" "nd_state n = nr_state r"
    using r(1,2) by (auto simp: node_of_row_def dest: find_node_in)
  have v: "node_valid D (moved D st at n)" using live_valid_move[OF r(3) st] ok(1) by simp
  let ?rows = "upd_where (\<lambda>r. nr_artifact r = a \<and> nr_revision r = nd_revision n) (restated D st at n) (ec_nodes c)"
  have "nodes_constraints D ?rows"
    using put_state_constraints[OF inv r(1) _ nd(1,2) st(2), of at "ec_slots c" undefined] st(1) nd
    by (simp add: put_state_def)
  then have put: "put_nodes D ?rows c = Inr (c\<lparr>ec_nodes := ?rows\<rparr>)" by (simp add: put_nodes_def)
  have rest: "(\<lambda>r. r\<lparr>nr_state := st, nr_revision := nd_revision (moved D st at n), nr_updated := at,
      nr_fingerprint := nd_fingerprint (moved D st at n)\<rparr>) = restated D st at n" by (simp add: restated_def fun_eq_iff)
  have "a \<in> set (map nr_artifact (ec_nodes c))" using find_node_in[OF r(1)] by auto
  also have "map nr_artifact (ec_nodes c) = map nr_artifact ?rows" by (rule map_upd_where[symmetric]) simp
  finally have "a \<in> nr_artifact ` set ?rows" unfolding set_map .
  then have found: "find_node (c\<lparr>ec_nodes := ?rows, ec_slots := ss\<rparr>) a \<noteq> None" for ss
    by (auto simp: find_node_def find_None_iff)
  have "transition_derivation D a st reason run at c = append_derivation_event a (Some (nd_state n)) st reason run at
      (c\<lparr>ec_nodes := ?rows, ec_slots := vacate n a at (ec_slots c)\<rparr>)"
    using load False v unfolding transition_derivation_def
    by (simp only: sbind_simps option.case if_False Let_def rest put not_True_eq_False if_cancel) (simp add: vacate_def)
  also have "\<dots> = Inr (c\<lparr>ec_nodes := ?rows, ec_slots := vacate n a at (ec_slots c), ec_events := ec_events c @
      [\<lparr>de_artifact = a, de_sequence = foldr max (map de_sequence (filter (\<lambda>e. de_artifact e = a) (ec_events c))) 0 + 1,
         de_from = Some (nd_state n), de_to = st, de_reason = reason, de_run = run, de_at = at\<rparr>]\<rparr>)"
    using found False ok(2) by (auto simp: append_derivation_event_def Let_def opt_all_def split: option.splits)
  finally show ?thesis by blast
qed (use load in \<open>simp add: transition_derivation_def\<close>)

section \<open>Activation\<close>

lemma occupy_slots:
  assumes "rows_inv D c" "find_node c a = Some r"
  shows "occupy a at c = c\<lparr>ec_slots := map (\<lambda>s. if sl_id (sr_slot s) = nr_slot r \<and> sr_current s = None
     then s\<lparr>sr_current := Some a, sr_updated := at\<rparr> else s) (ec_slots c)\<rparr>"
  using assms(2) by (simp add: occupy_def upd_where_def)

lemma occupy_rows_inv: "rows_inv D c \<Longrightarrow> rows_inv D (occupy a at c)"
  by (auto simp: occupy_def upd_where_def split: option.splits intro!: rows_inv_slots)

lemma occupy_frame [simp]: "frame c (occupy a at c)"
  by (auto simp: occupy_def frame_def split: option.splits)

lemma activation_pointers:
  assumes inv: "rows_inv D c" and p: "pointers_ok c" and r: "find_node c a = Some r" "nr_state r = N_STALE"
    and free: "slot_free c a" and n: "nd_artifact n = a" "nd_revision n = nr_revision r" "nd_state n = N_STALE"
  shows "pointers_ok (put_state D N_CURRENT at n (vacate n a at (ec_slots (occupy a at c))) e (occupy a at c))"
proof -
  let ?o = "occupy a at c"
  have r': "find_node ?o a = Some r" using r(1) by (auto simp: occupy_def find_node_def split: option.splits)
  from free r(1) obtain s where s: "find_slot c (nr_slot r) = Some s" "sr_current s = None"
    by (auto simp: slot_free_def split: option.splits)
  have only: "s' = s" if "s' \<in> set (ec_slots c)" "sl_id (sr_slot s') = nr_slot r" for s'
    using find_slot_row[OF inv that(1)] that(2) s(1) by simp
  have a: "r \<in> set (ec_nodes c)" "nr_artifact r = a" using find_node_in[OF r(1)] by auto
  have none: "\<not> (q \<in> set (ec_nodes c) \<and> nr_state q = N_CURRENT \<and> nr_slot q = nr_slot r)" for q
    using p s find_slot_in[OF s(1)] unfolding pointers_ok_def by (metis option.distinct(1))
  have notcur: "\<not> (q \<in> set (ec_nodes c) \<and> nr_artifact q = a \<and> nr_state q = N_CURRENT)" for q
    using same_node[OF inv _ a(1)] a(2) r(2) by (metis node_state.distinct(1))
  have "sr_current s' = Some b \<longleftrightarrow> (if b = a then N_CURRENT = N_CURRENT \<and> nr_slot r = sl_id (sr_slot s')
      else \<exists>q\<in>set (ec_nodes c). nr_artifact q = b \<and> nr_state q = N_CURRENT \<and> nr_slot q = sl_id (sr_slot s'))"
    if s': "s' \<in> set (ec_slots ?o)" for s' b
  proof -
    from s' obtain s0 where s0: "s0 \<in> set (ec_slots c)" "s' = (if sl_id (sr_slot s0) = nr_slot r \<and> sr_current s0 = None
        then s0\<lparr>sr_current := Some a, sr_updated := at\<rparr> else s0)"
      unfolding occupy_slots[OF inv r(1)] by auto
    show ?thesis
    proof (cases "sl_id (sr_slot s0) = nr_slot r")
      case True
      then have "s0 = s" using only s0(1) by blast
      then show ?thesis using s0(2) s(2) True none by auto
    next
      case False
      then have "s' = s0" using s0(2) by simp
      moreover have "sr_current s0 \<noteq> Some a" using p s0(1) notcur by (auto simp: pointers_ok_def)
      ultimately show ?thesis using p s0(1) False by (auto simp: pointers_ok_def)
    qed
  qed
  then show ?thesis
    unfolding pointers_ok_def current_in_put_state[OF occupy_rows_inv[OF inv] r' n(1,2)]
    by (simp add: put_state_def vacate_def n(3))
qed

lemma activation_inv:
  assumes t: "transition_derivation D a N_CURRENT REACTIVATED (Some run) at (occupy a at c) = Inr c'"
    and inv: "rows_inv D c" "pointers_ok c" and s: "state_of c a = Some N_STALE" "slot_free c a"
  shows "rows_inv D c' \<and> pointers_ok c' \<and> frame c c'"
proof -
  have s': "state_of (occupy a at c) a = Some N_STALE" using s(1) by simp
  have "rows_inv D c' \<and> frame (occupy a at c) c'"
    using transition_rows_inv[OF t occupy_rows_inv[OF inv(1)] s'] by (simp add: live_def)
  moreover from t s' have "pointers_ok c'"
  proof (rule transition_put_state)
    fix n r sl x out e
    assume n: "find_node (occupy a at c) a = Some r" "nr_state r = N_STALE" "n = node_of_row r sl x out (deps_of (occupy a at c) a)"
      "c' = put_state D N_CURRENT at n (vacate n a at (ec_slots (occupy a at c))) e (occupy a at c)"
    have r: "find_node c a = Some r" using n(1) by (auto simp: occupy_def find_node_def split: option.splits)
    have "nd_artifact n = a" "nd_revision n = nr_revision r" "nd_state n = N_STALE"
      using n(2,3) r by (auto simp: node_of_row_def dest: find_node_in)
    then show ?thesis unfolding n(4) by (rule activation_pointers[OF inv r n(2) s(2)])
  qed simp
  ultimately show ?thesis using frame_trans[OF occupy_frame] by blast
qed

end
