(* ===== verification/Derivation_Steps.thy ===== *)
theory Derivation_Steps
  imports Derivation_Invariant
begin

text \<open>
  Whole transactions on the evidence tables: lists of transitions, the invalidation closure, the
  reactivation loop and its fixed point, and publication.  Each keeps \<open>evidence_inv\<close>, and the
  lifecycle of a reconciliation succeeds whenever its run is recorded and its time is not before the
  creation of a node.
\<close>

section \<open>Lists of transitions\<close>

definition created_by :: "int \<Rightarrow> evidence_catalog \<Rightarrow> bool" where
  "created_by t c \<longleftrightarrow> (\<forall>r\<in>set (ec_nodes c). nr_created r \<le> t)"

lemma created_by_frame: "frame c c' \<Longrightarrow> created_by t c \<Longrightarrow> created_by t c'"
proof -
  assume f: "frame c c'" and c: "created_by t c"
  have "set (map nr_created (ec_nodes c')) = set (map nr_created (ec_nodes c))" using f by (simp add: frame_def)
  then have "nr_created ` set (ec_nodes c') = nr_created ` set (ec_nodes c)" by (simp only: set_map)
  then show ?thesis using c by (auto simp: created_by_def) (metis image_iff)
qed

lemma transitions_inv:
  assumes "transitions D st reason run at as c = Inr c'" "rows_inv D c" "pointers_ok c" "distinct as"
    "\<forall>a\<in>set as. \<exists>s. state_of c a = Some s \<and> live s \<and> s \<noteq> st" "st \<noteq> N_CURRENT"
    "(run \<noteq> None) = (reason \<in> {DEPENDENCY_INACTIVE, REACTIVATED})"
  shows "rows_inv D c' \<and> pointers_ok c' \<and> frame c c' \<and>
    (\<forall>b. state_of c' b = (if b \<in> set as then Some st else state_of c b))"
  using assms(1-5)
proof (induction as arbitrary: c)
  case (Cons a as)
  from Cons.prems(1) obtain c1 where t: "transition_derivation D a st reason run at c = Inr c1"
    "transitions D st reason run at as c1 = Inr c'" by (auto simp: sbind_Inr_iff)
  from Cons.prems(5) obtain s where s: "state_of c a = Some s" "live s" "s \<noteq> st" by auto
  have one: "rows_inv D c1 \<and> pointers_ok c1 \<and> frame c c1"
    using transition_inv[OF t(1) Cons.prems(2,3) s assms(6,7)] .
  have states: "state_of c1 b = (if b = a then Some st else state_of c b)" for b using transition_nodes(2)[OF t(1)] .
  have "\<forall>b\<in>set as. \<exists>s. state_of c1 b = Some s \<and> live s \<and> s \<noteq> st" using Cons.prems(4,5) by (auto simp: states)
  then have "rows_inv D c' \<and> pointers_ok c' \<and> frame c1 c' \<and>
      (\<forall>b. state_of c' b = (if b \<in> set as then Some st else state_of c1 b))"
    using Cons.IH[OF t(2)] one Cons.prems(4) by simp
  then show ?case using one frame_trans states by auto
qed simp

lemma transition_possible:
  assumes "rows_inv D c" "pointers_ok c" "state_of c a = Some s" "live s" "st \<noteq> N_FAILED" "created_by at c"
    "opt_all (\<lambda>i. i \<in> rr_run ` set (ec_runs c)) run"
  shows "\<exists>c'. transition_derivation D a st reason run at c = Inr c'"
proof -
  from assms(3) obtain r where r: "find_node c a = Some r" "nr_state r = s" by (auto simp: state_of_def)
  from load_inv[OF assms(1,2) r(1)] obtain sl x out where l: "load_derivation D c a = Inr (Some (node_of_row r sl x out (deps_of c a)))"
    by blast
  have "nd_created (node_of_row r sl x out (deps_of c a)) \<le> at"
    using assms(6) r(1) by (auto simp: created_by_def node_of_row_def dest: find_node_in)
  then show ?thesis using assms(4,5,7) r(2) by (intro transition_total[OF assms(1) l]) (simp_all add: node_of_row_def)
qed

lemma transitions_possible:
  assumes "rows_inv D c" "pointers_ok c" "distinct as" "\<forall>a\<in>set as. \<exists>s. state_of c a = Some s \<and> live s \<and> s \<noteq> st"
    "st \<noteq> N_CURRENT" "st \<noteq> N_FAILED" "(run \<noteq> None) = (reason \<in> {DEPENDENCY_INACTIVE, REACTIVATED})" "created_by at c"
    "opt_all (\<lambda>i. i \<in> rr_run ` set (ec_runs c)) run"
  shows "\<exists>c'. transitions D st reason run at as c = Inr c'"
  using assms(1-4,8,9)
proof (induction as arbitrary: c)
  case (Cons a as)
  from Cons.prems(4) obtain s where s: "state_of c a = Some s" "live s" "s \<noteq> st" by auto
  from transition_possible[OF Cons.prems(1,2) s(1,2) assms(6) Cons.prems(5,6)] obtain c1 where
    t: "transition_derivation D a st reason run at c = Inr c1" by blast
  have one: "rows_inv D c1 \<and> pointers_ok c1 \<and> frame c c1"
    using transition_inv[OF t Cons.prems(1,2) s assms(5,7)] .
  have states: "state_of c1 b = (if b = a then Some st else state_of c b)" for b using transition_nodes(2)[OF t] .
  have "\<exists>c'. transitions D st reason run at as c1 = Inr c'"
    using one Cons.prems created_by_frame[of c c1] by (intro Cons.IH) (auto simp: states frame_def)
  then show ?case using t by auto
qed simp

section \<open>The closure of a recursive query\<close>

definition step_rel :: "('a \<Rightarrow> 'a list) \<Rightarrow> ('a \<times> 'a) set" where
  "step_rel next_of = {(a, b). b \<in> set (next_of a)}"

lemma recurse_sound:
  "x \<in> set (recurse next_of space queue seen) \<Longrightarrow> x \<in> set seen \<or> (\<exists>a\<in>set queue. (a, x) \<in> (step_rel next_of)\<^sup>*)"
proof (induction next_of space queue seen rule: recurse.induct)
  case (2 next_of space y queue seen)
  show ?case
  proof (cases "y \<in> set seen \<or> y \<notin> set space")
    case False
    with 2 have "x \<in> set (seen @ [y]) \<or> (\<exists>a\<in>set (queue @ next_of y). (a, x) \<in> (step_rel next_of)\<^sup>*)" by simp
    moreover have "(y, x) \<in> (step_rel next_of)\<^sup>*" if "a \<in> set (next_of y)" "(a, x) \<in> (step_rel next_of)\<^sup>*" for a
      using that by (intro converse_rtrancl_into_rtrancl[of y a]) (auto simp: step_rel_def)
    ultimately show ?thesis by auto
  qed (use 2 in auto)
qed simp

lemma recurse_complete:
  assumes "\<forall>a. set (next_of a) \<subseteq> set space" "set queue \<subseteq> set space"
    "\<forall>a\<in>set seen. set (next_of a) \<subseteq> set seen \<union> set queue"
  shows "set seen \<union> set queue \<subseteq> set (recurse next_of space queue seen) \<and>
    (\<forall>a\<in>set (recurse next_of space queue seen). set (next_of a) \<subseteq> set (recurse next_of space queue seen))"
  using assms
proof (induction next_of space queue seen rule: recurse.induct)
  case (2 next_of space y queue seen)
  show ?case
  proof (cases "y \<in> set seen \<or> y \<notin> set space")
    case True
    then have "y \<in> set seen" using 2(4) by auto
    then have "\<forall>a\<in>set seen. set (next_of a) \<subseteq> set seen \<union> set queue" using 2(5) by auto
    with 2(1)[OF True 2(3)] 2(4) \<open>y \<in> set seen\<close> True show ?thesis by auto
  next
    case False
    have "\<forall>a\<in>set (seen @ [y]). set (next_of a) \<subseteq> set (seen @ [y]) \<union> set (queue @ next_of y)"
      using 2(5) by auto
    with 2(2)[OF False 2(3)] 2(3,4) False show ?thesis by auto
  qed
qed auto

lemma recurse_set:
  assumes "\<And>a. set (next_of a) \<subseteq> set space" "set init \<subseteq> set space"
  shows "set (recurse next_of space init []) = (step_rel next_of)\<^sup>* `` set init"
proof
  let ?r = "recurse next_of space init []"
  show "set ?r \<subseteq> (step_rel next_of)\<^sup>* `` set init"
    using recurse_sound[of _ next_of space init "[]"] by auto
  have c: "set init \<subseteq> set ?r" "\<forall>a\<in>set ?r. set (next_of a) \<subseteq> set ?r"
    using recurse_complete[of next_of space init "[]"] assms by auto
  have "b \<in> set ?r" if "(a, b) \<in> (step_rel next_of)\<^sup>*" "a \<in> set ?r" for a b
    using that by (induction rule: rtrancl_induct) (use c(2) in \<open>auto simp: step_rel_def\<close>)
  then show "(step_rel next_of)\<^sup>* `` set init \<subseteq> set ?r" using c(1) by auto
qed

lemma recurse_distinct: "distinct seen \<Longrightarrow> distinct (recurse next_of space queue seen)"
  by (induction next_of space queue seen rule: recurse.induct) auto

section \<open>Invalidation\<close>

text \<open>What must become stale: the current nodes that rest on an inactive binding through current nodes.\<close>

inductive invalid :: "evidence_catalog \<Rightarrow> pystr list \<Rightarrow> pystr \<Rightarrow> bool" for c inactive where
  direct: "state_of c a = Some N_CURRENT \<Longrightarrow> rests_on c inactive a \<Longrightarrow> invalid c inactive a"
| through: "invalid c inactive a \<Longrightarrow> state_of c b = Some N_CURRENT \<Longrightarrow> consumes c a b \<Longrightarrow> invalid c inactive b"

lemma invalid_current: "invalid c inactive a \<Longrightarrow> state_of c a = Some N_CURRENT"
  by (induction rule: invalid.induct) auto

lemma in_current_nodes: "rows_inv D c \<Longrightarrow> a \<in> set (current_nodes c) \<longleftrightarrow> state_of c a = Some N_CURRENT"
  by (auto simp: current_nodes_def state_of_row dest: state_of_Some)

lemma invalidation_ids_set:
  assumes "rows_inv D c"
  shows "a \<in> set (invalidation_ids c inactive) \<longleftrightarrow> invalid c inactive a"
proof -
  let ?next = "\<lambda>a. filter (consumes c a) (current_nodes c)" and ?init = "filter (rests_on c inactive) (current_nodes c)"
  have set: "set (invalidation_ids c inactive) = (step_rel ?next)\<^sup>* `` set ?init"
    unfolding invalidation_ids_def set_sort by (intro recurse_set) auto
  have "invalid c inactive b" if "(a, b) \<in> (step_rel ?next)\<^sup>*" "a \<in> set ?init" for a b
    using that
  proof (induction rule: rtrancl_induct)
    case base
    then show ?case by (auto simp: in_current_nodes[OF assms] intro: direct)
  next
    case (step x y)
    then show ?case by (auto simp: step_rel_def in_current_nodes[OF assms] intro: through)
  qed
  moreover have "b \<in> (step_rel ?next)\<^sup>* `` set ?init" if "invalid c inactive b" for b
    using that
  proof (induction rule: invalid.induct)
    case (direct a)
    then show ?case by (auto simp: in_current_nodes[OF assms] intro: ImageI)
  next
    case (through a b)
    then have "(a, b) \<in> step_rel ?next" by (simp add: step_rel_def in_current_nodes[OF assms])
    with through show ?case by (auto intro: rtrancl_into_rtrancl)
  qed
  ultimately show ?thesis unfolding set by auto
qed

lemma invalidation_ids_sorted: "sorted_unique (invalidation_ids c inactive)"
  by (simp add: sorted_unique_iff invalidation_ids_def recurse_distinct)

lemma consumes_iff:
  "consumes c a b \<longleftrightarrow> (\<exists>d. (b, d) \<in> set (ec_deps c) \<and> dp_kind d = DERIVATION_OUTPUT \<and> dp_producer d = Some a)"
  by (auto simp: consumes_def list_ex_iff)

lemma edge_consumes:
  assumes "rows_inv D c" "(b, d) \<in> set (ec_deps c)" "dp_producer d = Some a"
  shows "consumes c a b" "dp_kind d = DERIVATION_OUTPUT"
proof -
  have "dependency_valid d" using assms(1,2) by (auto simp: rows_inv_def edges_ok_def)
  then show k: "dp_kind d = DERIVATION_OUTPUT" using assms(3) by (auto simp: dependency_valid_def)
  then show "consumes c a b" using assms(2,3) by (auto simp: consumes_iff)
qed

lemma invalidation_step:
  assumes inv: "evidence_inv D c"
    and t: "transitions D N_STALE DEPENDENCY_INACTIVE (Some run) at (invalidation_ids c inactive) c = Inr c'"
  shows "evidence_inv D c'" "frame c c'"
    "state_of c' b = (if invalid c inactive b then Some N_STALE else state_of c b)"
proof -
  have r: "rows_inv D c" "pointers_ok c" "producers_ok c" using inv by (simp_all add: evidence_inv_def)
  note ids = invalidation_ids_set[OF r(1)]
  have "rows_inv D c' \<and> pointers_ok c' \<and> frame c c' \<and>
      (\<forall>b. state_of c' b = (if b \<in> set (invalidation_ids c inactive) then Some N_STALE else state_of c b))"
    using t r(1,2)
  proof (rule transitions_inv)
    show "distinct (invalidation_ids c inactive)" using invalidation_ids_sorted by (simp add: sorted_unique_iff)
    show "\<forall>a\<in>set (invalidation_ids c inactive). \<exists>s. state_of c a = Some s \<and> live s \<and> s \<noteq> N_STALE"
      by (auto simp: ids live_def dest!: invalid_current)
  qed simp_all
  then have all: "rows_inv D c'" "pointers_ok c'" "frame c c'" "state_of c' b = (if invalid c inactive b then Some N_STALE else state_of c b)" for b
    by (auto simp: ids)
  have "producers_ok c'"
    unfolding producers_ok_def
  proof (clarify, goal_cases)
    case (1 a d p)
    have e: "(a, d) \<in> set (ec_deps c)" using 1(1) all(3) by (simp add: frame_def)
    from 1(3) have a: "state_of c a = Some N_CURRENT" "\<not> invalid c inactive a" by (auto simp: all(4) split: if_splits)
    have "\<not> invalid c inactive p" using through[OF _ a(1) edge_consumes(1)[OF r(1) e 1(2)]] a(2) by blast
    moreover have "state_of c p \<in> {Some N_CURRENT, Some N_SUPERSEDED}"
      using r(3) e 1(2) a(1) unfolding producers_ok_def by blast
    ultimately show ?case using 1(4) by (auto simp: all(4))
  qed
  with all show "evidence_inv D c'" "frame c c'" "state_of c' b = (if invalid c inactive b then Some N_STALE else state_of c b)"
    by (auto simp: evidence_inv_def)
qed

section \<open>Reactivation\<close>

lemma deps_of_edge: "(a, d) \<in> set (ec_deps c) \<Longrightarrow> d \<in> set (deps_of c a)"
  by (force simp: deps_of_def)

lemma activation_step:
  assumes inv: "evidence_inv D c" and s: "state_of c a = Some N_STALE" "slot_free c a" "dependencies_current v c a"
    and t: "transition_derivation D a N_CURRENT REACTIVATED (Some run) at (occupy a at c) = Inr c'"
  shows "evidence_inv D c'" "frame c c'"
    "state_of c' b = (if b = a then Some N_CURRENT else state_of c b)"
proof -
  have r: "rows_inv D c" "pointers_ok c" "producers_ok c" using inv by (simp_all add: evidence_inv_def)
  have one: "rows_inv D c'" "pointers_ok c'" "frame c c'" using activation_inv[OF t r(1,2) s(1,2)] by auto
  have st: "state_of c' b = (if b = a then Some N_CURRENT else state_of c b)" for b
    using transition_nodes(2)[OF t] by simp
  have "producers_ok c'"
    unfolding producers_ok_def
  proof (clarify, goal_cases)
    case (1 x d p)
    have e: "(x, d) \<in> set (ec_deps c)" using 1(1) one(3) by (simp add: frame_def)
    show ?case
    proof (cases "x = a")
      case True
      have "dependency_current v c d" using s(3) deps_of_edge[OF e] True by (auto simp: dependencies_current_def list_all_iff)
      then have "state_of c p = Some N_CURRENT"
        using 1(2) edge_consumes(2)[OF r(1) e 1(2)] by (auto simp: dependency_current_def state_of_def split: option.splits)
      then show ?thesis using 1(4) s(1) by (auto simp: st split: if_splits)
    next
      case False
      then have "state_of c p \<in> {Some N_CURRENT, Some N_SUPERSEDED}"
        using r(3) e 1(2,3) unfolding producers_ok_def by (auto simp: st)
      then show ?thesis using 1(4) by (auto simp: st split: if_splits)
    qed
  qed
  with one st show "evidence_inv D c'" "frame c c'" "state_of c' b = (if b = a then Some N_CURRENT else state_of c b)"
    by (auto simp: evidence_inv_def)
qed

lemma reactivate_pass_inv:
  assumes "reactivate_pass D v run at as c = Inr (c', ids)" "evidence_inv D c" "distinct as"
    "\<forall>a\<in>set as. state_of c a = Some N_STALE"
  shows "evidence_inv D c' \<and> frame c c' \<and> distinct ids \<and>
    (ids = [] \<longrightarrow> c' = c \<and> (\<forall>a\<in>set as. \<not> (dependencies_current v c a \<and> slot_free c a)))"
  using assms
proof (induction as arbitrary: c ids)
  case (Cons a as)
  show ?case
  proof (cases "dependencies_current v c a \<and> slot_free c a")
    case True
    with Cons.prems(1) obtain c1 ids1 where t: "transition_derivation D a N_CURRENT REACTIVATED (Some run) at (occupy a at c) = Inr c1"
      "reactivate_pass D v run at as c1 = Inr (c', ids1)" "ids = a # ids1" by (auto simp: sbind_Inr_iff)
    note one = activation_step[OF Cons.prems(2) _ _ _ t(1), of v]
    have o: "evidence_inv D c1" "frame c c1" "state_of c1 b = (if b = a then Some N_CURRENT else state_of c b)" for b
      using one True Cons.prems(4) by auto
    have "\<forall>b\<in>set as. state_of c1 b = Some N_STALE" using Cons.prems(3,4) by (auto simp: o(3))
    with Cons.IH[OF t(2) o(1)] Cons.prems(3) have "evidence_inv D c' \<and> frame c1 c' \<and> distinct ids1" by simp
    moreover have "a \<notin> set ids1" using reactivate_pass_nodes[OF t(2)] Cons.prems(3) by auto
    ultimately show ?thesis using o(2) t(3) frame_trans by auto
  next
    case False
    with Cons.prems(1) have "reactivate_pass D v run at as c = Inr (c', ids)" by auto
    from Cons.IH[OF this Cons.prems(2)] Cons.prems(3,4) False show ?thesis by auto
  qed
qed simp

lemma activation_possible:
  assumes "rows_inv D c" "state_of c a = Some N_STALE" "created_by at c" "run \<in> rr_run ` set (ec_runs c)"
  shows "\<exists>c1. transition_derivation D a N_CURRENT REACTIVATED (Some run) at (occupy a at c) = Inr c1"
proof -
  let ?o = "occupy a at c"
  have inv: "rows_inv D ?o" using assms(1) by (rule occupy_rows_inv)
  from assms(2) obtain r where r: "find_node ?o a = Some r" "nr_state r = N_STALE"
    by (auto simp: state_of_def occupy_def find_node_def split: option.splits)
  have "row_ok D ?o r" using inv r(1) by (auto simp: rows_inv_def dest: find_node_in)
  from load_row_ok[OF r(1) this] r(2) obtain s x out where
    l: "load_derivation D ?o a = Inr (Some (node_of_row r s x out (deps_of ?o a)))" by auto
  have f: "frame c ?o" by simp
  have "nr_created r \<le> at" using created_by_frame[OF f assms(3)] r(1) by (auto simp: created_by_def dest: find_node_in)
  moreover have "run \<in> rr_run ` set (ec_runs ?o)" using f assms(4) by (simp add: frame_def)
  ultimately show ?thesis using r(2)
    by (intro transition_total[OF inv l]) (simp_all add: node_of_row_def live_def opt_all_def)
qed

lemma reactivate_pass_possible:
  assumes "evidence_inv D c" "distinct as" "\<forall>a\<in>set as. state_of c a = Some N_STALE" "created_by at c"
    "run \<in> rr_run ` set (ec_runs c)"
  shows "\<exists>c' ids. reactivate_pass D v run at as c = Inr (c', ids)"
  using assms
proof (induction as arbitrary: c)
  case (Cons a as)
  show ?case
  proof (cases "dependencies_current v c a \<and> slot_free c a")
    case True
    have "\<exists>c1. transition_derivation D a N_CURRENT REACTIVATED (Some run) at (occupy a at c) = Inr c1"
      using Cons.prems by (intro activation_possible) (auto simp: evidence_inv_def)
    then obtain c1 where t: "transition_derivation D a N_CURRENT REACTIVATED (Some run) at (occupy a at c) = Inr c1" by blast
    note one = activation_step[OF Cons.prems(1) _ _ _ t, of v]
    have o: "evidence_inv D c1" "frame c c1" "state_of c1 b = (if b = a then Some N_CURRENT else state_of c b)" for b
      using one True Cons.prems(3) by auto
    have "\<exists>c' ids. reactivate_pass D v run at as c1 = Inr (c', ids)"
      using o Cons.prems created_by_frame[OF o(2)] by (intro Cons.IH) (auto simp: o(3) frame_def)
    then show ?thesis using True t by auto
  next
    case False
    then show ?thesis using Cons by auto
  qed
qed simp

lemma candidates_stale: "a \<in> set (candidates c) \<longleftrightarrow> state_of c a = Some N_STALE \<and> slot_free c a"
  by (auto simp: candidates_def stale_nodes_def dest: state_of_Some)

lemma candidates_distinct: "distinct (candidates c)"
  by (simp add: candidates_def stale_nodes_def)

text \<open>The loop ends in a catalog in which no stale node can be reactivated.\<close>

lemma reactivate_inv:
  assumes "reactivate D v run at c = Inr (c', ids)" "evidence_inv D c"
  shows "evidence_inv D c' \<and> frame c c' \<and> distinct ids \<and> (\<forall>a\<in>set ids. state_of c a = Some N_STALE) \<and>
    (\<forall>b. state_of c' b = (if b \<in> set ids then Some N_CURRENT else state_of c b)) \<and>
    (\<forall>a. state_of c' a = Some N_STALE \<longrightarrow> \<not> (dependencies_current v c' a \<and> slot_free c' a))"
  using assms
proof (induction "length (stale_nodes c)" arbitrary: c ids rule: less_induct)
  case less
  from less.prems(1) obtain c1 ids1 where p: "reactivate_pass D v run at (candidates c) c = Inr (c1, ids1)"
    by (subst (asm) reactivate.simps) (auto split: sum.splits)
  have stale: "\<forall>a\<in>set (candidates c). state_of c a = Some N_STALE" by (simp add: candidates_stale)
  note pass = reactivate_pass_inv[OF p less.prems(2) candidates_distinct stale]
  note nodes = reactivate_pass_nodes[OF p]
  show ?case
  proof (cases "ids1 = []")
    case True
    with less.prems(1) p have r: "c' = c1" "ids = []" by (subst (asm) reactivate.simps, simp)+
    then show ?thesis using pass True less.prems(2) by (auto simp: candidates_stale)
  next
    case False
    with less.prems(1) p obtain ids2 where r: "reactivate D v run at c1 = Inr (c', ids2)" "ids = ids1 @ ids2"
      by (subst (asm) reactivate.simps) (auto split: sum.splits)
    have smaller: "length (stale_nodes c1) < length (stale_nodes c)" using p False by (rule reactivate_pass_less)
    note rest = less.hyps[OF smaller r(1) conjunct1[OF pass]]
    have states: "state_of c1 b = (if b \<in> set ids1 then Some N_CURRENT else state_of c b)" for b using nodes by blast
    have later: "a \<notin> set ids1 \<and> state_of c a = Some N_STALE" if "a \<in> set ids2" for a
    proof -
      have "state_of c1 a = Some N_STALE" using rest that by blast
      then show ?thesis by (simp add: states split: if_splits)
    qed
    have "\<forall>b. state_of c' b = (if b \<in> set ids then Some N_CURRENT else state_of c b)"
      using rest states by (simp add: r(2))
    moreover have "\<forall>a\<in>set ids. state_of c a = Some N_STALE"
      using nodes stale later by (auto simp: r(2))
    moreover have "distinct ids" using pass rest later by (auto simp: r(2))
    moreover have "frame c c'" using pass rest frame_trans by blast
    ultimately show ?thesis using rest by blast
  qed
qed

lemma reactivate_possible:
  assumes "evidence_inv D c" "created_by at c" "run \<in> rr_run ` set (ec_runs c)"
  shows "\<exists>c' ids. reactivate D v run at c = Inr (c', ids)"
  using assms
proof (induction "length (stale_nodes c)" arbitrary: c rule: less_induct)
  case less
  have stale: "\<forall>a\<in>set (candidates c). state_of c a = Some N_STALE" by (simp add: candidates_stale)
  from reactivate_pass_possible[OF less.prems(1) candidates_distinct stale less.prems(2,3)] obtain c1 ids1 where
    p: "reactivate_pass D v run at (candidates c) c = Inr (c1, ids1)" by blast
  note pass = reactivate_pass_inv[OF p less.prems(1) candidates_distinct stale]
  show ?case
  proof (cases "ids1 = []")
    case True
    then show ?thesis using p by (subst reactivate.simps) simp
  next
    case False
    with p have "length (stale_nodes c1) < length (stale_nodes c)" by (rule reactivate_pass_less)
    then have "\<exists>c' ids. reactivate D v run at c1 = Inr (c', ids)"
      using pass less.prems(2,3) created_by_frame by (intro less.hyps) (auto simp: frame_def)
    then show ?thesis using p False by (subst reactivate.simps) auto
  qed
qed

end
