(* ===== verification/Derivation_Publish.thy ===== *)
theory Derivation_Publish
  imports Derivation_Steps
begin

text \<open>
  Publication keeps the invariant: registering the objects and opening the slot change no node, the
  former nodes of the slot are superseded, and the new node enters after its producers.
\<close>

section \<open>Objects and slots\<close>

lemma rows_inv_cong:
  assumes "rows_inv D c" "ec_nodes c' = ec_nodes c" "ec_deps c' = ec_deps c" "ec_events c' = ec_events c"
    and "slots_constraints (ec_slots c')" "distinct (map so_id (ec_objects c'))"
    and "\<And>i s. slot_of c i = Some s \<Longrightarrow> slot_of c' i = Some s" "\<And>i x. find_object c i = Some x \<Longrightarrow> find_object c' i = Some x"
  shows "rows_inv D c'"
proof -
  have "row_ok D c' r" if "row_ok D c r" for r
  proof -
    from that obtain s x out where w: "nr_recipe r = recipe_of (nr_record r)" "slot_of c (nr_slot r) = Some s"
      "find_object c (nr_object r) = Some x" "output_of c r = Inr out"
      "node_valid D (node_of_row r s x out (deps_of c (nr_artifact r)))" by (auto simp: row_ok_def)
    have "output_of c' r = Inr out"
    proof (cases "nr_output r")
      case (Some i)
      with w(4) obtain y where y: "find_object c i = Some y" "out = Some y"
        by (cases "find_object c i") (auto simp: output_of_def)
      then show ?thesis using Some assms(8)[OF y(1)] by (simp add: output_of_def)
    qed (use w(4) in \<open>simp add: output_of_def\<close>)
    moreover have "deps_of c' = deps_of c" using assms(3) by (simp add: deps_of_def fun_eq_iff)
    ultimately show ?thesis using w assms(7,8) by (auto simp: row_ok_def)
  qed
  with assms show ?thesis by (auto simp: rows_inv_def edges_ok_def node_log_def)
qed

lemma register_cases:
  assumes "store_object x c = Inr c'"
  obtains "c' = c" | "find_object c (so_id x) = None" "c' = c\<lparr>ec_objects := ec_objects c @ [x]\<rparr>"
  using assms by (auto simp: store_object_def split: option.splits if_splits)

lemma rows_inv_objects:
  assumes "rows_inv D c" "distinct (map so_id (ec_objects c @ xs))"
  shows "rows_inv D (c\<lparr>ec_objects := ec_objects c @ xs\<rparr>)"
  using assms(1)
proof (rule rows_inv_cong)
  show "slot_of (c\<lparr>ec_objects := ec_objects c @ xs\<rparr>) i = Some s" if "slot_of c i = Some s" for i s
    using that by (simp add: slot_of_map)
  show "find_object (c\<lparr>ec_objects := ec_objects c @ xs\<rparr>) i = Some x" if "find_object c i = Some x" for i x
    using that by (simp add: find_object_def find_append)
qed (use assms in \<open>simp_all add: rows_inv_def\<close>)

lemma register_inv:
  assumes "store_object x c = Inr c'" "evidence_inv D c"
  shows "evidence_inv D c' \<and> ec_nodes c' = ec_nodes c \<and> ec_deps c' = ec_deps c \<and> ec_slots c' = ec_slots c"
  using assms(1)
proof (cases rule: register_cases)
  case 2
  have "so_id x \<notin> so_id ` set (ec_objects c)" using 2(1) by (auto simp: find_object_def find_None_iff)
  then have "rows_inv D c'" unfolding 2(2)
    using assms(2) by (intro rows_inv_objects) (auto simp: evidence_inv_def rows_inv_def)
  then show ?thesis using assms(2) 2(2)
    by (auto simp: evidence_inv_def pointers_ok_def producers_ok_def state_of_def find_node_def)
qed (use assms in simp)

lemma slot_of_node: "rows_inv D c \<Longrightarrow> r \<in> set (ec_nodes c) \<Longrightarrow> find_slot c (nr_slot r) \<noteq> None"
  by (auto simp: rows_inv_def row_ok_def slot_of_def)

lemma open_slot_inv:
  assumes "open_slot s at c = Inr c'" "evidence_inv D c"
  shows "evidence_inv D c' \<and> ec_nodes c' = ec_nodes c \<and> ec_deps c' = ec_deps c \<and> slot_of c' (sl_id s) = Some s"
proof (cases "find_slot c (sl_id s)")
  case (Some row)
  with assms show ?thesis by (auto simp: open_slot_def slot_of_def split: if_splits)
next
  case None
  let ?row = "\<lparr>sr_slot = s, sr_current = None, sr_created = at, sr_updated = at\<rparr>"
  from assms(1) None have c': "c' = c\<lparr>ec_slots := ec_slots c @ [?row]\<rparr>" "slots_constraints (ec_slots c @ [?row])"
    by (auto simp: open_slot_def Let_def split: if_splits)
  have inv: "rows_inv D c" "pointers_ok c" "producers_ok c" using assms(2) by (auto simp: evidence_inv_def)
  have "rows_inv D c'"
    using inv(1)
  proof (rule rows_inv_cong)
    show "slot_of c' i = Some t" if "slot_of c i = Some t" for i t
      using that by (auto simp: c'(1) slot_of_map find_append)
    show "find_object c' i = Some x" if "find_object c i = Some x" for i x using that by (simp add: c'(1) find_object_def)
  qed (use c' inv(1) in \<open>simp_all add: rows_inv_def\<close>)
  moreover have "nr_slot r \<noteq> sl_id s" if "r \<in> set (ec_nodes c)" for r using slot_of_node[OF inv(1) that] None by auto
  then have "pointers_ok c'" using inv(2) by (auto simp: c'(1) pointers_ok_def)
  moreover have "producers_ok c'" using inv(3) by (simp add: c'(1) producers_ok_def state_of_def find_node_def)
  moreover have "slot_of c' (sl_id s) = Some s"
    using None by (simp add: c'(1) slot_of_def find_slot_def find_append)
  ultimately show ?thesis by (simp add: evidence_inv_def c'(1))
qed

section \<open>Dependencies of a publication\<close>

lemma check_dependencies_Inr: "check_dependencies c a ds = Inr u \<Longrightarrow> d \<in> set ds \<Longrightarrow> check_dependency c a d = Inr ()"
  by (induction ds) (auto simp: sbind_Inr_iff)

lemma checked_producer:
  assumes "check_dependencies c a ds = Inr u" "d \<in> set ds" "dependency_valid d" "dp_producer d = Some p"
  shows "p \<noteq> a" "state_of c p = Some N_CURRENT"
proof -
  have "dp_kind d = DERIVATION_OUTPUT" using assms(3,4) by (auto simp: dependency_valid_def)
  with check_dependencies_Inr[OF assms(1,2)] assms(4) show "p \<noteq> a" "state_of c p = Some N_CURRENT"
    by (auto simp: check_dependency_def Let_def state_of_def split: if_splits option.splits)
qed

lemma prior_nodes_states:
  assumes "rows_inv D c"
  shows "a \<in> set (prior_nodes c i) \<longleftrightarrow> (\<exists>r\<in>set (ec_nodes c). nr_artifact r = a \<and> nr_slot r = i \<and> live (nr_state r))"
    and "distinct (prior_nodes c i)"
proof -
  show "a \<in> set (prior_nodes c i) \<longleftrightarrow> (\<exists>r\<in>set (ec_nodes c). nr_artifact r = a \<and> nr_slot r = i \<and> live (nr_state r))"
    by (auto simp: prior_nodes_def live_def)
  have "distinct (map nr_artifact (ec_nodes c))" using assms by (simp add: rows_inv_def nodes_constraints_def)
  then show "distinct (prior_nodes c i)" by (simp add: prior_nodes_def distinct_map_filter)
qed

section \<open>The new node\<close>

lemma before_append: "before xs p a \<Longrightarrow> before (xs @ ys) p a"
  by (fastforce simp: before_def)

lemma before_last: "p \<in> set xs \<Longrightarrow> before (xs @ [a]) p a"
  by (auto simp: before_def)

lemma fresh_node: "a \<notin> nr_artifact ` set (ec_nodes c) \<Longrightarrow> r \<in> set (ec_nodes c) \<Longrightarrow> nr_artifact r \<noteq> a"
  by (metis image_eqI)

lemma fresh_state: "a \<notin> nr_artifact ` set (ec_nodes c) \<Longrightarrow> state_of c a = None"
  by (cases "state_of c a") (auto dest: fresh_node dest!: state_of_Some)

text \<open>The catalog with the new row, its dependencies, the pointer of its slot and its first event.\<close>

definition with_node :: "node \<Rightarrow> deriv_event \<Rightarrow> evidence_catalog \<Rightarrow> evidence_catalog" where
  "with_node n e c = c\<lparr>ec_nodes := ec_nodes c @ [row_of_node n],
     ec_deps := ec_deps c @ map (\<lambda>d. (nd_artifact n, d)) (nd_deps n),
     ec_slots := (if nd_state n = N_CURRENT
       then upd_where (\<lambda>s. sl_id (sr_slot s) = sl_id (nd_slot n))
         (\<lambda>s. s\<lparr>sr_current := Some (nd_artifact n), sr_updated := nd_created n\<rparr>) (ec_slots c)
       else ec_slots c),
     ec_events := ec_events c @ [e]\<rparr>"

lemma insert_cases:
  assumes "insert_node D n c = Inr c1" "append_derivation_event (nd_artifact n) None (nd_state n) reason None at c1 = Inr c2"
  obtains e where "c2 = with_node n e c" "nodes_constraints D (ec_nodes c @ [row_of_node n])"
    "de_artifact e = nd_artifact n" "de_from e = None" "de_to e = nd_state n" "de_reason e = reason" "de_run e = None"
    "de_sequence e = foldr max (map de_sequence (node_log c (nd_artifact n))) 0 + 1"
proof -
  let ?e = "\<lparr>de_artifact = nd_artifact n, de_sequence = foldr max (map de_sequence (node_log c (nd_artifact n))) 0 + 1,
     de_from = None, de_to = nd_state n, de_reason = reason, de_run = None, de_at = at\<rparr>"
  from assms(1) have c1: "nodes_constraints D (ec_nodes c @ [row_of_node n])" "with_node n ?e c = c1\<lparr>ec_events := ec_events c1 @ [?e]\<rparr>"
    "ec_events c1 = ec_events c"
    by (auto simp: insert_node_def sbind_Inr_iff put_nodes_def Let_def with_node_def split: if_splits)
  have "c2 = with_node n ?e c" using assms(2) unfolding c1(2)
    by (auto simp: append_derivation_event_def Let_def node_log_def c1(3) split: if_splits)
  then show thesis using c1(1) by (rule that) simp_all
qed

lemma with_node_fields:
  assumes "nd_artifact n \<notin> nr_artifact ` set (ec_nodes c)"
  shows "state_of (with_node n e c) b = (if b = nd_artifact n then Some (nd_state n) else state_of c b)"
    and "b \<noteq> nd_artifact n \<Longrightarrow> deps_of (with_node n e c) b = deps_of c b"
    and "find_node (with_node n e c) (nd_artifact n) = Some (row_of_node n)"
    and "slot_of (with_node n e c) i = slot_of c i" and "find_object (with_node n e c) = find_object c"
proof -
  have none: "find_node c (nd_artifact n) = None" using assms unfolding find_node_def find_None_iff by (metis image_eqI)
  then show "find_node (with_node n e c) (nd_artifact n) = Some (row_of_node n)"
    by (simp add: find_node_def with_node_def find_append row_of_node_def)
  show "state_of (with_node n e c) b = (if b = nd_artifact n then Some (nd_state n) else state_of c b)"
    using none by (auto simp: state_of_def find_node_def with_node_def find_append row_of_node_def split: option.splits)
  show "b \<noteq> nd_artifact n \<Longrightarrow> deps_of (with_node n e c) b = deps_of c b"
    by (simp add: deps_of_def with_node_def)
  show "slot_of (with_node n e c) i = slot_of c i"
    by (simp add: slot_of_map with_node_def upd_where_def comp_def if_distrib cong: if_cong)
  show "find_object (with_node n e c) = find_object c" by (simp add: find_object_def with_node_def fun_eq_iff)
qed

lemma with_node_rows:
  assumes old: "rows_inv D c" and fresh: "nd_artifact n \<notin> nr_artifact ` set (ec_nodes c)"
    and load: "load_derivation D (with_node n e c) (nd_artifact n) = Inr (Some n)"
  shows "\<forall>r\<in>set (ec_nodes (with_node n e c)). row_ok D (with_node n e c) r"
proof -
  let ?c = "with_node n e c"
  note f = with_node_fields[OF fresh, where e = e]
  have "row_ok D ?c (row_of_node n)" using load
  proof (rule load_InrE)
    fix r s x out
    assume r: "find_node ?c (nd_artifact n) = Some r" "n = node_of_row r s x out (deps_of ?c (nd_artifact n))"
      "slot_of ?c (nr_slot r) = Some s" "find_object ?c (nr_object r) = Some x" "output_of ?c r = Inr out" "node_valid D n"
    have "r = row_of_node n" using r(1) f(3) by simp
    moreover have "nr_recipe (row_of_node n) = recipe_of (nr_record (row_of_node n))" "nr_artifact (row_of_node n) = nd_artifact n"
      by (simp_all add: row_of_node_def)
    ultimately show ?thesis using r unfolding row_ok_def by metis
  qed
  moreover have "row_ok D ?c r" if "r \<in> set (ec_nodes c)" for r
  proof -
    have d: "deps_of ?c (nr_artifact r) = deps_of c (nr_artifact r)" using fresh_node[OF fresh that] by (rule f(2))
    have "output_of ?c r = output_of c r" unfolding output_of_def f(5) ..
    then show ?thesis using that old unfolding rows_inv_def row_ok_def f(4,5) d by metis
  qed
  ultimately show ?thesis by (auto simp: with_node_def)
qed

lemma with_node_logs:
  assumes old: "rows_inv D c" and fresh: "nd_artifact n \<notin> nr_artifact ` set (ec_nodes c)"
    and e: "de_artifact e = nd_artifact n" "de_from e = None" "de_to e = nd_state n" "de_run e = None"
      "de_reason e = (if nd_state n = N_FAILED then GENERATION_FAILED else PUBLISHED)"
      "de_sequence e = foldr max (map de_sequence (node_log c (nd_artifact n))) 0 + 1"
  shows "\<forall>r\<in>set (ec_nodes (with_node n e c)). node_log_ok (node_log (with_node n e c) (nr_artifact r)) (nr_state r)"
proof -
  have log: "node_log (with_node n e c) b = node_log c b @ (if nd_artifact n = b then [e] else [])" for b
    using e(1) by (auto simp: node_log_def with_node_def)
  have "node_log c (nd_artifact n) = []" using old fresh by (force simp: node_log_def rows_inv_def filter_empty_conv)
  then have "node_log_ok (node_log (with_node n e c) (nd_artifact n)) (nd_state n)"
    using e by (simp add: log node_log_ok_def deriv_event_valid_def)
  moreover have "node_log_ok (node_log (with_node n e c) (nr_artifact r)) (nr_state r)" if "r \<in> set (ec_nodes c)" for r
  proof -
    have "nd_artifact n \<noteq> nr_artifact r" using that fresh by (metis image_eqI)
    then show ?thesis using old that by (simp add: log rows_inv_def)
  qed
  moreover have "set (ec_nodes (with_node n e c)) = insert (row_of_node n) (set (ec_nodes c))" by (auto simp: with_node_def)
  moreover have "nr_artifact (row_of_node n) = nd_artifact n" "nr_state (row_of_node n) = nd_state n"
    by (simp_all add: row_of_node_def)
  ultimately show ?thesis by simp
qed

lemma with_node_edges:
  assumes old: "rows_inv D c" and deps: "list_all dependency_valid (nd_deps n)"
    and prod: "\<And>d q. d \<in> set (nd_deps n) \<Longrightarrow> dp_producer d = Some q \<Longrightarrow> state_of c q \<noteq> None"
  shows "edges_ok (with_node n e c)"
proof -
  have ids: "map nr_artifact (ec_nodes (with_node n e c)) = map nr_artifact (ec_nodes c) @ [nd_artifact n]"
    by (simp add: with_node_def row_of_node_def)
  have "before (map nr_artifact (ec_nodes c) @ [nd_artifact n]) q (nd_artifact n)"
    if "d \<in> set (nd_deps n)" "dp_producer d = Some q" for d q
    using prod[OF that] by (intro before_last) (auto dest: state_of_Some)
  moreover have img: "nr_artifact ` set (ec_nodes (with_node n e c)) = insert (nd_artifact n) (nr_artifact ` set (ec_nodes c))"
    by (auto simp: with_node_def row_of_node_def)
  moreover have "edges_ok c" using old by (simp add: rows_inv_def)
  ultimately show ?thesis using deps before_append
    unfolding edges_ok_def ids img by (fastforce simp: with_node_def list_all_iff)
qed

lemma with_node_pointers:
  assumes old: "pointers_ok c" and fresh: "nd_artifact n \<notin> nr_artifact ` set (ec_nodes c)"
    and empty: "nd_state n = N_CURRENT \<Longrightarrow> \<forall>r\<in>set (ec_nodes c). nr_slot r = sl_id (nd_slot n) \<longrightarrow> \<not> live (nr_state r)"
  shows "pointers_ok (with_node n e c)"
proof -
  have now: "(\<exists>r\<in>set (ec_nodes (with_node n e c)). nr_artifact r = b \<and> nr_state r = N_CURRENT \<and> nr_slot r = i) \<longleftrightarrow>
      (if b = nd_artifact n then nd_state n = N_CURRENT \<and> sl_id (nd_slot n) = i
       else \<exists>r\<in>set (ec_nodes c). nr_artifact r = b \<and> nr_state r = N_CURRENT \<and> nr_slot r = i)" for b i
  proof -
    have "b \<noteq> nd_artifact n" if "r \<in> set (ec_nodes c)" "nr_artifact r = b" for r using that fresh by (metis image_eqI)
    then show ?thesis by (auto simp: with_node_def row_of_node_def)
  qed
  have "sr_current s = Some b \<longleftrightarrow> (if b = nd_artifact n then nd_state n = N_CURRENT \<and> sl_id (nd_slot n) = sl_id (sr_slot s)
       else \<exists>r\<in>set (ec_nodes c). nr_artifact r = b \<and> nr_state r = N_CURRENT \<and> nr_slot r = sl_id (sr_slot s))"
    if s: "s \<in> set (ec_slots (with_node n e c))" for s b
  proof -
    have none: "sr_current s0 \<noteq> Some (nd_artifact n)" if "s0 \<in> set (ec_slots c)" for s0
      using old that fresh_node[OF fresh] unfolding pointers_ok_def by blast
    show ?thesis
    proof (cases "s \<in> set (ec_slots c) \<and> \<not> (nd_state n = N_CURRENT \<and> sl_id (sr_slot s) = sl_id (nd_slot n))")
      case True
      then show ?thesis using old none[of s] by (auto simp: pointers_ok_def)
    next
      case False
      with s have c: "nd_state n = N_CURRENT" "sl_id (sr_slot s) = sl_id (nd_slot n)" "sr_current s = Some (nd_artifact n)"
        by (auto simp: with_node_def set_upd_where split: if_splits)
      then show ?thesis using empty by (auto simp: live_def)
    qed
  qed
  then show ?thesis unfolding pointers_ok_def now by simp
qed

lemma with_node_inv:
  assumes inv: "evidence_inv D c" and deps: "list_all dependency_valid (nd_deps n)"
    and cons: "nodes_constraints D (ec_nodes c @ [row_of_node n])"
    and e: "de_artifact e = nd_artifact n" "de_from e = None" "de_to e = nd_state n" "de_run e = None"
      "de_reason e = (if nd_state n = N_FAILED then GENERATION_FAILED else PUBLISHED)"
      "de_sequence e = foldr max (map de_sequence (node_log c (nd_artifact n))) 0 + 1"
    and load: "load_derivation D (with_node n e c) (nd_artifact n) = Inr (Some n)"
    and state: "nd_state n \<in> {N_CURRENT, N_FAILED}"
    and empty: "nd_state n = N_CURRENT \<Longrightarrow> \<forall>r\<in>set (ec_nodes c). nr_slot r = sl_id (nd_slot n) \<longrightarrow> \<not> live (nr_state r)"
    and prod: "\<And>d q. d \<in> set (nd_deps n) \<Longrightarrow> dp_producer d = Some q \<Longrightarrow> state_of c q \<in> {Some N_CURRENT, Some N_SUPERSEDED}"
  shows "evidence_inv D (with_node n e c)"
proof -
  let ?c = "with_node n e c" and ?a = "nd_artifact n"
  have old: "rows_inv D c" "pointers_ok c" "producers_ok c" using inv by (simp_all add: evidence_inv_def)
  have fresh: "?a \<notin> nr_artifact ` set (ec_nodes c)" using cons by (simp add: nodes_constraints_def row_of_node_def)
  note f = with_node_fields[OF fresh, where e = e]
  have known: "state_of c q \<noteq> None" if "d \<in> set (nd_deps n)" "dp_producer d = Some q" for d q using prod[OF that] by auto
  have "slots_constraints (ec_slots ?c)"
    using old(1) by (simp add: rows_inv_def slots_constraints_def with_node_def upd_where_def comp_def if_distrib cong: if_cong)
  moreover have "distinct (map nr_slot (filter (live \<circ> nr_state) (ec_nodes ?c)))"
    using old(1) empty state by (auto simp: with_node_def row_of_node_def rows_inv_def live_def comp_def)
  moreover have "\<forall>e\<in>set (ec_events ?c). de_artifact e \<in> nr_artifact ` set (ec_nodes ?c)"
    using old(1) e(1) by (auto simp: with_node_def row_of_node_def rows_inv_def)
  moreover have "nodes_constraints D (ec_nodes ?c)" "ec_objects ?c = ec_objects c" using cons by (simp_all add: with_node_def)
  ultimately have "rows_inv D ?c"
    using with_node_rows[OF old(1) fresh load] with_node_logs[OF old(1) fresh e] with_node_edges[OF old(1) deps known] old(1)
    by (simp add: rows_inv_def)
  moreover have "producers_ok ?c"
  proof -
    have "state_of ?c q \<in> {Some N_CURRENT, Some N_SUPERSEDED}"
      if w: "(b, d) \<in> set (ec_deps ?c)" "dp_producer d = Some q" "state_of ?c b = Some N_CURRENT" for b d q
    proof (cases "b = ?a")
      case True
      have "(?a, d) \<notin> set (ec_deps c)" using old(1) fresh by (auto simp: rows_inv_def edges_ok_def)
      then have "d \<in> set (nd_deps n)" using w(1) True by (auto simp: with_node_def)
      then show ?thesis using prod[OF _ w(2)] fresh_state[OF fresh] by (auto simp: f(1))
    next
      case False
      then have "(b, d) \<in> set (ec_deps c)" using w(1) by (auto simp: with_node_def)
      then have "state_of c q \<in> {Some N_CURRENT, Some N_SUPERSEDED}"
        using old(3) w(2,3) False unfolding producers_ok_def f(1) by auto
      then show ?thesis using fresh_state[OF fresh] by (auto simp: f(1))
    qed
    then show ?thesis unfolding producers_ok_def by blast
  qed
  ultimately show ?thesis using with_node_pointers[OF old(2) fresh empty] by (simp add: evidence_inv_def)
qed

section \<open>Publication\<close>

definition register_output :: "stored_object option \<Rightarrow> evidence_catalog \<Rightarrow> evidence_error + evidence_catalog" where
  "register_output out c = (case out of None \<Rightarrow> Inr c | Some x \<Rightarrow> store_object x c)"

lemma publish_cases:
  assumes "publish_derivation D p c = Inr (c', res)"
  obtains (converged) n where "load_derivation D c (dv_artifact (pb_record p)) = Inr (Some n)" "publication_matches n p"
      "c' = c" "res = \<lparr>pr_disposition = CONVERGED, pr_node = n, pr_superseded = []\<rparr>"
  | (committed) c1 c2 c3 c4 c5 n prior where
      "load_derivation D c (dv_artifact (pb_record p)) = Inr None"
      "check_dependencies c (dv_artifact (pb_record p)) (pb_deps p) = Inr ()"
      "store_object (pb_object p) c = Inr c1" "register_output (pb_output p) c1 = Inr c2"
      "open_slot (pb_slot p) (pb_at p) c2 = Inr c3"
      "prior = (if pb_output p \<noteq> None then prior_nodes c3 (sl_id (pb_slot p)) else [])"
      "transitions D N_SUPERSEDED SLOT_REPLACED None (pb_at p) prior c3 = Inr c4"
      "n = node_from_publication D p" "insert_node D n c4 = Inr c5"
      "append_derivation_event (nd_artifact n) None (nd_state n) (if nd_state n = N_FAILED then GENERATION_FAILED else PUBLISHED)
         None (pb_at p) c5 = Inr c'"
      "load_derivation D c' (nd_artifact n) = Inr (Some n)"
      "res = \<lparr>pr_disposition = COMMITTED, pr_node = n, pr_superseded = prior\<rparr>"
proof -
  have art: "nd_artifact (node_from_publication D p) = dv_artifact (pb_record p)" by (simp add: node_from_publication_def)
  from assms obtain existing where l: "load_derivation D c (dv_artifact (pb_record p)) = Inr existing"
    by (auto simp: publish_derivation_def Let_def sbind_Inr_iff)
  show thesis
  proof (cases existing)
    case (Some n)
    with assms l show thesis
      by (intro converged[of n]) (auto simp: publish_derivation_def Let_def split: if_splits)
  next
    case None
    with assms l show thesis unfolding publish_derivation_def Let_def register_output_def[symmetric]
      by (auto simp: sbind_Inr_iff art intro!: committed split: if_splits)
  qed
qed

lemma register_output_inv:
  assumes "register_output out c = Inr c'" "evidence_inv D c"
  shows "evidence_inv D c' \<and> ec_nodes c' = ec_nodes c \<and> ec_deps c' = ec_deps c"
  using assms register_inv[of _ c c' D] by (auto simp: register_output_def split: option.splits)

lemma slot_frame:
  assumes "frame c c'" "rows_inv D c" "q \<in> set (ec_nodes c)" "r \<in> set (ec_nodes c')" "nr_artifact q = nr_artifact r"
  shows "nr_slot q = nr_slot r"
proof -
  have m: "map nr_artifact (ec_nodes c') = map nr_artifact (ec_nodes c)" "map nr_slot (ec_nodes c') = map nr_slot (ec_nodes c)"
    using assms(1) by (simp_all add: frame_def)
  from assms(4) obtain i where i: "i < length (ec_nodes c')" "ec_nodes c' ! i = r" by (auto simp: in_set_conv_nth)
  have len: "length (ec_nodes c') = length (ec_nodes c)" using m(1) by (rule map_eq_imp_length_eq)
  have "nr_artifact (ec_nodes c ! i) = nr_artifact r" "nr_slot (ec_nodes c ! i) = nr_slot r"
    using arg_cong[OF m(1), of "\<lambda>xs. xs ! i"] arg_cong[OF m(2), of "\<lambda>xs. xs ! i"] i len by simp_all
  moreover have "ec_nodes c ! i \<in> set (ec_nodes c)" using i(1) len by simp
  ultimately show ?thesis using same_node[OF assms(2,3)] assms(5) by metis
qed

lemma supersede_inv:
  assumes inv: "evidence_inv D c" and t: "transitions D N_SUPERSEDED SLOT_REPLACED None at (prior_nodes c i) c = Inr c'"
  shows "evidence_inv D c'" "frame c c'"
    "state_of c' b = (if b \<in> set (prior_nodes c i) then Some N_SUPERSEDED else state_of c b)"
    "r \<in> set (ec_nodes c') \<Longrightarrow> nr_slot r = i \<Longrightarrow> \<not> live (nr_state r)"
proof -
  have old: "rows_inv D c" "pointers_ok c" "producers_ok c" using inv by (simp_all add: evidence_inv_def)
  note prior = prior_nodes_states[OF old(1)]
  have "\<forall>a\<in>set (prior_nodes c i). \<exists>s. state_of c a = Some s \<and> live s \<and> s \<noteq> N_SUPERSEDED"
    using prior(1) state_of_row[OF old(1)] by (fastforce simp: live_def)
  from transitions_inv[OF t old(1,2) prior(2) this]
  have new: "rows_inv D c'" "pointers_ok c'" "frame c c'"
    "state_of c' b = (if b \<in> set (prior_nodes c i) then Some N_SUPERSEDED else state_of c b)" for b by auto
  then show "frame c c'" "state_of c' b = (if b \<in> set (prior_nodes c i) then Some N_SUPERSEDED else state_of c b)" by auto
  have "ec_deps c' = ec_deps c" using new(3) by (simp add: frame_def)
  then have "producers_ok c'" using old(3) unfolding producers_ok_def new(4) by (fastforce split: if_splits)
  with new show "evidence_inv D c'" by (simp add: evidence_inv_def)
  show "\<not> live (nr_state r)" if r: "r \<in> set (ec_nodes c')" "nr_slot r = i"
  proof
    assume l: "live (nr_state r)"
    have s: "state_of c' (nr_artifact r) = Some (nr_state r)" using new(1) r(1) by (rule state_of_row)
    with l have "nr_artifact r \<notin> set (prior_nodes c i)" by (auto simp: new(4) live_def)
    with s have "state_of c (nr_artifact r) = Some (nr_state r)" by (simp add: new(4))
    then obtain q where q: "q \<in> set (ec_nodes c)" "nr_artifact q = nr_artifact r" "nr_state q = nr_state r"
      by (auto dest!: state_of_Some)
    moreover have "nr_slot q = nr_slot r"
      using slot_frame[OF new(3) old(1) q(1) r(1) q(2)] .
    ultimately show False using prior(1) l r(2) \<open>nr_artifact r \<notin> set (prior_nodes c i)\<close> by metis
  qed
qed

lemma publish_inv:
  assumes p: "publication_valid D p" and pub: "publish_derivation D p c = Inr (c', res)" and inv: "evidence_inv D c"
  shows "evidence_inv D c'"
  using pub
proof (cases rule: publish_cases)
  case (committed c1 c2 c3 c4 c5 n prior)
  have reg: "evidence_inv D c2" "ec_nodes c2 = ec_nodes c"
    using register_output_inv[OF committed(4)] register_inv[OF committed(3) inv] by auto
  have opened: "evidence_inv D c3" "ec_nodes c3 = ec_nodes c" using open_slot_inv[OF committed(5) reg(1)] reg(2) by auto
  have sup: "evidence_inv D c4 \<and> (\<forall>b. state_of c b = Some N_CURRENT \<longrightarrow> state_of c4 b \<in> {Some N_CURRENT, Some N_SUPERSEDED}) \<and>
      (pb_output p \<noteq> None \<longrightarrow> (\<forall>r\<in>set (ec_nodes c4). nr_slot r = sl_id (pb_slot p) \<longrightarrow> \<not> live (nr_state r)))"
  proof (cases "pb_output p = None")
    case False
    with committed(6,7) have t: "transitions D N_SUPERSEDED SLOT_REPLACED None (pb_at p) (prior_nodes c3 (sl_id (pb_slot p))) c3 = Inr c4"
      by simp
    have "state_of c3 = state_of c" using opened(2) by (simp add: state_of_def find_node_def fun_eq_iff)
    then show ?thesis using supersede_inv[OF opened(1) t] by auto
  qed (use committed(6,7) opened in \<open>auto simp: state_of_def find_node_def\<close>)
  have n: "nd_deps n = pb_deps p" "nd_slot n = pb_slot p" "nd_artifact n = dv_artifact (pb_record p)"
    "nd_state n = (if pb_output p \<noteq> None then N_CURRENT else N_FAILED)"
    using committed(8) by (simp_all add: node_from_publication_def)
  have deps: "list_all dependency_valid (nd_deps n)" using p by (simp add: publication_valid_def n)
  from committed(9,10) show ?thesis
  proof (rule insert_cases)
    fix e
    assume e: "c' = with_node n e c4" "nodes_constraints D (ec_nodes c4 @ [row_of_node n])" "de_artifact e = nd_artifact n"
      "de_from e = None" "de_to e = nd_state n" "de_reason e = (if nd_state n = N_FAILED then GENERATION_FAILED else PUBLISHED)"
      "de_run e = None" "de_sequence e = foldr max (map de_sequence (node_log c4 (nd_artifact n))) 0 + 1"
    show "evidence_inv D c'" unfolding e(1)
    proof (rule with_node_inv[OF _ deps e(2-5,7,6,8)])
      show "load_derivation D (with_node n e c4) (nd_artifact n) = Inr (Some n)" using committed(11) e(1) by simp
      show "state_of c4 q \<in> {Some N_CURRENT, Some N_SUPERSEDED}" if "d \<in> set (nd_deps n)" "dp_producer d = Some q" for d q
      proof -
        have "dependency_valid d" using deps that(1) by (simp add: list_all_iff)
        then have "state_of c q = Some N_CURRENT" using checked_producer(2)[OF committed(2) _ _ that(2)] that(1) n(1) by simp
        then show ?thesis using sup by blast
      qed
    qed (use sup n(2,4) in \<open>auto split: if_splits\<close>)
  qed
qed (use inv in simp)

end
