(* ===== verification/Recon_Catalog.thy ===== *)
theory Recon_Catalog
  imports Derivation_Publish
begin

text \<open>
  Publication of a reconciliation (\<open>adapters/sqlite_catalog_reconciliation.py\<close>): the run, the lineage
  memberships, the relations, the derivation lifecycle and the verification of what was stored, in one
  transaction; a run that is already stored converges.  A row of \<open>lineage_block_keys\<close> is a copy of a
  projected block that only foreign keys read, so the projection stands for it.
\<close>

section \<open>Reading\<close>

definition find_run :: "evidence_catalog \<Rightarrow> pystr \<Rightarrow> run_row option" where
  "find_run c i = find (\<lambda>r. rr_run r = i) (ec_runs c)"

definition find_member :: "evidence_catalog \<Rightarrow> block_ref \<Rightarrow> membership option" where
  "find_member c b = find (\<lambda>m. mb_ref m = b) (ec_members c)"

definition find_lineage :: "evidence_catalog \<Rightarrow> pystr \<Rightarrow> lineage_row option" where
  "find_lineage c l = find (\<lambda>r. lr_lineage r = l) (ec_lineages c)"

definition ready_at :: "evidence_catalog \<Rightarrow> rep_scope \<Rightarrow> int option" where
  "ready_at c s = Option.bind (map_of (ec_ready c) s) (\<lambda>t. t)"

definition require_ready :: "evidence_catalog \<Rightarrow> rep_scope \<Rightarrow> evidence_error + unit" where
  "require_ready c s = (case map_of (ec_ready c) s of
       None \<Rightarrow> Inl RepresentationNotFound
     | Some None \<Rightarrow> Inl (ReconciliationScopeError ''reconciliation scope is not ready'')
     | Some (Some t) \<Rightarrow> Inr ())"

definition required_head :: "evidence_catalog \<Rightarrow> pystr \<Rightarrow> evidence_error + rep_scope" where
  "required_head c d = (case find (\<lambda>s. rs_document s = d) (ec_heads c) of
       None \<Rightarrow> Inl RepresentationIncomplete | Some s \<Rightarrow> Inr s)"

definition load_membership :: "canon \<Rightarrow> evidence_catalog \<Rightarrow> block_ref \<Rightarrow> evidence_error + membership option" where
  "load_membership C c b = (case find_member c b of
       None \<Rightarrow> Inr None
     | Some m \<Rightarrow> if membership_valid C m then Inr (Some m)
         else Inl (ReconciliationIntegrityError ''stored lineage membership is invalid''))"

definition scope_blocks :: "evidence_catalog \<Rightarrow> rep_scope \<Rightarrow> block_ref list" where
  "scope_blocks c s = filter (\<lambda>b. br_scope b = s) (ec_blocks c)"

definition stored_members :: "evidence_catalog \<Rightarrow> rep_scope \<Rightarrow> membership list" where
  "stored_members c s = List.map_filter (find_member c) (scope_blocks c s)"

text \<open>The position of a block in the projection of its representation.\<close>

definition ordinal_of :: "evidence_catalog \<Rightarrow> block_ref \<Rightarrow> nat" where
  "ordinal_of c b = length (takeWhile (\<lambda>x. x \<noteq> b) (scope_blocks c (br_scope b)))"

definition in_document :: "pystr \<Rightarrow> block_ref \<Rightarrow> block_ref" where
  "in_document d b = b\<lparr>br_scope := (br_scope b)\<lparr>rs_document := d\<rparr>\<rparr>"

text \<open>A relation row joined with its object and its two members.\<close>

definition joined :: "evidence_catalog \<Rightarrow> relation_row \<Rightarrow> (relation_row \<times> stored_object \<times> membership \<times> membership) option" where
  "joined c x = (case (find_object c (xr_object x), find_member c (xr_previous x), find_member c (xr_current x)) of
       (Some o1, Some pm, Some cm) \<Rightarrow> if xr_current x \<in> set (ec_blocks c) then Some (x, o1, pm, cm) else None
     | _ \<Rightarrow> None)"

definition relation_rows :: "evidence_catalog \<Rightarrow> pystr \<Rightarrow> (relation_row \<times> stored_object \<times> membership \<times> membership) list" where
  "relation_rows c run = sort_key (\<lambda>(x, _). ordinal_of c (xr_current x))
     (List.map_filter (joined c) (filter (\<lambda>x. xr_run x = run) (ec_relations c)))"

definition match_of_row ::
  "pystr \<Rightarrow> int \<Rightarrow> relation_row \<times> stored_object \<times> membership \<times> membership \<Rightarrow> block_match" where
  "match_of_row d ready = (\<lambda>(x, o1, pm, cm).
     \<lparr>bm_previous = in_document d (xr_previous x), bm_current = in_document d (xr_current x),
      bm_lineage = mb_lineage pm, bm_previous_hash = mb_hash pm, bm_current_hash = mb_hash cm,
      bm_method = xr_method x, bm_ppm = xr_ppm x, bm_reusable = xr_reusable x,
      bm_relation = \<lparr>re_id = xr_relation x, re_source = in_document d (xr_current x),
        re_target = in_document d (xr_previous x), re_confidence = ppm_confidence (xr_ppm x),
        re_algorithm = algorithm_version, re_created = ready\<rparr>,
      bm_object = o1\<rparr>)"

definition inactive_bindings :: "membership list \<Rightarrow> membership list \<Rightarrow> pystr list" where
  "inactive_bindings seeds members =
     sort (remdups (filter (\<lambda>d. d \<notin> mb_binding ` set members) (map mb_binding seeds)))"

definition load_reconciliation :: "canon \<Rightarrow> evidence_catalog \<Rightarrow> pystr \<Rightarrow> evidence_error + plan option" where
  "load_reconciliation C c i = (case find_run c i of
       None \<Rightarrow> Inr None
     | Some r \<Rightarrow>
         let members = stored_members c (rr_current r); seeds = stored_members c (rr_previous r);
             d = rs_document (rr_current r)
         in if \<not> list_all (membership_valid C) (members @ seeds) then Inl ValidationError
            else (case ready_at c (rr_current r) of
              None \<Rightarrow> Inl (ReconciliationIntegrityError ''reconciliation target representation is absent'')
            | Some ready \<Rightarrow>
                let ms = map (match_of_row d ready) (relation_rows c i)
                in if \<not> list_all (\<lambda>m. relation_valid C (bm_relation m) \<and> block_match_valid C m) ms then Inl ValidationError
                   else let p = \<lparr>pl_run = rr_run r, pl_previous = rr_previous r, pl_current = rr_current r,
                       pl_algorithm = rr_algorithm r, pl_config = rr_config r, pl_seeds = seeds, pl_members = members,
                       pl_matches = ms, pl_inactive = inactive_bindings seeds members, pl_matched = rr_matched r,
                       pl_reusable = rr_reusable r, pl_new = rr_new r, pl_ambiguous = rr_ambiguous r,
                       pl_comparisons = rr_comparisons r, pl_fingerprint = rr_fingerprint r, pl_created = rr_created r\<rparr>
                     in if plan_valid C p then Inr (Some p)
                        else Inl (ReconciliationIntegrityError ''stored reconciliation is invalid'')))"

section \<open>Writing\<close>

definition run_of_plan :: "plan \<Rightarrow> run_row" where
  "run_of_plan p = \<lparr>rr_run = pl_run p, rr_previous = (pl_previous p)\<lparr>rs_document := rs_document (pl_current p)\<rparr>,
     rr_current = pl_current p, rr_algorithm = pl_algorithm p, rr_config = pl_config p,
     rr_fingerprint = pl_fingerprint p, rr_matched = pl_matched p, rr_reusable = pl_reusable p,
     rr_new = pl_new p, rr_ambiguous = pl_ambiguous p, rr_comparisons = pl_comparisons p, rr_created = pl_created p\<rparr>"

definition run_row_check :: "run_row \<Rightarrow> bool" where
  "run_row_check r \<longleftrightarrow> size_between 1 128 (rr_algorithm r) \<and> rr_matched r \<le> 100000 \<and> rr_reusable r \<le> rr_matched r \<and>
     rr_new r \<le> 100000 \<and> rr_ambiguous r \<le> rr_new r \<and> rr_comparisons r \<le> 1000000 \<and> rr_previous r \<noteq> rr_current r"

definition insert_run :: "run_row \<Rightarrow> evidence_catalog \<Rightarrow> evidence_error + evidence_catalog" where
  "insert_run r c = (let rs = ec_runs c @ [r]
     in if run_row_check r \<and> distinct (map rr_run rs) \<and> distinct (map rr_current rs) \<and>
           rr_previous r \<in> fst ` set (ec_ready c) \<and> rr_current r \<in> fst ` set (ec_ready c)
        then Inr (c\<lparr>ec_runs := rs\<rparr>) else Inl IntegrityError)"

definition insert_lineage :: "lineage_row \<Rightarrow> evidence_catalog \<Rightarrow> evidence_error + evidence_catalog" where
  "insert_lineage l c = (if lr_run l \<in> rr_run ` set (ec_runs c) \<and> find_lineage c (lr_lineage l) = None
     then Inr (c\<lparr>ec_lineages := ec_lineages c @ [l]\<rparr>) else Inl IntegrityError)"

definition member_place :: "membership \<Rightarrow> pystr \<times> pystr \<times> pystr" where
  "member_place m = (mb_lineage m, rs_version (br_scope (mb_ref m)), rs_representation (br_scope (mb_ref m)))"

definition insert_member :: "membership \<Rightarrow> evidence_catalog \<Rightarrow> evidence_error + evidence_catalog" where
  "insert_member m c = (let ms = ec_members c @ [m]
     in if distinct (map mb_ref ms) \<and> distinct (map member_place ms) \<and> mb_run m \<in> rr_run ` set (ec_runs c)
        then Inr (c\<lparr>ec_members := ms\<rparr>) else Inl IntegrityError)"

definition open_lineage :: "int \<Rightarrow> membership \<Rightarrow> evidence_catalog \<Rightarrow> evidence_error + evidence_catalog" where
  "open_lineage at m c = (case find_lineage c (mb_lineage m) of
       None \<Rightarrow> insert_lineage \<lparr>lr_lineage = mb_lineage m, lr_origin = mb_ref m, lr_run = mb_run m, lr_created = at\<rparr> c
     | Some l \<Rightarrow> if rs_document (br_scope (lr_origin l)) \<noteq> rs_document (br_scope (mb_ref m))
         then Inl (ReconciliationConflict ''lineage cannot cross logical documents'') else Inr c)"

definition persist_membership :: "canon \<Rightarrow> int \<Rightarrow> membership \<Rightarrow> evidence_catalog \<Rightarrow> evidence_error + evidence_catalog" where
  "persist_membership C at m c = sbind (load_membership C c (mb_ref m)) (\<lambda>existing. case existing of
       Some x \<Rightarrow> if x = m then Inr c
         else Inl (ReconciliationConflict ''block lineage membership has conflicting facts'')
     | None \<Rightarrow> if mb_ref m \<notin> set (ec_blocks c) then Inl (ReconciliationIntegrityError ''lineage block is absent'')
         else sbind (open_lineage at m c) (insert_member m))"

fun persist_memberships :: "canon \<Rightarrow> int \<Rightarrow> membership list \<Rightarrow> evidence_catalog \<Rightarrow> evidence_error + evidence_catalog" where
  "persist_memberships C at [] c = Inr c"
| "persist_memberships C at (m # ms) c = sbind (persist_membership C at m c) (persist_memberships C at ms)"

definition row_of_match :: "pystr \<Rightarrow> block_match \<Rightarrow> relation_row" where
  "row_of_match run m = \<lparr>xr_relation = re_id (bm_relation m), xr_run = run, xr_object = so_id (bm_object m),
     xr_method = bm_method m, xr_ppm = bm_ppm m, xr_reusable = bm_reusable m,
     xr_previous = in_document (rs_document (br_scope (bm_current m))) (bm_previous m), xr_current = bm_current m\<rparr>"

definition insert_relation :: "relation_row \<Rightarrow> evidence_catalog \<Rightarrow> evidence_error + evidence_catalog" where
  "insert_relation x c = (if xr_ppm x \<le> 1000000 \<and> xr_relation x \<notin> xr_relation ` set (ec_relations c) \<and>
        xr_run x \<in> rr_run ` set (ec_runs c) \<and> find_object c (xr_object x) \<noteq> None \<and>
        find_member c (xr_previous x) \<noteq> None \<and> find_member c (xr_current x) \<noteq> None
     then Inr (c\<lparr>ec_relations := ec_relations c @ [x]\<rparr>) else Inl IntegrityError)"

fun persist_matches :: "pystr \<Rightarrow> block_match list \<Rightarrow> evidence_catalog \<Rightarrow> evidence_error + evidence_catalog" where
  "persist_matches run [] c = Inr c"
| "persist_matches run (m # ms) c = sbind (store_object (bm_object m) c) (\<lambda>c1.
     sbind (insert_relation (row_of_match run m) c1) (persist_matches run ms))"

section \<open>The transaction\<close>

record recon_result =
  rz_disposition :: disposition
  rz_plan :: plan
  rz_stale :: "pystr list"
  rz_reactivated :: "pystr list"

definition result_checked :: "evidence_catalog \<times> recon_result \<Rightarrow> evidence_error + evidence_catalog \<times> recon_result" where
  "result_checked = (\<lambda>(c, r). if transition_ids_canonical (rz_stale r) (rz_reactivated r) then Inr (c, r) else Inl ValidationError)"

definition converge_reconciliation ::
  "dcanon \<Rightarrow> (pystr \<Rightarrow> bool) option \<Rightarrow> plan \<Rightarrow> plan \<Rightarrow> evidence_catalog \<Rightarrow>
   evidence_error + evidence_catalog \<times> recon_result" where
  "converge_reconciliation D verified p q c =
     (if pl_fingerprint q \<noteq> pl_fingerprint p then Inl (ReconciliationConflict ''reconciliation run has conflicting facts'')
      else sbind (required_head c (rs_document (pl_current q))) (\<lambda>head.
        sbind (if head = pl_current q then apply_lifecycle D verified (pl_run q) (pl_inactive q) (pl_created p) c
               else Inr (c, [], [])) (\<lambda>(c1, stale, reactivated).
          result_checked (c1, \<lparr>rz_disposition = CONVERGED, rz_plan = q, rz_stale = stale, rz_reactivated = reactivated\<rparr>))))"

definition commit_reconciliation ::
  "dcanon \<Rightarrow> (pystr \<Rightarrow> bool) option \<Rightarrow> plan \<Rightarrow> evidence_catalog \<Rightarrow> evidence_error + evidence_catalog \<times> recon_result" where
  "commit_reconciliation D verified p c = sbind (load_reconciliation (dc_canon D) c (pl_run p)) (\<lambda>existing. case existing of
       Some q \<Rightarrow> converge_reconciliation D verified p q c
     | None \<Rightarrow>
         if pl_current p \<in> rr_current ` set (ec_runs c)
         then Inl (ReconciliationConflict ''reconciliation target already has different facts'')
         else sbind (require_ready c (pl_previous p)) (\<lambda>_. sbind (require_ready c (pl_current p)) (\<lambda>_.
           sbind (required_head c (rs_document (pl_current p))) (\<lambda>head.
             if head \<noteq> pl_current p
             then Inl (ReconciliationScopeError ''reconciliation target is not the current head'')
             else sbind (insert_run (run_of_plan p) c) (\<lambda>c1.
               sbind (persist_memberships (dc_canon D) (pl_created p) (pl_seeds p @ pl_members p) c1) (\<lambda>c2.
               sbind (persist_matches (pl_run p) (pl_matches p) c2) (\<lambda>c3.
               sbind (apply_lifecycle D verified (pl_run p) (pl_inactive p) (pl_created p) c3) (\<lambda>(c4, stale, reactivated).
               sbind (load_reconciliation (dc_canon D) c4 (pl_run p)) (\<lambda>stored. case stored of
                   None \<Rightarrow> Inl (ReconciliationIntegrityError ''reconciliation verification failed'')
                 | Some q \<Rightarrow>
                     if pl_fingerprint q \<noteq> pl_fingerprint p
                     then Inl (ReconciliationIntegrityError ''reconciliation verification failed'')
                     else result_checked (c4, \<lparr>rz_disposition = COMMITTED, rz_plan = q, rz_stale = stale,
                        rz_reactivated = reactivated\<rparr>))))))))))"

end
