(* ===== verification/Recon_Steps.thy ===== *)
theory Recon_Steps
  imports Recon_Catalog "HOL-Library.Sublist"
begin

text \<open>
  What a reconciliation keeps: a block has one membership, a lineage stays in its document and has one
  member per representation, relations join members, and the rows of the derivation tables are those
  the lifecycle leaves.
\<close>

section \<open>The invariant of lineages\<close>

definition same_document :: "lineage_row \<Rightarrow> membership \<Rightarrow> bool" where
  "same_document l m \<longleftrightarrow> lr_lineage l = mb_lineage m \<and>
     rs_document (br_scope (lr_origin l)) = rs_document (br_scope (mb_ref m))"

definition members_ok :: "evidence_catalog \<Rightarrow> bool" where
  "members_ok c \<longleftrightarrow> distinct (map mb_ref (ec_members c)) \<and> distinct (map member_place (ec_members c)) \<and>
     distinct (map lr_lineage (ec_lineages c)) \<and>
     (\<forall>m\<in>set (ec_members c). mb_ref m \<in> set (ec_blocks c) \<and> mb_run m \<in> rr_run ` set (ec_runs c) \<and>
        (\<exists>l\<in>set (ec_lineages c). same_document l m)) \<and>
     (\<forall>l\<in>set (ec_lineages c). \<exists>m\<in>set (ec_members c). mb_ref m = lr_origin l \<and> mb_lineage m = lr_lineage l)"

definition relations_ok :: "evidence_catalog \<Rightarrow> bool" where
  "relations_ok c \<longleftrightarrow> distinct (map xr_relation (ec_relations c)) \<and>
     (\<forall>x\<in>set (ec_relations c). xr_run x \<in> rr_run ` set (ec_runs c) \<and> find_object c (xr_object x) \<noteq> None \<and>
        find_member c (xr_previous x) \<noteq> None \<and> find_member c (xr_current x) \<noteq> None)"

definition runs_ok :: "evidence_catalog \<Rightarrow> bool" where
  "runs_ok c \<longleftrightarrow> distinct (map rr_run (ec_runs c)) \<and> distinct (map rr_current (ec_runs c)) \<and>
     (\<forall>r\<in>set (ec_runs c). ready_at c (rr_current r) \<noteq> None \<and> rr_previous r \<noteq> rr_current r)"

definition runs_covered :: "evidence_catalog \<Rightarrow> bool" where
  "runs_covered c \<longleftrightarrow> (\<forall>r\<in>set (ec_runs c). ready_at c (rr_previous r) \<noteq> None \<and>
     (\<forall>b\<in>set (ec_blocks c). br_scope b \<in> {rr_previous r, rr_current r} \<longrightarrow> find_member c b \<noteq> None))"

definition lineage_inv :: "evidence_catalog \<Rightarrow> bool" where
  "lineage_inv c \<longleftrightarrow> members_ok c \<and> relations_ok c \<and> runs_ok c"

section \<open>Growing tables\<close>

definition enlarges :: "evidence_catalog \<Rightarrow> evidence_catalog \<Rightarrow> bool" where
  "enlarges c c' \<longleftrightarrow> ec_nodes c' = ec_nodes c \<and> ec_deps c' = ec_deps c \<and> ec_slots c' = ec_slots c \<and>
     ec_events c' = ec_events c \<and> ec_runs c' = ec_runs c \<and> ec_ready c' = ec_ready c \<and> ec_blocks c' = ec_blocks c \<and>
     ec_heads c' = ec_heads c \<and> prefix (ec_members c) (ec_members c') \<and> prefix (ec_lineages c) (ec_lineages c') \<and>
     prefix (ec_relations c) (ec_relations c') \<and> prefix (ec_objects c) (ec_objects c')"

lemma enlarges_refl [simp]: "enlarges c c"
  by (simp add: enlarges_def)

lemma enlarges_trans: "enlarges a b \<Longrightarrow> enlarges b c \<Longrightarrow> enlarges a c"
  unfolding enlarges_def by (metis prefix_order.trans)

lemma find_prefix: "prefix xs ys \<Longrightarrow> List.find P xs = Some x \<Longrightarrow> List.find P ys = Some x"
  by (auto simp: prefix_def find_append)

lemma enlarges_find:
  assumes "enlarges c c'"
  shows "find_member c b = Some m \<Longrightarrow> find_member c' b = Some m" and "find_object c i = Some x \<Longrightarrow> find_object c' i = Some x"
  using assms unfolding enlarges_def find_member_def find_object_def by (blast intro: find_prefix)+

section \<open>Iterated operations\<close>

text \<open>An operation that keeps an invariant and a preorder keeps both when it is iterated.\<close>

locale keeping =
  fixes f :: "'x \<Rightarrow> 'c \<Rightarrow> 'e + 'c" and ok :: "'c \<Rightarrow> bool" and rel :: "'c \<Rightarrow> 'c \<Rightarrow> bool" and run :: "'x list \<Rightarrow> 'c \<Rightarrow> 'e + 'c"
  assumes refl: "rel c c"
    and trans: "rel a b \<Longrightarrow> rel b c \<Longrightarrow> rel a c"
    and one: "f x c = Inr c' \<Longrightarrow> ok c \<Longrightarrow> ok c' \<and> rel c c'"
    and run_Nil: "run [] c = Inr c"
    and run_Cons: "run (x # xs) c = sbind (f x c) (run xs)"
begin

lemma run_keeps: "run xs c = Inr c' \<Longrightarrow> ok c \<Longrightarrow> ok c' \<and> rel c c'"
proof (induction xs arbitrary: c)
  case (Cons x xs)
  then obtain c1 where s: "f x c = Inr c1" "run xs c1 = Inr c'" by (auto simp: run_Cons sbind_Inr_iff)
  from one[OF s(1) Cons.prems(2)] Cons.IH[OF s(2)] show ?case using trans by blast
qed (simp add: run_Nil refl)

lemma run_each:
  assumes "run xs c = Inr c'" "ok c" "x \<in> set xs"
  shows "\<exists>a b. f x a = Inr b \<and> ok a \<and> rel b c'"
  using assms
proof (induction xs arbitrary: c)
  case (Cons y ys)
  then obtain c1 where s: "f y c = Inr c1" "run ys c1 = Inr c'" by (auto simp: run_Cons sbind_Inr_iff)
  note o = one[OF s(1) Cons.prems(2)]
  show ?case
  proof (cases "x = y")
    case True
    then show ?thesis using s Cons.prems(2) run_keeps[OF s(2)] o by blast
  next
    case False
    then show ?thesis using Cons.IH[OF s(2)] o Cons.prems(3) by auto
  qed
qed simp

end

section \<open>Memberships\<close>

lemma find_member_in: "find_member c b = Some m \<Longrightarrow> m \<in> set (ec_members c) \<and> mb_ref m = b"
  unfolding find_member_def by (rule find_in)

lemma load_membership_Inr:
  "load_membership C c b = Inr x \<Longrightarrow> x = find_member c b \<and> (\<forall>m. x = Some m \<longrightarrow> membership_valid C m)"
  by (auto simp: load_membership_def split: option.splits if_splits)

lemma open_lineage_cases:
  assumes "open_lineage at m c = Inr c'"
  obtains (old) l where "find_lineage c (mb_lineage m) = Some l" "same_document l m" "c' = c"
  | (new) l where "find_lineage c (mb_lineage m) = None" "lr_lineage l = mb_lineage m" "lr_origin l = mb_ref m"
      "c' = c\<lparr>ec_lineages := ec_lineages c @ [l]\<rparr>"
proof (cases "find_lineage c (mb_lineage m)")
  case None
  with assms show thesis by (intro new) (auto simp: open_lineage_def insert_lineage_def split: if_splits)
next
  case (Some l)
  have "lr_lineage l = mb_lineage m" using Some unfolding find_lineage_def by (auto dest: find_in)
  with Some assms show thesis by (intro old) (auto simp: open_lineage_def same_document_def split: if_splits)
qed

lemma persist_cases:
  assumes "persist_membership C at m c = Inr c'"
  obtains (same) "find_member c (mb_ref m) = Some m" "membership_valid C m" "c' = c"
  | (new) c1 where "find_member c (mb_ref m) = None" "mb_ref m \<in> set (ec_blocks c)" "open_lineage at m c = Inr c1"
      "distinct (map mb_ref (ec_members c1 @ [m]))" "distinct (map member_place (ec_members c1 @ [m]))"
      "mb_run m \<in> rr_run ` set (ec_runs c1)" "c' = c1\<lparr>ec_members := ec_members c1 @ [m]\<rparr>"
proof -
  from assms obtain x where x: "load_membership C c (mb_ref m) = Inr x" by (auto simp: persist_membership_def sbind_Inr_iff)
  note l = load_membership_Inr[OF x]
  show thesis
  proof (cases x)
    case None
    with assms x have p: "mb_ref m \<in> set (ec_blocks c)" "sbind (open_lineage at m c) (insert_member m) = Inr c'"
      by (auto simp: persist_membership_def split: if_splits)
    from p(2) obtain c1 where c1: "open_lineage at m c = Inr c1" "insert_member m c1 = Inr c'" by (auto simp: sbind_Inr_iff)
    from c1(2) have "distinct (map mb_ref (ec_members c1 @ [m])) \<and> distinct (map member_place (ec_members c1 @ [m])) \<and>
        mb_run m \<in> rr_run ` set (ec_runs c1)" "c' = c1\<lparr>ec_members := ec_members c1 @ [m]\<rparr>"
      unfolding insert_member_def Let_def by (metis sum.distinct(1) sum.inject(2))+
    then show thesis using None l p(1) c1(1) by (intro new[of c1]) simp_all
  next
    case (Some y)
    have f: "find_member c (mb_ref m) = Some y" "membership_valid C y" using l Some by simp_all
    have "y = m \<and> c' = c" using assms x Some by (simp add: persist_membership_def split: if_splits)
    with f show thesis by (intro same) simp_all
  qed
qed

lemma persist_grows:
  assumes "persist_membership C at m c = Inr c'"
  shows "enlarges c c'"
  using assms
proof (cases rule: persist_cases)
  case (new c1)
  from new(3) have "enlarges c c1" by (cases rule: open_lineage_cases) (simp_all add: enlarges_def)
  then show ?thesis unfolding new(7) by (auto simp: enlarges_def prefix_def)
qed simp

lemma persist_finds:
  assumes "persist_membership C at m c = Inr c'"
  shows "find_member c' (mb_ref m) = Some m"
  using assms
proof (cases rule: persist_cases)
  case (new c1)
  from new(3) have "ec_members c1 = ec_members c" by (cases rule: open_lineage_cases) simp_all
  then show ?thesis using new(1,7) by (simp add: find_member_def find_append)
qed simp

lemma persist_memberships_relations:
  "persist_memberships C at ms c = Inr c' \<Longrightarrow> ec_relations c' = ec_relations c"
  by (induction ms arbitrary: c) (fastforce simp: sbind_Inr_iff elim!: persist_cases open_lineage_cases)+

lemma persist_members_ok:
  assumes "persist_membership C at m c = Inr c'" "members_ok c"
  shows "members_ok c'"
  using assms(1)
proof (cases rule: persist_cases)
  case (new c1)
  from new(3) show ?thesis
  proof (cases rule: open_lineage_cases)
    case (old l)
    have "l \<in> set (ec_lineages c)" using old(1) unfolding find_lineage_def by (auto dest: find_in)
    then show ?thesis using new \<open>members_ok c\<close> old by (auto simp: members_ok_def)
  next
    case (new l)
    have "lr_lineage l \<notin> lr_lineage ` set (ec_lineages c)"
      using new(1,2) by (auto simp: find_lineage_def find_None_iff)
    moreover have "same_document l m" using new(2,3) by (simp add: same_document_def)
    ultimately show ?thesis
      using \<open>members_ok c\<close> \<open>mb_ref m \<in> set (ec_blocks c)\<close> \<open>mb_run m \<in> rr_run ` set (ec_runs c1)\<close>
        \<open>c' = c1\<lparr>ec_members := ec_members c1 @ [m]\<rparr>\<close> \<open>distinct (map mb_ref (ec_members c1 @ [m]))\<close>
        \<open>distinct (map member_place (ec_members c1 @ [m]))\<close> new
      by (auto simp: members_ok_def)
  qed
qed (use assms in simp)

interpretation members: keeping "persist_membership C at" "\<lambda>c. members_ok c" enlarges "persist_memberships C at" for C at
  by unfold_locales (auto intro: enlarges_trans persist_members_ok persist_grows)

section \<open>Relations\<close>

definition persist_match :: "pystr \<Rightarrow> block_match \<Rightarrow> evidence_catalog \<Rightarrow> evidence_error + evidence_catalog" where
  "persist_match run m c = sbind (store_object (bm_object m) c) (insert_relation (row_of_match run m))"

lemma register_grows: "store_object x c = Inr c' \<Longrightarrow> enlarges c c'"
  by (erule register_cases) (simp_all add: enlarges_def)

lemma insert_relation_grows: "insert_relation x c = Inr c' \<Longrightarrow> enlarges c c'"
  by (auto simp: insert_relation_def enlarges_def split: if_splits)

lemma relations_ok_grows:
  assumes "relations_ok c" "enlarges c c'" "ec_relations c' = ec_relations c"
  shows "relations_ok c'"
proof -
  have "ec_runs c' = ec_runs c" using assms(2) by (simp add: enlarges_def)
  then show ?thesis using assms(1,3) enlarges_find[OF assms(2)] unfolding relations_ok_def by fastforce
qed

lemma evidence_inv_tables:
  assumes "evidence_inv D c" "ec_nodes c' = ec_nodes c" "ec_deps c' = ec_deps c" "ec_slots c' = ec_slots c"
    "ec_events c' = ec_events c" "ec_objects c' = ec_objects c @ xs" "distinct (map so_id (ec_objects c'))"
  shows "evidence_inv D c'"
proof -
  have inv: "rows_inv D c" "pointers_ok c" "producers_ok c" using assms(1) by (simp_all add: evidence_inv_def)
  have "slot_of c' = slot_of c" using assms(4) by (simp add: slot_of_def find_slot_def fun_eq_iff)
  moreover have "find_object c' i = Some x" if "find_object c i = Some x" for i x
    using that assms(6) by (simp add: find_object_def find_append)
  moreover have "slots_constraints (ec_slots c')" using inv(1) assms(4) by (simp add: rows_inv_def)
  ultimately have "rows_inv D c'" using assms(7) by (intro rows_inv_cong[OF inv(1) assms(2,3,5)]) simp_all
  then show ?thesis using inv(2,3) assms(2-4)
    by (simp add: evidence_inv_def pointers_ok_def producers_ok_def state_of_def find_node_def)
qed

text \<open>Tables of reconciliation do not enter the invariant of the derivations.\<close>

lemma evidence_inv_recon [simp]:
  "evidence_inv D (c\<lparr>ec_runs := rs\<rparr>) = evidence_inv D c" "evidence_inv D (c\<lparr>ec_members := ms\<rparr>) = evidence_inv D c"
  "evidence_inv D (c\<lparr>ec_lineages := ls\<rparr>) = evidence_inv D c" "evidence_inv D (c\<lparr>ec_relations := xs\<rparr>) = evidence_inv D c"
proof -
  have d: "distinct (map so_id (ec_objects c))" if "evidence_inv D c" for c using that by (simp add: evidence_inv_def rows_inv_def)
  have "evidence_inv D c'" if "evidence_inv D c" "ec_nodes c' = ec_nodes c" "ec_deps c' = ec_deps c" "ec_slots c' = ec_slots c"
    "ec_events c' = ec_events c" "ec_objects c' = ec_objects c" for c c'
    using that d[OF that(1)] by (intro evidence_inv_tables[OF that(1-5), of "[]"]) simp_all
  then show "evidence_inv D (c\<lparr>ec_runs := rs\<rparr>) = evidence_inv D c" "evidence_inv D (c\<lparr>ec_members := ms\<rparr>) = evidence_inv D c"
    "evidence_inv D (c\<lparr>ec_lineages := ls\<rparr>) = evidence_inv D c" "evidence_inv D (c\<lparr>ec_relations := xs\<rparr>) = evidence_inv D c"
    by (metis evidence_catalog.select_convs evidence_catalog.update_convs evidence_catalog.surjective)+
qed

lemma persist_match_keeps:
  assumes "persist_match run m c = Inr c'" "evidence_inv D c \<and> relations_ok c"
  shows "(evidence_inv D c' \<and> relations_ok c') \<and> enlarges c c'"
proof -
  from assms(1) obtain c1 where s: "store_object (bm_object m) c = Inr c1" "insert_relation (row_of_match run m) c1 = Inr c'"
    by (auto simp: persist_match_def sbind_Inr_iff)
  have "ec_relations c1 = ec_relations c" using s(1) by (cases rule: register_cases) simp_all
  with assms(2) register_grows[OF s(1)] have r: "relations_ok c1" by (blast intro: relations_ok_grows)
  have "evidence_inv D c1" using register_inv[OF s(1)] assms(2) by blast
  moreover from s(2) have "c' = c1\<lparr>ec_relations := ec_relations c1 @ [row_of_match run m]\<rparr>"
    by (auto simp: insert_relation_def split: if_splits)
  moreover have "relations_ok c'" using s(2) r
    by (auto simp: insert_relation_def relations_ok_def find_member_def find_object_def split: if_splits)
  ultimately show ?thesis using enlarges_trans[OF register_grows[OF s(1)] insert_relation_grows[OF s(2)]] by simp
qed

lemma members_ok_grows:
  assumes "members_ok c" "enlarges c c'" "ec_members c' = ec_members c" "ec_lineages c' = ec_lineages c"
  shows "members_ok c'"
proof -
  have "ec_runs c' = ec_runs c" "ec_blocks c' = ec_blocks c" using assms(2) by (simp_all add: enlarges_def)
  then show ?thesis using assms(1) unfolding members_ok_def assms(3,4) by simp
qed

lemma persist_matches_tables:
  "persist_matches run ms c = Inr c' \<Longrightarrow> ec_blocks c' = ec_blocks c \<and> ec_runs c' = ec_runs c \<and> ec_ready c' = ec_ready c"
  by (induction ms arbitrary: c)
     (fastforce simp: sbind_Inr_iff insert_relation_def elim!: register_cases split: if_splits)+

lemma persist_matches_members:
  "persist_matches run ms c = Inr c' \<Longrightarrow> ec_members c' = ec_members c \<and> ec_lineages c' = ec_lineages c"
  by (induction ms arbitrary: c)
     (fastforce simp: sbind_Inr_iff insert_relation_def elim!: register_cases split: if_splits)+

interpretation matches: keeping "persist_match run" "\<lambda>c. evidence_inv D c \<and> relations_ok c" enlarges "persist_matches run" for run D
proof
  show "persist_matches run (m # ms) c = sbind (persist_match run m c) (persist_matches run ms)" for m ms c
    by (simp add: persist_match_def sbind_assoc)
qed (simp, blast intro: enlarges_trans, erule (1) persist_match_keeps, simp)

lemma persist_membership_inv: "persist_membership C at m c = Inr c' \<Longrightarrow> evidence_inv D c \<Longrightarrow> evidence_inv D c'"
  by (erule persist_cases, simp, erule open_lineage_cases) simp_all

lemma persist_memberships_inv: "persist_memberships C at ms c = Inr c' \<Longrightarrow> evidence_inv D c \<Longrightarrow> evidence_inv D c'"
  by (induction ms arbitrary: c) (auto simp: sbind_Inr_iff dest: persist_membership_inv)

section \<open>The lifecycle of a reconciliation\<close>

lemma lifecycle_inv:
  assumes "apply_lifecycle D v run inactive at c = Inr (c', stale, reactivated)" "evidence_inv D c"
  shows "evidence_inv D c'" "frame c c'"
proof -
  let ?stale = "if inactive \<noteq> [] then invalidation_ids c inactive else []"
  from assms(1) obtain c1 where s: "transitions D N_STALE DEPENDENCY_INACTIVE (Some run) at ?stale c = Inr c1"
    "reactivate D v run at c1 = Inr (c', reactivated)" by (auto simp: apply_lifecycle_def Let_def sbind_Inr_iff)
  have "evidence_inv D c1 \<and> frame c c1"
    using s(1) assms(2) invalidation_step(1,2)[of D c run at inactive c1] by (auto split: if_splits)
  with reactivate_inv[OF s(2)] show "evidence_inv D c'" "frame c c'" using frame_trans by blast+
qed

lemma lineage_inv_tables:
  assumes "ec_objects c' = ec_objects c" "ec_runs c' = ec_runs c" "ec_lineages c' = ec_lineages c"
    "ec_members c' = ec_members c" "ec_relations c' = ec_relations c" "ec_ready c' = ec_ready c" "ec_blocks c' = ec_blocks c"
  shows "members_ok c' = members_ok c" "relations_ok c' = relations_ok c" "runs_ok c' = runs_ok c"
    "runs_covered c' = runs_covered c" "lineage_inv c' = lineage_inv c"
  unfolding lineage_inv_def members_ok_def relations_ok_def runs_ok_def runs_covered_def find_member_def find_object_def
    ready_at_def assms by (rule refl)+

lemma lineage_inv_frame:
  assumes "frame c c'"
  shows "lineage_inv c' = lineage_inv c" "runs_covered c' = runs_covered c"
  using assms by (intro lineage_inv_tables; simp add: frame_def)+

section \<open>The transaction\<close>

lemma result_checked_Inr: "result_checked x = Inr y \<longleftrightarrow> y = x \<and> transition_ids_canonical (rz_stale (snd x)) (rz_reactivated (snd x))"
  by (cases x) (auto simp: result_checked_def)

lemma converge_cases:
  assumes "converge_reconciliation D v p q c = Inr (c', r)"
  obtains "rz_disposition r = CONVERGED" "rz_plan r = q" "pl_fingerprint q = pl_fingerprint p"
    "transition_ids_canonical (rz_stale r) (rz_reactivated r)"
    "c' = c \<and> rz_stale r = [] \<and> rz_reactivated r = [] \<or>
     apply_lifecycle D v (pl_run q) (pl_inactive q) (pl_created p) c = Inr (c', rz_stale r, rz_reactivated r)"
  using assms by (auto simp: converge_reconciliation_def sbind_Inr_iff result_checked_Inr split: if_splits)

lemma insert_run_cases:
  assumes "insert_run r c = Inr c'"
  obtains "c' = c\<lparr>ec_runs := ec_runs c @ [r]\<rparr>" "run_row_check r" "distinct (map rr_run (ec_runs c @ [r]))"
    "distinct (map rr_current (ec_runs c @ [r]))" "rr_previous r \<in> fst ` set (ec_ready c)"
  using assms by (simp add: insert_run_def Let_def split: if_splits)

lemma commit_cases:
  assumes "commit_reconciliation D v p c = Inr (c', r)"
  obtains (converged) q where "load_reconciliation (dc_canon D) c (pl_run p) = Inr (Some q)"
      "converge_reconciliation D v p q c = Inr (c', r)"
  | (committed) c1 c2 c3 q where "load_reconciliation (dc_canon D) c (pl_run p) = Inr None"
      "require_ready c (pl_previous p) = Inr ()" "require_ready c (pl_current p) = Inr ()"
      "required_head c (rs_document (pl_current p)) = Inr (pl_current p)"
      "insert_run (run_of_plan p) c = Inr c1"
      "persist_memberships (dc_canon D) (pl_created p) (pl_seeds p @ pl_members p) c1 = Inr c2"
      "persist_matches (pl_run p) (pl_matches p) c2 = Inr c3"
      "apply_lifecycle D v (pl_run p) (pl_inactive p) (pl_created p) c3 = Inr (c', rz_stale r, rz_reactivated r)"
      "load_reconciliation (dc_canon D) c' (pl_run p) = Inr (Some q)" "pl_fingerprint q = pl_fingerprint p"
      "transition_ids_canonical (rz_stale r) (rz_reactivated r)" "rz_plan r = q" "rz_disposition r = COMMITTED"
proof -
  from assms obtain e where e: "load_reconciliation (dc_canon D) c (pl_run p) = Inr e"
    by (auto simp: commit_reconciliation_def sbind_Inr_iff)
  show thesis
  proof (cases e)
    case (Some q)
    with assms e show thesis by (intro converged[of q]) (simp_all add: commit_reconciliation_def)
  next
    case None
    with assms e show thesis unfolding commit_reconciliation_def
      by (auto simp: sbind_Inr_iff result_checked_Inr intro!: committed split: if_splits option.splits)
  qed
qed

text \<open>
  A plan is complete for a catalog when its memberships are those of the projected blocks of its two
  representations, which are of one document: so a plan over their canonical blocks is.
\<close>

definition plan_complete :: "evidence_catalog \<Rightarrow> plan \<Rightarrow> bool" where
  "plan_complete c p \<longleftrightarrow> rs_document (pl_previous p) = rs_document (pl_current p) \<and>
     map mb_ref (pl_seeds p) = scope_blocks c (pl_previous p) \<and> map mb_ref (pl_members p) = scope_blocks c (pl_current p)"

lemma persisted_members:
  assumes "persist_memberships C at ms c = Inr c'" "members_ok c" "m \<in> set ms"
  shows "find_member c' (mb_ref m) = Some m"
proof -
  from members.run_each[OF assms] obtain a b where "persist_membership C at m a = Inr b" "enlarges b c'" by blast
  then show ?thesis using persist_finds enlarges_find(1) by blast
qed

lemma committed_covered:
  assumes run: "insert_run (run_of_plan p) c = Inr c1"
    and ms: "persist_memberships C at (pl_seeds p @ pl_members p) c1 = Inr c2"
    and xs: "persist_matches (pl_run p) (pl_matches p) c2 = Inr c3"
    and inv: "members_ok c1" and ready: "require_ready c (pl_previous p) = Inr ()" and plan: "runs_covered c" "plan_complete c p"
  shows "runs_covered c3"
proof -
  have c1: "c1 = c\<lparr>ec_runs := ec_runs c @ [run_of_plan p]\<rparr>" using run by (cases rule: insert_run_cases)
  have g: "enlarges c1 c2" using members.run_keeps[OF ms inv] by blast
  have same: "ec_members c3 = ec_members c2" using persist_matches_members[OF xs] by blast
  have "ec_blocks c3 = ec_blocks c2 \<and> ec_runs c3 = ec_runs c2 \<and> ec_ready c3 = ec_ready c2" using persist_matches_tables[OF xs] .
  then have tables: "ec_blocks c3 = ec_blocks c" "ec_runs c3 = ec_runs c @ [run_of_plan p]" "ready_at c3 = ready_at c" using g c1 by (simp_all add: enlarges_def ready_at_def fun_eq_iff)
  have old: "find_member c3 b \<noteq> None" if "find_member c b \<noteq> None" for b
  proof -
    from that obtain m where "find_member c b = Some m" by blast
    then have "find_member c1 b = Some m" by (simp add: c1 find_member_def)
    then show ?thesis using enlarges_find(1)[OF g] same by (simp add: find_member_def)
  qed
  have new: "find_member c3 b \<noteq> None" if "b \<in> set (ec_blocks c)" "br_scope b \<in> {pl_previous p, pl_current p}" for b
  proof -
    have "b \<in> mb_ref ` set (pl_seeds p @ pl_members p)"
    proof -
      have "set (map mb_ref (pl_seeds p)) = set (scope_blocks c (pl_previous p))" "set (map mb_ref (pl_members p)) = set (scope_blocks c (pl_current p))"
        using plan(2) by (simp_all only: plan_complete_def)
      then show ?thesis using that unfolding set_append image_Un set_map scope_blocks_def by auto
    qed
    then obtain m where "m \<in> set (pl_seeds p @ pl_members p)" "mb_ref m = b" by auto
    with persisted_members[OF ms inv this(1)] show ?thesis using same by (simp add: find_member_def)
  qed
  have "rr_previous (run_of_plan p) = pl_previous p" "rr_current (run_of_plan p) = pl_current p"
    using plan(2) by (simp_all add: run_of_plan_def plan_complete_def)
  moreover have "ready_at c (pl_previous p) \<noteq> None" using ready by (auto simp: require_ready_def ready_at_def split: option.splits)
  ultimately show ?thesis using old new plan(1) unfolding runs_covered_def tables by auto
qed

lemma commit_keeps:
  assumes commit: "commit_reconciliation D v p c = Inr (c', r)" and inv: "evidence_inv D c" "lineage_inv c"
  shows "evidence_inv D c'" "lineage_inv c'" "runs_covered c \<Longrightarrow> plan_complete c p \<Longrightarrow> runs_covered c'"
proof -
  have "evidence_inv D c' \<and> lineage_inv c' \<and> (runs_covered c \<longrightarrow> plan_complete c p \<longrightarrow> runs_covered c')"
    using commit
  proof (cases rule: commit_cases)
    case (converged q)
    from converged(2) show ?thesis
      by (cases rule: converge_cases) (use inv lifecycle_inv[of D v] lineage_inv_frame in blast)
  next
    case (committed c1 c2 c3 q)
    have ready: "ready_at c (pl_current p) \<noteq> None" using committed(3) by (auto simp: require_ready_def ready_at_def split: option.splits)
    from committed(5) have one: "c1 = c\<lparr>ec_runs := ec_runs c @ [run_of_plan p]\<rparr>" "runs_ok c1"
      by (cases rule: insert_run_cases, use ready inv(2) in \<open>auto simp: lineage_inv_def runs_ok_def run_of_plan_def run_row_check_def ready_at_def\<close>)+
    then have start: "members_ok c1" "relations_ok c1" "evidence_inv D c1"
      using inv by (auto simp: lineage_inv_def members_ok_def relations_ok_def find_member_def find_object_def)
    note two = members.run_keeps[OF committed(6) start(1)]
    have rel: "ec_relations c2 = ec_relations c1" using committed(6) by (rule persist_memberships_relations)
    have "evidence_inv D c2 \<and> relations_ok c2"
      using persist_memberships_inv[OF committed(6) start(3)] relations_ok_grows[OF start(2) conjunct2[OF two] rel] by blast
    note three = matches.run_keeps[OF committed(7) this]
    have g: "enlarges c1 c3" using two three enlarges_trans by blast
    have "members_ok c3" using members_ok_grows[OF conjunct1[OF two] conjunct2[OF three]] persist_matches_members[OF committed(7)] by blast
    moreover have "runs_ok c3" using one(2) g by (simp add: runs_ok_def enlarges_def ready_at_def)
    ultimately have "lineage_inv c3" using three by (simp add: lineage_inv_def)
    moreover have "runs_covered c3" if "runs_covered c" "plan_complete c p"
      using committed_covered[OF committed(5-7) start(1) committed(2) that] .
    ultimately show ?thesis using lifecycle_inv[OF committed(8)] lineage_inv_frame three by blast
  qed
  then show "evidence_inv D c'" "lineage_inv c'" "runs_covered c \<Longrightarrow> plan_complete c p \<Longrightarrow> runs_covered c'" by auto
qed

end
