(* ===== verification/Evidence_System.thy ===== *)
theory Evidence_System
  imports Recon_Steps
begin

text \<open>
  The evidence tables as a transition system: publications of derivations, publications of
  reconciliations and whatever ingestion does to the tables they read.  A transaction that raises
  rolls back and is no step.  The invariants hold in every reachable catalog, and a stored
  reconciliation reads the same after every step.
\<close>

section \<open>Steps\<close>

text \<open>
  Ingestion registers objects, makes representations ready, projects the blocks of representations
  that are not ready yet and moves heads; what is ready stays as it is.
\<close>

definition ingestion :: "evidence_catalog \<Rightarrow> evidence_catalog \<Rightarrow> bool" where
  "ingestion c c' \<longleftrightarrow> (\<exists>xs bs ready heads. c' = c\<lparr>ec_objects := ec_objects c @ xs, ec_blocks := ec_blocks c @ bs,
     ec_ready := ready, ec_heads := heads\<rparr> \<and> distinct (map so_id (ec_objects c @ xs)) \<and>
     (\<forall>b\<in>set bs. ready_at c (br_scope b) = None) \<and> (\<forall>s t. ready_at c s = Some t \<longrightarrow> ready_at c' s = Some t))"

inductive evidence_step :: "dcanon \<Rightarrow> evidence_catalog \<Rightarrow> evidence_catalog \<Rightarrow> bool" for D where
  publish: "publication_valid D p \<Longrightarrow> publish_derivation D p c = Inr (c', r) \<Longrightarrow> evidence_step D c c'"
| reconcile: "plan_complete c p \<Longrightarrow> commit_reconciliation D v p c = Inr (c', z) \<Longrightarrow> evidence_step D c c'"
| ingest: "ingestion c c' \<Longrightarrow> evidence_step D c c'"

definition empty_evidence :: evidence_catalog where
  "empty_evidence = \<lparr>ec_objects = [], ec_slots = [], ec_nodes = [], ec_deps = [], ec_events = [], ec_runs = [],
     ec_lineages = [], ec_members = [], ec_relations = [], ec_ready = [], ec_blocks = [], ec_heads = []\<rparr>"

abbreviation evidence_reach :: "dcanon \<Rightarrow> evidence_catalog \<Rightarrow> bool" where
  "evidence_reach D c \<equiv> (evidence_step D)\<^sup>*\<^sup>* empty_evidence c"

section \<open>Extension\<close>

text \<open>What no step takes back.\<close>

definition extends :: "evidence_catalog \<Rightarrow> evidence_catalog \<Rightarrow> bool" where
  "extends c c' \<longleftrightarrow> prefix (ec_objects c) (ec_objects c') \<and> prefix (ec_runs c) (ec_runs c') \<and>
     prefix (ec_members c) (ec_members c') \<and> prefix (ec_lineages c) (ec_lineages c') \<and>
     (\<exists>bs. ec_blocks c' = ec_blocks c @ bs \<and> (\<forall>b\<in>set bs. ready_at c (br_scope b) = None)) \<and>
     (\<exists>xs. ec_relations c' = ec_relations c @ xs \<and> (\<forall>x\<in>set xs. xr_run x \<notin> rr_run ` set (ec_runs c))) \<and>
     (\<forall>s t. ready_at c s = Some t \<longrightarrow> ready_at c' s = Some t)"

lemma extends_tables:
  assumes "ec_runs c' = ec_runs c" "ec_members c' = ec_members c" "ec_lineages c' = ec_lineages c"
    "ec_relations c' = ec_relations c" "ec_blocks c' = ec_blocks c" "ec_ready c' = ec_ready c" "prefix (ec_objects c) (ec_objects c')"
  shows "extends c c'"
  using assms by (simp add: extends_def ready_at_def)

lemma frame_extends: "frame c c' \<Longrightarrow> extends c c'"
  by (rule extends_tables) (simp_all add: frame_def)

lemma ingestion_extends: "ingestion c c' \<Longrightarrow> extends c c'"
  by (auto simp: ingestion_def extends_def ready_at_def)

lemma open_slot_tables: "open_slot s at c = Inr c' \<Longrightarrow> extends c c'"
  by (rule extends_tables) (auto simp: open_slot_def Let_def split: option.splits if_splits)

lemma register_extends: "store_object x c = Inr c' \<Longrightarrow> extends c c'"
  by (erule register_cases) (auto intro!: extends_tables)

lemma transition_extends: "transition_derivation D a st reason run at c = Inr c' \<Longrightarrow> extends c c'"
  by (erule transition_cases) (auto intro!: extends_tables)

lemma extends_refl [simp]: "extends c c"
  by (rule extends_tables) simp_all

lemma extends_trans:
  assumes "extends a b" "extends b c"
  shows "extends a c"
proof -
  have r: "ready_at a s = None" if "ready_at b s = None" for s
    using assms(1) that unfolding extends_def by (metis option.exhaust option.distinct(1))
  have "set (ec_runs a) \<subseteq> set (ec_runs b)" using assms(1) by (auto simp: extends_def prefix_def)
  then have i: "i \<notin> rr_run ` set (ec_runs a)" if "i \<notin> rr_run ` set (ec_runs b)" for i using that by blast
  obtain bs cs xs ys where b: "ec_blocks b = ec_blocks a @ bs" "\<forall>x\<in>set bs. ready_at a (br_scope x) = None"
    "ec_blocks c = ec_blocks b @ cs" "\<forall>x\<in>set cs. ready_at b (br_scope x) = None"
    "ec_relations b = ec_relations a @ xs" "\<forall>x\<in>set xs. xr_run x \<notin> rr_run ` set (ec_runs a)"
    "ec_relations c = ec_relations b @ ys" "\<forall>x\<in>set ys. xr_run x \<notin> rr_run ` set (ec_runs b)"
    using assms unfolding extends_def by blast
  have "ec_blocks c = ec_blocks a @ (bs @ cs)" "\<forall>x\<in>set (bs @ cs). ready_at a (br_scope x) = None"
    "ec_relations c = ec_relations a @ (xs @ ys)" "\<forall>x\<in>set (xs @ ys). xr_run x \<notin> rr_run ` set (ec_runs a)"
    using b(1,3,5,7) b(2,4) r b(6,8) i unfolding set_append by (simp, blast, simp, blast)
  then have "\<exists>bs. ec_blocks c = ec_blocks a @ bs \<and> (\<forall>x\<in>set bs. ready_at a (br_scope x) = None)"
    "\<exists>xs. ec_relations c = ec_relations a @ xs \<and> (\<forall>x\<in>set xs. xr_run x \<notin> rr_run ` set (ec_runs a))" by blast+
  moreover have "prefix (ec_objects a) (ec_objects c)" "prefix (ec_runs a) (ec_runs c)" "prefix (ec_members a) (ec_members c)"
    "prefix (ec_lineages a) (ec_lineages c)" using assms unfolding extends_def by (blast intro: prefix_order.trans)+
  moreover have "\<forall>s t. ready_at a s = Some t \<longrightarrow> ready_at c s = Some t" using assms unfolding extends_def by blast
  ultimately show ?thesis unfolding extends_def by blast
qed

lemma transitions_extends: "transitions D st reason run at as c = Inr c' \<Longrightarrow> extends c c'"
  by (induction as arbitrary: c) (auto simp: sbind_Inr_iff dest!: transition_extends intro: extends_trans)

lemma publish_extends:
  assumes "publish_derivation D p c = Inr (c', r)"
  shows "extends c c'"
  using assms
proof (cases rule: publish_cases)
  case (committed c1 c2 c3 c4 c5 n prior)
  have "extends c1 c2" using committed(4) register_extends by (auto simp: register_output_def split: option.splits)
  then have "extends c c4"
    using register_extends[OF committed(3)] open_slot_tables[OF committed(5)] transitions_extends[OF committed(7)] extends_trans by blast
  moreover from committed(9,10) obtain e where "c' = with_node n e c4" by (rule insert_cases)
  then have "extends c4 c'" by (auto intro!: extends_tables simp: with_node_def)
  ultimately show ?thesis by (rule extends_trans)
qed simp

lemma find_run_None: "find_run c i = None \<longleftrightarrow> i \<notin> rr_run ` set (ec_runs c)"
  by (auto simp: find_run_def find_None_iff)

lemma load_None: "load_reconciliation C c i = Inr None \<Longrightarrow> find_run c i = None"
  by (auto simp: load_reconciliation_def Let_def split: option.splits if_splits)

lemma persist_matches_relations:
  "persist_matches run ms c = Inr c' \<Longrightarrow> \<exists>xs. ec_relations c' = ec_relations c @ xs \<and> (\<forall>x\<in>set xs. xr_run x = run)"
proof (induction ms arbitrary: c)
  case (Cons m ms)
  then obtain c1 c2 where s: "store_object (bm_object m) c = Inr c1" "insert_relation (row_of_match run m) c1 = Inr c2"
    "persist_matches run ms c2 = Inr c'" by (auto simp: sbind_Inr_iff)
  from Cons.IH[OF s(3)] obtain xs where xs: "ec_relations c' = ec_relations c2 @ xs" "\<forall>x\<in>set xs. xr_run x = run" by blast
  have "ec_relations c2 = ec_relations c1 @ [row_of_match run m]" using s(2) by (auto simp: insert_relation_def split: if_splits)
  moreover have "ec_relations c1 = ec_relations c" using s(1) by (cases rule: register_cases) simp_all
  ultimately show ?case using xs by (intro exI[of _ "row_of_match run m # xs"]) (simp add: row_of_match_def)
qed simp

text \<open>A reconciliation that is new adds its rows, and then the lifecycle runs.\<close>

lemma commit_stages:
  assumes commit: "commit_reconciliation D v p c = Inr (c', r)" and inv: "evidence_inv D c" "lineage_inv c"
  obtains (again) "frame c c'"
  | (stages) c3 xs where "enlarges (c\<lparr>ec_runs := ec_runs c @ [run_of_plan p]\<rparr>) c3" "ec_relations c3 = ec_relations c @ xs"
      "\<forall>x\<in>set xs. xr_run x = pl_run p" "pl_run p \<notin> rr_run ` set (ec_runs c)" "frame c3 c'"
  using commit
proof (cases rule: commit_cases)
  case (converged q)
  from converged(2) have "frame c c'"
    by (cases rule: converge_cases) (use inv(1) lifecycle_inv(2) frame_refl in blast)
  then show thesis by (rule again)
next
  case (committed c1 c2 c3 q)
  from committed(5) have c1: "c1 = c\<lparr>ec_runs := ec_runs c @ [run_of_plan p]\<rparr>" by (cases rule: insert_run_cases)
  then have "evidence_inv D c1" "members_ok c1" "relations_ok c1"
    using inv by (auto simp: lineage_inv_def members_ok_def relations_ok_def find_member_def find_object_def)
  note two = members.run_keeps[OF committed(6) this(2)] persist_memberships_relations[OF committed(6)]
    persist_memberships_inv[OF committed(6) \<open>evidence_inv D c1\<close>]
  have "evidence_inv D c2 \<and> relations_ok c2" using relations_ok_grows[OF \<open>relations_ok c1\<close> _ two(2)] two by blast
  note three = matches.run_keeps[OF committed(7) this]
  from persist_matches_relations[OF committed(7)] obtain xs where
    xs: "ec_relations c3 = ec_relations c @ xs" "\<forall>x\<in>set xs. xr_run x = pl_run p" using two(2) c1 by auto
  have "pl_run p \<notin> rr_run ` set (ec_runs c)" using load_None[OF committed(1)] by (simp add: find_run_None)
  moreover have "enlarges c1 c3" using two(1) three enlarges_trans by blast
  ultimately show thesis using stages xs c1 lifecycle_inv(2)[OF committed(8)] three by blast
qed

lemma commit_extends:
  assumes "commit_reconciliation D v p c = Inr (c', r)" "evidence_inv D c" "lineage_inv c"
  shows "extends c c'"
  using assms
proof (cases rule: commit_stages)
  case (stages c3 xs)
  then have "extends c c3" unfolding extends_def enlarges_def by (auto simp: ready_at_def)
  then show ?thesis using stages(5) frame_extends extends_trans by blast
qed (rule frame_extends)

text \<open>The tables of ingestion are only read.\<close>

definition same_reads :: "evidence_catalog \<Rightarrow> evidence_catalog \<Rightarrow> bool" where
  "same_reads c c' \<longleftrightarrow> ec_ready c' = ec_ready c \<and> ec_blocks c' = ec_blocks c \<and> ec_heads c' = ec_heads c"

lemma commit_reads:
  assumes "commit_reconciliation D v p c = Inr (c', r)" "evidence_inv D c" "lineage_inv c"
  shows "same_reads c c'"
  using assms by (cases rule: commit_stages) (simp_all add: same_reads_def frame_def enlarges_def)

section \<open>The invariant\<close>

definition system_inv :: "dcanon \<Rightarrow> evidence_catalog \<Rightarrow> bool" where
  "system_inv D c \<longleftrightarrow> evidence_inv D c \<and> lineage_inv c \<and> runs_covered c"

lemma empty_inv: "system_inv D empty_evidence"
  by (simp add: system_inv_def empty_evidence_def evidence_inv_def rows_inv_def pointers_ok_def producers_ok_def lineage_inv_def
      members_ok_def relations_ok_def runs_ok_def runs_covered_def nodes_constraints_def slots_constraints_def edges_ok_def)

lemma lineage_inv_extends:
  assumes "lineage_inv c" "runs_covered c" "extends c c'" "ec_runs c' = ec_runs c" "ec_members c' = ec_members c"
    "ec_lineages c' = ec_lineages c" "ec_relations c' = ec_relations c"
  shows "lineage_inv c' \<and> runs_covered c'"
proof -
  from assms(3) obtain bs where bs: "ec_blocks c' = ec_blocks c @ bs" "\<forall>b\<in>set bs. ready_at c (br_scope b) = None"
    by (auto simp: extends_def)
  have ready: "ready_at c' s \<noteq> None" if "ready_at c s \<noteq> None" for s using assms(3) that unfolding extends_def by blast
  have "find_object c' i \<noteq> None" if "find_object c i \<noteq> None" for i
    using assms(3) that unfolding extends_def find_object_def by (metis find_prefix option.exhaust option.distinct(1))
  moreover have "find_member c' = find_member c" using assms(5) by (simp add: find_member_def fun_eq_iff)
  ultimately have "members_ok c'" "relations_ok c'" "runs_ok c'"
    using assms(1) ready bs unfolding lineage_inv_def members_ok_def relations_ok_def runs_ok_def assms(4-7) by auto
  moreover have "runs_covered c'"
    using assms(1,2) ready bs \<open>find_member c' = find_member c\<close>
    unfolding lineage_inv_def runs_covered_def runs_ok_def assms(4) by fastforce
  ultimately show ?thesis by (simp add: lineage_inv_def)
qed

lemma publish_tables:
  assumes "publish_derivation D p c = Inr (c', r)"
  shows "ec_runs c' = ec_runs c \<and> ec_members c' = ec_members c \<and> ec_lineages c' = ec_lineages c \<and> ec_relations c' = ec_relations c \<and>
    same_reads c c'"
  using assms
proof (cases rule: publish_cases)
  case (committed c1 c2 c3 c4 c5 n prior)
  let ?t = "\<lambda>c. (ec_runs c, ec_members c, ec_lineages c, ec_relations c, ec_ready c, ec_blocks c, ec_heads c)"
  have reg: "?t c' = ?t c" if "store_object x c = Inr c'" for x c c' using that by (cases rule: register_cases) simp_all
  have tr: "?t c' = ?t c" if "transition_derivation D a st reason run at c = Inr c'" for a st reason run at c c'
    using that by (cases rule: transition_cases) simp_all
  have trs: "?t c' = ?t c" if "transitions D st reason run at as c = Inr c'" for st reason run at as c c'
    using that by (induction as arbitrary: c) (auto simp: sbind_Inr_iff dest!: tr)
  have "?t c2 = ?t c1" using committed(4) reg by (auto simp: register_output_def split: option.splits)
  moreover have "?t c3 = ?t c2" using committed(5) by (auto simp: open_slot_def Let_def split: option.splits if_splits)
  moreover from committed(9,10) obtain e where "c' = with_node n e c4" by (rule insert_cases)
  then have "?t c' = ?t c4" by (simp add: with_node_def)
  ultimately show ?thesis using reg[OF committed(3)] trs[OF committed(7)] by (simp add: same_reads_def)
qed (simp add: same_reads_def)

lemma step_inv:
  assumes "evidence_step D c c'" "system_inv D c"
  shows "system_inv D c' \<and> extends c c'"
  using assms(1)
proof (cases rule: evidence_step.cases)
  case (publish p r)
  have e: "extends c c'" using publish(2) by (rule publish_extends)
  have "evidence_inv D c'" using publish_inv[OF publish] assms(2) by (simp add: system_inv_def)
  then show ?thesis using lineage_inv_extends[OF _ _ e] publish_tables[OF publish(2)] assms(2) e by (simp add: system_inv_def)
next
  case (reconcile p v z)
  then show ?thesis using commit_keeps[OF reconcile(2)] commit_extends[OF reconcile(2)] assms(2) by (simp add: system_inv_def)
next
  case ingest
  have e: "extends c c'" using ingest by (rule ingestion_extends)
  from ingest obtain xs bs ready heads where c': "c' = c\<lparr>ec_objects := ec_objects c @ xs, ec_blocks := ec_blocks c @ bs,
     ec_ready := ready, ec_heads := heads\<rparr>" "distinct (map so_id (ec_objects c @ xs))" unfolding ingestion_def by blast
  have inv: "evidence_inv D c" "lineage_inv c" "runs_covered c" using assms(2) by (simp_all add: system_inv_def)
  have "evidence_inv D c'" unfolding c'(1) by (rule evidence_inv_tables[OF inv(1)]) (use c'(2) in simp_all)
  moreover have "lineage_inv c' \<and> runs_covered c'"
    by (rule lineage_inv_extends[OF inv(2,3) e]) (simp_all add: c'(1))
  ultimately show ?thesis using e by (simp add: system_inv_def)
qed

lemma reach_inv: "evidence_reach D c \<Longrightarrow> system_inv D c"
  by (induction rule: rtranclp_induct) (auto simp: empty_inv dest: step_inv)

section \<open>Stored reconciliations\<close>

lemma takeWhile_prefix: "b \<in> set xs \<Longrightarrow> takeWhile (\<lambda>x. x \<noteq> b) (xs @ ys) = takeWhile (\<lambda>x. x \<noteq> b) xs"
  by (induction xs) auto

lemma map_filter_agree: "\<forall>x\<in>set xs. f x = g x \<Longrightarrow> List.map_filter f xs = List.map_filter g xs"
  by (induction xs) (simp_all add: map_filter_simps split: option.splits)

lemma insort_key_agree: "f x = g x \<Longrightarrow> \<forall>y\<in>set ys. f y = g y \<Longrightarrow> insort_key f x ys = insort_key g x ys"
  by (induction ys) simp_all

lemma sort_key_agree: "\<forall>x\<in>set xs. f x = g x \<Longrightarrow> sort_key f xs = sort_key g xs"
proof (induction xs)
  case (Cons x xs)
  then show ?case using insort_key_agree[of f x g "sort_key f xs"] by simp
qed simp

lemma stored_members_stable:
  assumes "runs_covered c" "extends c c'" "r \<in> set (ec_runs c)" "s = rr_previous r \<or> s = rr_current r"
    "ready_at c s \<noteq> None"
  shows "stored_members c' s = stored_members c s"
proof -
  from assms(2) obtain bs where bs: "ec_blocks c' = ec_blocks c @ bs" "\<forall>b\<in>set bs. ready_at c (br_scope b) = None"
    by (auto simp: extends_def)
  have "filter (\<lambda>b. br_scope b = s) bs = []" using bs(2) assms(5) by (auto simp: filter_empty_conv)
  then have blocks: "scope_blocks c' s = scope_blocks c s" by (simp add: scope_blocks_def bs(1))
  have "find_member c' b = find_member c b" if "b \<in> set (scope_blocks c s)" for b
  proof -
    have "find_member c b \<noteq> None" using that assms(1,3,4) by (auto simp: scope_blocks_def runs_covered_def)
    then obtain m where m: "find_member c b = Some m" by blast
    then have "find_member c' b = Some m" using assms(2) unfolding extends_def find_member_def by (blast intro: find_prefix)
    with m show ?thesis by simp
  qed
  then show ?thesis unfolding stored_members_def blocks by (intro map_filter_agree) blast
qed

lemma relation_rows_stable:
  assumes "members_ok c" "relations_ok c" "extends c c'" "i \<in> rr_run ` set (ec_runs c)"
  shows "relation_rows c' i = relation_rows c i"
proof -
  from assms(3) obtain bs xs where e: "ec_blocks c' = ec_blocks c @ bs" "ec_relations c' = ec_relations c @ xs"
    "\<forall>x\<in>set xs. xr_run x \<notin> rr_run ` set (ec_runs c)" by (auto simp: extends_def)
  have "filter (\<lambda>x. xr_run x = i) xs = []" using e(3) assms(4) by (auto simp: filter_empty_conv)
  then have rows: "filter (\<lambda>x. xr_run x = i) (ec_relations c') = filter (\<lambda>x. xr_run x = i) (ec_relations c)" by (simp add: e(2))
  have same: "joined c' x = joined c x \<and> ordinal_of c' (xr_current x) = ordinal_of c (xr_current x)"
    if x: "x \<in> set (ec_relations c)" for x
  proof -
    from assms(2) x obtain o1 pm cm where f: "find_object c (xr_object x) = Some o1" "find_member c (xr_previous x) = Some pm"
      "find_member c (xr_current x) = Some cm" by (auto simp: relations_ok_def)
    then have "find_object c' (xr_object x) = Some o1" "find_member c' (xr_previous x) = Some pm" "find_member c' (xr_current x) = Some cm"
      using assms(3) unfolding extends_def find_object_def find_member_def by (blast intro: find_prefix)+
    moreover have b: "xr_current x \<in> set (ec_blocks c)" using assms(1) find_member_in[OF f(3)] by (auto simp: members_ok_def)
    then have "xr_current x \<in> set (ec_blocks c')" by (simp add: e(1))
    moreover have "ordinal_of c' (xr_current x) = ordinal_of c (xr_current x)"
      using b by (simp add: ordinal_of_def scope_blocks_def e(1) takeWhile_prefix)
    ultimately show ?thesis using f b by (simp add: joined_def)
  qed
  have "List.map_filter (joined c') (filter (\<lambda>x. xr_run x = i) (ec_relations c)) =
      List.map_filter (joined c) (filter (\<lambda>x. xr_run x = i) (ec_relations c))"
    using same by (intro map_filter_agree) auto
  moreover have "(\<lambda>(x, _). ordinal_of c' (xr_current x)) y = (\<lambda>(x, _). ordinal_of c (xr_current x)) y"
    if "y \<in> set (List.map_filter (joined c) (filter (\<lambda>x. xr_run x = i) (ec_relations c)))" for y
  proof -
    from that obtain x where "x \<in> set (ec_relations c)" "joined c x = Some y" by (auto simp: map_filter_def)
    then show ?thesis using same[of x] by (auto simp: joined_def split: option.splits if_splits)
  qed
  ultimately show ?thesis unfolding relation_rows_def rows by (metis (no_types, lifting) sort_key_agree)
qed

lemma load_reconciliation_stable:
  assumes "lineage_inv c" "runs_covered c" "extends c c'" "find_run c i \<noteq> None"
  shows "load_reconciliation C c' i = load_reconciliation C c i"
proof -
  from assms(4) obtain r where r: "find_run c i = Some r" by blast
  then have mem: "r \<in> set (ec_runs c)" "rr_run r = i" unfolding find_run_def by (auto dest: find_in)
  have run: "find_run c' i = Some r" using r assms(3) unfolding extends_def find_run_def by (blast intro: find_prefix)
  have inv: "members_ok c" "relations_ok c" "runs_ok c" using assms(1) by (simp_all add: lineage_inv_def)
  have ready: "ready_at c (rr_current r) \<noteq> None" "ready_at c (rr_previous r) \<noteq> None"
    using inv(3) assms(2) mem(1) by (auto simp: runs_ok_def runs_covered_def)
  have same: "ready_at c' (rr_current r) = ready_at c (rr_current r)"
    using ready(1) assms(3) unfolding extends_def by (metis option.exhaust)
  have members: "stored_members c' (rr_current r) = stored_members c (rr_current r)"
    "stored_members c' (rr_previous r) = stored_members c (rr_previous r)"
    using stored_members_stable[OF assms(2,3) mem(1)] ready by blast+
  have rows: "relation_rows c' i = relation_rows c i"
    using mem by (intro relation_rows_stable[OF inv(1,2) assms(3)]) auto
  show ?thesis unfolding load_reconciliation_def r run option.case same members rows ..
qed

lemma load_reconciliation_kept:
  assumes "(evidence_step D)\<^sup>*\<^sup>* c c'" "system_inv D c" "find_run c i \<noteq> None"
  shows "load_reconciliation C c' i = load_reconciliation C c i \<and> system_inv D c' \<and> find_run c' i \<noteq> None"
  using assms
proof (induction rule: rtranclp_induct)
  case (step y z)
  then have y: "load_reconciliation C y i = load_reconciliation C c i" "system_inv D y" "find_run y i \<noteq> None" by blast+
  note one = step_inv[OF step(2) y(2)]
  have "find_run z i \<noteq> None" using y(3) one unfolding extends_def find_run_def by (metis find_prefix option.exhaust option.distinct(1))
  then show ?case using load_reconciliation_stable[of y z i C] one y by (simp add: system_inv_def)
qed simp

end
