(* ===== verification/Evidence_Example.thy ===== *)
theory Evidence_Example
  imports Evidence_System Recon_Properties
begin

text \<open>
  A small history that the witnesses evaluate: four versions of a document with one block each, two
  artifacts of which the second consumes the first, and reconciliations that take their evidence away
  and give it back.
\<close>

section \<open>Records\<close>

text \<open>The digest keeps the digits of the strings of the payload.\<close>

fun leaves :: "json \<Rightarrow> pystr" where
  "leaves (JStr s) = filter (\<lambda>c. 48 \<le> c \<and> c \<le> 57) s"
| "leaves (JArr js) = concat (map leaves js)"
| "leaves (JObj fs) = concat (map (\<lambda>(k, v). leaves v) fs)"
| "leaves j = []"

definition payload_digest :: "json \<Rightarrow> pystr" where
  "payload_digest j = (case j of JObj [_, _, _, (k, v)] \<Rightarrow> leaves v | _ \<Rightarrow> [])"

definition ex_canon :: canon where
  "ex_canon = rx_canon\<lparr>cn_digest := payload_digest\<rparr>"

definition ex_dcanon :: dcanon where
  "ex_dcanon = \<lparr>dc_canon = ex_canon, dc_text = (\<lambda>r. U ''{}'' @ dv_artifact r), dc_sha = (\<lambda>t. t),
     dc_node = (\<lambda>n. nd_artifact n)\<rparr>"

definition ex_ref :: "string \<Rightarrow> block_ref" where
  "ex_ref v = \<lparr>br_scope = rx_scope v, br_block = U v\<rparr>"

definition ex_run :: "string \<Rightarrow> string \<Rightarrow> pystr" where
  "ex_run v w = reconciliation_run_id ex_canon (rx_scope v) (rx_scope w)"

text \<open>The block of version \<open>v\<close> in the lineage that started at version \<open>o\<close>, with content \<open>h\<close>.\<close>

definition ex_member :: "string \<Rightarrow> string \<Rightarrow> string \<Rightarrow> pystr \<Rightarrow> membership" where
  "ex_member v start h run = (let l = block_lineage_id ex_canon (ex_ref start)
     in \<lparr>mb_lineage = l, mb_ref = ex_ref v, mb_hash = U h, mb_binding = evidence_binding_id ex_canon l (U h), mb_run = run\<rparr>)"

definition ex_plan :: "string \<Rightarrow> membership \<Rightarrow> string \<Rightarrow> membership \<Rightarrow> int \<Rightarrow> plan" where
  "ex_plan v old w new at = (let p = \<lparr>pl_run = ex_run v w, pl_previous = rx_scope v, pl_current = rx_scope w,
       pl_algorithm = algorithm_version, pl_config = recon_config_hash ex_canon, pl_seeds = [old], pl_members = [new],
       pl_matches = [], pl_inactive = [mb_binding old], pl_matched = 0, pl_reusable = 0, pl_new = 1, pl_ambiguous = 0,
       pl_comparisons = 0, pl_fingerprint = [], pl_created = at\<rparr>
     in p\<lparr>pl_fingerprint := result_fingerprint ex_canon p\<rparr>)"

definition ex_slot :: "string \<Rightarrow> slot" where
  "ex_slot s = (let t = \<lparr>sl_id = [], sl_namespace = U s, sl_subject = U s, sl_purpose = U s\<rparr>
     in t\<lparr>sl_id := derivation_slot_id ex_dcanon t\<rparr>)"

definition ex_publication :: "string \<Rightarrow> dep_kind \<Rightarrow> pystr \<Rightarrow> pystr option \<Rightarrow> string \<Rightarrow> string \<Rightarrow> int \<Rightarrow> publication" where
  "ex_publication config how input producer out place at =
     (let r = \<lparr>dv_artifact = [], dv_state = R_READY, dv_generator = \<lparr>cp_name = U ''g'', cp_version = U ''1'', cp_profile = None\<rparr>,
          dv_model = None, dv_inputs = [input], dv_config = U config, dv_prompt = None, dv_created = 0, dv_completed = Some 0,
          dv_output = Some (U out), dv_zone = MODEL_DERIVED, dv_rest = JNull\<rparr>;
          s = r\<lparr>dv_artifact := derivation_artifact_id ex_dcanon r\<rparr>
      in \<lparr>pb_record = s, pb_object = record_object ex_dcanon s, pb_output = Some \<lparr>so_id = U out, so_length = 1\<rparr>,
          pb_deps = [\<lparr>dp_ordinal = 0, dp_kind = how, dp_digest = input, dp_producer = producer\<rparr>],
          pb_slot = ex_slot place, pb_failure = None, pb_at = at\<rparr>)"

section \<open>History\<close>

text \<open>The head moves to the one block version \<open>v\<close>.\<close>

definition ex_ingest :: "string \<Rightarrow> evidence_catalog \<Rightarrow> evidence_catalog" where
  "ex_ingest v c = c\<lparr>ec_blocks := ec_blocks c @ [ex_ref v], ec_ready := ec_ready c @ [(rx_scope v, Some 0)],
     ec_heads := [rx_scope v]\<rparr>"

definition ex_then :: "evidence_error + evidence_catalog \<times> 'r \<Rightarrow> evidence_catalog" where
  "ex_then x = (case x of Inl e \<Rightarrow> empty_evidence | Inr (c, r) \<Rightarrow> c)"

definition ex_m1 :: membership where "ex_m1 = ex_member ''1'' ''1'' ''7'' (ex_run ''1'' ''2'')"
definition ex_m2 :: membership where "ex_m2 = ex_member ''2'' ''2'' ''8'' (ex_run ''1'' ''2'')"
definition ex_m3 :: membership where "ex_m3 = ex_member ''3'' ''3'' ''9'' (ex_run ''2'' ''3'')"
definition ex_m4 :: membership where "ex_m4 = ex_member ''4'' ''2'' ''8'' (ex_run ''3'' ''4'')"

definition ex_plan2 :: plan where "ex_plan2 = ex_plan ''1'' ex_m1 ''2'' ex_m2 1"
definition ex_plan3 :: plan where "ex_plan3 = ex_plan ''2'' ex_m2 ''3'' ex_m3 10"
definition ex_plan4 :: plan where "ex_plan4 = ex_plan ''3'' ex_m3 ''4'' ex_m4 20"

text \<open>The output of the first artifact is a parameter: it decides how the two identifiers are ordered.\<close>

definition ex_a :: "string \<Rightarrow> publication" where
  "ex_a out = ex_publication ''1'' EVIDENCE_BINDING (mb_binding ex_m2) None out ''1'' 2"

definition ex_b :: "string \<Rightarrow> publication" where
  "ex_b out = ex_publication ''1'' DERIVATION_OUTPUT (U out) (Some (dv_artifact (pb_record (ex_a out)))) ''66'' ''2'' 3"

definition ex_c2 :: evidence_catalog where
  "ex_c2 = ex_then (commit_reconciliation ex_dcanon None ex_plan2 (ex_ingest ''2'' (ex_ingest ''1'' empty_evidence)))"

definition ex_ca :: "string \<Rightarrow> evidence_catalog" where "ex_ca out = ex_then (publish_derivation ex_dcanon (ex_a out) ex_c2)"
definition ex_cb :: "string \<Rightarrow> evidence_catalog" where "ex_cb out = ex_then (publish_derivation ex_dcanon (ex_b out) (ex_ca out))"

definition ex_c3 :: "string \<Rightarrow> evidence_catalog" where
  "ex_c3 out = ex_then (commit_reconciliation ex_dcanon (Some (\<lambda>_. True)) ex_plan3 (ex_ingest ''3'' (ex_cb out)))"

text \<open>The file goes back to version 2, and its reconciliation is asked for again.\<close>

definition ex_back :: "string \<Rightarrow> evidence_catalog" where "ex_back out = ex_c3 out\<lparr>ec_heads := [rx_scope ''2'']\<rparr>"

definition ex_c4 :: "string \<Rightarrow> evidence_error + evidence_catalog \<times> recon_result" where
  "ex_c4 out = commit_reconciliation ex_dcanon (Some (\<lambda>_. True)) (ex_plan2\<lparr>pl_created := 20\<rparr>) (ex_back out)"

section \<open>The history is a run of the system\<close>

lemma ex_then_Inr: "\<not> isl x \<Longrightarrow> \<exists>r. x = Inr (ex_then x, r)"
  by (cases x) (auto simp: ex_then_def)

lemma ex_ingest_step:
  assumes "ready_at c (rx_scope v) = None" "map_of (ec_ready c) (rx_scope v) = None" "distinct (map so_id (ec_objects c))"
  shows "evidence_step D c (ex_ingest v c)"
proof (rule evidence_step.ingest)
  have "\<forall>s t. ready_at c s = Some t \<longrightarrow> ready_at (ex_ingest v c) s = Some t"
    by (auto simp: ready_at_def ex_ingest_def map_add_def split: option.splits)
  then show "ingestion c (ex_ingest v c)" unfolding ingestion_def
    using assms by (intro exI[of _ "[]"] exI[of _ "[ex_ref v]"] exI[of _ "ec_ready (ex_ingest v c)"] exI[of _ "[rx_scope v]"])
      (simp add: ex_ingest_def ex_ref_def)
qed

lemma ex_publications_valid: "publication_valid ex_dcanon (ex_a ''99'')" "publication_valid ex_dcanon (ex_b ''99'')"
  "publication_valid ex_dcanon (ex_a ''0'')" "publication_valid ex_dcanon (ex_b ''0'')"
  by code_simp+

lemma ex_c2_reach: "evidence_reach ex_dcanon ex_c2"
proof -
  let ?c = "ex_ingest ''2'' (ex_ingest ''1'' empty_evidence)"
  have "evidence_step ex_dcanon empty_evidence (ex_ingest ''1'' empty_evidence)"
    by (rule ex_ingest_step) code_simp+
  moreover have "evidence_step ex_dcanon (ex_ingest ''1'' empty_evidence) ?c"
    by (rule ex_ingest_step) code_simp+
  moreover have "\<not> isl (commit_reconciliation ex_dcanon None ex_plan2 ?c)" by code_simp
  then obtain r where "commit_reconciliation ex_dcanon None ex_plan2 ?c = Inr (ex_c2, r)"
    using ex_then_Inr unfolding ex_c2_def by blast
  moreover have "plan_complete ?c ex_plan2" by code_simp
  ultimately show ?thesis by (meson evidence_step.reconcile rtranclp.rtrancl_into_rtrancl rtranclp.rtrancl_refl)
qed

lemma ex_ca_steps: "evidence_step ex_dcanon ex_c2 (ex_ca ''99'')" "evidence_step ex_dcanon ex_c2 (ex_ca ''0'')"
proof -
  have "evidence_step ex_dcanon ex_c2 (ex_ca out)"
    if p: "publication_valid ex_dcanon (ex_a out)" and run: "\<not> isl (publish_derivation ex_dcanon (ex_a out) ex_c2)" for out
  proof -
    obtain r where "publish_derivation ex_dcanon (ex_a out) ex_c2 = Inr (ex_ca out, r)"
      using ex_then_Inr[OF run] unfolding ex_ca_def by blast
    with p show ?thesis by (rule evidence_step.publish)
  qed
  moreover have "\<not> isl (publish_derivation ex_dcanon (ex_a ''99'') ex_c2)" "\<not> isl (publish_derivation ex_dcanon (ex_a ''0'') ex_c2)"
    by code_simp+
  ultimately show "evidence_step ex_dcanon ex_c2 (ex_ca ''99'')" "evidence_step ex_dcanon ex_c2 (ex_ca ''0'')"
    using ex_publications_valid by blast+
qed

lemma ex_ca_reached: "evidence_reach ex_dcanon (ex_ca ''99'')" "evidence_reach ex_dcanon (ex_ca ''0'')"
  using ex_c2_reach ex_ca_steps by (auto intro: rtranclp.rtrancl_into_rtrancl)

lemma ex_cb_reached: "evidence_reach ex_dcanon (ex_cb ''99'')" "evidence_reach ex_dcanon (ex_cb ''0'')"
proof -
  have "evidence_reach ex_dcanon (ex_cb out)"
    if p: "publication_valid ex_dcanon (ex_b out)" and run: "\<not> isl (publish_derivation ex_dcanon (ex_b out) (ex_ca out))"
      and a: "evidence_reach ex_dcanon (ex_ca out)" for out
  proof -
    obtain r where "publish_derivation ex_dcanon (ex_b out) (ex_ca out) = Inr (ex_cb out, r)"
      using ex_then_Inr[OF run] unfolding ex_cb_def by blast
    with p have "evidence_step ex_dcanon (ex_ca out) (ex_cb out)" by (rule evidence_step.publish)
    with a show ?thesis by (rule rtranclp.rtrancl_into_rtrancl)
  qed
  moreover have "\<not> isl (publish_derivation ex_dcanon (ex_b ''99'') (ex_ca ''99''))"
    "\<not> isl (publish_derivation ex_dcanon (ex_b ''0'') (ex_ca ''0''))"
    by code_simp+
  ultimately show "evidence_reach ex_dcanon (ex_cb ''99'')" "evidence_reach ex_dcanon (ex_cb ''0'')"
    using ex_publications_valid ex_ca_reached by blast+
qed

lemma ex_fresh3: "ready_at (ex_cb ''99'') (rx_scope ''3'') = None \<and> map_of (ec_ready (ex_cb ''99'')) (rx_scope ''3'') = None"
  "ready_at (ex_cb ''0'') (rx_scope ''3'') = None \<and> map_of (ec_ready (ex_cb ''0'')) (rx_scope ''3'') = None"
  by code_simp+

lemma ex_new_reached: "evidence_reach ex_dcanon (ex_ingest ''3'' (ex_cb ''99''))" "evidence_reach ex_dcanon (ex_ingest ''3'' (ex_cb ''0''))"
proof -
  have "evidence_reach ex_dcanon (ex_ingest ''3'' c)"
    if c: "evidence_reach ex_dcanon c" and new: "ready_at c (rx_scope ''3'') = None \<and> map_of (ec_ready c) (rx_scope ''3'') = None" for c
  proof -
    have "distinct (map so_id (ec_objects c))" using reach_inv[OF c] by (simp add: system_inv_def evidence_inv_def rows_inv_def)
    with new have "evidence_step ex_dcanon c (ex_ingest ''3'' c)" by (intro ex_ingest_step) simp_all
    with c show ?thesis by (rule rtranclp.rtrancl_into_rtrancl)
  qed
  then show "evidence_reach ex_dcanon (ex_ingest ''3'' (ex_cb ''99''))" "evidence_reach ex_dcanon (ex_ingest ''3'' (ex_cb ''0''))"
    using ex_cb_reached ex_fresh3 by blast+
qed

lemma ex_third: "\<not> isl (commit_reconciliation ex_dcanon (Some (\<lambda>_. True)) ex_plan3 (ex_ingest ''3'' (ex_cb ''99'')))"
  "\<not> isl (commit_reconciliation ex_dcanon (Some (\<lambda>_. True)) ex_plan3 (ex_ingest ''3'' (ex_cb ''0'')))"
  "plan_complete (ex_ingest ''3'' (ex_cb ''99'')) ex_plan3" "plan_complete (ex_ingest ''3'' (ex_cb ''0'')) ex_plan3"
  by code_simp+

lemma ex_back_reached: "evidence_reach ex_dcanon (ex_back ''99'')" "evidence_reach ex_dcanon (ex_back ''0'')"
proof -
  have "evidence_reach ex_dcanon (ex_back out)"
    if c: "evidence_reach ex_dcanon (ex_ingest ''3'' (ex_cb out))" and plan: "plan_complete (ex_ingest ''3'' (ex_cb out)) ex_plan3"
      and run: "\<not> isl (commit_reconciliation ex_dcanon (Some (\<lambda>_. True)) ex_plan3 (ex_ingest ''3'' (ex_cb out)))" for out
  proof -
    obtain r where "commit_reconciliation ex_dcanon (Some (\<lambda>_. True)) ex_plan3 (ex_ingest ''3'' (ex_cb out)) = Inr (ex_c3 out, r)"
      using ex_then_Inr[OF run] unfolding ex_c3_def by blast
    with plan have "evidence_step ex_dcanon (ex_ingest ''3'' (ex_cb out)) (ex_c3 out)" by (rule evidence_step.reconcile)
    with c have c3: "evidence_reach ex_dcanon (ex_c3 out)" by (rule rtranclp.rtrancl_into_rtrancl)
    then have "distinct (map so_id (ec_objects (ex_c3 out)))"
      using reach_inv by (auto simp: system_inv_def evidence_inv_def rows_inv_def)
    then have "ingestion (ex_c3 out) (ex_back out)" unfolding ingestion_def
      by (intro exI[of _ "[]"] exI[of _ "[]"] exI[of _ "ec_ready (ex_c3 out)"] exI[of _ "[rx_scope ''2'']"])
         (simp add: ex_back_def ready_at_def)
    then have "evidence_step ex_dcanon (ex_c3 out) (ex_back out)" by (rule evidence_step.ingest)
    with c3 show ?thesis by (rule rtranclp.rtrancl_into_rtrancl)
  qed
  then show "evidence_reach ex_dcanon (ex_back ''99'')" "evidence_reach ex_dcanon (ex_back ''0'')"
    using ex_new_reached ex_third by blast+
qed

end
