(* ===== verification/Evidence_Properties.thy ===== *)
theory Evidence_Properties
  imports Evidence_Example
begin

text \<open>
  The properties of the evidence tables: what holds in every reachable catalog, what a publication and
  a reconciliation change, that stored reconciliations never change, and when the lifecycle succeeds.
\<close>

section \<open>Derivations\<close>

lemma load_events_inv:
  assumes "rows_inv D c" "pointers_ok c" "r \<in> set (ec_nodes c)"
  shows "load_events D c (nr_artifact r) = Inr (node_log c (nr_artifact r))"
proof -
  let ?es = "node_log c (nr_artifact r)"
  have ok: "node_log_ok ?es (nr_state r)" using assms(1,3) by (simp add: rows_inv_def)
  then have "sorted (map de_sequence ?es)" by (simp add: node_log_ok_def del: upt_Suc)
  then have "events_of c (nr_artifact r) = ?es" by (simp add: events_of_def node_log_def sort_key_id_if_sorted)
  moreover obtain s x out where "load_derivation D c (nr_artifact r) =
      Inr (Some (node_of_row r s x out (deps_of c (nr_artifact r))))"
    using load_inv[OF assms(1,2) find_node_row[OF assms(1,3)]] by blast
  ultimately show ?thesis using ok by (auto simp: load_events_def Let_def node_log_ok_def node_of_row_def)
qed

text \<open>C29.  In every reachable catalog each node loads with its state and with an event log that is numbered without
  gaps, valid and chained and ends in that state; the pointer of a slot names exactly its current node; a slot
  has at most one current or stale node; a producer was published before its consumer, so the dependencies are
  acyclic; and the producers of a current node are current or superseded.\<close>

theorem derivations_stay_consistent:
  assumes "evidence_reach D c"
  shows "(\<forall>r\<in>set (ec_nodes c). \<exists>n es. load_derivation D c (nr_artifact r) = Inr (Some n) \<and> nd_state n = nr_state r \<and>
      load_events D c (nr_artifact r) = Inr es \<and> es \<noteq> [] \<and> map de_sequence es = [1..<length es + 1] \<and>
      list_all deriv_event_valid es \<and> event_chain es \<and> de_to (last es) = nr_state r) \<and>
    (\<forall>s\<in>set (ec_slots c). \<forall>a. sr_current s = Some a \<longleftrightarrow>
      (\<exists>r\<in>set (ec_nodes c). nr_artifact r = a \<and> nr_state r = N_CURRENT \<and> nr_slot r = sl_id (sr_slot s))) \<and>
    distinct (map nr_slot (filter (\<lambda>r. nr_state r \<in> {N_CURRENT, N_STALE}) (ec_nodes c))) \<and>
    (\<forall>(a, d)\<in>set (ec_deps c). \<forall>p. dp_producer d = Some p \<longrightarrow> before (map nr_artifact (ec_nodes c)) p a \<and>
      (state_of c a = Some N_CURRENT \<longrightarrow> state_of c p \<in> {Some N_CURRENT, Some N_SUPERSEDED}))"
proof -
  have inv: "rows_inv D c" "pointers_ok c" "producers_ok c"
    using reach_inv[OF assms] by (simp_all add: system_inv_def evidence_inv_def)
  have "\<exists>n es. load_derivation D c (nr_artifact r) = Inr (Some n) \<and> nd_state n = nr_state r \<and>
      load_events D c (nr_artifact r) = Inr es \<and> es \<noteq> [] \<and> map de_sequence es = [1..<length es + 1] \<and>
      list_all deriv_event_valid es \<and> event_chain es \<and> de_to (last es) = nr_state r" if r: "r \<in> set (ec_nodes c)" for r
  proof -
    obtain s x out where "load_derivation D c (nr_artifact r) = Inr (Some (node_of_row r s x out (deps_of c (nr_artifact r))))"
      using load_inv[OF inv(1,2) find_node_row[OF inv(1) r]] by blast
    moreover have "node_log_ok (node_log c (nr_artifact r)) (nr_state r)" using inv(1) r by (simp add: rows_inv_def)
    ultimately show ?thesis using load_events_inv[OF inv(1,2) r] by (auto simp: node_log_ok_def node_of_row_def)
  qed
  moreover have "distinct (map nr_slot (filter (\<lambda>r. nr_state r \<in> {N_CURRENT, N_STALE}) (ec_nodes c)))"
  proof -
    have "filter (live \<circ> nr_state) (ec_nodes c) = filter (\<lambda>r. nr_state r \<in> {N_CURRENT, N_STALE}) (ec_nodes c)"
      by (rule filter_cong) (auto simp: live_def)
    moreover have "distinct (map nr_slot (filter (live \<circ> nr_state) (ec_nodes c)))" using inv(1) unfolding rows_inv_def by blast
    ultimately show ?thesis by (rule subst)
  qed
  moreover have "before (map nr_artifact (ec_nodes c)) p a \<and>
      (state_of c a = Some N_CURRENT \<longrightarrow> state_of c p \<in> {Some N_CURRENT, Some N_SUPERSEDED})"
    if "(a, d) \<in> set (ec_deps c)" "dp_producer d = Some p" for a d p
    using inv(1,3) that unfolding rows_inv_def edges_ok_def producers_ok_def by blast
  ultimately show ?thesis using inv(2)[unfolded pointers_ok_def] by (intro conjI) blast+
qed

theorem derivations_stay_consistent_witness:
  "length (ec_nodes (ex_cb ''99'')) = 2 \<and>
   distinct (map nr_slot (filter (\<lambda>r. nr_state r \<in> {N_CURRENT, N_STALE}) (ec_nodes (ex_cb ''99''))))"
proof
  show "length (ec_nodes (ex_cb ''99'')) = 2" by code_simp
qed (use derivations_stay_consistent[OF ex_cb_reached(1)] in blast)

lemma load_derivation_None:
  assumes "evidence_inv D c" "load_derivation D c a = Inr None"
  shows "state_of c a = None"
proof (cases "find_node c a")
  case (Some r)
  then show ?thesis using load_inv[of D c a r] assms by (auto simp: evidence_inv_def)
qed (simp add: state_of_def)

text \<open>C31.  A publication that is committed had all its inputs in place: its bindings were active, its objects stored, its
  producers current with the very output it names.  It becomes the current node of its slot, or a failed one, the
  former current or stale node of the slot is superseded, and no other node changes.\<close>

theorem publication_is_exact:
  assumes "evidence_reach D c" "publication_valid D p" "publish_derivation D p c = Inr (c', r)"
    "pr_disposition r = COMMITTED"
  shows "(\<forall>d\<in>set (pb_deps p). case dp_kind d of
        EVIDENCE_BINDING \<Rightarrow> active_binding c (dp_digest d)
      | OBJECT \<Rightarrow> find_object c (dp_digest d) \<noteq> None
      | DERIVATION_OUTPUT \<Rightarrow> \<exists>q row. dp_producer d = Some q \<and> q \<noteq> dv_artifact (pb_record p) \<and> find_node c q = Some row \<and>
          nr_state row = N_CURRENT \<and> nr_output row = Some (dp_digest d)) \<and>
    state_of c (dv_artifact (pb_record p)) = None \<and>
    (\<forall>b. state_of c' b =
      (if b = dv_artifact (pb_record p) then Some (if pb_output p \<noteq> None then N_CURRENT else N_FAILED)
       else if b \<in> set (pr_superseded r) then Some N_SUPERSEDED else state_of c b)) \<and>
    (\<forall>b. b \<in> set (pr_superseded r) \<longleftrightarrow> pb_output p \<noteq> None \<and>
      (\<exists>row\<in>set (ec_nodes c). nr_artifact row = b \<and> nr_slot row = sl_id (pb_slot p) \<and> nr_state row \<in> {N_CURRENT, N_STALE}))"
  using assms(3)
proof (cases rule: publish_cases)
  case (converged n)
  then show ?thesis using assms(4) by simp
next
  case (committed c1 c2 c3 c4 c5 n prior)
  have inv: "evidence_inv D c" using reach_inv[OF assms(1)] by (simp add: system_inv_def)
  have rows: "rows_inv D c" using inv by (simp add: evidence_inv_def)
  have valid: "dependency_valid d" if "d \<in> set (pb_deps p)" for d
    using assms(2) that by (simp add: publication_valid_def list_all_iff)
  have deps: "case dp_kind d of
        EVIDENCE_BINDING \<Rightarrow> active_binding c (dp_digest d)
      | OBJECT \<Rightarrow> find_object c (dp_digest d) \<noteq> None
      | DERIVATION_OUTPUT \<Rightarrow> \<exists>q row. dp_producer d = Some q \<and> q \<noteq> dv_artifact (pb_record p) \<and> find_node c q = Some row \<and>
          nr_state row = N_CURRENT \<and> nr_output row = Some (dp_digest d)" if d: "d \<in> set (pb_deps p)" for d
    using check_dependencies_Inr[OF committed(2) d] valid[OF d]
    by (auto simp: check_dependency_def dependency_valid_def ensure_def Let_def split: dep_kind.splits if_splits option.splits)
  have c3: "evidence_inv D c3" "ec_nodes c3 = ec_nodes c"
  proof -
    have c1: "evidence_inv D c1" "ec_nodes c1 = ec_nodes c" using register_inv[OF committed(3) inv] by simp_all
    then have c2: "evidence_inv D c2" "ec_nodes c2 = ec_nodes c" using register_output_inv[OF committed(4) c1(1)] by simp_all
    then show "evidence_inv D c3" "ec_nodes c3 = ec_nodes c" using open_slot_inv[OF committed(5) c2(1)] by simp_all
  qed
  then have states: "state_of c3 = state_of c" by (simp add: state_of_def find_node_def fun_eq_iff)
  have prior: "b \<in> set prior \<longleftrightarrow> pb_output p \<noteq> None \<and>
      (\<exists>row\<in>set (ec_nodes c). nr_artifact row = b \<and> nr_slot row = sl_id (pb_slot p) \<and> nr_state row \<in> {N_CURRENT, N_STALE})" for b
    using prior_nodes_states(1)[of D c3] c3 committed(6) by (auto simp: evidence_inv_def live_def)
  have c4: "state_of c4 b = (if b \<in> set prior then Some N_SUPERSEDED else state_of c b)" for b
    using committed(6,7) supersede_inv(3)[OF c3(1), of "pb_at p" "sl_id (pb_slot p)" c4 b] states by (auto split: if_splits)
  have new: "nd_artifact n = dv_artifact (pb_record p)" "nd_state n = (if pb_output p \<noteq> None then N_CURRENT else N_FAILED)"
    using committed(8) by (simp_all add: node_from_publication_def)
  have none: "state_of c (dv_artifact (pb_record p)) = None" using load_derivation_None[OF inv committed(1)] .
  have fin: "state_of c' b = (if b = nd_artifact n then Some (nd_state n) else state_of c4 b)" for b
    using committed(9,10)
  proof (rule insert_cases)
    fix e assume "c' = with_node n e c4" "nodes_constraints D (ec_nodes c4 @ [row_of_node n])"
    then show ?thesis using with_node_fields(1)[of n c4 e b] by (simp add: nodes_constraints_def row_of_node_def)
  qed
  show ?thesis using deps none prior committed(12) fin c4 new by auto
qed

theorem publication_is_exact_witness:
  "publish_derivation ex_dcanon (ex_b ''99'') (ex_ca ''99'') =
     Inr (ex_cb ''99'', snd (projr (publish_derivation ex_dcanon (ex_b ''99'') (ex_ca ''99'')))) \<and>
   state_of (ex_cb ''99'') (dv_artifact (pb_record (ex_b ''99''))) = Some N_CURRENT"
proof -
  let ?p = "publish_derivation ex_dcanon (ex_b ''99'') (ex_ca ''99'')"
  have "\<not> isl ?p \<and> pr_disposition (snd (projr ?p)) = COMMITTED \<and> pb_output (ex_b ''99'') \<noteq> None" by code_simp
  moreover from this obtain r where r: "?p = Inr (ex_cb ''99'', r)" using ex_then_Inr unfolding ex_cb_def by blast
  ultimately have "pr_disposition r = COMMITTED" "pb_output (ex_b ''99'') \<noteq> None" by simp_all
  then show ?thesis using r publication_is_exact[OF ex_ca_reached(1) ex_publications_valid(2) r] by simp
qed

text \<open>Publishing the same facts again, at whatever time, converges: it returns the stored node and changes nothing.\<close>

lemma publication_is_idempotent:
  assumes "publish_derivation D p c = Inr (c', r)"
  shows "publish_derivation D (p\<lparr>pb_at := t\<rparr>) c' = Inr (c', \<lparr>pr_disposition = CONVERGED, pr_node = pr_node r, pr_superseded = []\<rparr>)"
proof -
  have again: "publish_derivation D (p\<lparr>pb_at := t\<rparr>) c' = Inr (c', \<lparr>pr_disposition = CONVERGED, pr_node = n, pr_superseded = []\<rparr>)"
    if "load_derivation D c' (dv_artifact (pb_record p)) = Inr (Some n)" "publication_matches n p" for n
    using that by (simp add: publish_derivation_def publication_matches_def)
  show ?thesis using assms
  proof (cases rule: publish_cases)
    case (converged n)
    then show ?thesis using again by simp
  next
    case (committed c1 c2 c3 c4 c5 n prior)
    have "publication_matches n p" "nd_artifact n = dv_artifact (pb_record p)"
      using committed(8) by (simp_all add: node_from_publication_def publication_matches_def)
    then show ?thesis using again committed(11,12) by simp
  qed
qed

theorem publication_is_idempotent_witness:
  "\<exists>r. publish_derivation ex_dcanon (ex_b ''99'') (ex_ca ''99'') = Inr (ex_cb ''99'', r) \<and>
     publish_derivation ex_dcanon ((ex_b ''99'')\<lparr>pb_at := 50\<rparr>) (ex_cb ''99'') =
       Inr (ex_cb ''99'', \<lparr>pr_disposition = CONVERGED, pr_node = pr_node r, pr_superseded = []\<rparr>)"
proof -
  have "\<not> isl (publish_derivation ex_dcanon (ex_b ''99'') (ex_ca ''99''))" by code_simp
  then obtain r where "publish_derivation ex_dcanon (ex_b ''99'') (ex_ca ''99'') = Inr (ex_cb ''99'', r)"
    using ex_then_Inr unfolding ex_cb_def by blast
  then show ?thesis using publication_is_idempotent by blast
qed

section \<open>Reconciliations\<close>



lemma load_reconciliation_Some:
  assumes "load_reconciliation C c i = Inr (Some q)"
  shows "pl_run q = i \<and> find_run c i \<noteq> None"
proof -
  from assms have "find_run c i \<noteq> None" by (cases "find_run c i") (simp_all add: load_reconciliation_def)
  then obtain r where r: "find_run c i = Some r" by blast
  then have "rr_run r = i" unfolding find_run_def by (auto dest: find_in)
  moreover have "pl_run q = rr_run r" using assms r by (auto simp: load_reconciliation_def Let_def split: option.splits if_splits)
  ultimately show ?thesis using r by simp
qed







text \<open>C32.  A stored reconciliation is never changed: whatever is published, reconciled and ingested later, it loads as the
  same plan, with the same memberships, matches and inactive bindings.\<close>

theorem stored_reconciliations_never_change:
  assumes "evidence_reach D c" "load_reconciliation C c i = Inr (Some q)" "(evidence_step D)\<^sup>*\<^sup>* c c'"
  shows "load_reconciliation C c' i = Inr (Some q)"
proof -
  have "find_run c i \<noteq> None" using load_reconciliation_Some[OF assms(2)] by simp
  then show ?thesis using load_reconciliation_kept[OF assms(3) reach_inv[OF assms(1)]] assms(2) by simp
qed

theorem stored_reconciliations_never_change_witness:
  "load_reconciliation ex_canon ex_c2 (pl_run ex_plan2) = Inr (Some ex_plan2) \<and> ex_ca ''99'' \<noteq> ex_c2 \<and>
   load_reconciliation ex_canon (ex_ca ''99'') (pl_run ex_plan2) = Inr (Some ex_plan2)"
proof -
  have "load_reconciliation ex_canon ex_c2 (pl_run ex_plan2) = Inr (Some ex_plan2)"
    "length (ec_nodes (ex_ca ''99'')) \<noteq> length (ec_nodes ex_c2)" by code_simp+
  then show ?thesis
    using stored_reconciliations_never_change[OF ex_c2_reach _ r_into_rtranclp[where r = "evidence_step ex_dcanon", OF ex_ca_steps(1)]] by metis
qed

text \<open>C34.  In every reachable catalog a block has one membership, a lineage stays within one document and holds at most one
  block of a representation, its origin is one of its members, and every relation joins two blocks with memberships.\<close>

theorem lineages_stay_in_their_document:
  assumes "evidence_reach D c" "m \<in> set (ec_members c)" "m' \<in> set (ec_members c)"
  shows "(mb_ref m = mb_ref m' \<longrightarrow> m = m') \<and>
    (mb_lineage m = mb_lineage m' \<longrightarrow> rs_document (br_scope (mb_ref m)) = rs_document (br_scope (mb_ref m')) \<and>
       (br_scope (mb_ref m) = br_scope (mb_ref m') \<longrightarrow> m = m')) \<and>
    (\<exists>l\<in>set (ec_lineages c). lr_lineage l = mb_lineage m \<and> (\<exists>o1\<in>set (ec_members c). mb_ref o1 = lr_origin l \<and> mb_lineage o1 = mb_lineage m)) \<and>
    (\<forall>x\<in>set (ec_relations c). find_member c (xr_previous x) \<noteq> None \<and> find_member c (xr_current x) \<noteq> None)"
proof -
  have ok: "members_ok c" "relations_ok c" using reach_inv[OF assms(1)] by (simp_all add: system_inv_def lineage_inv_def)
  then have keys: "inj_on mb_ref (set (ec_members c))" "inj_on member_place (set (ec_members c))" "inj_on lr_lineage (set (ec_lineages c))"
    by (simp_all add: members_ok_def distinct_map)
  from ok(1) assms(2,3) obtain l l' where l: "l \<in> set (ec_lineages c)" "same_document l m" "l' \<in> set (ec_lineages c)" "same_document l' m'"
    unfolding members_ok_def by blast
  have one: "mb_ref m = mb_ref m' \<longrightarrow> m = m'" using keys(1) assms(2,3) by (auto dest: inj_onD)
  have two: "rs_document (br_scope (mb_ref m)) = rs_document (br_scope (mb_ref m'))" if "mb_lineage m = mb_lineage m'"
  proof -
    have "lr_lineage l = lr_lineage l'" using l(2,4) that by (simp add: same_document_def)
    then have "l = l'" using inj_onD[OF keys(3)] l(1,3) by blast
    then show ?thesis using l(2,4) by (simp add: same_document_def)
  qed
  have three: "m = m'" if "mb_lineage m = mb_lineage m'" "br_scope (mb_ref m) = br_scope (mb_ref m')"
    using inj_onD[OF keys(2) _ assms(2,3)] that by (simp add: member_place_def)
  have "\<exists>o1\<in>set (ec_members c). mb_ref o1 = lr_origin l \<and> mb_lineage o1 = lr_lineage l" using ok(1) l(1) unfolding members_ok_def by blast
  moreover have "lr_lineage l = mb_lineage m" using l(2) by (simp add: same_document_def)
  ultimately show ?thesis using one two three l(1) ok(2) unfolding relations_ok_def by auto
qed

theorem lineages_stay_in_their_document_witness:
  "ex_m1 \<in> set (ec_members ex_c2) \<and> ex_m2 \<in> set (ec_members ex_c2) \<and>
   (\<exists>l\<in>set (ec_lineages ex_c2). lr_lineage l = mb_lineage ex_m1)"
proof -
  have "ex_m1 \<in> set (ec_members ex_c2)" "ex_m2 \<in> set (ec_members ex_c2)" by code_simp+
  then show ?thesis using lineages_stay_in_their_document[OF ex_c2_reach] by blast
qed

text \<open>
  A superseded producer hides what it rests on: the first artifact is replaced in its slot, its evidence
  goes, and the second, still resting on it, stays current.
\<close>

definition ex_replaced :: evidence_catalog where
  "ex_replaced = ex_then (publish_derivation ex_dcanon
     (ex_publication ''2'' OBJECT (U ''66'') None ''77'' ''1'' 4) (ex_cb ''99''))"

definition ex_hidden :: "evidence_error + evidence_catalog \<times> recon_result" where
  "ex_hidden = commit_reconciliation ex_dcanon (Some (\<lambda>_. True)) ex_plan3 (ex_ingest ''3'' ex_replaced)"

lemma superseded_producer_hides_invalidation:
  "(case ex_hidden of Inl e \<Rightarrow> None | Inr (c, r) \<Rightarrow>
      Some (rz_stale r, state_of c (dv_artifact (pb_record (ex_a ''99''))), state_of c (dv_artifact (pb_record (ex_b ''99''))))) =
   Some ([], Some N_SUPERSEDED, Some N_CURRENT) \<and>
   dp_producer (hd (pb_deps (ex_b ''99''))) = Some (dv_artifact (pb_record (ex_a ''99''))) \<and>
   dp_digest (hd (pb_deps (ex_a ''99''))) \<in> set (pl_inactive ex_plan3)"
  by code_simp

end
