(* ===== verification/Rep_Domain.thy ===== *)
theory Rep_Domain
  imports Derivation_Catalog
begin

text \<open>
  Records of ingestion (\<open>domain/ingestion.py\<close>, \<open>domain/block.py\<close>, \<open>domain/manifest.py\<close> and the
  document part of \<open>domain/storage.py\<close>) with their validators.  \<open>rcanon\<close> holds what the code takes
  from libraries: the digest of a canonical JSON value, the canonical text of a block and of a
  manifest, and \<open>"sha256:"\<close> with the hexadecimal SHA-256 of the UTF-8 bytes of a text.  The formats of
  identifiers are those of their types.
\<close>

section \<open>Documents and source versions\<close>

record document =
  ld_id :: pystr
  ld_connector :: pystr
  ld_locator :: pystr
  ld_created :: int

text \<open>\<open>^[a-z0-9][a-z0-9._-]*$\<close>, at most 128 characters.\<close>

definition connector_name :: "pystr \<Rightarrow> bool" where
  "connector_name s \<longleftrightarrow> (case s of [] \<Rightarrow> False | c # cs \<Rightarrow> (lower_ascii c \<or> digit_ascii c) \<and>
     list_all (\<lambda>d. lower_ascii d \<or> digit_ascii d \<or> d \<in> set (U ''._-'')) cs \<and> length cs \<le> 127)"

definition source_key_valid :: "pystr \<times> pystr \<Rightarrow> bool" where
  "source_key_valid k \<longleftrightarrow> connector_name (fst k) \<and> length_between 1 8192 (snd k)"

record source_version =
  sv_document :: pystr
  sv_version :: pystr
  sv_source :: stored_object
  sv_media :: pystr
  sv_modified :: "int option"
  sv_references :: "object_ref list"
  sv_committed :: int

definition source_version_valid :: "source_version \<Rightarrow> bool" where
  "source_version_valid v \<longleftrightarrow> length_between 1 255 (sv_media v) \<and> list_all object_ref_valid (sv_references v) \<and>
     so_id (sv_source v) = sv_version v \<and> unique_reference_slots (sv_references v)"

section \<open>Recipes\<close>

record parser_recipe =
  pa_name :: pystr
  pa_version :: pystr
  pa_profile :: pystr
  pa_config :: pystr
  pa_schema :: pystr

definition schema_version :: pystr where "schema_version = U ''0.1.0''"

definition parser_recipe_valid :: "parser_recipe \<Rightarrow> bool" where
  "parser_recipe_valid r \<longleftrightarrow> pa_name r \<noteq> [] \<and> pa_version r \<noteq> [] \<and> pa_profile r \<noteq> [] \<and> pa_schema r = schema_version"

definition representation_id_for :: "canon \<Rightarrow> parser_recipe \<Rightarrow> pystr \<Rightarrow> pystr" where
  "representation_id_for C r version = identity_digest C ''openardp:representation'' (JObj
     [(U ''version_id'', JStr version),
      (U ''parser'', JObj [(U ''name'', JStr (pa_name r)), (U ''version'', JStr (pa_version r)),
         (U ''profile'', JStr (pa_profile r)), (U ''config_hash'', JStr (pa_config r))]),
      (U ''normalization_schema_version'', JStr (pa_schema r))])"

section \<open>Content blocks and manifests\<close>

text \<open>
  A block keeps its source locator as a mapping of extensions and the rest of it as JSON.  Equality
  with the dictionary \<open>{"line_start": a, "line_end": b}\<close> is Python's: order does not count and
  \<open>True\<close> equals 1.
\<close>

record canonical_block =
  kb_id :: pystr
  kb_scope :: rep_scope
  kb_parent :: "pystr option"
  kb_kind :: block_kind
  kb_order :: nat
  kb_text :: "pystr option"
  kb_structured :: "json option"
  kb_asset :: "pystr option"
  kb_hash :: pystr
  kb_extensions :: "(pystr \<times> json) list"
  kb_zone :: trust_zone
  kb_rest :: json

fun py_int :: "json \<Rightarrow> int option" where
  "py_int (JInt i) = Some i"
| "py_int (JBool b) = Some (if b then 1 else 0)"
| "py_int _ = None"

definition line_details :: "canonical_block \<Rightarrow> nat \<Rightarrow> nat \<Rightarrow> bool" where
  "line_details b lo hi \<longleftrightarrow> (case map_of (kb_extensions b) (U ''openardp.text'') of
     Some (JObj kvs) \<Rightarrow> set (map fst kvs) = {U ''line_start'', U ''line_end''} \<and>
       Option.bind (map_of kvs (U ''line_start'')) py_int = Some (int lo) \<and>
       Option.bind (map_of kvs (U ''line_end'')) py_int = Some (int hi)
   | _ \<Rightarrow> False)"

definition block_content_hash :: "canon \<Rightarrow> block_kind \<Rightarrow> pystr option \<Rightarrow> json option \<Rightarrow> pystr option \<Rightarrow> pystr" where
  "block_content_hash C k text structured asset = identity_digest C ''openardp:block-content'' (JObj
     [(U ''kind'', JStr (kind_value k)), (U ''text'', j_opt JStr text), (U ''structured'', j_opt id structured),
      (U ''asset_id'', j_opt JStr asset)])"

definition canonical_block_valid :: "canon \<Rightarrow> canonical_block \<Rightarrow> bool" where
  "canonical_block_valid C b \<longleftrightarrow> (kb_text b \<noteq> None \<or> kb_structured b \<noteq> None \<or> kb_asset b \<noteq> None) \<and>
     kb_parent b \<noteq> Some (kb_id b) \<and>
     kb_hash b = block_content_hash C (kb_kind b) (kb_text b) (kb_structured b) (kb_asset b)"

datatype manifest_state = M_STAGING | M_READY | M_FAILED | M_DELETED

record manifest =
  mf_scope :: rep_scope
  mf_state :: manifest_state
  mf_connector :: pystr
  mf_locator :: pystr
  mf_media :: pystr
  mf_length :: nat
  mf_sha256 :: pystr
  mf_modified :: "int option"
  mf_recipe :: parser_recipe
  mf_title :: "pystr option"
  mf_created :: int

definition manifest_valid :: "canon \<Rightarrow> manifest \<Rightarrow> bool" where
  "manifest_valid C m \<longleftrightarrow> mf_connector m \<noteq> [] \<and> mf_locator m \<noteq> [] \<and> mf_media m \<noteq> [] \<and>
     parser_recipe_valid (mf_recipe m) \<and> rs_version (mf_scope m) = U ''sha256:'' @ mf_sha256 m \<and>
     rs_representation (mf_scope m) = representation_id_for C (mf_recipe m) (rs_version (mf_scope m))"

record rcanon =
  rk_canon :: canon
  rk_block :: "canonical_block \<Rightarrow> pystr"
  rk_manifest :: "manifest \<Rightarrow> pystr"
  rk_sha :: "pystr \<Rightarrow> pystr"

definition text_object :: "rcanon \<Rightarrow> pystr \<Rightarrow> stored_object" where
  "text_object R t = \<lparr>so_id = rk_sha R t, so_length = utf8_bytes t\<rparr>"

section \<open>Representations\<close>

datatype rep_state = STAGING | READY | REP_FAILED

record representation =
  rp_scope :: rep_scope
  rp_recipe :: parser_recipe
  rp_state :: rep_state
  rp_attempts :: nat
  rp_revision :: nat
  rp_owner :: "pystr option"
  rp_lease :: "int option"
  rp_failure :: "pystr option"
  rp_manifest :: "stored_object option"
  rp_native :: "stored_object option"
  rp_blocks :: nat
  rp_warnings :: "pystr list"
  rp_created :: int
  rp_updated :: int
  rp_ready :: "int option"

definition representation_valid :: "canon \<Rightarrow> representation \<Rightarrow> bool" where
  "representation_valid C p \<longleftrightarrow> parser_recipe_valid (rp_recipe p) \<and> 1 \<le> rp_attempts p \<and> 1 \<le> rp_revision p \<and>
     opt_all (length_between 1 255) (rp_owner p) \<and> opt_all machine_token (rp_failure p) \<and>
     rp_blocks p \<le> max_blocks \<and> list_all machine_token (rp_warnings p) \<and>
     representation_id_for C (rp_recipe p) (rs_version (rp_scope p)) = rs_representation (rp_scope p) \<and>
     rp_created p \<le> rp_updated p \<and> sorted_unique (rp_warnings p) \<and>
     (case rp_state p of
        STAGING \<Rightarrow> rp_owner p \<noteq> None \<and> rp_lease p \<noteq> None \<and> opt_all (\<lambda>t. rp_updated p < t) (rp_lease p) \<and>
          rp_failure p = None \<and> rp_manifest p = None \<and> rp_native p = None \<and> rp_ready p = None \<and> rp_blocks p = 0
      | REP_FAILED \<Rightarrow> rp_owner p = None \<and> rp_lease p = None \<and> rp_failure p \<noteq> None \<and> rp_manifest p = None \<and>
          rp_native p = None \<and> rp_ready p = None \<and> rp_blocks p = 0 \<and> rp_warnings p = []
      | READY \<Rightarrow> rp_owner p = None \<and> rp_lease p = None \<and> rp_failure p = None \<and> rp_manifest p \<noteq> None \<and>
          rp_native p \<noteq> None \<and> rp_ready p \<noteq> None \<and> opt_all (\<lambda>t. rp_created p \<le> t) (rp_ready p))"

record rep_block =
  bk_scope :: rep_scope
  bk_id :: pystr
  bk_object :: stored_object
  bk_ordinal :: nat
  bk_parent :: "pystr option"
  bk_kind :: block_kind
  bk_order :: nat
  bk_start :: nat
  bk_end :: nat

definition rep_block_valid :: "rep_block \<Rightarrow> bool" where
  "rep_block_valid b \<longleftrightarrow> bk_ordinal b < max_blocks \<and> 1 \<le> bk_start b \<and> 1 \<le> bk_end b \<and> bk_start b \<le> bk_end b \<and>
     bk_parent b \<noteq> Some (bk_id b)"

record aggregate =
  ag_rep :: representation
  ag_blocks :: "rep_block list"

definition aggregate_valid :: "aggregate \<Rightarrow> bool" where
  "aggregate_valid a \<longleftrightarrow> (if rp_state (ag_rep a) = READY then length (ag_blocks a) = rp_blocks (ag_rep a)
     else ag_blocks a = [])"

text \<open>A lease: the representation with the raw token.\<close>

definition rep_lease_valid :: "representation \<times> pystr \<Rightarrow> bool" where
  "rep_lease_valid l \<longleftrightarrow> rp_state (fst l) = STAGING \<and> 16 \<le> length (snd l)"

datatype acquire_disposition = A_CLAIMED | A_READY | A_BUSY

record acquire_result =
  ar_disposition :: acquire_disposition
  ar_rep :: representation
  ar_lease :: "(representation \<times> pystr) option"

definition acquire_result_valid :: "acquire_result \<Rightarrow> bool" where
  "acquire_result_valid r \<longleftrightarrow> opt_all rep_lease_valid (ar_lease r) \<and>
     (if ar_disposition r = A_CLAIMED then map_option fst (ar_lease r) = Some (ar_rep r) else ar_lease r = None) \<and>
     (ar_disposition r = A_READY \<longrightarrow> rp_state (ar_rep r) = READY) \<and>
     (ar_disposition r = A_BUSY \<longrightarrow> rp_state (ar_rep r) = STAGING)"

section \<open>Ready commits\<close>

record prepared_block =
  pk_block :: canonical_block
  pk_object :: stored_object
  pk_ordinal :: nat
  pk_start :: nat
  pk_end :: nat

definition prepared_block_valid :: "rcanon \<Rightarrow> prepared_block \<Rightarrow> bool" where
  "prepared_block_valid R p \<longleftrightarrow> canonical_block_valid (rk_canon R) (pk_block p) \<and> pk_ordinal p < max_blocks \<and>
     1 \<le> pk_start p \<and> 1 \<le> pk_end p \<and> pk_start p \<le> pk_end p \<and> line_details (pk_block p) (pk_start p) (pk_end p) \<and>
     pk_object p = text_object R (rk_block R (pk_block p))"

record ready_commit =
  cm_scope :: rep_scope
  cm_recipe :: parser_recipe
  cm_manifest :: manifest
  cm_manifest_object :: stored_object
  cm_native :: stored_object
  cm_blocks :: "prepared_block list"
  cm_warnings :: "pystr list"
  cm_observed :: int
  cm_ready :: int

text \<open>
  The walk from a block to its root.  \<open>parents\<close> is the dictionary of the block's parents; a key
  outside of it ends the walk.
\<close>

function climb :: "(pystr \<times> pystr option) list \<Rightarrow> pystr set \<Rightarrow> pystr option \<Rightarrow> bool" where
  "climb parents seen None = True"
| "climb parents seen (Some b) = (if b \<in> seen then False
     else climb parents (insert b seen) (case map_of parents b of None \<Rightarrow> None | Some p \<Rightarrow> p))"
  by pat_completeness auto
termination
proof (relation "measure (\<lambda>(parents, seen, cur).
    card (set (map fst parents) - seen) + (if cur = None then 0 else 1))", simp, goal_cases)
  case (1 parents seen b)
  let ?ks = "fst ` set parents"
  show ?case
  proof (cases "map_of parents b")
    case None
    then have "b \<notin> ?ks" by (simp add: map_of_eq_None_iff)
    then have "?ks - insert b seen = ?ks - seen" by auto
    then show ?thesis using None by simp
  next
    case (Some p)
    then have "b \<in> ?ks" by (metis map_of_SomeD fst_conv imageI)
    then have "card (?ks - insert b seen) < card (?ks - seen)"
      using 1 by (intro psubset_card_mono) auto
    then show ?thesis using Some by simp
  qed
qed

definition hierarchy_ok :: "(pystr \<times> pystr option) list \<Rightarrow> bool" where
  "hierarchy_ok parents \<longleftrightarrow> list_all (\<lambda>b. climb parents {} (Some b)) (map fst parents)"

definition sibling_orders :: "('b \<Rightarrow> pystr option) \<Rightarrow> ('b \<Rightarrow> nat) \<Rightarrow> 'b list \<Rightarrow> pystr option \<Rightarrow> nat list" where
  "sibling_orders parent order bs p = map order (filter (\<lambda>b. parent b = p) bs)"

definition siblings_contiguous :: "('b \<Rightarrow> pystr option) \<Rightarrow> ('b \<Rightarrow> nat) \<Rightarrow> 'b list \<Rightarrow> bool" where
  "siblings_contiguous parent order bs \<longleftrightarrow> list_all (\<lambda>p. let os = sibling_orders parent order bs p
     in sort os = [0..<length os]) (map parent bs)"

definition parents_of :: "prepared_block list \<Rightarrow> (pystr \<times> pystr option) list" where
  "parents_of bs = map (\<lambda>b. (kb_id (pk_block b), kb_parent (pk_block b))) bs"

definition ready_commit_valid :: "rcanon \<Rightarrow> ready_commit \<Rightarrow> bool" where
  "ready_commit_valid R c \<longleftrightarrow> (let bs = cm_blocks c; m = cm_manifest c in
     parser_recipe_valid (cm_recipe c) \<and> manifest_valid (rk_canon R) m \<and> list_all (prepared_block_valid R) bs \<and>
     list_all machine_token (cm_warnings c) \<and>
     representation_id_for (rk_canon R) (cm_recipe c) (rs_version (cm_scope c)) = rs_representation (cm_scope c) \<and>
     cm_observed c \<le> cm_ready c \<and> sorted_unique (cm_warnings c) \<and> length bs \<le> max_blocks \<and>
     mf_state m = M_READY \<and> mf_scope m = cm_scope c \<and> mf_recipe m = cm_recipe c \<and>
     cm_manifest_object c = text_object R (rk_manifest R m) \<and>
     so_id (cm_native c) = rs_version (cm_scope c) \<and> so_length (cm_native c) = mf_length m \<and>
     map pk_ordinal bs = [0..<length bs] \<and> distinct (map (kb_id \<circ> pk_block) bs) \<and>
     list_all (\<lambda>b. kb_scope (pk_block b) = cm_scope c \<and>
       opt_all (\<lambda>p. p \<in> set (map (kb_id \<circ> pk_block) bs)) (kb_parent (pk_block b))) bs \<and>
     siblings_contiguous (kb_parent \<circ> pk_block) (kb_order \<circ> pk_block) bs \<and> hierarchy_ok (parents_of bs))"

section \<open>Heads and events\<close>

datatype ingest_disposition = D_COMMITTED | D_CACHE_HIT | D_FORCED_REPARSE | D_CONVERGED

record head =
  dh_scope :: rep_scope
  dh_observed :: int
  dh_ingested :: int
  dh_disposition :: ingest_disposition
  dh_revision :: nat

definition head_valid :: "head \<Rightarrow> bool" where
  "head_valid h \<longleftrightarrow> 1 \<le> dh_revision h \<and> dh_observed h \<le> dh_ingested h"

record ingest_event =
  ie_document :: pystr
  ie_sequence :: nat
  ie_scope :: rep_scope
  ie_disposition :: ingest_disposition
  ie_parsed :: bool
  ie_advanced :: bool
  ie_at :: int
  ie_observed :: int

definition ingest_event_valid :: "ingest_event \<Rightarrow> bool" where
  "ingest_event_valid e \<longleftrightarrow> 1 \<le> ie_sequence e \<and> rs_document (ie_scope e) = ie_document e \<and> ie_observed e \<le> ie_at e \<and>
     (ie_disposition e = D_CACHE_HIT) \<noteq> ie_parsed e"

end
