(* ===== verification/Source_Catalog.thy ===== *)
theory Source_Catalog
  imports Rep_Domain Job_Catalog
begin

text \<open>
  The tables of documents, source versions, representations, blocks, heads and ingestion events
  (\<open>adapters/sqlite_migrations_foundation.py\<close>, \<open>adapters/sqlite_migrations_operations.py\<close>) and the
  registration of documents and source versions (\<open>adapters/sqlite_catalog_core.py\<close>).  A table is a
  list of rows in insertion order; a write transaction gives an error, and rolls back, or the new
  catalog with its result.  Identifiers of an \<open>INTEGER PRIMARY KEY\<close> are one above the greatest in use.
\<close>

section \<open>Tables\<close>

record version_row =
  vr_document :: pystr
  vr_version :: pystr
  vr_source :: pystr
  vr_media :: pystr
  vr_modified :: "int option"
  vr_committed :: int

record reference_row =
  rf_document :: pystr
  rf_version :: pystr
  rf_role :: pystr
  rf_ordinal :: nat
  rf_object :: pystr
  rf_media :: "pystr option"

record rep_row =
  rw_scope :: rep_scope
  rw_recipe :: parser_recipe
  rw_state :: rep_state
  rw_attempts :: nat
  rw_revision :: nat
  rw_owner :: "pystr option"
  rw_token :: "pystr option"
  rw_lease :: "int option"
  rw_last_token :: "pystr option"
  rw_failure :: "pystr option"
  rw_manifest :: "pystr option"
  rw_native :: "pystr option"
  rw_blocks :: nat
  rw_warnings :: "pystr list"
  rw_created :: int
  rw_updated :: int
  rw_ready :: "int option"

text \<open>The columns of the lexical index are set together or not at all.\<close>

record search_columns =
  se_zone :: trust_zone
  se_page :: "nat option"
  se_slide :: "nat option"
  se_hash :: pystr
  se_at :: int

record block_row =
  bw_entry :: nat
  bw_key :: nat
  bw_ordinal :: nat
  bw_block :: pystr
  bw_object :: pystr
  bw_parent :: "pystr option"
  bw_kind :: block_kind
  bw_order :: nat
  bw_start :: nat
  bw_end :: nat
  bw_search :: "search_columns option"

record rep_catalog =
  sc_maintenance :: bool
  sc_objects :: "stored_object list"
  sc_documents :: "document list"
  sc_versions :: "version_row list"
  sc_references :: "reference_row list"
  sc_reps :: "rep_row list"
  sc_scopes :: "(nat \<times> rep_scope) list"
  sc_blocks :: "block_row list"
  sc_index :: "(nat \<times> pystr) list"
  sc_heads :: "head list"
  sc_events :: "ingest_event list"

datatype rep_error =
    DocumentConflict string | DocumentMissing | VersionConflict | ObjectLengthConflict
  | RepConflict string | RepLease string | RepMissing | RepIncomplete string | RepIntegrity string
  | RepBadFailure | MaintenanceBlocks | CatalogBroken | RepInvalid

section \<open>Shared steps\<close>

definition open_write :: "rep_catalog \<Rightarrow> rep_error + unit" where
  "open_write c = ensure (\<not> sc_maintenance c) MaintenanceBlocks"

definition next_id :: "nat list \<Rightarrow> nat" where
  "next_id ks = foldr max ks 0 + 1"

definition object_of :: "rep_catalog \<Rightarrow> pystr \<Rightarrow> stored_object option" where
  "object_of c i = find (\<lambda>x. so_id x = i) (sc_objects c)"

definition save_object :: "stored_object \<Rightarrow> rep_catalog \<Rightarrow> rep_error + rep_catalog" where
  "save_object x c = (case object_of c (so_id x) of
       None \<Rightarrow> Inr (c\<lparr>sc_objects := sc_objects c @ [x]\<rparr>)
     | Some y \<Rightarrow> if so_length y = so_length x then Inr c else Inl ObjectLengthConflict)"

fun save_objects :: "stored_object list \<Rightarrow> rep_catalog \<Rightarrow> rep_error + rep_catalog" where
  "save_objects [] c = Inr c"
| "save_objects (x # xs) c = sbind (save_object x c) (save_objects xs)"

section \<open>Documents\<close>

definition document_from_row :: "document \<Rightarrow> rep_error + document" where
  "document_from_row d = (if source_key_valid (ld_connector d, ld_locator d) then Inr d else Inl RepInvalid)"

definition optional_row :: "('r \<Rightarrow> 'e + 'a) \<Rightarrow> 'r option \<Rightarrow> 'e + 'a option" where
  "optional_row f r = (case r of None \<Rightarrow> Inr None | Some x \<Rightarrow> sbind (f x) (\<lambda>y. Inr (Some y)))"

definition load_document_by_source :: "rep_catalog \<Rightarrow> pystr \<times> pystr \<Rightarrow> rep_error + document option" where
  "load_document_by_source c k =
     optional_row document_from_row (find (\<lambda>d. (ld_connector d, ld_locator d) = k) (sc_documents c))"

definition load_document_by_id :: "rep_catalog \<Rightarrow> pystr \<Rightarrow> rep_error + document option" where
  "load_document_by_id c i = optional_row document_from_row (find (\<lambda>d. ld_id d = i) (sc_documents c))"

definition documents_constraints :: "document list \<Rightarrow> bool" where
  "documents_constraints ds \<longleftrightarrow> distinct (map ld_id ds) \<and> distinct (map (\<lambda>d. (ld_connector d, ld_locator d)) ds) \<and>
     list_all (\<lambda>d. length_between 1 128 (ld_connector d) \<and> length_between 1 8192 (ld_locator d)) ds"

definition insert_document :: "document \<Rightarrow> rep_catalog \<Rightarrow> rep_error + rep_catalog" where
  "insert_document d c = (let ds = sc_documents c @ [d] in
     if documents_constraints ds then Inr (c\<lparr>sc_documents := ds\<rparr>) else Inl CatalogBroken)"

definition register_document ::
  "pystr \<times> pystr \<Rightarrow> pystr \<Rightarrow> int \<Rightarrow> rep_catalog \<Rightarrow> rep_error + rep_catalog \<times> document" where
  "register_document k i now c =
     sbind (open_write c) (\<lambda>_.
     sbind (load_document_by_source c k) (\<lambda>existing.
     case existing of Some d \<Rightarrow> Inr (c, d)
     | None \<Rightarrow>
       sbind (load_document_by_id c i) (\<lambda>collision.
       if collision \<noteq> None then Inl (DocumentConflict ''document identity is already registered'')
       else sbind (insert_document \<lparr>ld_id = i, ld_connector = fst k, ld_locator = snd k, ld_created = now\<rparr> c) (\<lambda>c1.
         sbind (load_document_by_id c1 i) (\<lambda>d.
         case d of None \<Rightarrow> Inl CatalogBroken | Some x \<Rightarrow> Inr (c1, x))))))"

section \<open>Source versions\<close>

definition object_ref_of_row :: "reference_row \<Rightarrow> stored_object \<Rightarrow> object_ref" where
  "object_ref_of_row f x = \<lparr>ref_role = rf_role f, ref_ordinal = rf_ordinal f, ref_object = so_id x,
     ref_length = so_length x, ref_media = rf_media f\<rparr>"

definition find_version :: "rep_catalog \<Rightarrow> pystr \<Rightarrow> pystr \<Rightarrow> version_row option" where
  "find_version c d v = find (\<lambda>r. vr_document r = d \<and> vr_version r = v) (sc_versions c)"

definition version_references :: "rep_catalog \<Rightarrow> pystr \<Rightarrow> pystr \<Rightarrow> object_ref list" where
  "version_references c d v = List.map_filter (\<lambda>f. map_option (object_ref_of_row f) (object_of c (rf_object f)))
     (sort_key (\<lambda>f. (rf_role f, rf_ordinal f)) (filter (\<lambda>f. rf_document f = d \<and> rf_version f = v) (sc_references c)))"

definition load_version :: "rep_catalog \<Rightarrow> pystr \<Rightarrow> pystr \<Rightarrow> rep_error + source_version option" where
  "load_version c d v = (case find_version c d v of
       None \<Rightarrow> Inr None
     | Some r \<Rightarrow> (case object_of c (vr_source r) of
         None \<Rightarrow> Inr None
       | Some x \<Rightarrow> let w = \<lparr>sv_document = d, sv_version = v, sv_source = x, sv_media = vr_media r,
             sv_modified = vr_modified r, sv_references = version_references c d v, sv_committed = vr_committed r\<rparr>
           in if source_version_valid w then Inr (Some w) else Inl RepInvalid))"

definition versions_equivalent :: "source_version \<Rightarrow> source_version \<Rightarrow> bool" where
  "versions_equivalent a b \<longleftrightarrow> sv_document a = sv_document b \<and> sv_version a = sv_version b \<and>
     sv_source a = sv_source b \<and> sv_media a = sv_media b \<and> sv_modified a = sv_modified b \<and>
     canonical_references (sv_references a) = canonical_references (sv_references b)"

definition insert_version :: "version_row \<Rightarrow> rep_catalog \<Rightarrow> rep_error + rep_catalog" where
  "insert_version r c = (if find_version c (vr_document r) (vr_version r) = None \<and>
       vr_document r \<in> set (map ld_id (sc_documents c)) \<and> object_of c (vr_source r) \<noteq> None \<and>
       vr_version r = vr_source r \<and> length_between 1 255 (vr_media r)
     then Inr (c\<lparr>sc_versions := sc_versions c @ [r]\<rparr>) else Inl CatalogBroken)"

definition insert_reference :: "reference_row \<Rightarrow> rep_catalog \<Rightarrow> rep_error + rep_catalog" where
  "insert_reference f c = (if list_all (\<lambda>g. (rf_document g, rf_version g, rf_role g, rf_ordinal g) \<noteq>
         (rf_document f, rf_version f, rf_role f, rf_ordinal f)) (sc_references c) \<and>
       find_version c (rf_document f) (rf_version f) \<noteq> None \<and> object_of c (rf_object f) \<noteq> None \<and>
       length_between 1 64 (rf_role f) \<and> lower_ascii (hd (rf_role f)) \<and> opt_all (length_between 1 255) (rf_media f)
     then Inr (c\<lparr>sc_references := sc_references c @ [f]\<rparr>) else Inl CatalogBroken)"

fun insert_references :: "reference_row list \<Rightarrow> rep_catalog \<Rightarrow> rep_error + rep_catalog" where
  "insert_references [] c = Inr c"
| "insert_references (f # fs) c = sbind (insert_reference f c) (insert_references fs)"

definition row_of_version :: "source_version \<Rightarrow> version_row" where
  "row_of_version w = \<lparr>vr_document = sv_document w, vr_version = sv_version w, vr_source = so_id (sv_source w),
     vr_media = sv_media w, vr_modified = sv_modified w, vr_committed = sv_committed w\<rparr>"

definition row_of_reference :: "source_version \<Rightarrow> object_ref \<Rightarrow> reference_row" where
  "row_of_reference w r = \<lparr>rf_document = sv_document w, rf_version = sv_version w, rf_role = ref_role r,
     rf_ordinal = ref_ordinal r, rf_object = ref_object r, rf_media = ref_media r\<rparr>"

definition object_of_ref :: "object_ref \<Rightarrow> stored_object" where
  "object_of_ref r = \<lparr>so_id = ref_object r, so_length = ref_length r\<rparr>"

definition commit_source_version ::
  "source_version \<Rightarrow> rep_catalog \<Rightarrow> rep_error + rep_catalog \<times> source_version" where
  "commit_source_version w c =
     sbind (open_write c) (\<lambda>_.
     sbind (load_document_by_id c (sv_document w)) (\<lambda>d.
     if d = None then Inl (DocumentConflict ''document identity is not registered'')
     else sbind (load_version c (sv_document w) (sv_version w)) (\<lambda>existing.
       case existing of
         Some v \<Rightarrow> if versions_equivalent v w then Inr (c, v) else Inl VersionConflict
       | None \<Rightarrow>
           sbind (save_object (sv_source w) c) (\<lambda>c1.
           sbind (save_objects (map object_of_ref (sv_references w)) c1) (\<lambda>c2.
           sbind (insert_version (row_of_version w) c2) (\<lambda>c3.
           sbind (insert_references (map (row_of_reference w) (sv_references w)) c3) (\<lambda>c4.
           sbind (load_version c4 (sv_document w) (sv_version w)) (\<lambda>v.
           case v of None \<Rightarrow> Inl CatalogBroken | Some x \<Rightarrow> Inr (c4, x)))))))))"

definition get_version :: "pystr \<Rightarrow> pystr \<Rightarrow> rep_catalog \<Rightarrow> rep_error + source_version option" where
  "get_version d v c = load_version c d v"

fun load_versions :: "rep_catalog \<Rightarrow> pystr \<Rightarrow> pystr list \<Rightarrow> rep_error + source_version list" where
  "load_versions c d [] = Inr []"
| "load_versions c d (v # vs) = sbind (load_version c d v) (\<lambda>w. sbind (load_versions c d vs) (\<lambda>ws.
     Inr (case w of None \<Rightarrow> ws | Some x \<Rightarrow> x # ws)))"

definition list_versions :: "pystr \<Rightarrow> rep_catalog \<Rightarrow> rep_error + source_version list" where
  "list_versions d c = load_versions c d (map vr_version (sort_key (\<lambda>r. (vr_committed r, vr_version r))
     (filter (\<lambda>r. vr_document r = d) (sc_versions c))))"

definition get_document :: "pystr \<Rightarrow> rep_catalog \<Rightarrow> rep_error + document option" where
  "get_document i c = load_document_by_id c i"

definition get_document_by_source :: "pystr \<times> pystr \<Rightarrow> rep_catalog \<Rightarrow> rep_error + document option" where
  "get_document_by_source k c = load_document_by_source c k"

end
