(* ===== verification/Rep_Catalog.thy ===== *)
theory Rep_Catalog
  imports Source_Catalog
begin

text \<open>
  The representation lifecycle, the document heads and the ingestion events
  (\<open>adapters/sqlite_catalog_representations.py\<close>) with the lexical entries a commit writes
  (\<open>_insert_search_entry\<close> in \<open>adapters/sqlite_catalog_search.py\<close>).  A claim is \<open>STAGING\<close> under a lease;
  its holder renews, fails or commits it, and a failed or expired one can be claimed again.  A commit
  writes objects, blocks, index entries, the header, the head and the event in one transaction.
\<close>

section \<open>Rows and projections\<close>

definition shape_check :: "rep_row \<Rightarrow> bool" where
  "shape_check r \<longleftrightarrow> (case rw_state r of
      STAGING \<Rightarrow> rw_owner r \<noteq> None \<and> rw_token r \<noteq> None \<and> rw_lease r \<noteq> None \<and> rw_failure r = None \<and>
        rw_manifest r = None \<and> rw_native r = None \<and> rw_blocks r = 0 \<and> rw_warnings r = [] \<and> rw_ready r = None
    | REP_FAILED \<Rightarrow> rw_owner r = None \<and> rw_token r = None \<and> rw_lease r = None \<and> rw_failure r \<noteq> None \<and>
        rw_manifest r = None \<and> rw_native r = None \<and> rw_blocks r = 0 \<and> rw_warnings r = [] \<and> rw_ready r = None
    | READY \<Rightarrow> rw_owner r = None \<and> rw_token r = None \<and> rw_lease r = None \<and> rw_failure r = None \<and>
        rw_manifest r \<noteq> None \<and> rw_native r \<noteq> None \<and> rw_ready r \<noteq> None)"

definition rep_row_check :: "rep_row \<Rightarrow> bool" where
  "rep_row_check r \<longleftrightarrow> length_between 1 255 (pa_name (rw_recipe r)) \<and> length_between 1 255 (pa_version (rw_recipe r)) \<and>
     length_between 1 255 (pa_profile (rw_recipe r)) \<and> length_between 1 64 (pa_schema (rw_recipe r)) \<and>
     1 \<le> rw_attempts r \<and> 1 \<le> rw_revision r \<and> opt_all (length_between 1 255) (rw_owner r) \<and>
     opt_all (length_between 1 128) (rw_failure r) \<and> rw_blocks r \<le> 100000 \<and> shape_check r"

definition rep_references_ok :: "rep_catalog \<Rightarrow> rep_row \<Rightarrow> bool" where
  "rep_references_ok c r \<longleftrightarrow> find_version c (rs_document (rw_scope r)) (rs_version (rw_scope r)) \<noteq> None \<and>
     opt_all (\<lambda>i. object_of c i \<noteq> None) (rw_manifest r) \<and> opt_all (\<lambda>i. object_of c i \<noteq> None) (rw_native r)"

definition held_tokens :: "rep_row list \<Rightarrow> pystr list" where
  "held_tokens rs = List.map_filter rw_token rs"

definition put_reps :: "rep_row list \<Rightarrow> rep_catalog \<Rightarrow> rep_error + rep_catalog" where
  "put_reps rs c = (if distinct (map rw_scope rs) \<and> distinct (held_tokens rs) \<and> list_all rep_row_check rs \<and>
       list_all (rep_references_ok c) rs
     then Inr (c\<lparr>sc_reps := rs\<rparr>) else Inl CatalogBroken)"

definition find_rep :: "rep_catalog \<Rightarrow> rep_scope \<Rightarrow> rep_row option" where
  "find_rep c s = find (\<lambda>r. rw_scope r = s) (sc_reps c)"

definition required_rep_row :: "rep_catalog \<Rightarrow> rep_scope \<Rightarrow> rep_error + rep_row" where
  "required_rep_row c s = need (find_rep c s) RepMissing"

definition representation_of :: "rep_catalog \<Rightarrow> rep_row \<Rightarrow> representation" where
  "representation_of c r = \<lparr>rp_scope = rw_scope r, rp_recipe = rw_recipe r, rp_state = rw_state r,
     rp_attempts = rw_attempts r, rp_revision = rw_revision r, rp_owner = rw_owner r, rp_lease = rw_lease r,
     rp_failure = rw_failure r, rp_manifest = Option.bind (rw_manifest r) (object_of c),
     rp_native = Option.bind (rw_native r) (object_of c), rp_blocks = rw_blocks r, rp_warnings = rw_warnings r,
     rp_created = rw_created r, rp_updated = rw_updated r, rp_ready = rw_ready r\<rparr>"

definition representation_from_row :: "canon \<Rightarrow> rep_catalog \<Rightarrow> rep_row \<Rightarrow> rep_error + representation" where
  "representation_from_row C c r =
     (if \<not> sorted_unique (rw_warnings r) then Inl (RepIntegrity ''representation warning metadata is invalid'')
      else if representation_valid C (representation_of c r) then Inr (representation_of c r) else Inl RepInvalid)"

text \<open>The view of blocks with their scopes, and the blocks of a scope in order.\<close>

definition projections :: "rep_catalog \<Rightarrow> (rep_scope \<times> block_row) list" where
  "projections c = concat (map (\<lambda>b. map (\<lambda>(k, s). (s, b)) (filter (\<lambda>(k, s). k = bw_key b) (sc_scopes c))) (sc_blocks c))"

definition block_of_row :: "rep_scope \<Rightarrow> block_row \<Rightarrow> stored_object \<Rightarrow> rep_block" where
  "block_of_row s b x = \<lparr>bk_scope = s, bk_id = bw_block b, bk_object = x, bk_ordinal = bw_ordinal b,
     bk_parent = bw_parent b, bk_kind = bw_kind b, bk_order = bw_order b, bk_start = bw_start b, bk_end = bw_end b\<rparr>"

definition with_object :: "rep_catalog \<Rightarrow> rep_scope \<times> block_row \<Rightarrow> rep_block option" where
  "with_object c p = map_option (block_of_row (fst p) (snd p)) (object_of c (bw_object (snd p)))"

definition rep_blocks_of :: "rep_catalog \<Rightarrow> rep_scope \<Rightarrow> rep_block list" where
  "rep_blocks_of c s = List.map_filter (with_object c)
     (sort_key (bw_ordinal \<circ> snd) (filter (\<lambda>p. fst p = s) (projections c)))"

definition representation_aggregate :: "canon \<Rightarrow> rep_catalog \<Rightarrow> rep_row \<Rightarrow> rep_error + aggregate" where
  "representation_aggregate C c r =
     sbind (representation_from_row C c r) (\<lambda>p.
     let bs = rep_blocks_of c (rp_scope p); a = \<lparr>ag_rep = p, ag_blocks = bs\<rparr>
     in if \<not> list_all rep_block_valid bs then Inl RepInvalid
        else if aggregate_valid a then Inr a
        else Inl (RepIntegrity ''representation projection is inconsistent''))"

definition required_representation :: "canon \<Rightarrow> rep_catalog \<Rightarrow> rep_scope \<Rightarrow> rep_error + aggregate" where
  "required_representation C c s = sbind (required_rep_row c s) (representation_aggregate C c)"

definition load_representation :: "canon \<Rightarrow> rep_scope \<Rightarrow> rep_catalog \<Rightarrow> rep_error + aggregate option" where
  "load_representation C s c = optional_row (representation_aggregate C c) (find_rep c s)"

section \<open>Guards\<close>

definition rep_token_hash :: "rcanon \<Rightarrow> pystr \<Rightarrow> rep_error + pystr" where
  "rep_token_hash R token = (if length token < 16 then Inl (RepLease ''representation lease token is too short'')
     else Inr (rk_sha R token))"

definition validate_rep_owner :: "pystr \<Rightarrow> rep_error + unit" where
  "validate_rep_owner owner = ensure (length_between 1 255 owner) (RepLease ''representation owner identifier is invalid'')"

definition validate_rep_identity :: "canon \<Rightarrow> rep_scope \<Rightarrow> parser_recipe \<Rightarrow> rep_error + unit" where
  "validate_rep_identity C s recipe = ensure (representation_id_for C recipe (rs_version s) = rs_representation s)
     (RepConflict ''representation recipe identity does not match scope'')"

definition assert_row_recipe :: "rep_row \<Rightarrow> parser_recipe \<Rightarrow> rep_error + unit" where
  "assert_row_recipe r recipe = ensure (rw_recipe r = recipe) (RepConflict ''representation recipe differs from persisted facts'')"

definition assert_rep_lease :: "rep_row \<Rightarrow> pystr \<Rightarrow> pystr \<Rightarrow> nat \<Rightarrow> int \<Rightarrow> rep_error + unit" where
  "assert_rep_lease r owner token expected now =
     (if rw_state r \<noteq> STAGING then Inl (RepLease ''representation is not staging'')
      else if rw_owner r \<noteq> Some owner \<or> rw_token r \<noteq> Some token
      then Inl (RepLease ''representation lease owner or token does not match'')
      else if (case rw_lease r of None \<Rightarrow> False | Some t \<Rightarrow> t \<le> now) then Inl (RepLease ''representation lease has expired'')
      else if rw_revision r \<noteq> expected then Inl (RepLease ''representation revision is stale'') else Inr ())"

section \<open>Acquiring\<close>

definition fresh_rep :: "rep_scope \<Rightarrow> parser_recipe \<Rightarrow> pystr \<Rightarrow> pystr \<Rightarrow> int \<Rightarrow> int \<Rightarrow> rep_row" where
  "fresh_rep s recipe owner token now until = \<lparr>rw_scope = s, rw_recipe = recipe, rw_state = STAGING, rw_attempts = 1,
     rw_revision = 1, rw_owner = Some owner, rw_token = Some token, rw_lease = Some until, rw_last_token = None,
     rw_failure = None, rw_manifest = None, rw_native = None, rw_blocks = 0, rw_warnings = [], rw_created = now,
     rw_updated = now, rw_ready = None\<rparr>"

definition taken_rep :: "pystr \<Rightarrow> pystr \<Rightarrow> int \<Rightarrow> int \<Rightarrow> rep_row \<Rightarrow> rep_row" where
  "taken_rep owner token now until r = r\<lparr>rw_state := STAGING, rw_attempts := rw_attempts r + 1,
     rw_revision := rw_revision r + 1, rw_owner := Some owner, rw_token := Some token, rw_lease := Some until,
     rw_last_token := None, rw_failure := None, rw_manifest := None, rw_native := None, rw_blocks := 0,
     rw_warnings := [], rw_updated := now, rw_ready := None\<rparr>"

definition insert_scope :: "rep_scope \<Rightarrow> rep_catalog \<Rightarrow> rep_error + rep_catalog" where
  "insert_scope s c = (if s \<notin> set (map snd (sc_scopes c)) \<and> find_rep c s \<noteq> None
     then Inr (c\<lparr>sc_scopes := sc_scopes c @ [(next_id (map fst (sc_scopes c)), s)]\<rparr>) else Inl CatalogBroken)"

definition acquired :: "acquire_disposition \<Rightarrow> representation \<Rightarrow> pystr \<Rightarrow> rep_catalog \<Rightarrow>
  rep_error + rep_catalog \<times> acquire_result" where
  "acquired d p token c = (let r = \<lparr>ar_disposition = d, ar_rep = p, ar_lease = (if d = A_CLAIMED then Some (p, token) else None)\<rparr>
     in if acquire_result_valid r then Inr (c, r) else Inl RepInvalid)"

definition update_rep :: "rep_scope \<Rightarrow> (rep_row \<Rightarrow> rep_row) \<Rightarrow> rep_catalog \<Rightarrow> rep_error + rep_catalog" where
  "update_rep s f c = put_reps (upd_where (\<lambda>r. rw_scope r = s) f (sc_reps c)) c"

definition acquire_representation :: "rcanon \<Rightarrow> rep_scope \<Rightarrow> parser_recipe \<Rightarrow> pystr \<Rightarrow> pystr \<Rightarrow> int \<Rightarrow> int \<Rightarrow>
  rep_catalog \<Rightarrow> rep_error + rep_catalog \<times> acquire_result" where
  "acquire_representation R s recipe owner token now until c =
     sbind (validate_rep_identity (rk_canon R) s recipe) (\<lambda>_.
     sbind (validate_rep_owner owner) (\<lambda>_.
     sbind (rep_token_hash R token) (\<lambda>h.
     if until \<le> now then Inl (RepLease ''representation lease must extend beyond now'')
     else sbind (open_write c) (\<lambda>_.
       sbind (load_version c (rs_document s) (rs_version s)) (\<lambda>v.
       if v = None then Inl RepMissing
       else (case find_rep c s of
         None \<Rightarrow>
           sbind (put_reps (sc_reps c @ [fresh_rep s recipe owner h now until]) c) (\<lambda>c1.
           sbind (insert_scope s c1) (\<lambda>c2.
           sbind (required_representation (rk_canon R) c2 s) (\<lambda>a. acquired A_CLAIMED (ag_rep a) token c2)))
       | Some r \<Rightarrow>
           sbind (assert_row_recipe r recipe) (\<lambda>_.
           sbind (representation_from_row (rk_canon R) c r) (\<lambda>p.
           if rp_state p = READY then acquired A_READY p token c
           else if rp_state p = STAGING \<and> opt_all (\<lambda>t. now < t) (rw_lease r)
           then (if rw_owner r = Some owner \<and> rw_token r = Some h then acquired A_CLAIMED p token c
                 else acquired A_BUSY p token c)
           else if now < rw_updated r then Inl (RepLease ''representation transition time regressed'')
           else sbind (update_rep s (taken_rep owner h now until) c) (\<lambda>c1.
             sbind (required_representation (rk_canon R) c1 s) (\<lambda>a. acquired A_CLAIMED (ag_rep a) token c1))))))))))"

section \<open>Renewing and failing\<close>

definition renewed_rep :: "int \<Rightarrow> int \<Rightarrow> rep_row \<Rightarrow> rep_row" where
  "renewed_rep now until r = r\<lparr>rw_revision := rw_revision r + 1, rw_lease := Some until, rw_updated := now\<rparr>"

definition renew_representation :: "rcanon \<Rightarrow> rep_scope \<Rightarrow> pystr \<Rightarrow> pystr \<Rightarrow> nat \<Rightarrow> int \<Rightarrow> int \<Rightarrow>
  rep_catalog \<Rightarrow> rep_error + rep_catalog \<times> representation \<times> pystr" where
  "renew_representation R s owner token expected now until c =
     sbind (validate_rep_owner owner) (\<lambda>_.
     sbind (rep_token_hash R token) (\<lambda>h.
     if until \<le> now then Inl (RepLease ''representation lease must extend beyond now'')
     else sbind (open_write c) (\<lambda>_.
       sbind (required_rep_row c s) (\<lambda>r.
       sbind (assert_rep_lease r owner h expected now) (\<lambda>_.
       if now < rw_updated r then Inl (RepLease ''representation transition time regressed'')
       else sbind (update_rep s (renewed_rep now until) c) (\<lambda>c1.
         sbind (required_representation (rk_canon R) c1 s) (\<lambda>a.
         if rep_lease_valid (ag_rep a, token) then Inr (c1, ag_rep a, token) else Inl RepInvalid)))))))"

definition failed_rep :: "pystr \<Rightarrow> pystr \<Rightarrow> int \<Rightarrow> rep_row \<Rightarrow> rep_row" where
  "failed_rep token code now r = r\<lparr>rw_state := REP_FAILED, rw_revision := rw_revision r + 1, rw_owner := None,
     rw_token := None, rw_lease := None, rw_last_token := Some token, rw_failure := Some code, rw_updated := now\<rparr>"

definition fail_representation :: "rcanon \<Rightarrow> rep_scope \<Rightarrow> pystr \<Rightarrow> pystr \<Rightarrow> nat \<Rightarrow> int \<Rightarrow> pystr \<Rightarrow>
  rep_catalog \<Rightarrow> rep_error + rep_catalog \<times> aggregate" where
  "fail_representation R s owner token expected now code c =
     sbind (validate_rep_owner owner) (\<lambda>_.
     sbind (ensure (machine_token code) RepBadFailure) (\<lambda>_.
     sbind (rep_token_hash R token) (\<lambda>h.
     sbind (open_write c) (\<lambda>_.
     sbind (required_rep_row c s) (\<lambda>r.
     if rw_state r = REP_FAILED
     then (if rw_last_token r = Some h \<and> rw_failure r = Some code
           then sbind (required_representation (rk_canon R) c s) (\<lambda>a. Inr (c, a))
           else Inl (RepLease ''failed representation token does not match''))
     else sbind (assert_rep_lease r owner h expected now) (\<lambda>_.
       if now < rw_updated r then Inl (RepLease ''representation transition time regressed'')
       else sbind (update_rep s (failed_rep h code now) c) (\<lambda>c1.
         sbind (required_representation (rk_canon R) c1 s) (\<lambda>a. Inr (c1, a)))))))))"

section \<open>Heads and events\<close>

definition find_head :: "rep_catalog \<Rightarrow> pystr \<Rightarrow> head option" where
  "find_head c d = find (\<lambda>h. rs_document (dh_scope h) = d) (sc_heads c)"

definition head_from_row :: "head \<Rightarrow> rep_error + head" where
  "head_from_row h = (if head_valid h then Inr h else Inl RepInvalid)"

definition required_document_head :: "rep_catalog \<Rightarrow> pystr \<Rightarrow> rep_error + head" where
  "required_document_head c d = sbind (need (find_head c d) (RepIncomplete ''document head does not exist'')) head_from_row"

definition head_moves :: "head \<Rightarrow> rep_scope \<Rightarrow> int \<Rightarrow> int \<Rightarrow> bool" where
  "head_moves h s observed at \<longleftrightarrow> dh_observed h < observed \<or>
     observed = dh_observed h \<and> s = dh_scope h \<and> dh_ingested h < at"

definition advance_head :: "rep_scope \<Rightarrow> int \<Rightarrow> int \<Rightarrow> ingest_disposition \<Rightarrow> rep_catalog \<Rightarrow> rep_error + rep_catalog \<times> bool" where
  "advance_head s observed at d c =
     (let h' = \<lambda>expected. \<lparr>dh_scope = s, dh_observed = observed, dh_ingested = at, dh_disposition = d, dh_revision = expected\<rparr> in
      case find_head c (rs_document s) of
        None \<Rightarrow> if find_rep c s = None then Inl CatalogBroken else Inr (c\<lparr>sc_heads := sc_heads c @ [h' 1]\<rparr>, True)
      | Some row \<Rightarrow> sbind (head_from_row row) (\<lambda>h.
          if observed = dh_observed h \<and> s \<noteq> dh_scope h
          then Inl (RepConflict ''equal source observation has different scope'')
          else if \<not> head_moves h s observed at then Inr (c, False)
          else if find_rep c s = None then Inl CatalogBroken
          else Inr (c\<lparr>sc_heads := upd_where (\<lambda>x. rs_document (dh_scope x) = rs_document s)
            (\<lambda>x. h' (dh_revision x + 1)) (sc_heads c)\<rparr>, True)))"

definition next_event_sequence :: "rep_catalog \<Rightarrow> pystr \<Rightarrow> nat" where
  "next_event_sequence c d = foldr max (map ie_sequence (filter (\<lambda>e. ie_document e = d) (sc_events c))) 0 + 1"

definition append_ingest_event :: "ingest_event \<Rightarrow> rep_catalog \<Rightarrow> rep_error + rep_catalog" where
  "append_ingest_event e c = (if find_rep c (ie_scope e) = None then Inl CatalogBroken
     else Inr (c\<lparr>sc_events := sc_events c @ [e]\<rparr>))"

definition event_from_row :: "ingest_event \<Rightarrow> rep_error + ingest_event" where
  "event_from_row e = (if ingest_event_valid e then Inr e else Inl RepInvalid)"

definition advance_head_and_event :: "rep_scope \<Rightarrow> int \<Rightarrow> int \<Rightarrow> ingest_disposition \<Rightarrow> bool \<Rightarrow> rep_catalog \<Rightarrow>
  rep_error + rep_catalog \<times> head \<times> ingest_event" where
  "advance_head_and_event s observed at d parsed c =
     (if at < observed then Inl (RepConflict ''ingestion time precedes source observed_event'')
      else sbind (advance_head s observed at d c) (\<lambda>(c1, advanced).
        let e = \<lparr>ie_document = rs_document s, ie_sequence = next_event_sequence c1 (rs_document s), ie_scope = s,
              ie_disposition = d, ie_parsed = parsed, ie_advanced = advanced, ie_at = at, ie_observed = observed\<rparr>
        in sbind (append_ingest_event e c1) (\<lambda>c2.
           sbind (required_document_head c2 (rs_document s)) (\<lambda>h.
           sbind (event_from_row e) (\<lambda>e'. Inr (c2, h, e'))))))"

definition last_scope_event :: "rep_catalog \<Rightarrow> rep_scope \<Rightarrow> rep_error + ingest_event" where
  "last_scope_event c s = (case first_by (\<lambda>e. - int (ie_sequence e)) (filter (\<lambda>e. ie_scope e = s \<and> ie_parsed e) (sc_events c)) of
     None \<Rightarrow> Inl (RepIncomplete ''representation commit event is missing'') | Some e \<Rightarrow> event_from_row e)"

definition record_ready_ingest :: "canon \<Rightarrow> rep_scope \<Rightarrow> int \<Rightarrow> int \<Rightarrow> ingest_disposition \<Rightarrow>
  rep_catalog \<Rightarrow> rep_error + rep_catalog \<times> head \<times> ingest_event" where
  "record_ready_ingest C s observed at d c =
     (if d \<noteq> D_CACHE_HIT then Inl (RepConflict ''ready reuse must use CACHE_HIT disposition'')
      else sbind (open_write c) (\<lambda>_.
        sbind (required_representation C c s) (\<lambda>a.
        if rp_state (ag_rep a) \<noteq> READY then Inl (RepIncomplete ''representation is not ready'')
        else advance_head_and_event s observed at d False c)))"

section \<open>Committing\<close>

definition expected_block :: "rep_scope \<Rightarrow> prepared_block \<Rightarrow> rep_block" where
  "expected_block s p = \<lparr>bk_scope = s, bk_id = kb_id (pk_block p), bk_object = pk_object p, bk_ordinal = pk_ordinal p,
     bk_parent = kb_parent (pk_block p), bk_kind = kb_kind (pk_block p), bk_order = kb_order (pk_block p),
     bk_start = pk_start p, bk_end = pk_end p\<rparr>"

definition ready_matches :: "aggregate \<Rightarrow> ready_commit \<Rightarrow> bool" where
  "ready_matches a m \<longleftrightarrow> (let p = ag_rep a in rp_scope p = cm_scope m \<and> rp_recipe p = cm_recipe m \<and> rp_state p = READY \<and>
     rp_manifest p = Some (cm_manifest_object m) \<and> rp_native p = Some (cm_native m) \<and>
     rp_blocks p = length (cm_blocks m) \<and> rp_warnings p = cm_warnings m \<and>
     ag_blocks a = map (expected_block (cm_scope m)) (cm_blocks m))"

definition block_row_check :: "rep_catalog \<Rightarrow> block_row \<Rightarrow> bool" where
  "block_row_check c b \<longleftrightarrow> bw_ordinal b \<le> 99999 \<and> 1 \<le> bw_start b \<and> bw_start b \<le> bw_end b \<and>
     bw_key b \<in> set (map fst (sc_scopes c)) \<and> object_of c (bw_object b) \<noteq> None"

definition blocks_constraints :: "block_row list \<Rightarrow> bool" where
  "blocks_constraints bs \<longleftrightarrow> distinct (map bw_entry bs) \<and> distinct (map (\<lambda>b. (bw_key b, bw_ordinal b)) bs) \<and>
     distinct (map (\<lambda>b. (bw_key b, bw_block b)) bs)"

definition put_blocks :: "block_row list \<Rightarrow> rep_catalog \<Rightarrow> rep_error + rep_catalog" where
  "put_blocks bs c = (if blocks_constraints bs \<and> list_all (block_row_check c) bs
     then Inr (c\<lparr>sc_blocks := bs\<rparr>) else Inl CatalogBroken)"

definition row_of_prepared :: "nat \<Rightarrow> nat \<Rightarrow> prepared_block \<Rightarrow> block_row" where
  "row_of_prepared entry key p = \<lparr>bw_entry = entry, bw_key = key, bw_ordinal = pk_ordinal p,
     bw_block = kb_id (pk_block p), bw_object = so_id (pk_object p), bw_parent = kb_parent (pk_block p),
     bw_kind = kb_kind (pk_block p), bw_order = kb_order (pk_block p), bw_start = pk_start p, bw_end = pk_end p,
     bw_search = None\<rparr>"

text \<open>\<open>INSERT ... SELECT\<close>: one row for the scope's key, none if there is no such scope.\<close>

definition insert_block :: "rep_scope \<Rightarrow> prepared_block \<Rightarrow> rep_catalog \<Rightarrow> rep_error + rep_catalog" where
  "insert_block s p c = put_blocks (sc_blocks c @ map (\<lambda>(k, _). row_of_prepared (next_id (map bw_entry (sc_blocks c))) k p)
     (filter (\<lambda>(_, t). t = s) (sc_scopes c))) c"

fun insert_blocks :: "rep_scope \<Rightarrow> prepared_block list \<Rightarrow> rep_catalog \<Rightarrow> rep_error + rep_catalog" where
  "insert_blocks s [] c = Inr c"
| "insert_blocks s (p # ps) c = sbind (insert_block s p c) (insert_blocks s ps)"

definition max_indexed :: nat where "max_indexed = 1048576"

definition block_text_for_index :: "pystr option \<Rightarrow> rep_error + pystr" where
  "block_text_for_index t = (case t of None \<Rightarrow> Inr []
     | Some x \<Rightarrow> if max_indexed < length x then Inl RepInvalid else Inr x)"

definition indexed_text_hash :: "rcanon \<Rightarrow> pystr \<Rightarrow> rep_error + pystr" where
  "indexed_text_hash R t = (if max_indexed < length t then Inl RepInvalid else Inr (rk_sha R t))"

definition search_row :: "rep_catalog \<Rightarrow> rep_scope \<Rightarrow> prepared_block \<Rightarrow> block_row \<Rightarrow> bool" where
  "search_row c s p b \<longleftrightarrow> bw_key b \<in> set (map fst (filter (\<lambda>(_, t). t = s) (sc_scopes c))) \<and>
     bw_ordinal b = pk_ordinal p \<and> bw_block b = kb_id (pk_block p) \<and> bw_kind b = kb_kind (pk_block p) \<and>
     bw_start b = pk_start p \<and> bw_end b = pk_end p"

definition insert_search_entry :: "rep_scope \<Rightarrow> prepared_block \<Rightarrow> search_columns \<Rightarrow> pystr \<Rightarrow>
  rep_catalog \<Rightarrow> rep_error + rep_catalog" where
  "insert_search_entry s p e t c =
     (if length (filter (search_row c s p) (sc_blocks c)) \<noteq> 1
      then Inl (RepIntegrity ''search index entry does not match a block'')
      else sbind (put_blocks (upd_where (search_row c s p) (\<lambda>b. b\<lparr>bw_search := Some e\<rparr>) (sc_blocks c)) c) (\<lambda>c1.
        case find (\<lambda>(x, b). x = s \<and> bw_ordinal b = pk_ordinal p) (projections c1) of
          None \<Rightarrow> Inl (RepIntegrity ''search index block disappeared'')
        | Some (_, b) \<Rightarrow> Inr (c1\<lparr>sc_index := sc_index c1 @ [(bw_entry b, t)]\<rparr>)))"

definition index_block :: "rcanon \<Rightarrow> rep_scope \<Rightarrow> int \<Rightarrow> prepared_block \<Rightarrow> rep_catalog \<Rightarrow> rep_error + rep_catalog" where
  "index_block R s at p c =
     sbind (block_text_for_index (kb_text (pk_block p))) (\<lambda>t.
     sbind (indexed_text_hash R t) (\<lambda>h.
     insert_search_entry s p \<lparr>se_zone = kb_zone (pk_block p), se_page = None, se_slide = None, se_hash = h, se_at = at\<rparr> t c))"

fun index_blocks :: "rcanon \<Rightarrow> rep_scope \<Rightarrow> int \<Rightarrow> prepared_block list \<Rightarrow> rep_catalog \<Rightarrow> rep_error + rep_catalog" where
  "index_blocks R s at [] c = Inr c"
| "index_blocks R s at (p # ps) c = sbind (index_block R s at p c) (index_blocks R s at ps)"

definition ready_rep :: "pystr \<Rightarrow> ready_commit \<Rightarrow> rep_row \<Rightarrow> rep_row" where
  "ready_rep token m r = r\<lparr>rw_state := READY, rw_revision := rw_revision r + 1, rw_owner := None, rw_token := None,
     rw_lease := None, rw_last_token := Some token, rw_failure := None,
     rw_manifest := Some (so_id (cm_manifest_object m)), rw_native := Some (so_id (cm_native m)),
     rw_blocks := length (cm_blocks m), rw_warnings := cm_warnings m, rw_updated := cm_ready m,
     rw_ready := Some (cm_ready m)\<rparr>"

record commit_result =
  cr_aggregate :: aggregate
  cr_head :: head
  cr_event :: ingest_event

definition commit_reply :: "aggregate \<Rightarrow> rep_catalog \<times> head \<times> ingest_event \<Rightarrow> rep_catalog \<times> commit_result" where
  "commit_reply a r = (fst r, \<lparr>cr_aggregate = a, cr_head = fst (snd r), cr_event = snd (snd r)\<rparr>)"

text \<open>A commit for a representation that is ready: a replay by the lease holder, or a forced reparse.\<close>

definition commit_again :: "ready_commit \<Rightarrow> bool \<Rightarrow> pystr option \<Rightarrow> ingest_disposition \<Rightarrow> rep_row \<Rightarrow> aggregate \<Rightarrow>
  rep_catalog \<Rightarrow> rep_error + rep_catalog \<times> commit_result" where
  "commit_again m fenced h d r a c =
     (if \<not> ready_matches a m then Inl (RepConflict ''ready representation differs from candidate'')
      else if fenced
      then (if h = None \<or> rw_last_token r \<noteq> h then Inl (RepLease ''ready representation fencing token does not match'')
        else sbind (last_scope_event c (cm_scope m)) (\<lambda>e.
          sbind (required_document_head c (rs_document (cm_scope m))) (\<lambda>x. Inr (commit_reply a (c, x, e)))))
      else if d \<noteq> D_FORCED_REPARSE
      then Inl (RepConflict ''forced identical output must use FORCED_REPARSE disposition'')
      else sbind (advance_head_and_event (cm_scope m) (cm_observed m) (cm_ready m) d True c) (\<lambda>x. Inr (commit_reply a x)))"

definition publish_ready :: "rcanon \<Rightarrow> ready_commit \<Rightarrow> pystr \<Rightarrow> ingest_disposition \<Rightarrow> rep_catalog \<Rightarrow>
  rep_error + rep_catalog \<times> commit_result" where
  "publish_ready R m h d c =
     sbind (load_version c (rs_document (cm_scope m)) (rs_version (cm_scope m))) (\<lambda>v.
     if map_option sv_source v \<noteq> Some (cm_native m)
     then Inl (RepIntegrity ''native representation object does not match source version'')
     else sbind (save_objects (cm_manifest_object m # cm_native m # map pk_object (cm_blocks m)) c) (\<lambda>c1.
       sbind (insert_blocks (cm_scope m) (cm_blocks m) c1) (\<lambda>c2.
       sbind (index_blocks R (cm_scope m) (cm_ready m) (cm_blocks m) c2) (\<lambda>c3.
       sbind (update_rep (cm_scope m) (ready_rep h m) c3) (\<lambda>c4.
       sbind (required_representation (rk_canon R) c4 (cm_scope m)) (\<lambda>a.
       if \<not> ready_matches a m then Inl (RepIntegrity ''ready representation verification failed'')
       else sbind (advance_head_and_event (cm_scope m) (cm_observed m) (cm_ready m) d True c4) (\<lambda>x. Inr (commit_reply a x))))))))"

definition commit_ready_representation :: "rcanon \<Rightarrow> ready_commit \<Rightarrow> pystr option \<Rightarrow> pystr option \<Rightarrow> nat option \<Rightarrow>
  ingest_disposition \<Rightarrow> rep_catalog \<Rightarrow> rep_error + rep_catalog \<times> commit_result" where
  "commit_ready_representation R m owner token expected d c =
     (if d = D_CACHE_HIT then Inl (RepConflict ''ready commit cannot be a cache hit'')
      else sbind (open_write c) (\<lambda>_.
        sbind (required_rep_row c (cm_scope m)) (\<lambda>r.
        sbind (assert_row_recipe r (cm_recipe m)) (\<lambda>_.
        sbind (required_representation (rk_canon R) c (cm_scope m)) (\<lambda>a.
        sbind (optional_row (rep_token_hash R) token) (\<lambda>h.
        if rp_state (ag_rep a) = READY then commit_again m (owner \<noteq> None \<or> expected \<noteq> None) h d r a c
        else (case (owner, h, expected) of
          (Some o', Some h', Some n) \<Rightarrow>
            sbind (validate_rep_owner o') (\<lambda>_.
            sbind (assert_rep_lease r o' h' n (cm_ready m)) (\<lambda>_. publish_ready R m h' d c))
        | _ \<Rightarrow> Inl (RepLease ''ready commit requires representation lease''))))))))"

end
