(* ===== verification/Rep_Invariant.thy ===== *)
theory Rep_Invariant
  imports Rep_Catalog
begin

text \<open>
  What holds of the ingestion tables at any time: objects have one length, every document, version and
  representation row loads, tokens and keys are unique, blocks are indexed, and the heads are what the
  event log replays to.  The first part says how the reads depend on the tables.
\<close>

section \<open>Objects\<close>

definition keeps_objects :: "rep_catalog \<Rightarrow> rep_catalog \<Rightarrow> bool" where
  "keeps_objects c c' \<longleftrightarrow> (\<forall>i x. object_of c i = Some x \<longrightarrow> object_of c' i = Some x)"

lemma keeps_objectsD: "keeps_objects c c' \<Longrightarrow> object_of c i = Some x \<Longrightarrow> object_of c' i = Some x"
  by (simp add: keeps_objects_def)

lemma keeps_objects_refl [simp]: "keeps_objects c c"
  by (simp add: keeps_objects_def)

lemma keeps_objects_trans: "keeps_objects a b \<Longrightarrow> keeps_objects b c \<Longrightarrow> keeps_objects a c"
  by (simp add: keeps_objects_def)

lemma keeps_objects_same: "sc_objects c' = sc_objects c \<Longrightarrow> keeps_objects c c'"
  by (simp add: keeps_objects_def object_of_def)

lemma object_of_cong: "sc_objects c' = sc_objects c \<Longrightarrow> object_of c' = object_of c"
  by (simp add: object_of_def fun_eq_iff)

lemma object_of_more [simp]:
  "object_of (c\<lparr>sc_documents := a1\<rparr>) = object_of c" "object_of (c\<lparr>sc_versions := a2\<rparr>) = object_of c"
  "object_of (c\<lparr>sc_references := a3\<rparr>) = object_of c" "object_of (c\<lparr>sc_reps := a4\<rparr>) = object_of c"
  "object_of (c\<lparr>sc_scopes := a5\<rparr>) = object_of c" "object_of (c\<lparr>sc_blocks := a6\<rparr>) = object_of c"
  "object_of (c\<lparr>sc_index := a7\<rparr>) = object_of c" "object_of (c\<lparr>sc_heads := a8\<rparr>) = object_of c"
  "object_of (c\<lparr>sc_events := a9\<rparr>) = object_of c"
  by (rule object_of_cong; simp)+

lemma object_of_append:
  "object_of (c\<lparr>sc_objects := sc_objects c @ [x]\<rparr>) i =
     (case object_of c i of None \<Rightarrow> if so_id x = i then Some x else None | Some y \<Rightarrow> Some y)"
  by (simp add: object_of_def find_append split: option.split)

lemma object_of_id: "object_of c i = Some x \<Longrightarrow> so_id x = i"
  by (auto simp: object_of_def dest: find_in)

lemma save_object_cases:
  assumes "save_object x c = Inr c'"
  obtains "c' = c" "object_of c (so_id x) = Some x"
  | "object_of c (so_id x) = None" "c' = c\<lparr>sc_objects := sc_objects c @ [x]\<rparr>"
proof (cases "object_of c (so_id x)")
  case None
  then show ?thesis using assms that(2) by (simp add: save_object_def)
next
  case (Some y)
  then have "so_length y = so_length x" "c' = c" using assms by (simp_all add: save_object_def split: if_splits)
  moreover from Some have "so_id y = so_id x" by (rule object_of_id)
  ultimately have "c' = c" "y = x" by (cases x; cases y; simp)+
  then show ?thesis using Some that(1) by simp
qed

lemma save_object_frame:
  assumes "save_object x c = Inr c'"
  obtains ys where "c' = c\<lparr>sc_objects := sc_objects c @ ys\<rparr>" "keeps_objects c c'" "object_of c' (so_id x) = Some x"
    "distinct (map so_id (sc_objects c)) \<longrightarrow> distinct (map so_id (sc_objects c'))"
  using assms
proof (cases rule: save_object_cases)
  case 1
  then show ?thesis using that[of "[]"] by simp
next
  case 2
  have "so_id x \<notin> so_id ` set (sc_objects c)" using 2(1) by (auto simp: object_of_def find_None_iff)
  then show ?thesis using 2 that[of "[x]"] by (auto simp: object_of_append keeps_objects_def)
qed

lemma save_objects_frame:
  assumes "save_objects xs c = Inr c'"
  obtains ys where "c' = c\<lparr>sc_objects := sc_objects c @ ys\<rparr>" "keeps_objects c c'"
    "\<forall>x\<in>set xs. object_of c' (so_id x) = Some x"
    "distinct (map so_id (sc_objects c)) \<longrightarrow> distinct (map so_id (sc_objects c'))"
  using assms
proof (induction xs arbitrary: c thesis)
  case Nil
  then show ?case using Nil(1)[of "[]"] by simp
next
  case (Cons x xs)
  from Cons.prems(2) obtain c1 where 1: "save_object x c = Inr c1" "save_objects xs c1 = Inr c'"
    by (auto simp: sbind_Inr_iff)
  obtain ys where y: "c1 = c\<lparr>sc_objects := sc_objects c @ ys\<rparr>" "keeps_objects c c1" "object_of c1 (so_id x) = Some x"
    "distinct (map so_id (sc_objects c)) \<longrightarrow> distinct (map so_id (sc_objects c1))" using save_object_frame[OF 1(1)] by metis
  from Cons.IH[OF _ 1(2)] obtain zs where z: "c' = c1\<lparr>sc_objects := sc_objects c1 @ zs\<rparr>" "keeps_objects c1 c'"
    "\<forall>x\<in>set xs. object_of c' (so_id x) = Some x" "distinct (map so_id (sc_objects c1)) \<longrightarrow> distinct (map so_id (sc_objects c'))" by blast
  show ?case
  proof (rule Cons.prems(1)[of "ys @ zs"])
    show "c' = c\<lparr>sc_objects := sc_objects c @ ys @ zs\<rparr>" using y(1) z(1) by simp
    show "keeps_objects c c'" using y(2) z(2) by (rule keeps_objects_trans)
    show "\<forall>x\<in>set (x # xs). object_of c' (so_id x) = Some x" using keeps_objectsD[OF z(2) y(3)] z(3) by simp
    show "distinct (map so_id (sc_objects c)) \<longrightarrow> distinct (map so_id (sc_objects c'))" using y(4) z(4) by blast
  qed
qed

text \<open>Registration succeeds exactly if no two of the objects involved share an identity and differ in length.\<close>

definition lengths_agree :: "stored_object list \<Rightarrow> rep_catalog \<Rightarrow> bool" where
  "lengths_agree xs c \<longleftrightarrow> (\<forall>x\<in>set xs. \<forall>y. object_of c (so_id x) = Some y \<longrightarrow> so_length y = so_length x) \<and>
     (\<forall>x\<in>set xs. \<forall>y\<in>set xs. so_id x = so_id y \<longrightarrow> so_length x = so_length y)"

lemma save_objects_succeeds: "(\<exists>c'. save_objects xs c = Inr c') \<longleftrightarrow> lengths_agree xs c"
proof (induction xs arbitrary: c)
  case (Cons x xs)
  show ?case
  proof (cases "\<exists>y. object_of c (so_id x) = Some y \<and> so_length y \<noteq> so_length x")
    case True
    then obtain y where y: "object_of c (so_id x) = Some y" "so_length y \<noteq> so_length x" by blast
    then have "save_objects (x # xs) c = Inl ObjectLengthConflict" by (simp add: save_object_def)
    moreover have "\<not> lengths_agree (x # xs) c" using y unfolding lengths_agree_def by simp
    ultimately show ?thesis by simp
  next
    case False
    then have ok: "\<exists>c1. save_object x c = Inr c1" by (auto simp: save_object_def split: option.splits)
    then obtain c1 where 1: "save_object x c = Inr c1" by blast
    from 1 have o: "object_of c1 i = (if i = so_id x then Some x else object_of c i)" for i
      by (cases rule: save_object_cases) (auto simp: object_of_append split: option.splits)
    have "lengths_agree (x # xs) c" if l: "lengths_agree xs c1"
    proof -
      from l have ag: "\<forall>y\<in>set xs. \<forall>z. object_of c1 (so_id y) = Some z \<longrightarrow> so_length z = so_length y"
        "\<forall>y\<in>set xs. \<forall>z\<in>set xs. so_id y = so_id z \<longrightarrow> so_length y = so_length z"
        unfolding lengths_agree_def by blast+
      have 2: "so_length x = so_length y" if "y \<in> set xs" "so_id x = so_id y" for y
        using ag(1) that o[of "so_id y"] by metis
      have 3: "so_length z = so_length y" if y: "y \<in> set xs" and z: "object_of c (so_id y) = Some z" for y z
      proof (cases "so_id y = so_id x")
        case True
        then have "so_length z = so_length x" using z False by auto
        then show ?thesis using 2[OF y] True by simp
      next
        case no: False
        then have "object_of c1 (so_id y) = Some z" using z o[of "so_id y"] by simp
        then show ?thesis using ag(1) y by blast
      qed
      have 4: "so_length z = so_length x" if "object_of c (so_id x) = Some z" for z using False that by blast
      have "so_length z = so_length y" if "y \<in> set (x # xs)" "object_of c (so_id y) = Some z" for y z
        using that 3 4 unfolding list.set(2) by blast
      moreover have "so_length y = so_length z" if "y \<in> set (x # xs)" "z \<in> set (x # xs)" "so_id y = so_id z" for y z
        using that 2[of y] 2[of z] ag(2) unfolding list.set(2) by (metis insertE)
      ultimately show ?thesis unfolding lengths_agree_def by blast
    qed
    moreover have "lengths_agree xs c1" if l: "lengths_agree (x # xs) c"
    proof -
      have a: "\<forall>y\<in>set xs. \<forall>z. object_of c (so_id y) = Some z \<longrightarrow> so_length z = so_length y"
        "\<forall>y\<in>set xs. \<forall>z\<in>set xs. so_id y = so_id z \<longrightarrow> so_length y = so_length z"
        "\<forall>y\<in>set xs. so_id x = so_id y \<longrightarrow> so_length x = so_length y"
        using l unfolding lengths_agree_def by (meson list.set_intros)+
      have "so_length z = so_length y" if y: "y \<in> set xs" and z: "object_of c1 (so_id y) = Some z" for y z
      proof (cases "so_id y = so_id x")
        case True
        then have "z = x" using z o[of "so_id y"] by simp
        then show ?thesis using a(3) y True by metis
      next
        case False
        then show ?thesis using z o[of "so_id y"] a(1) y by simp
      qed
      then show ?thesis using a(2) unfolding lengths_agree_def by blast
    qed
    ultimately have "lengths_agree xs c1 \<longleftrightarrow> lengths_agree (x # xs) c" by blast
    then show ?thesis using Cons.IH[of c1] 1 by simp
  qed
qed (simp add: lengths_agree_def)

section \<open>Blocks of a scope\<close>

definition scope_rows :: "rep_catalog \<Rightarrow> rep_scope \<Rightarrow> block_row list" where
  "scope_rows c s = filter (\<lambda>b. (bw_key b, s) \<in> set (sc_scopes c)) (sc_blocks c)"

lemma keyed_scopes:
  assumes "distinct (map fst ks)"
  shows "filter (\<lambda>p. fst p = s) (map (\<lambda>(k, t). (t, b)) (filter (\<lambda>(k, t). k = i) ks)) = (if (i, s) \<in> set ks then [(s, b)] else [])"
  using assms by (induction ks) (auto simp: image_iff)

lemma projections_scope:
  assumes "distinct (map fst (sc_scopes c))"
  shows "filter (\<lambda>p. fst p = s) (projections c) = map (Pair s) (scope_rows c s)"
proof -
  have "filter (\<lambda>p. fst p = s) (concat (map (\<lambda>b. map (\<lambda>(k, s). (s, b)) (filter (\<lambda>(k, s). k = bw_key b) (sc_scopes c))) bs)) =
      map (Pair s) (filter (\<lambda>b. (bw_key b, s) \<in> set (sc_scopes c)) bs)" for bs
    by (induction bs) (simp_all add: keyed_scopes[OF assms])
  then show ?thesis by (simp add: projections_def scope_rows_def)
qed

lemma map_filter_Some: "(\<And>x. x \<in> set xs \<Longrightarrow> f x = Some (g x)) \<Longrightarrow> List.map_filter f xs = map g xs"
  by (induction xs) (simp_all add: List.map_filter_simps split: option.split)

lemma map_filter_map: "List.map_filter f (map g xs) = List.map_filter (\<lambda>x. f (g x)) xs"
  by (induction xs) (simp_all add: List.map_filter_simps split: option.split)

lemma map_filter_cong: "(\<And>x. x \<in> set xs \<Longrightarrow> f x = g x) \<Longrightarrow> List.map_filter f xs = List.map_filter g xs"
  by (induction xs) (simp_all add: List.map_filter_simps split: option.split)

lemma rep_blocks_of_rows:
  assumes "distinct (map fst (sc_scopes c))"
  shows "rep_blocks_of c s = List.map_filter (\<lambda>b. with_object c (s, b)) (sort_key bw_ordinal (scope_rows c s))"
  by (simp add: rep_blocks_of_def projections_scope[OF assms] sort_key_map map_filter_map comp_def)

lemma representation_of_cong:
  assumes "keeps_objects c c'" "rep_references_ok c r"
  shows "representation_of c' r = representation_of c r"
proof -
  have "Option.bind i (object_of c') = Option.bind i (object_of c)" if "opt_all (\<lambda>i. object_of c i \<noteq> None) i" for i
    using that keeps_objectsD[OF assms(1)] by (cases i) (auto simp: opt_all_def)
  then show ?thesis using assms(2) by (simp add: representation_of_def rep_references_ok_def)
qed

lemma rep_blocks_of_cong:
  assumes "keeps_objects c c'" "list_all (block_row_check c) (sc_blocks c)" "scope_rows c' s = scope_rows c s"
    "distinct (map fst (sc_scopes c))" "distinct (map fst (sc_scopes c'))"
  shows "rep_blocks_of c' s = rep_blocks_of c s"
proof -
  have "with_object c' (s, b) = with_object c (s, b)" if "b \<in> set (scope_rows c s)" for b
  proof -
    have "object_of c (bw_object b) \<noteq> None" using that assms(2) by (auto simp: scope_rows_def block_row_check_def list_all_iff)
    then show ?thesis using keeps_objectsD[OF assms(1)] by (auto simp: with_object_def)
  qed
  then show ?thesis unfolding rep_blocks_of_rows[OF assms(4)] rep_blocks_of_rows[OF assms(5)] assms(3)
    by (intro map_filter_cong) simp
qed

lemma aggregate_cong:
  assumes "keeps_objects c c'" "rep_references_ok c r" "rep_blocks_of c' (rw_scope r) = rep_blocks_of c (rw_scope r)"
  shows "representation_aggregate C c' r = representation_aggregate C c r"
  using assms by (auto simp: representation_aggregate_def representation_from_row_def representation_of_cong Let_def
      representation_of_def[of c r] split: if_splits)

end
