(* ===== verification/Rep_History.thy ===== *)
theory Rep_History
  imports Rep_Invariant
begin

text \<open>
  The event log and the heads.  Every ingestion appends one event to the log of its document; the
  head of a document is what replaying the log gives: the last event that advanced it, with the
  number of such events as its revision.
\<close>

section \<open>Replaying a log\<close>

definition doc_events :: "rep_catalog \<Rightarrow> pystr \<Rightarrow> ingest_event list" where
  "doc_events c d = filter (\<lambda>e. ie_document e = d) (sc_events c)"

definition replay_event :: "ingest_event \<Rightarrow> head option \<Rightarrow> head option" where
  "replay_event e h = (if ie_advanced e then Some \<lparr>dh_scope = ie_scope e, dh_observed = ie_observed e,
     dh_ingested = ie_at e, dh_disposition = ie_disposition e,
     dh_revision = (case h of None \<Rightarrow> 0 | Some x \<Rightarrow> dh_revision x) + 1\<rparr> else h)"

definition replay :: "ingest_event list \<Rightarrow> head option" where
  "replay es = fold replay_event es None"

text \<open>Which events advance the head is itself determined by the log before them.\<close>

definition flag_ok :: "head option \<Rightarrow> ingest_event \<Rightarrow> bool" where
  "flag_ok h e \<longleftrightarrow> (case h of None \<Rightarrow> ie_advanced e
     | Some x \<Rightarrow> ie_advanced e = head_moves x (ie_scope e) (ie_observed e) (ie_at e) \<and>
         (ie_observed e = dh_observed x \<longrightarrow> ie_scope e = dh_scope x))"

fun flags_ok :: "head option \<Rightarrow> ingest_event list \<Rightarrow> bool" where
  "flags_ok h [] = True"
| "flags_ok h (e # es) = (flag_ok h e \<and> flags_ok (replay_event e h) es)"

lemma flags_ok_snoc: "flags_ok h (es @ [e]) \<longleftrightarrow> flags_ok h es \<and> flag_ok (fold replay_event es h) e"
  by (induction es arbitrary: h) auto

lemma replay_snoc: "replay (es @ [e]) = replay_event e (replay es)"
  by (simp add: replay_def)

lemma replay_valid:
  assumes "list_all ingest_event_valid es"
  shows "replay es = Some h \<Longrightarrow> head_valid h"
  using assms
proof (induction es arbitrary: h rule: rev_induct)
  case (snoc e es)
  then show ?case by (auto simp: replay_snoc replay_event_def head_valid_def ingest_event_valid_def split: if_splits)
qed (simp add: replay_def)

lemma replay_scope:
  assumes "\<forall>e\<in>set es. P (ie_scope e)"
  shows "replay es = Some h \<Longrightarrow> P (dh_scope h)"
  using assms by (induction es arbitrary: h rule: rev_induct)
    (auto simp: replay_snoc replay_event_def replay_def[of "[]"] split: if_splits)

text \<open>The head has the latest observation of the log and counts the events that advanced it.\<close>

definition head_of_log :: "head \<Rightarrow> ingest_event list \<Rightarrow> bool" where
  "head_of_log h es \<longleftrightarrow> dh_revision h = length (filter ie_advanced es) \<and>
     (\<forall>e\<in>set es. ie_observed e < dh_observed h \<or>
        ie_observed e = dh_observed h \<and> ie_scope e = dh_scope h \<and> ie_at e \<le> dh_ingested h) \<and>
     (\<exists>e\<in>set es. ie_advanced e \<and> ie_scope e = dh_scope h \<and> ie_observed e = dh_observed h \<and> ie_at e = dh_ingested h)"

lemma head_of_log_snoc:
  assumes "head_of_log x es" "flag_ok (Some x) e"
  shows "\<exists>h. replay_event e (Some x) = Some h \<and> head_of_log h (es @ [e])"
proof (cases "ie_advanced e")
  case True
  then have m: "head_moves x (ie_scope e) (ie_observed e) (ie_at e)" using assms(2) by (simp add: flag_ok_def)
  have "ie_observed y < ie_observed e \<or> ie_observed y = ie_observed e \<and> ie_scope y = ie_scope e \<and> ie_at y \<le> ie_at e"
    if "y \<in> set es" for y
  proof -
    have "ie_observed y < dh_observed x \<or> ie_observed y = dh_observed x \<and> ie_scope y = dh_scope x \<and> ie_at y \<le> dh_ingested x"
      using assms(1) that by (simp add: head_of_log_def)
    then show ?thesis using m by (auto simp: head_moves_def)
  qed
  then show ?thesis using assms(1) True by (auto simp: replay_event_def head_of_log_def)
next
  case False
  then have "\<not> head_moves x (ie_scope e) (ie_observed e) (ie_at e)" "ie_observed e = dh_observed x \<longrightarrow> ie_scope e = dh_scope x"
    using assms(2) by (simp_all add: flag_ok_def)
  then have "ie_observed e < dh_observed x \<or> ie_observed e = dh_observed x \<and> ie_scope e = dh_scope x \<and> ie_at e \<le> dh_ingested x"
    by (auto simp: head_moves_def)
  then show ?thesis using assms(1) False by (auto simp: replay_event_def head_of_log_def)
qed

lemma replay_facts:
  assumes "flags_ok None es"
  shows "case replay es of None \<Rightarrow> es = [] | Some h \<Rightarrow> head_of_log h es"
  using assms
proof (induction es rule: rev_induct)
  case (snoc e es)
  have ok: "flags_ok None es" "flag_ok (replay es) e" using snoc.prems by (simp_all add: flags_ok_snoc replay_def)
  show ?case
  proof (cases "replay es")
    case None
    then have "es = []" "ie_advanced e" using snoc.IH ok by (simp_all add: flag_ok_def)
    then show ?thesis by (simp add: replay_def replay_event_def head_of_log_def)
  next
    case (Some x)
    then have "head_of_log x es" "flag_ok (Some x) e" using snoc.IH ok by simp_all
    from head_of_log_snoc[OF this] show ?thesis by (auto simp: replay_snoc Some)
  qed
qed (simp add: replay_def)

section \<open>The invariant\<close>

definition ready_scope :: "rep_catalog \<Rightarrow> rep_scope \<Rightarrow> bool" where
  "ready_scope c s \<longleftrightarrow> (\<exists>r. find_rep c s = Some r \<and> rw_state r = READY)"

definition history_ok :: "rep_catalog \<Rightarrow> bool" where
  "history_ok c \<longleftrightarrow> distinct (map (rs_document \<circ> dh_scope) (sc_heads c)) \<and>
     (\<forall>e\<in>set (sc_events c). ingest_event_valid e \<and> ready_scope c (ie_scope e)) \<and>
     (\<forall>d. map ie_sequence (doc_events c d) = [1..<Suc (length (doc_events c d))] \<and>
       flags_ok None (doc_events c d) \<and> find_head c d = replay (doc_events c d))"

lemma history_head:
  assumes "history_ok c" "find_head c d = Some h"
  shows "head_valid h" "ready_scope c (dh_scope h)" "rs_document (dh_scope h) = d"
proof -
  have r: "replay (doc_events c d) = Some h" using assms by (simp add: history_ok_def)
  have v: "list_all ingest_event_valid (doc_events c d)" and s: "\<forall>e\<in>set (doc_events c d). ready_scope c (ie_scope e)"
    using assms(1) by (auto simp: history_ok_def doc_events_def list_all_iff)
  show "head_valid h" using replay_valid[OF v r] .
  show "ready_scope c (dh_scope h)" using replay_scope[OF s r] .
  show "rs_document (dh_scope h) = d" using assms(2) by (auto simp: find_head_def dest: find_in)
qed

lemma history_sequence:
  assumes "history_ok c"
  shows "next_event_sequence c d = length (doc_events c d) + 1"
proof -
  have "map ie_sequence (doc_events c d) = [1..<Suc (length (doc_events c d))]" using assms by (simp add: history_ok_def)
  then have "foldr max (map ie_sequence (doc_events c d)) 0 = length (doc_events c d)"
    using foldr_max_upt[of 1 "Suc (length (doc_events c d))"] by (simp del: upt_Suc split: if_splits)
  then show ?thesis by (simp add: next_event_sequence_def doc_events_def)
qed

lemma history_same:
  assumes "history_ok c" "sc_heads c' = sc_heads c" "sc_events c' = sc_events c"
    "\<And>s. ready_scope c s \<Longrightarrow> ready_scope c' s"
  shows "history_ok c'"
  using assms by (simp add: history_ok_def doc_events_def find_head_def)

section \<open>Recording an observation\<close>

text \<open>The event an observation adds, and the heads after it.\<close>

definition observed_event :: "rep_catalog \<Rightarrow> rep_scope \<Rightarrow> int \<Rightarrow> int \<Rightarrow> ingest_disposition \<Rightarrow> bool \<Rightarrow> ingest_event" where
  "observed_event c s observed at d parsed = \<lparr>ie_document = rs_document s, ie_sequence = length (doc_events c (rs_document s)) + 1,
     ie_scope = s, ie_disposition = d, ie_parsed = parsed,
     ie_advanced = (case find_head c (rs_document s) of None \<Rightarrow> True | Some h \<Rightarrow> head_moves h s observed at),
     ie_at = at, ie_observed = observed\<rparr>"

definition head_conflict :: "rep_catalog \<Rightarrow> rep_scope \<Rightarrow> int \<Rightarrow> bool" where
  "head_conflict c s observed \<longleftrightarrow> (case find_head c (rs_document s) of None \<Rightarrow> False
     | Some h \<Rightarrow> observed = dh_observed h \<and> s \<noteq> dh_scope h)"

definition put_head :: "head \<Rightarrow> rep_catalog \<Rightarrow> head list" where
  "put_head h c = (let d = rs_document (dh_scope h) in
     if find_head c d = None then sc_heads c @ [h]
     else upd_where (\<lambda>x. rs_document (dh_scope x) = d) (\<lambda>_. h) (sc_heads c))"

definition observed_catalog :: "ingest_event \<Rightarrow> rep_catalog \<Rightarrow> rep_catalog" where
  "observed_catalog e c = c\<lparr>sc_heads := (if ie_advanced e
     then put_head (the (replay_event e (find_head c (ie_document e)))) c else sc_heads c), sc_events := sc_events c @ [e]\<rparr>"

lemma find_put_row:
  assumes "f h = d" "find (\<lambda>x. f x = d) xs \<noteq> None"
  shows "find (\<lambda>x. f x = e) (upd_where (\<lambda>x. f x = d) (\<lambda>_. h) xs) = (if e = d then Some h else find (\<lambda>x. f x = e) xs)"
proof (cases "e = d")
  case True
  then show ?thesis using assms(2) by (induction xs) (auto simp: upd_where_def assms(1))
next
  case False
  then show ?thesis by (induction xs) (auto simp: upd_where_def assms(1))
qed

lemma map_upd_const:
  assumes "f h = d"
  shows "map f (upd_where (\<lambda>x. f x = d) (\<lambda>_. h) xs) = map f xs"
  by (simp add: upd_where_def assms)

lemma put_head_find:
  "find (\<lambda>x. rs_document (dh_scope x) = d) (put_head h c) = (if d = rs_document (dh_scope h) then Some h else find_head c d)"
  using find_put_row[of "\<lambda>x. rs_document (dh_scope x)" h "rs_document (dh_scope h)" "sc_heads c" d]
  by (auto simp: put_head_def Let_def find_head_def find_append split: option.split)

lemma put_head_distinct:
  assumes "distinct (map (rs_document \<circ> dh_scope) (sc_heads c))"
  shows "distinct (map (rs_document \<circ> dh_scope) (put_head h c))"
  using assms map_upd_const[of "rs_document \<circ> dh_scope" h "rs_document (dh_scope h)" "sc_heads c"]
  by (auto simp: put_head_def Let_def find_head_def find_None_iff)

lemma observed_head:
  assumes "ie_document e = rs_document (ie_scope e)" "find_head c (ie_document e) = None \<Longrightarrow> ie_advanced e"
  shows "find_head (observed_catalog e c) d =
    (if d = ie_document e then replay_event e (find_head c d) else find_head c d)"
proof -
  have "dh_scope (the (replay_event e h)) = ie_scope e" if "ie_advanced e" for h using that by (simp add: replay_event_def)
  then show ?thesis using assms put_head_find[of d "the (replay_event e (find_head c (ie_document e)))" c]
    by (auto simp: observed_catalog_def find_head_def[of "_\<lparr>sc_heads := _, sc_events := _\<rparr>"] replay_event_def find_head_def[symmetric])
qed

lemma unique_row:
  assumes "distinct (map f xs)" "find (\<lambda>x. f x = d) xs = Some h" "x \<in> set xs" "f x = d"
  shows "x = h"
  using assms find_unique[of f xs x] by simp

lemma upd_where_unique:
  assumes "distinct (map f xs)" "find (\<lambda>x. f x = d) xs = Some h"
  shows "upd_where (\<lambda>x. f x = d) g xs = upd_where (\<lambda>x. f x = d) (\<lambda>_. g h) xs"
  unfolding upd_where_def by (rule map_cong) (use unique_row[OF assms] in auto)

lemma observed_event_simps [simp]:
  "ie_document (observed_event c s observed at d parsed) = rs_document s" "ie_scope (observed_event c s observed at d parsed) = s"
  "ie_observed (observed_event c s observed at d parsed) = observed" "ie_at (observed_event c s observed at d parsed) = at"
  "ie_disposition (observed_event c s observed at d parsed) = d" "ie_parsed (observed_event c s observed at d parsed) = parsed"
  by (simp_all add: observed_event_def)

lemma ready_scope_tables [simp]:
  "ready_scope (c\<lparr>sc_heads := hs\<rparr>) s = ready_scope c s" "ready_scope (c\<lparr>sc_events := es\<rparr>) s = ready_scope c s"
  by (simp_all add: ready_scope_def find_rep_def)

lemma advance_head_eq:
  assumes "history_ok c" "ready_scope c s"
  shows "advance_head s observed at d c =
    (let e = observed_event c s observed at d parsed in
     if head_conflict c s observed then Inl (RepConflict ''equal source observation has different scope'')
     else Inr (c\<lparr>sc_heads := (if ie_advanced e then put_head (the (replay_event e (find_head c (rs_document s)))) c
       else sc_heads c)\<rparr>, ie_advanced e))"
proof -
  have rep: "find_rep c s \<noteq> None" using assms(2) by (auto simp: ready_scope_def)
  show ?thesis
  proof (cases "find_head c (rs_document s)")
    case None
    then show ?thesis using rep
      by (simp add: advance_head_def head_conflict_def observed_event_def replay_event_def put_head_def Let_def)
  next
    case (Some h)
    have v: "head_from_row h = Inr h" using history_head(1)[OF assms(1) Some] by (simp add: head_from_row_def)
    let ?h = "\<lambda>n. \<lparr>dh_scope = s, dh_observed = observed, dh_ingested = at, dh_disposition = d, dh_revision = n\<rparr>"
    have u: "upd_where (\<lambda>x. rs_document (dh_scope x) = rs_document s) (\<lambda>x. ?h (dh_revision x + 1)) (sc_heads c) =
        upd_where (\<lambda>x. rs_document (dh_scope x) = rs_document s) (\<lambda>_. ?h (dh_revision h + 1)) (sc_heads c)"
      using upd_where_unique[of "rs_document \<circ> dh_scope" "sc_heads c" "rs_document s" h] assms(1) Some
      by (simp add: history_ok_def find_head_def)
    show ?thesis using rep Some v unfolding advance_head_def Let_def u
      by (auto simp: head_conflict_def observed_event_def replay_event_def put_head_def Let_def)
  qed
qed

lemma observed_event_sequence:
  assumes "history_ok c"
  shows "ie_sequence (observed_event c s observed at d parsed) = next_event_sequence c (rs_document s)"
  by (simp add: observed_event_def history_sequence[OF assms])

theorem advance_head_and_event_eq:
  assumes "history_ok c" "ready_scope c s" "(d = D_CACHE_HIT) \<noteq> parsed"
  shows "advance_head_and_event s observed at d parsed c =
    (let e = observed_event c s observed at d parsed in
     if at < observed then Inl (RepConflict ''ingestion time precedes source observed_event'')
     else if head_conflict c s observed then Inl (RepConflict ''equal source observation has different scope'')
     else Inr (observed_catalog e c, the (find_head (observed_catalog e c) (rs_document s)), e))"
proof -
  let ?e = "observed_event c s observed at d parsed"
  let ?hs = "if ie_advanced ?e then put_head (the (replay_event ?e (find_head c (rs_document s)))) c else sc_heads c"
  have seq: "next_event_sequence (c\<lparr>sc_heads := hs\<rparr>) x = next_event_sequence c x" for hs x by (simp add: next_event_sequence_def)
  have e: "\<lparr>ie_document = rs_document s, ie_sequence = next_event_sequence c (rs_document s), ie_scope = s, ie_disposition = d,
      ie_parsed = parsed, ie_advanced = ie_advanced ?e, ie_at = at, ie_observed = observed\<rparr> = ?e"
    by (simp add: observed_event_def history_sequence[OF assms(1)])
  have rep: "find_rep (c\<lparr>sc_heads := ?hs\<rparr>) s \<noteq> None" using assms(2) by (auto simp: ready_scope_def find_rep_def)
  have c2: "append_ingest_event ?e (c\<lparr>sc_heads := ?hs\<rparr>) = Inr (observed_catalog ?e c)"
    using rep by (simp add: append_ingest_event_def observed_catalog_def)
  show ?thesis
  proof (cases "at < observed \<or> head_conflict c s observed")
    case True
    then show ?thesis by (auto simp: advance_head_and_event_def advance_head_eq[OF assms(1,2), of _ _ _ parsed] Let_def)
  next
    case False
    have adv: "find_head c (rs_document s) = None \<Longrightarrow> ie_advanced ?e" by (simp add: observed_event_def)
    have h: "find_head (observed_catalog ?e c) (rs_document s) = replay_event ?e (find_head c (rs_document s))"
      using observed_head[of ?e c "rs_document s"] adv by simp
    moreover obtain x where x: "replay_event ?e (find_head c (rs_document s)) = Some x"
      using adv by (cases "find_head c (rs_document s)"; cases "ie_advanced ?e") (auto simp: replay_event_def)
    moreover have "head_valid x"
      using x False history_head(1)[OF assms(1)] by (auto simp: replay_event_def head_valid_def split: if_splits)
    ultimately have "required_document_head (observed_catalog ?e c) (rs_document s) = Inr x"
      by (simp add: required_document_head_def head_from_row_def)
    moreover have "event_from_row ?e = Inr ?e"
      using assms(3) False by (simp add: event_from_row_def ingest_event_valid_def) (simp add: observed_event_def)
    ultimately show ?thesis using False h x c2 unfolding advance_head_and_event_def advance_head_eq[OF assms(1,2), of _ _ _ parsed]
      by (simp add: Let_def seq e)
  qed
qed

lemma history_observed:
  assumes "history_ok c" "ready_scope c s" "(d = D_CACHE_HIT) \<noteq> parsed" "observed \<le> at" "\<not> head_conflict c s observed"
  shows "history_ok (observed_catalog (observed_event c s observed at d parsed) c)"
proof -
  let ?e = "observed_event c s observed at d parsed"
  let ?c = "observed_catalog ?e c"
  have ready: "ready_scope ?c x = ready_scope c x" for x by (simp add: observed_catalog_def)
  have v: "ingest_event_valid ?e" using assms(3,4) by (simp add: ingest_event_valid_def) (simp add: observed_event_def)
  have ev: "doc_events ?c x = doc_events c x @ (if x = rs_document s then [?e] else [])" for x
    by (auto simp: doc_events_def observed_catalog_def)
  have fl: "flag_ok (replay (doc_events c (rs_document s))) ?e"
    using assms(1,5) by (auto simp: flag_ok_def observed_event_def history_ok_def head_conflict_def split: option.splits)
  have hd: "find_head ?c x = (if x = rs_document s then replay_event ?e (find_head c x) else find_head c x)" for x
    using observed_head[of ?e c x] by (simp add: observed_event_def)
  have "distinct (map (rs_document \<circ> dh_scope) (sc_heads ?c))"
    using assms(1) put_head_distinct by (simp add: observed_catalog_def history_ok_def)
  moreover have "\<forall>e\<in>set (sc_events ?c). ingest_event_valid e \<and> ready_scope ?c (ie_scope e)"
    using assms(1,2) v by (auto simp: history_ok_def ready) (auto simp: observed_catalog_def)
  moreover have "map ie_sequence (doc_events ?c x) = [1..<Suc (length (doc_events ?c x))] \<and> flags_ok None (doc_events ?c x) \<and>
      find_head ?c x = replay (doc_events ?c x)" for x
  proof -
    have old: "map ie_sequence (doc_events c x) = [1..<Suc (length (doc_events c x))]" "flags_ok None (doc_events c x)"
      "find_head c x = replay (doc_events c x)" using assms(1) by (simp_all add: history_ok_def)
    show ?thesis
    proof (cases "x = rs_document s")
      case True
      have "ie_sequence ?e = length (doc_events c x) + 1" using True by (simp add: observed_event_def)
      then show ?thesis using old fl True by (simp add: ev hd flags_ok_snoc replay_snoc) (simp add: replay_def)
    next
      case False
      then show ?thesis using old by (simp add: ev hd)
    qed
  qed
  ultimately show ?thesis by (simp add: history_ok_def)
qed

end
