(* ===== verification/Rep_Publish.thy ===== *)
theory Rep_Publish
  imports Rep_History
begin

text \<open>
  The tables a commit writes, computed: the rows its blocks become, their index entries, and under
  which conditions each write goes through.
\<close>

section \<open>Keys of scopes\<close>

definition scopes_ok :: "rep_catalog \<Rightarrow> bool" where
  "scopes_ok c \<longleftrightarrow> distinct (map fst (sc_scopes c)) \<and> distinct (map snd (sc_scopes c))"

lemma scope_key_unique:
  assumes "scopes_ok c" "(k, s) \<in> set (sc_scopes c)"
  shows "(i, s) \<in> set (sc_scopes c) \<longleftrightarrow> i = k" "(k, t) \<in> set (sc_scopes c) \<longleftrightarrow> t = s"
proof -
  have "inj_on fst (set (sc_scopes c))" "inj_on snd (set (sc_scopes c))" using assms(1) by (simp_all add: scopes_ok_def distinct_map)
  then show "(i, s) \<in> set (sc_scopes c) \<longleftrightarrow> i = k" "(k, t) \<in> set (sc_scopes c) \<longleftrightarrow> t = s"
    using assms(2) by (metis inj_onD prod.inject prod.sel(1) prod.sel(2))+
qed

lemma scope_filter:
  assumes "scopes_ok c" "(k, s) \<in> set (sc_scopes c)"
  shows "filter (\<lambda>(_, t). t = s) (sc_scopes c) = [(k, s)]"
proof -
  have "distinct (map snd ks) \<Longrightarrow> (k, s) \<in> set ks \<Longrightarrow> filter (\<lambda>(_, t). t = s) ks = [(k, s)]" for ks :: "(nat \<times> rep_scope) list"
  proof (induction ks)
    case (Cons x ks)
    have "filter (\<lambda>(_, t). t = s) ks = []" if "s \<notin> snd ` set ks" using that by (auto simp: filter_empty_conv image_iff)
    then show ?case using Cons by (cases x) (auto simp: image_iff)
  qed simp
  then show ?thesis using assms by (simp add: scopes_ok_def)
qed

lemma scope_rows_key:
  assumes "scopes_ok c" "(k, s) \<in> set (sc_scopes c)"
  shows "scope_rows c s = filter (\<lambda>b. bw_key b = k) (sc_blocks c)"
  using scope_key_unique(1)[OF assms] by (simp add: scope_rows_def)

section \<open>Rows of a commit\<close>

fun prepared_rows :: "nat \<Rightarrow> nat \<Rightarrow> prepared_block list \<Rightarrow> block_row list" where
  "prepared_rows n k [] = []"
| "prepared_rows n k (p # ps) = row_of_prepared n k p # prepared_rows (Suc n) k ps"

definition index_columns :: "rcanon \<Rightarrow> int \<Rightarrow> prepared_block \<Rightarrow> search_columns" where
  "index_columns R at p = \<lparr>se_zone = kb_zone (pk_block p), se_page = None, se_slide = None,
     se_hash = rk_sha R (case kb_text (pk_block p) of None \<Rightarrow> [] | Some t \<Rightarrow> t), se_at = at\<rparr>"

fun indexed_rows :: "rcanon \<Rightarrow> int \<Rightarrow> nat \<Rightarrow> nat \<Rightarrow> prepared_block list \<Rightarrow> block_row list" where
  "indexed_rows R at n k [] = []"
| "indexed_rows R at n k (p # ps) = (row_of_prepared n k p)\<lparr>bw_search := Some (index_columns R at p)\<rparr> # indexed_rows R at (Suc n) k ps"

fun index_rows :: "nat \<Rightarrow> prepared_block list \<Rightarrow> (nat \<times> pystr) list" where
  "index_rows n [] = []"
| "index_rows n (p # ps) = (n, case kb_text (pk_block p) of None \<Rightarrow> [] | Some t \<Rightarrow> t) # index_rows (Suc n) ps"

definition indexable :: "prepared_block \<Rightarrow> bool" where
  "indexable p \<longleftrightarrow> opt_all (\<lambda>t. length t \<le> max_indexed) (kb_text (pk_block p))"

lemma row_of_prepared_simps [simp]:
  "bw_entry (row_of_prepared n k p) = n" "bw_key (row_of_prepared n k p) = k"
  "bw_ordinal (row_of_prepared n k p) = pk_ordinal p" "bw_block (row_of_prepared n k p) = kb_id (pk_block p)"
  "bw_object (row_of_prepared n k p) = so_id (pk_object p)" "bw_parent (row_of_prepared n k p) = kb_parent (pk_block p)"
  "bw_kind (row_of_prepared n k p) = kb_kind (pk_block p)" "bw_order (row_of_prepared n k p) = kb_order (pk_block p)"
  "bw_start (row_of_prepared n k p) = pk_start p" "bw_end (row_of_prepared n k p) = pk_end p"
  by (simp_all add: row_of_prepared_def)

lemma rows_columns:
  "map bw_entry (prepared_rows n k ps) = [n..<n + length ps]" "map bw_entry (indexed_rows R at n k ps) = [n..<n + length ps]"
  "map fst (index_rows n ps) = [n..<n + length ps]"
  by (induction ps arbitrary: n) (simp_all add: upt_conv_Cons del: upt_Suc)

lemma rows_fields [simp]:
  "map bw_key (prepared_rows n k ps) = map (\<lambda>_. k) ps" "map bw_key (indexed_rows R at n k ps) = map (\<lambda>_. k) ps"
  "map bw_ordinal (prepared_rows n k ps) = map pk_ordinal ps" "map bw_ordinal (indexed_rows R at n k ps) = map pk_ordinal ps"
  "map bw_block (prepared_rows n k ps) = map (kb_id \<circ> pk_block) ps" "map bw_block (indexed_rows R at n k ps) = map (kb_id \<circ> pk_block) ps"
  "map bw_object (prepared_rows n k ps) = map (so_id \<circ> pk_object) ps" "map bw_object (indexed_rows R at n k ps) = map (so_id \<circ> pk_object) ps"
  "length (prepared_rows n k ps) = length ps" "length (indexed_rows R at n k ps) = length ps"
  by (induction ps arbitrary: n) simp_all

lemma in_prepared_rows: "b \<in> set (prepared_rows n k ps) \<Longrightarrow> \<exists>i. \<exists>p\<in>set ps. b = row_of_prepared i k p"
  by (induction ps arbitrary: n) (simp_all, blast)

lemma in_indexed_rows:
  "b \<in> set (indexed_rows R at n k ps) \<Longrightarrow> \<exists>i. \<exists>p\<in>set ps. b = (row_of_prepared i k p)\<lparr>bw_search := Some (index_columns R at p)\<rparr>"
  by (induction ps arbitrary: n) (simp_all, blast)

section \<open>Inserting\<close>

lemma next_id_above: "k \<in> set ks \<Longrightarrow> k < next_id ks"
  by (induction ks) (auto simp: next_id_def)

lemma next_id_snoc: "next_id (ks @ [next_id ks]) = Suc (next_id ks)"
proof -
  have "foldr max ks m = max (foldr max ks 0) m" for m :: nat by (induction ks) simp_all
  from this[of "foldr max ks 0 + 1"] have "foldr max ks (foldr max ks 0 + 1) = foldr max ks 0 + 1" by linarith
  then show ?thesis by (simp add: next_id_def)
qed

definition insertable :: "rep_catalog \<Rightarrow> nat \<Rightarrow> prepared_block \<Rightarrow> bool" where
  "insertable c k p \<longleftrightarrow> pk_ordinal p \<le> 99999 \<and> 1 \<le> pk_start p \<and> pk_start p \<le> pk_end p \<and> object_of c (so_id (pk_object p)) \<noteq> None \<and>
     (\<forall>b\<in>set (sc_blocks c). bw_key b = k \<longrightarrow> bw_ordinal b \<noteq> pk_ordinal p \<and> bw_block b \<noteq> kb_id (pk_block p))"

lemma blocks_constraints_snoc:
  "blocks_constraints (bs @ [b]) \<longleftrightarrow> blocks_constraints bs \<and> (\<forall>x\<in>set bs. bw_entry x \<noteq> bw_entry b \<and>
     (bw_key x = bw_key b \<longrightarrow> bw_ordinal x \<noteq> bw_ordinal b \<and> bw_block x \<noteq> bw_block b))"
  by (auto simp: blocks_constraints_def image_iff)

lemma block_row_check_blocks [simp]:
  "block_row_check (c\<lparr>sc_blocks := bs\<rparr>) = block_row_check c" "block_row_check (c\<lparr>sc_index := is\<rparr>) = block_row_check c"
  by (simp_all add: block_row_check_def fun_eq_iff)

lemma block_row_check_search [simp]: "block_row_check c (b\<lparr>bw_search := e\<rparr>) = block_row_check c b"
  by (simp add: block_row_check_def)

lemma insert_block_eq:
  assumes "scopes_ok c" "(k, s) \<in> set (sc_scopes c)" "blocks_constraints (sc_blocks c)" "list_all (block_row_check c) (sc_blocks c)"
    "insertable c k p"
  defines "b \<equiv> row_of_prepared (next_id (map bw_entry (sc_blocks c))) k p"
  shows "insert_block s p c = Inr (c\<lparr>sc_blocks := sc_blocks c @ [b]\<rparr>) \<and> blocks_constraints (sc_blocks c @ [b]) \<and> block_row_check c b"
proof -
  have "bw_entry x \<noteq> bw_entry b" if "x \<in> set (sc_blocks c)" for x
    using next_id_above[of "bw_entry x" "map bw_entry (sc_blocks c)"] that by (auto simp: b_def)
  then have "blocks_constraints (sc_blocks c @ [b])"
    using assms(3,5) by (auto simp: blocks_constraints_snoc b_def insertable_def)
  moreover have "block_row_check c b" using assms(2,5) by (force simp: block_row_check_def b_def insertable_def)
  ultimately show ?thesis using assms(4) scope_filter[OF assms(1,2)] by (simp add: insert_block_def put_blocks_def b_def)
qed

lemma insert_blocks_eq:
  assumes "scopes_ok c" "(k, s) \<in> set (sc_scopes c)" "blocks_constraints (sc_blocks c)" "list_all (block_row_check c) (sc_blocks c)"
    "list_all (insertable c k) ps" "distinct (map pk_ordinal ps)" "distinct (map (kb_id \<circ> pk_block) ps)"
  defines "bs \<equiv> sc_blocks c @ prepared_rows (next_id (map bw_entry (sc_blocks c))) k ps"
  shows "insert_blocks s ps c = Inr (c\<lparr>sc_blocks := bs\<rparr>) \<and> blocks_constraints bs \<and> list_all (block_row_check c) bs"
  using assms(1-7) unfolding bs_def
proof (induction ps arbitrary: c)
  case (Cons p ps)
  let ?b = "row_of_prepared (next_id (map bw_entry (sc_blocks c))) k p"
  let ?c = "c\<lparr>sc_blocks := sc_blocks c @ [?b]\<rparr>"
  have b: "insert_block s p c = Inr ?c" "blocks_constraints (sc_blocks c @ [?b])" "block_row_check c ?b"
    using insert_block_eq[of c k s p] Cons.prems by simp_all
  have "insertable ?c k q" if "q \<in> set ps" for q
    using Cons.prems(5-7) that by (auto simp: insertable_def list_all_iff image_iff)
  then have "list_all (insertable ?c k) ps" by (simp add: list_all_iff)
  moreover have "scopes_ok ?c" using Cons.prems(1) by (simp add: scopes_ok_def)
  moreover have "list_all (block_row_check ?c) (sc_blocks ?c)" using Cons.prems(4) b(3) by simp
  ultimately have "insert_blocks s ps ?c = Inr (?c\<lparr>sc_blocks := sc_blocks ?c @ prepared_rows (next_id (map bw_entry (sc_blocks ?c))) k ps\<rparr>) \<and>
      blocks_constraints (sc_blocks ?c @ prepared_rows (next_id (map bw_entry (sc_blocks ?c))) k ps) \<and>
      list_all (block_row_check ?c) (sc_blocks ?c @ prepared_rows (next_id (map bw_entry (sc_blocks ?c))) k ps)"
    using Cons.IH[of ?c] Cons.prems(2,6,7) b(2) by simp
  then show ?case using b by (simp add: next_id_snoc)
qed simp

section \<open>Indexing\<close>

lemma constraints_search [simp]:
  "map bw_entry (upd_where q (\<lambda>b. b\<lparr>bw_search := e\<rparr>) bs) = map bw_entry bs"
  "map (\<lambda>b. (bw_key b, bw_ordinal b)) (upd_where q (\<lambda>b. b\<lparr>bw_search := e\<rparr>) bs) = map (\<lambda>b. (bw_key b, bw_ordinal b)) bs"
  "map (\<lambda>b. (bw_key b, bw_block b)) (upd_where q (\<lambda>b. b\<lparr>bw_search := e\<rparr>) bs) = map (\<lambda>b. (bw_key b, bw_block b)) bs"
  by (rule map_upd_where; simp)+

lemma put_blocks_search:
  assumes "blocks_constraints (sc_blocks c)" "list_all (block_row_check c) (sc_blocks c)"
  shows "put_blocks (upd_where q (\<lambda>b. b\<lparr>bw_search := e\<rparr>) (sc_blocks c)) c =
    Inr (c\<lparr>sc_blocks := upd_where q (\<lambda>b. b\<lparr>bw_search := e\<rparr>) (sc_blocks c)\<rparr>)"
  using assms by (auto simp: put_blocks_def blocks_constraints_def list_all_iff set_upd_where block_row_check_def)

lemma upd_where_one:
  "\<forall>x\<in>set xs. \<not> q x \<Longrightarrow> \<forall>y\<in>set ys. \<not> q y \<Longrightarrow> q b \<Longrightarrow> upd_where q f (xs @ b # ys) = xs @ f b # ys"
  by (simp add: upd_where_def map_idI)

lemma filter_one: "\<forall>x\<in>set xs. \<not> q x \<Longrightarrow> \<forall>y\<in>set ys. \<not> q y \<Longrightarrow> q b \<Longrightarrow> filter q (xs @ b # ys) = [b]"
  by simp

lemma find_projection:
  assumes "scopes_ok c" "(k, s) \<in> set (sc_scopes c)" "blocks_constraints (sc_blocks c)" "b \<in> set (sc_blocks c)" "bw_key b = k"
  shows "find (\<lambda>(x, y). x = s \<and> bw_ordinal y = bw_ordinal b) (projections c) = Some (s, b)"
proof -
  let ?rs = "filter (\<lambda>b. bw_key b = k) (sc_blocks c)"
  have "distinct (map (\<lambda>b. (bw_key b, bw_ordinal b)) ?rs)" using assms(3) by (simp add: blocks_constraints_def distinct_map_filter)
  then have "distinct (map bw_ordinal ?rs)" by (auto simp: distinct_map inj_on_def)
  then have one: "find (\<lambda>y. bw_ordinal y = bw_ordinal b) ?rs = Some b" using assms(4,5) by (intro find_unique) auto
  have fp: "find q xs = find q (filter r xs)" if "\<And>x. q x \<Longrightarrow> r x" for q r and xs :: "(rep_scope \<times> block_row) list"
    using that by (induction xs) auto
  have fm: "find (\<lambda>(x, y). x = s \<and> q y) (map (Pair s) ys) = map_option (Pair s) (find q ys)" for q and ys :: "block_row list"
    by (induction ys) auto
  have "distinct (map fst (sc_scopes c))" using assms(1) by (simp add: scopes_ok_def)
  then show ?thesis
    using one by (subst fp[where r = "\<lambda>p. fst p = s"]) (auto simp: projections_scope scope_rows_key[OF assms(1,2)] fm)
qed

lemma search_row_iff:
  assumes "scopes_ok c" "(k, s) \<in> set (sc_scopes c)"
  shows "search_row c s p b \<longleftrightarrow> bw_key b = k \<and> bw_ordinal b = pk_ordinal p \<and> bw_block b = kb_id (pk_block p) \<and>
    bw_kind b = kb_kind (pk_block p) \<and> bw_start b = pk_start p \<and> bw_end b = pk_end p"
  using scope_filter[OF assms] by (simp add: search_row_def)

lemma index_block_eq:
  assumes "scopes_ok c" "(k, s) \<in> set (sc_scopes c)" "blocks_constraints (sc_blocks c)" "list_all (block_row_check c) (sc_blocks c)"
    "sc_blocks c = pre @ row_of_prepared n k p # post"
  shows "index_block R s at p c = (if indexable p
    then Inr (c\<lparr>sc_blocks := pre @ (row_of_prepared n k p)\<lparr>bw_search := Some (index_columns R at p)\<rparr> # post,
      sc_index := sc_index c @ index_rows n [p]\<rparr>) else Inl RepInvalid)"
proof (cases "indexable p")
  case False
  then show ?thesis by (cases "kb_text (pk_block p)") (auto simp: indexable_def opt_all_def index_block_def block_text_for_index_def)
next
  case True
  let ?t = "case kb_text (pk_block p) of None \<Rightarrow> [] | Some t \<Rightarrow> t"
  let ?b = "(row_of_prepared n k p)\<lparr>bw_search := Some (index_columns R at p)\<rparr>"
  let ?c = "c\<lparr>sc_blocks := pre @ ?b # post\<rparr>"
  have "block_text_for_index (kb_text (pk_block p)) = Inr ?t" "length ?t \<le> max_indexed"
    using True by (auto simp: indexable_def opt_all_def block_text_for_index_def split: option.splits)
  then have idx: "index_block R s at p c = insert_search_entry s p (index_columns R at p) ?t c"
    by (simp add: index_block_def indexed_text_hash_def index_columns_def)
  have others: "\<forall>x\<in>set pre. \<not> search_row c s p x" "\<forall>x\<in>set post. \<not> search_row c s p x"
    using assms(3) by (auto simp: search_row_iff[OF assms(1,2)] assms(5) blocks_constraints_def image_iff)
  have self: "search_row c s p (row_of_prepared n k p)" by (simp add: search_row_iff[OF assms(1,2)])
  have one: "filter (search_row c s p) (sc_blocks c) = [row_of_prepared n k p]"
    unfolding assms(5) by (rule filter_one[OF others self])
  have upd: "upd_where (search_row c s p) (\<lambda>b. b\<lparr>bw_search := Some (index_columns R at p)\<rparr>) (sc_blocks c) = pre @ ?b # post"
    unfolding assms(5) by (rule upd_where_one[OF others self])
  have "blocks_constraints (pre @ ?b # post)" using assms(3,5) by (simp add: blocks_constraints_def)
  then have "find (\<lambda>(x, y). x = s \<and> bw_ordinal y = pk_ordinal p) (projections ?c) = Some (s, ?b)"
    using find_projection[of ?c k s ?b] assms(1,2) by (simp add: scopes_ok_def)
  then show ?thesis using True one upd put_blocks_search[OF assms(3,4), of "search_row c s p" "Some (index_columns R at p)"]
    by (simp add: idx insert_search_entry_def)
qed

lemma index_blocks_eq:
  assumes "scopes_ok c" "(k, s) \<in> set (sc_scopes c)" "blocks_constraints (sc_blocks c)" "list_all (block_row_check c) (sc_blocks c)"
    "sc_blocks c = pre @ prepared_rows n k ps"
  shows "index_blocks R s at ps c = (if list_all indexable ps
    then Inr (c\<lparr>sc_blocks := pre @ indexed_rows R at n k ps, sc_index := sc_index c @ index_rows n ps\<rparr>) else Inl RepInvalid)"
  using assms
proof (induction ps arbitrary: c pre n)
  case Nil
  then show ?case by simp
next
  case (Cons p ps)
  let ?b = "(row_of_prepared n k p)\<lparr>bw_search := Some (index_columns R at p)\<rparr>"
  let ?c = "c\<lparr>sc_blocks := pre @ ?b # prepared_rows (Suc n) k ps, sc_index := sc_index c @ index_rows n [p]\<rparr>"
  have step: "index_block R s at p c = (if indexable p then Inr ?c else Inl RepInvalid)"
    using index_block_eq[OF Cons.prems(1-4)] Cons.prems(5) by simp
  have "blocks_constraints (sc_blocks ?c)" "list_all (block_row_check ?c) (sc_blocks ?c)"
    using Cons.prems(3,4) unfolding Cons.prems(5) by (simp_all add: blocks_constraints_def)
  then have "index_blocks R s at ps ?c = (if list_all indexable ps
      then Inr (?c\<lparr>sc_blocks := (pre @ [?b]) @ indexed_rows R at (Suc n) k ps, sc_index := sc_index ?c @ index_rows (Suc n) ps\<rparr>) else Inl RepInvalid)"
    using Cons.prems(1,2) by (intro Cons.IH) (simp_all add: scopes_ok_def)
  then show ?case using step by simp
qed

end
