(* ===== verification/Rep_System.thy ===== *)
theory Rep_System
  imports Rep_Publish
begin

text \<open>
  The invariant of the ingestion tables and the effect of a commit: every transaction keeps the
  invariant, and a commit by the holder of a lease succeeds under exactly known conditions.
\<close>

section \<open>The invariant\<close>

definition sources_ok :: "rep_catalog \<Rightarrow> bool" where
  "sources_ok c \<longleftrightarrow> distinct (map so_id (sc_objects c)) \<and> documents_constraints (sc_documents c) \<and>
     (\<forall>d\<in>set (sc_documents c). document_from_row d = Inr d) \<and>
     distinct (map (\<lambda>r. (vr_document r, vr_version r)) (sc_versions c)) \<and>
     (\<forall>r\<in>set (sc_versions c). vr_document r \<in> set (map ld_id (sc_documents c)) \<and>
        (\<exists>w. load_version c (vr_document r) (vr_version r) = Inr (Some w))) \<and>
     (\<forall>f\<in>set (sc_references c). object_of c (rf_object f) \<noteq> None \<and> find_version c (rf_document f) (rf_version f) \<noteq> None)"

definition index_ok :: "rep_catalog \<Rightarrow> bool" where
  "index_ok c \<longleftrightarrow> map fst (sc_index c) = map bw_entry (sc_blocks c) \<and> (\<forall>b\<in>set (sc_blocks c). bw_search b \<noteq> None)"

definition reps_ok :: "canon \<Rightarrow> rep_catalog \<Rightarrow> bool" where
  "reps_ok C c \<longleftrightarrow> distinct (map rw_scope (sc_reps c)) \<and> distinct (held_tokens (sc_reps c)) \<and>
     list_all rep_row_check (sc_reps c) \<and> list_all (rep_references_ok c) (sc_reps c) \<and> scopes_ok c \<and>
     set (map snd (sc_scopes c)) = set (map rw_scope (sc_reps c)) \<and>
     blocks_constraints (sc_blocks c) \<and> list_all (block_row_check c) (sc_blocks c) \<and> index_ok c \<and>
     (\<forall>r\<in>set (sc_reps c). \<exists>a. representation_aggregate C c r = Inr a)"

definition rep_inv :: "canon \<Rightarrow> rep_catalog \<Rightarrow> bool" where
  "rep_inv C c \<longleftrightarrow> sources_ok c \<and> reps_ok C c \<and> history_ok c"

section \<open>Rows\<close>

lemma find_rep_Some: "find_rep c s = Some r \<Longrightarrow> r \<in> set (sc_reps c) \<and> rw_scope r = s"
  by (auto simp: find_rep_def dest: find_in)

lemma find_rep_unique:
  assumes "reps_ok C c" "r \<in> set (sc_reps c)"
  shows "find_rep c (rw_scope r) = Some r"
  using assms find_unique[of rw_scope "sc_reps c" r] by (simp add: find_rep_def reps_ok_def)

lemma find_rep_None: "find_rep c s = None \<longleftrightarrow> s \<notin> set (map rw_scope (sc_reps c))"
  by (auto simp: find_rep_def find_None_iff)

lemma aggregate_InrE:
  assumes "representation_aggregate C c r = Inr a"
  shows "ag_rep a = representation_of c r" "representation_valid C (representation_of c r)" "ag_blocks a = rep_blocks_of c (rw_scope r)"
    "list_all rep_block_valid (ag_blocks a)" "aggregate_valid a" "sorted_unique (rw_warnings r)"
  using assms by (auto simp: representation_aggregate_def representation_from_row_def sbind_Inr_iff Let_def
      representation_of_def[of c r] split: if_splits)

lemma representation_of_simps [simp]:
  "rp_scope (representation_of c r) = rw_scope r" "rp_recipe (representation_of c r) = rw_recipe r"
  "rp_state (representation_of c r) = rw_state r" "rp_attempts (representation_of c r) = rw_attempts r"
  "rp_revision (representation_of c r) = rw_revision r" "rp_owner (representation_of c r) = rw_owner r"
  "rp_lease (representation_of c r) = rw_lease r" "rp_failure (representation_of c r) = rw_failure r"
  "rp_manifest (representation_of c r) = Option.bind (rw_manifest r) (object_of c)"
  "rp_native (representation_of c r) = Option.bind (rw_native r) (object_of c)"
  "rp_blocks (representation_of c r) = rw_blocks r" "rp_warnings (representation_of c r) = rw_warnings r"
  "rp_created (representation_of c r) = rw_created r" "rp_updated (representation_of c r) = rw_updated r"
  "rp_ready (representation_of c r) = rw_ready r"
  by (simp_all add: representation_of_def)

lemma row_loads:
  assumes "reps_ok C c" "find_rep c s = Some r"
  obtains a where "required_representation C c s = Inr a" "representation_aggregate C c r = Inr a"
    "ag_rep a = representation_of c r" "ag_blocks a = rep_blocks_of c s"
proof -
  have r: "r \<in> set (sc_reps c)" "rw_scope r = s" using find_rep_Some[OF assms(2)] by simp_all
  then obtain a where a: "representation_aggregate C c r = Inr a" using assms(1) by (auto simp: reps_ok_def)
  then show ?thesis using that[of a] aggregate_InrE[OF a] assms(2) r
    by (simp add: required_representation_def required_rep_row_def)
qed

text \<open>Only ready representations have blocks.\<close>

lemma no_rows:
  assumes "reps_ok C c" "find_rep c s = Some r" "rw_state r \<noteq> READY"
  shows "scope_rows c s = []"
proof -
  obtain a where a: "representation_aggregate C c r = Inr a" "ag_blocks a = rep_blocks_of c s" "ag_rep a = representation_of c r"
    using row_loads[OF assms(1,2)] by metis
  then have "rep_blocks_of c s = []" using aggregate_InrE(5)[OF a(1)] assms(3) by (simp add: aggregate_valid_def)
  moreover have sk: "distinct (map fst (sc_scopes c))" and ck: "list_all (block_row_check c) (sc_blocks c)"
    using assms(1) by (simp_all add: reps_ok_def scopes_ok_def)
  moreover have "with_object c (s, b) \<noteq> None" if "b \<in> set (scope_rows c s)" for b
    using that ck by (auto simp: scope_rows_def with_object_def list_all_iff block_row_check_def)
  ultimately have "\<forall>b\<in>set (scope_rows c s). False"
    by (auto simp: rep_blocks_of_rows[OF sk] map_filter_def filter_empty_conv)
  then show ?thesis by (cases "scope_rows c s") auto
qed

lemma scope_key_exists:
  assumes "reps_ok C c" "find_rep c s = Some r"
  obtains k where "(k, s) \<in> set (sc_scopes c)"
proof -
  have "s \<in> set (map snd (sc_scopes c))" using assms find_rep_Some[OF assms(2)] by (auto simp: reps_ok_def)
  then show ?thesis using that by force
qed

section \<open>Frames\<close>

lemma find_version_cong: "sc_versions c' = sc_versions c \<Longrightarrow> find_version c' = find_version c"
  by (simp add: find_version_def fun_eq_iff)

lemma load_version_cong:
  assumes "keeps_objects c c'" "sources_ok c" "sc_versions c' = sc_versions c" "sc_references c' = sc_references c"
    "find_version c d v \<noteq> None"
  shows "load_version c' d v = load_version c d v"
proof -
  have fv: "find_version c' d v = find_version c d v" by (simp add: find_version_def assms(3))
  obtain r where r: "find_version c d v = Some r" using assms(5) by auto
  then have "r \<in> set (sc_versions c)" "vr_document r = d" "vr_version r = v" by (auto simp: find_version_def dest: find_in)
  then obtain w where "load_version c d v = Inr (Some w)" using assms(2) by (auto simp: sources_ok_def)
  then obtain x where x: "object_of c (vr_source r) = Some x" using r by (auto simp: load_version_def split: option.splits)
  have "version_references c' d v = version_references c d v" unfolding version_references_def assms(4)
  proof (rule map_filter_cong)
    fix f assume "f \<in> set (sort_key (\<lambda>f. (rf_role f, rf_ordinal f)) (filter (\<lambda>f. rf_document f = d \<and> rf_version f = v) (sc_references c)))"
    then have "object_of c (rf_object f) \<noteq> None" using assms(2) by (auto simp: sources_ok_def)
    then have "object_of c' (rf_object f) = object_of c (rf_object f)" using keeps_objectsD[OF assms(1)] by auto
    then show "map_option (object_ref_of_row f) (object_of c' (rf_object f)) = map_option (object_ref_of_row f) (object_of c (rf_object f))" by simp
  qed
  then show ?thesis using r fv x keeps_objectsD[OF assms(1) x] by (simp add: load_version_def)
qed

lemma version_found:
  assumes "sources_ok c" "r \<in> set (sc_versions c)"
  shows "find_version c (vr_document r) (vr_version r) = Some r"
  using assms find_unique[of "\<lambda>r. (vr_document r, vr_version r)" "sc_versions c" r]
  by (simp add: sources_ok_def find_version_def)

lemma sources_frame:
  assumes "sources_ok c" "keeps_objects c c'" "sc_documents c' = sc_documents c" "sc_versions c' = sc_versions c"
    "sc_references c' = sc_references c" "distinct (map so_id (sc_objects c'))"
  shows "sources_ok c'"
proof -
  have "load_version c' (vr_document r) (vr_version r) = load_version c (vr_document r) (vr_version r)" if "r \<in> set (sc_versions c)" for r
    using load_version_cong[OF assms(2,1,4,5)] version_found[OF assms(1) that] by simp
  moreover have "object_of c' (rf_object f) \<noteq> None" if "f \<in> set (sc_references c)" for f
    using assms(1) that keeps_objectsD[OF assms(2)] by (fastforce simp: sources_ok_def)
  ultimately show ?thesis using assms(1,3-6) find_version_cong[OF assms(4)] by (simp add: sources_ok_def)
qed

definition keeps_versions :: "rep_catalog \<Rightarrow> rep_catalog \<Rightarrow> bool" where
  "keeps_versions c c' \<longleftrightarrow> (\<forall>d v. find_version c d v \<noteq> None \<longrightarrow> find_version c' d v \<noteq> None)"

lemma keeps_versions_same: "sc_versions c' = sc_versions c \<Longrightarrow> keeps_versions c c'"
  by (simp add: keeps_versions_def find_version_def)

lemma checks_frame:
  assumes "keeps_objects c c'"
  shows "rep_references_ok c r \<Longrightarrow> keeps_versions c c' \<Longrightarrow> rep_references_ok c' r"
    and "block_row_check c b \<Longrightarrow> set (map fst (sc_scopes c)) \<subseteq> set (map fst (sc_scopes c')) \<Longrightarrow> block_row_check c' b"
proof -
  have k: "object_of c i \<noteq> None \<Longrightarrow> object_of c' i \<noteq> None" for i using keeps_objectsD[OF assms] by auto
  have "opt_all (\<lambda>i. object_of c i \<noteq> None) x \<Longrightarrow> opt_all (\<lambda>i. object_of c' i \<noteq> None) x" for x
    using k by (cases x) (auto simp: opt_all_def)
  then show "rep_references_ok c r \<Longrightarrow> keeps_versions c c' \<Longrightarrow> rep_references_ok c' r"
    unfolding rep_references_ok_def keeps_versions_def by blast
  show "block_row_check c b \<Longrightarrow> set (map fst (sc_scopes c)) \<subseteq> set (map fst (sc_scopes c')) \<Longrightarrow> block_row_check c' b"
    using k[of "bw_object b"] by (auto simp: block_row_check_def)
qed

lemma reps_frame:
  assumes "reps_ok C c" "keeps_objects c c'" "keeps_versions c c'" "sc_reps c' = sc_reps c"
    "sc_scopes c' = sc_scopes c" "sc_blocks c' = sc_blocks c" "sc_index c' = sc_index c"
  shows "reps_ok C c'"
proof -
  have sk: "scopes_ok c'" using assms(1,5) by (simp add: reps_ok_def scopes_ok_def)
  have "representation_aggregate C c' r = representation_aggregate C c r" if "r \<in> set (sc_reps c)" for r
  proof (rule aggregate_cong[OF assms(2)])
    show "rep_references_ok c r" using assms(1) that by (simp add: reps_ok_def list_all_iff)
    show "rep_blocks_of c' (rw_scope r) = rep_blocks_of c (rw_scope r)"
      using assms(1,5,6) sk by (intro rep_blocks_of_cong[OF assms(2)]) (simp_all add: reps_ok_def scopes_ok_def scope_rows_def)
  qed
  then show ?thesis using assms(1,4-7) sk checks_frame[OF assms(2)] assms(3)
    by (simp add: reps_ok_def list_all_iff index_ok_def)
qed

text \<open>Changing one row: the table constraints are checked, and the changed row is read back.\<close>

lemma find_upd_scope:
  assumes "\<And>r. rw_scope (f r) = rw_scope r"
  shows "find (\<lambda>r. rw_scope r = t) (upd_where (\<lambda>r. rw_scope r = s) f rs) =
    map_option (\<lambda>r. if t = s then f r else r) (find (\<lambda>r. rw_scope r = t) rs)"
  by (induction rs) (auto simp: upd_where_def assms)

lemma update_rep_cases:
  assumes "update_rep s f c = Inr c'" "\<And>r. rw_scope (f r) = rw_scope r"
  shows "c' = c\<lparr>sc_reps := upd_where (\<lambda>r. rw_scope r = s) f (sc_reps c)\<rparr>"
    "find_rep c' t = map_option (\<lambda>r. if t = s then f r else r) (find_rep c t)"
    "set (map rw_scope (sc_reps c')) = set (map rw_scope (sc_reps c))"
    "distinct (map rw_scope (sc_reps c')) \<and> distinct (held_tokens (sc_reps c')) \<and> list_all rep_row_check (sc_reps c') \<and>
     list_all (rep_references_ok c') (sc_reps c')"
proof -
  show c': "c' = c\<lparr>sc_reps := upd_where (\<lambda>r. rw_scope r = s) f (sc_reps c)\<rparr>"
    using assms(1) by (simp add: update_rep_def put_reps_def split: if_splits)
  then show "find_rep c' t = map_option (\<lambda>r. if t = s then f r else r) (find_rep c t)"
    using find_upd_scope[OF assms(2)] by (simp add: find_rep_def)
  have "map rw_scope (sc_reps c') = map rw_scope (sc_reps c)" using c' map_upd_where[of rw_scope f] assms(2) by simp
  then show "set (map rw_scope (sc_reps c')) = set (map rw_scope (sc_reps c))" by (simp del: set_map)
  have "rep_references_ok c' = rep_references_ok c" by (simp add: c' rep_references_ok_def find_version_def fun_eq_iff)
  then show "distinct (map rw_scope (sc_reps c')) \<and> distinct (held_tokens (sc_reps c')) \<and> list_all rep_row_check (sc_reps c') \<and>
     list_all (rep_references_ok c') (sc_reps c')"
    using assms(1) c' by (auto simp: update_rep_def put_reps_def split: if_splits)
qed

lemma same_tables_aggregate:
  assumes "sc_objects c' = sc_objects c" "sc_scopes c' = sc_scopes c" "sc_blocks c' = sc_blocks c"
  shows "representation_aggregate C c' r = representation_aggregate C c r"
proof -
  have o: "object_of c' = object_of c" using assms(1) by (rule object_of_cong)
  have "with_object c' = with_object c" by (simp add: with_object_def o fun_eq_iff)
  then have "rep_blocks_of c' s = rep_blocks_of c s" for s by (simp add: rep_blocks_of_def projections_def assms)
  moreover have "representation_of c' r = representation_of c r" by (simp add: representation_of_def o)
  ultimately show ?thesis by (simp add: representation_aggregate_def representation_from_row_def)
qed

lemma update_rep_ok:
  assumes "reps_ok C c" "update_rep s f c = Inr c'" "\<And>r. rw_scope (f r) = rw_scope r" "required_representation C c' s = Inr a"
  shows "reps_ok C c'"
proof -
  note u = update_rep_cases[OF assms(2,3)]
  have same: "representation_aggregate C c' r = representation_aggregate C c r" for r by (rule same_tables_aggregate) (simp_all add: u(1))
  have "\<exists>a. representation_aggregate C c' r = Inr a" if r: "r \<in> set (sc_reps c')" for r
  proof (cases "rw_scope r = s")
    case True
    then have "find_rep c' s = Some r" using u(4) r find_unique[of rw_scope "sc_reps c'" r] by (simp add: find_rep_def)
    then show ?thesis using assms(4) by (auto simp: required_representation_def required_rep_row_def)
  next
    case False
    then have "r \<in> set (sc_reps c)" using r by (auto simp: u(1) set_upd_where assms(3) split: if_splits)
    then show ?thesis using assms(1) by (simp add: same reps_ok_def)
  qed
  moreover have "block_row_check c' = block_row_check c" by (simp add: u(1) block_row_check_def fun_eq_iff)
  ultimately show ?thesis using assms(1) u(3,4) by (simp add: reps_ok_def) (simp add: u(1) scopes_ok_def index_ok_def)
qed

lemma update_rep_inv:
  assumes "rep_inv C c" "update_rep s f c = Inr c'" "\<And>r. rw_scope (f r) = rw_scope r" "required_representation C c' s = Inr a"
    "\<not> ready_scope c s"
  shows "rep_inv C c'"
proof -
  note u = update_rep_cases[OF assms(2,3)]
  have "ready_scope c' t" if "ready_scope c t" for t using that assms(5) u(2)[of t] by (auto simp: ready_scope_def)
  moreover have "sc_heads c' = sc_heads c" "sc_events c' = sc_events c" using u(1) by simp_all
  ultimately have "history_ok c'" using assms(1) history_same[of c c'] by (auto simp: rep_inv_def)
  moreover have "sources_ok c'"
  proof (rule sources_frame[of c])
    show "sources_ok c" using assms(1) by (simp add: rep_inv_def)
    then show "distinct (map so_id (sc_objects c'))" by (simp add: u(1) sources_ok_def)
    show "keeps_objects c c'" by (rule keeps_objects_same) (simp add: u(1))
  qed (simp_all add: u(1))
  moreover have "reps_ok C c'" using assms(1) update_rep_ok[OF _ assms(2,3,4)] by (simp add: rep_inv_def)
  ultimately show ?thesis by (simp add: rep_inv_def)
qed

end
