(* ===== verification/Rep_Commit.thy ===== *)
theory Rep_Commit
  imports Rep_System
begin

text \<open>
  The effect of a commit.  In a consistent catalog the holder of a lease who commits a valid aggregate
  fails only on object lengths, a text that is too long for the index, a time before the creation of the
  representation, or an observation the head contradicts; otherwise the tables are exactly extended by
  the aggregate, the header becomes ready and the observation is recorded.
\<close>

section \<open>A valid aggregate\<close>

lemma ready_commitD:
  assumes "ready_commit_valid R m"
  shows "\<forall>p\<in>set (cm_blocks m). prepared_block_valid R p" "map pk_ordinal (cm_blocks m) = [0..<length (cm_blocks m)]"
    "distinct (map (kb_id \<circ> pk_block) (cm_blocks m))" "length (cm_blocks m) \<le> max_blocks" "sorted_unique (cm_warnings m)"
    "parser_recipe_valid (cm_recipe m)" "list_all machine_token (cm_warnings m)" "cm_observed m \<le> cm_ready m"
    "representation_id_for (rk_canon R) (cm_recipe m) (rs_version (cm_scope m)) = rs_representation (cm_scope m)"
    "\<forall>p\<in>set (cm_blocks m). kb_scope (pk_block p) = cm_scope m"
  using assms by (simp_all add: ready_commit_valid_def Let_def list_all_iff)

lemma prepared_bounds:
  assumes "ready_commit_valid R m" "p \<in> set (cm_blocks m)"
  shows "pk_ordinal p \<le> 99999" "1 \<le> pk_start p" "pk_start p \<le> pk_end p" "kb_parent (pk_block p) \<noteq> Some (kb_id (pk_block p))"
    "pk_ordinal p < max_blocks" "1 \<le> pk_end p"
  using ready_commitD(1)[OF assms(1)] assms(2)
  by (auto simp: prepared_block_valid_def max_blocks_def canonical_block_valid_def)

section \<open>The tables after a commit\<close>

definition commit_objects :: "ready_commit \<Rightarrow> stored_object list" where
  "commit_objects m = cm_manifest_object m # cm_native m # map pk_object (cm_blocks m)"

text \<open>\<open>c1\<close> is the catalog with the objects of the commit.\<close>

definition ready_tables :: "rcanon \<Rightarrow> ready_commit \<Rightarrow> pystr \<Rightarrow> nat \<Rightarrow> rep_catalog \<Rightarrow> rep_catalog" where
  "ready_tables R m h k c1 = (let n = next_id (map bw_entry (sc_blocks c1)) in c1\<lparr>
     sc_blocks := sc_blocks c1 @ indexed_rows R (cm_ready m) n k (cm_blocks m),
     sc_index := sc_index c1 @ index_rows n (cm_blocks m),
     sc_reps := upd_where (\<lambda>r. rw_scope r = cm_scope m) (ready_rep h m) (sc_reps c1)\<rparr>)"

lemma ready_rep_simps [simp]:
  "rw_scope (ready_rep h m r) = rw_scope r" "rw_state (ready_rep h m r) = READY" "rw_token (ready_rep h m r) = None"
  "rw_recipe (ready_rep h m r) = rw_recipe r" "rw_blocks (ready_rep h m r) = length (cm_blocks m)"
  "rw_warnings (ready_rep h m r) = cm_warnings m" "rw_created (ready_rep h m r) = rw_created r"
  "rw_attempts (ready_rep h m r) = rw_attempts r" "rw_revision (ready_rep h m r) = rw_revision r + 1"
  "rw_last_token (ready_rep h m r) = Some h" "rw_updated (ready_rep h m r) = cm_ready m"
  "rw_manifest (ready_rep h m r) = Some (so_id (cm_manifest_object m))" "rw_native (ready_rep h m r) = Some (so_id (cm_native m))"
  "rw_owner (ready_rep h m r) = None" "rw_lease (ready_rep h m r) = None" "rw_failure (ready_rep h m r) = None"
  "rw_ready (ready_rep h m r) = Some (cm_ready m)"
  by (simp_all add: ready_rep_def)

lemma sorted_rows: "map pk_ordinal ps = [i..<i + length ps] \<Longrightarrow> sort_key bw_ordinal (indexed_rows R at n k ps) = indexed_rows R at n k ps"
  by (intro sort_key_id_if_sorted) simp

lemma indexed_blocks:
  assumes "\<forall>p\<in>set ps. object_of c (so_id (pk_object p)) = Some (pk_object p)"
  shows "List.map_filter (\<lambda>b. with_object c (s, b)) (indexed_rows R at n k ps) = map (expected_block s) ps"
  using assms by (induction ps arbitrary: n)
    (simp_all add: List.map_filter_simps with_object_def block_of_row_def expected_block_def)

lemma tokens_upd:
  assumes "distinct (held_tokens rs)" "\<And>r. p r \<Longrightarrow> rw_token (f r) = None"
  shows "distinct (held_tokens (upd_where p f rs))" "set (held_tokens (upd_where p f rs)) \<subseteq> set (held_tokens rs)"
proof -
  have "set (held_tokens (upd_where p f rs)) \<subseteq> set (held_tokens rs) \<and> (distinct (held_tokens rs) \<longrightarrow> distinct (held_tokens (upd_where p f rs)))"
    by (induction rs) (auto simp: held_tokens_def upd_where_def List.map_filter_simps assms(2) split: option.splits)
  then show "distinct (held_tokens (upd_where p f rs))" "set (held_tokens (upd_where p f rs)) \<subseteq> set (held_tokens rs)"
    using assms(1) by blast+
qed

section \<open>Each write goes through\<close>

text \<open>A commit of a representation that is not ready, after its objects are registered.\<close>

definition commit_setting :: "rcanon \<Rightarrow> ready_commit \<Rightarrow> rep_row \<Rightarrow> nat \<Rightarrow> rep_catalog \<Rightarrow> rep_catalog \<Rightarrow> bool" where
  "commit_setting R m r k c c1 \<longleftrightarrow> rep_inv (rk_canon R) c \<and> ready_commit_valid R m \<and> find_rep c (cm_scope m) = Some r \<and>
     rw_state r \<noteq> READY \<and> rw_recipe r = cm_recipe m \<and> save_objects (commit_objects m) c = Inr c1 \<and>
     (k, cm_scope m) \<in> set (sc_scopes c)"

lemma setting_objects:
  assumes "commit_setting R m r k c c1"
  obtains ys where "c1 = c\<lparr>sc_objects := sc_objects c @ ys\<rparr>" "keeps_objects c c1"
    "\<forall>x\<in>set (commit_objects m). object_of c1 (so_id x) = Some x" "sources_ok c1" "reps_ok (rk_canon R) c1"
    "find_rep c1 = find_rep c"
proof -
  have c: "save_objects (commit_objects m) c = Inr c1" "sources_ok c" "reps_ok (rk_canon R) c"
    using assms by (simp_all add: commit_setting_def rep_inv_def)
  obtain ys where y: "c1 = c\<lparr>sc_objects := sc_objects c @ ys\<rparr>" "keeps_objects c c1"
    "\<forall>x\<in>set (commit_objects m). object_of c1 (so_id x) = Some x"
    "distinct (map so_id (sc_objects c)) \<longrightarrow> distinct (map so_id (sc_objects c1))"
    using save_objects_frame[OF c(1)] by metis
  have "distinct (map so_id (sc_objects c1))" using y(4) c(2) by (simp add: sources_ok_def)
  then have "sources_ok c1" by (intro sources_frame[OF c(2) y(2)]) (simp_all add: y(1))
  moreover have "reps_ok (rk_canon R) c1" by (rule reps_frame[OF c(3) y(2)]) (simp_all add: y(1) keeps_versions_same)
  moreover have "find_rep c1 = find_rep c" by (simp add: y(1) find_rep_def fun_eq_iff)
  ultimately show ?thesis using that y(1-3) by blast
qed

lemma setting_insertable:
  assumes "commit_setting R m r k c c1"
  shows "scopes_ok c1" "(k, cm_scope m) \<in> set (sc_scopes c1)" "blocks_constraints (sc_blocks c1)"
    "list_all (block_row_check c1) (sc_blocks c1)" "list_all (insertable c1 k) (cm_blocks m)"
    "\<forall>b\<in>set (sc_blocks c1). bw_key b \<noteq> k"
proof -
  obtain ys where y: "c1 = c\<lparr>sc_objects := sc_objects c @ ys\<rparr>" "\<forall>x\<in>set (commit_objects m). object_of c1 (so_id x) = Some x"
    "reps_ok (rk_canon R) c1" "find_rep c1 = find_rep c" using setting_objects[OF assms] by metis
  show sk: "scopes_ok c1" and "blocks_constraints (sc_blocks c1)" "list_all (block_row_check c1) (sc_blocks c1)"
    using y(3) by (simp_all add: reps_ok_def)
  show k: "(k, cm_scope m) \<in> set (sc_scopes c1)" using assms by (simp add: commit_setting_def y(1))
  have "scope_rows c1 (cm_scope m) = []" using no_rows[OF y(3)] assms y(4) by (simp add: commit_setting_def)
  then show none: "\<forall>b\<in>set (sc_blocks c1). bw_key b \<noteq> k" using scope_rows_key[OF sk k] by (simp add: filter_empty_conv)
  have "ready_commit_valid R m" using assms by (simp add: commit_setting_def)
  then show "list_all (insertable c1 k) (cm_blocks m)"
    using none y(2) prepared_bounds by (auto simp: list_all_iff insertable_def commit_objects_def)
qed

lemma setting_insert:
  assumes "commit_setting R m r k c c1"
  defines "n \<equiv> next_id (map bw_entry (sc_blocks c1))"
  defines "c2 \<equiv> c1\<lparr>sc_blocks := sc_blocks c1 @ prepared_rows n k (cm_blocks m)\<rparr>"
  shows "insert_blocks (cm_scope m) (cm_blocks m) c1 = Inr c2"
    and "index_blocks R (cm_scope m) (cm_ready m) (cm_blocks m) c2 = (if list_all indexable (cm_blocks m)
      then Inr (c1\<lparr>sc_blocks := sc_blocks c1 @ indexed_rows R (cm_ready m) n k (cm_blocks m),
        sc_index := sc_index c1 @ index_rows n (cm_blocks m)\<rparr>) else Inl RepInvalid)"
    and "blocks_constraints (sc_blocks c1 @ prepared_rows n k (cm_blocks m))"
    and "list_all (block_row_check c1) (sc_blocks c1 @ prepared_rows n k (cm_blocks m))"
proof -
  note i = setting_insertable[OF assms(1)]
  have v: "ready_commit_valid R m" using assms(1) by (simp add: commit_setting_def)
  then have "distinct (map pk_ordinal (cm_blocks m))" "distinct (map (kb_id \<circ> pk_block) (cm_blocks m))"
    using ready_commitD(2,3) by simp_all
  from insert_blocks_eq[OF i(1-5) this]
  show ins: "insert_blocks (cm_scope m) (cm_blocks m) c1 = Inr c2" and bc: "blocks_constraints (sc_blocks c1 @ prepared_rows n k (cm_blocks m))"
    and ch: "list_all (block_row_check c1) (sc_blocks c1 @ prepared_rows n k (cm_blocks m))" by (simp_all add: n_def c2_def)
  have "scopes_ok c2" "(k, cm_scope m) \<in> set (sc_scopes c2)" "blocks_constraints (sc_blocks c2)"
    "list_all (block_row_check c2) (sc_blocks c2)" using i(1,2) bc ch by (simp_all add: c2_def scopes_ok_def)
  from index_blocks_eq[OF this, of "sc_blocks c1" n "cm_blocks m" R "cm_ready m"]
  show "index_blocks R (cm_scope m) (cm_ready m) (cm_blocks m) c2 = (if list_all indexable (cm_blocks m)
      then Inr (c1\<lparr>sc_blocks := sc_blocks c1 @ indexed_rows R (cm_ready m) n k (cm_blocks m),
        sc_index := sc_index c1 @ index_rows n (cm_blocks m)\<rparr>) else Inl RepInvalid)" by (simp add: c2_def)
qed

lemma setting_update:
  assumes "commit_setting R m r k c c1"
  defines "n \<equiv> next_id (map bw_entry (sc_blocks c1))"
  defines "c3 \<equiv> c1\<lparr>sc_blocks := sc_blocks c1 @ indexed_rows R (cm_ready m) n k (cm_blocks m),
        sc_index := sc_index c1 @ index_rows n (cm_blocks m)\<rparr>"
  shows "update_rep (cm_scope m) (ready_rep h m) c3 = Inr (ready_tables R m h k c1)"
proof -
  obtain ys where y: "c1 = c\<lparr>sc_objects := sc_objects c @ ys\<rparr>" "\<forall>x\<in>set (commit_objects m). object_of c1 (so_id x) = Some x"
    "reps_ok (rk_canon R) c1" "find_rep c1 = find_rep c" using setting_objects[OF assms(1)] by metis
  let ?rs = "upd_where (\<lambda>r. rw_scope r = cm_scope m) (ready_rep h m) (sc_reps c1)"
  have v: "ready_commit_valid R m" and r: "find_rep c1 (cm_scope m) = Some r" and rc: "rw_recipe r = cm_recipe m"
    using assms(1) y(4) by (simp_all add: commit_setting_def)
  have ro: "rep_references_ok c3 = rep_references_ok c1"
    by (simp add: c3_def rep_references_ok_def find_version_def object_of_def fun_eq_iff)
  have "map rw_scope ?rs = map rw_scope (sc_reps c1)" by simp
  then have d: "distinct (map rw_scope ?rs)" using y(3) by (simp add: reps_ok_def del: map_upd_where)
  have t: "distinct (held_tokens ?rs)" using y(3) by (intro tokens_upd) (simp_all add: reps_ok_def)
  have obj: "object_of c1 (so_id (cm_manifest_object m)) \<noteq> None" "object_of c1 (so_id (cm_native m)) \<noteq> None"
    using y(2) by (simp_all add: commit_objects_def)
  have rows: "rep_row_check x \<and> rep_references_ok c1 x" if "x \<in> set (sc_reps c1)" for x
    using y(3) that by (simp add: reps_ok_def list_all_iff)
  have new: "rep_row_check (ready_rep h m x) \<and> rep_references_ok c1 (ready_rep h m x)" if "x \<in> set (sc_reps c1)" for x
    using rows[OF that] ready_commitD(4)[OF v] obj
    by (simp add: rep_row_check_def shape_check_def rep_references_ok_def opt_all_def max_blocks_def)
  have "list_all rep_row_check ?rs" "list_all (rep_references_ok c3) ?rs"
    using rows new by (auto simp: list_all_iff set_upd_where ro split: if_splits)
  then show ?thesis using d t by (simp add: update_rep_def put_reps_def c3_def ready_tables_def n_def Let_def)
qed

section \<open>Reading the aggregate back\<close>

lemma ready_tables_more [simp]:
  "object_of (ready_tables R m h k c1) = object_of c1" "sc_scopes (ready_tables R m h k c1) = sc_scopes c1"
  "sc_heads (ready_tables R m h k c1) = sc_heads c1" "sc_events (ready_tables R m h k c1) = sc_events c1"
  "sc_versions (ready_tables R m h k c1) = sc_versions c1" "sc_objects (ready_tables R m h k c1) = sc_objects c1"
  "sc_documents (ready_tables R m h k c1) = sc_documents c1" "sc_references (ready_tables R m h k c1) = sc_references c1"
  by (simp_all add: ready_tables_def Let_def object_of_def fun_eq_iff)

lemma ready_tables_rep:
  "find_rep (ready_tables R m h k c1) t = map_option (\<lambda>r. if t = cm_scope m then ready_rep h m r else r) (find_rep c1 t)"
  using find_upd_scope[of "ready_rep h m" t "cm_scope m" "sc_reps c1"] by (simp add: find_rep_def ready_tables_def Let_def)

definition ready_aggregate :: "ready_commit \<Rightarrow> pystr \<Rightarrow> rep_row \<Rightarrow> aggregate" where
  "ready_aggregate m h r = \<lparr>ag_rep = \<lparr>rp_scope = cm_scope m, rp_recipe = cm_recipe m, rp_state = READY,
     rp_attempts = rw_attempts r, rp_revision = rw_revision r + 1, rp_owner = None, rp_lease = None, rp_failure = None,
     rp_manifest = Some (cm_manifest_object m), rp_native = Some (cm_native m), rp_blocks = length (cm_blocks m),
     rp_warnings = cm_warnings m, rp_created = rw_created r, rp_updated = cm_ready m, rp_ready = Some (cm_ready m)\<rparr>,
     ag_blocks = map (expected_block (cm_scope m)) (cm_blocks m)\<rparr>"

lemma ready_aggregate_matches: "ready_matches (ready_aggregate m h r) m"
  by (simp add: ready_matches_def ready_aggregate_def)

lemma setting_aggregate:
  assumes "commit_setting R m r k c c1"
  shows "required_representation (rk_canon R) (ready_tables R m h k c1) (cm_scope m) =
    (if rw_created r \<le> cm_ready m then Inr (ready_aggregate m h r) else Inl RepInvalid)"
proof -
  let ?c = "ready_tables R m h k c1" and ?r = "ready_rep h m r" and ?n = "next_id (map bw_entry (sc_blocks c1))"
  obtain ys where y: "c1 = c\<lparr>sc_objects := sc_objects c @ ys\<rparr>" "\<forall>x\<in>set (commit_objects m). object_of c1 (so_id x) = Some x"
    "reps_ok (rk_canon R) c1" "find_rep c1 = find_rep c" using setting_objects[OF assms] by metis
  have v: "ready_commit_valid R m" and r: "find_rep c1 (cm_scope m) = Some r" and rc: "rw_recipe r = cm_recipe m"
    using assms y(4) by (simp_all add: commit_setting_def)
  note i = setting_insertable[OF assms]
  obtain a where "representation_aggregate (rk_canon R) c1 r = Inr a" using row_loads[OF y(3) r] by metis
  then have old: "representation_valid (rk_canon R) (representation_of c1 r)" by (rule aggregate_InrE(2))
  have rep: "representation_of ?c ?r = ag_rep (ready_aggregate m h r)"
    using y(2) find_rep_Some[OF r] rc by (simp add: representation_of_def ready_aggregate_def commit_objects_def)
  have "scope_rows ?c (cm_scope m) = indexed_rows R (cm_ready m) ?n k (cm_blocks m)"
  proof -
    have "scopes_ok ?c" "(k, cm_scope m) \<in> set (sc_scopes ?c)" using i(1,2) by (simp_all add: scopes_ok_def)
    moreover have "filter (\<lambda>b. bw_key b = k) (indexed_rows R at n k ps) = indexed_rows R at n k ps" for at n ps
      using in_indexed_rows[of _ R at n k ps] by (intro filter_True) force
    ultimately show ?thesis using i(6) by (simp add: scope_rows_key) (simp add: ready_tables_def Let_def)
  qed
  moreover have "distinct (map fst (sc_scopes ?c))" using i(1) by (simp add: scopes_ok_def)
  ultimately have blocks: "rep_blocks_of ?c (cm_scope m) = ag_blocks (ready_aggregate m h r)"
    using sorted_rows[of "cm_blocks m" 0] ready_commitD(2)[OF v] indexed_blocks[of "cm_blocks m" ?c "cm_scope m"] y(2)
    by (simp add: rep_blocks_of_rows ready_aggregate_def commit_objects_def)
  have "list_all rep_block_valid (ag_blocks (ready_aggregate m h r))"
    using prepared_bounds[OF v] by (auto simp: ready_aggregate_def list_all_iff rep_block_valid_def expected_block_def)
  moreover have "aggregate_valid (ready_aggregate m h r)" by (simp add: aggregate_valid_def ready_aggregate_def)
  moreover have "representation_valid (rk_canon R) (ag_rep (ready_aggregate m h r)) \<longleftrightarrow> rw_created r \<le> cm_ready m"
    using old ready_commitD[OF v] by (auto simp: representation_valid_def ready_aggregate_def opt_all_def)
  moreover have "ready_aggregate m h r = \<lparr>ag_rep = ag_rep (ready_aggregate m h r), ag_blocks = ag_blocks (ready_aggregate m h r)\<rparr>" by simp
  moreover have "sorted_unique (rw_warnings ?r)" using ready_commitD(5)[OF v] by simp
  ultimately have "representation_aggregate (rk_canon R) ?c ?r =
      (if rw_created r \<le> cm_ready m then Inr (ready_aggregate m h r) else Inl RepInvalid)"
    using rep blocks find_rep_Some[OF r] by (simp add: representation_aggregate_def representation_from_row_def ready_aggregate_def)
  then show ?thesis by (simp add: required_representation_def required_rep_row_def ready_tables_rep r)
qed

section \<open>The invariant after a commit\<close>

lemma setting_reps:
  assumes "commit_setting R m r k c c1" "rw_created r \<le> cm_ready m"
  shows "reps_ok (rk_canon R) (ready_tables R m h k c1)"
proof -
  let ?c = "ready_tables R m h k c1" and ?n = "next_id (map bw_entry (sc_blocks c1))"
  obtain ys where y: "c1 = c\<lparr>sc_objects := sc_objects c @ ys\<rparr>" "reps_ok (rk_canon R) c1" using setting_objects[OF assms(1)] by metis
  let ?c3 = "c1\<lparr>sc_blocks := sc_blocks c1 @ indexed_rows R (cm_ready m) ?n k (cm_blocks m),
        sc_index := sc_index c1 @ index_rows ?n (cm_blocks m)\<rparr>"
  note u = update_rep_cases[OF setting_update[OF assms(1), where h = h] ready_rep_simps(1)]
  note i = setting_insertable[OF assms(1)] and w = setting_insert(3,4)[OF assms(1)]
  have cols: "map bw_entry (sc_blocks ?c) = map bw_entry (sc_blocks c1 @ prepared_rows ?n k (cm_blocks m))"
    "map (\<lambda>b. (bw_key b, bw_ordinal b)) (indexed_rows R at n k ps) = map (\<lambda>b. (bw_key b, bw_ordinal b)) (prepared_rows n k ps)"
    "map (\<lambda>b. (bw_key b, bw_block b)) (indexed_rows R at n k ps) = map (\<lambda>b. (bw_key b, bw_block b)) (prepared_rows n k ps)"
    "list_all (block_row_check c1) (indexed_rows R at n k ps) = list_all (block_row_check c1) (prepared_rows n k ps)" for at n ps
    by (simp add: ready_tables_def Let_def rows_columns) (induction ps arbitrary: n; simp)+
  have bc: "blocks_constraints (sc_blocks ?c)" using w(1) unfolding blocks_constraints_def cols(1)
    by (simp add: ready_tables_def Let_def cols(2,3) del: set_map)
  have "block_row_check ?c = block_row_check c1" by (simp add: block_row_check_def fun_eq_iff)
  moreover have "list_all (block_row_check c1) (sc_blocks ?c)" using w(2) cols(4) by (simp add: ready_tables_def Let_def)
  ultimately have ck: "list_all (block_row_check ?c) (sc_blocks ?c)" by simp
  have ix: "index_ok ?c" using y(2) in_indexed_rows[of _ R "cm_ready m" ?n k "cm_blocks m"]
    by (fastforce simp: reps_ok_def index_ok_def ready_tables_def Let_def rows_columns)
  have sk: "scopes_ok ?c" using i(1) by (simp add: scopes_ok_def)
  have "\<exists>a. representation_aggregate (rk_canon R) ?c x = Inr a" if x: "x \<in> set (sc_reps ?c)" for x
  proof (cases "rw_scope x = cm_scope m")
    case True
    then have "find_rep ?c (cm_scope m) = Some x" using u(4) x find_unique[of rw_scope "sc_reps ?c" x] by (simp add: find_rep_def)
    then show ?thesis using setting_aggregate[OF assms(1), of h] assms(2) by (simp add: required_representation_def required_rep_row_def)
  next
    case False
    then have old: "x \<in> set (sc_reps c1)" using x by (auto simp: ready_tables_def Let_def set_upd_where split: if_splits)
    have "(k, rw_scope x) \<notin> set (sc_scopes c1)" using scope_key_unique(2)[OF i(1,2)] False by simp
    then have "scope_rows ?c (rw_scope x) = scope_rows c1 (rw_scope x)"
      using in_indexed_rows[of _ R "cm_ready m" ?n k "cm_blocks m"]
      by (fastforce simp: scope_rows_def ready_tables_def Let_def filter_empty_conv)
    then have "rep_blocks_of ?c (rw_scope x) = rep_blocks_of c1 (rw_scope x)"
      using i(1,4) by (intro rep_blocks_of_cong) (simp_all add: keeps_objects_def scopes_ok_def)
    then have "representation_aggregate (rk_canon R) ?c x = representation_aggregate (rk_canon R) c1 x"
      using y(2) old by (intro aggregate_cong) (simp_all add: keeps_objects_def reps_ok_def list_all_iff)
    then show ?thesis using y(2) old by (simp add: reps_ok_def)
  qed
  then show ?thesis using y(2) u(3,4) bc ck ix sk by (simp add: reps_ok_def)
qed

end
