(* ===== verification/Rep_Steps.thy ===== *)
theory Rep_Steps
  imports Rep_Commit
begin

text \<open>
  Every transaction on the ingestion tables, its cases and that it keeps the invariant.  The steps of
  the system are the successful calls with validated arguments; a call that raises rolls back.
\<close>

section \<open>Commits\<close>

lemma ready_tables_ready:
  assumes "find_rep c1 (cm_scope m) = Some r"
  shows "ready_scope (ready_tables R m h k c1) (cm_scope m)"
    and "ready_scope c1 t \<Longrightarrow> ready_scope (ready_tables R m h k c1) t"
proof -
  show a: "ready_scope (ready_tables R m h k c1) (cm_scope m)"
    unfolding ready_scope_def ready_tables_rep assms by simp
  assume "ready_scope c1 t"
  then obtain x where x: "find_rep c1 t = Some x" "rw_state x = READY" unfolding ready_scope_def by blast
  show "ready_scope (ready_tables R m h k c1) t"
  proof (cases "t = cm_scope m")
    case True
    then show ?thesis using a by simp
  next
    case False
    then show ?thesis unfolding ready_scope_def ready_tables_rep x(1) using x(2) by simp
  qed
qed

lemma publish_ready_eq:
  assumes set: "commit_setting R m r k c c1" and "load_version c (rs_document (cm_scope m)) (rs_version (cm_scope m)) = Inr (Some v)"
    "sv_source v = cm_native m" "d \<noteq> D_CACHE_HIT"
  shows "publish_ready R m h d c =
    (let c4 = ready_tables R m h k c1; e = observed_event c4 (cm_scope m) (cm_observed m) (cm_ready m) d True in
     if \<not> list_all indexable (cm_blocks m) \<or> cm_ready m < rw_created r then Inl RepInvalid
     else if head_conflict c (cm_scope m) (cm_observed m) then Inl (RepConflict ''equal source observation has different scope'')
     else Inr (observed_catalog e c4, \<lparr>cr_aggregate = ready_aggregate m h r,
       cr_head = the (find_head (observed_catalog e c4) (rs_document (cm_scope m))), cr_event = e\<rparr>))"
proof -
  let ?c4 = "ready_tables R m h k c1"
  have reg: "save_objects (cm_manifest_object m # cm_native m # map pk_object (cm_blocks m)) c = Inr c1"
    and v: "ready_commit_valid R m" and inv: "rep_inv (rk_canon R) c"
    using set by (simp_all add: commit_setting_def commit_objects_def)
  obtain ys where y: "c1 = c\<lparr>sc_objects := sc_objects c @ ys\<rparr>" using setting_objects[OF set] by metis
  have c1: "find_rep c1 = find_rep c" "sc_heads c1 = sc_heads c" "sc_events c1 = sc_events c"
    by (simp_all add: y find_rep_def fun_eq_iff)
  have row: "find_rep c (cm_scope m) = Some r" using set by (simp add: commit_setting_def)
  have same: "ready_scope c1 t = ready_scope c t" for t by (simp add: ready_scope_def c1)
  have row1: "find_rep c1 (cm_scope m) = Some r" using row by (simp add: c1)
  note rs = ready_tables_ready[OF row1, unfolded same]
  have hist: "history_ok ?c4" using inv by (intro history_same[OF _ _ _ rs(2)]) (simp_all add: rep_inv_def c1)
  have conf: "head_conflict ?c4 s x = head_conflict c s x" for s x by (simp add: head_conflict_def find_head_def c1)
  note steps = setting_insert(1,2)[OF set] setting_update[OF set, where h = h] setting_aggregate[OF set, where h = h]
    advance_head_and_event_eq[OF hist rs(1), of d True "cm_observed m" "cm_ready m"]
  have "\<not> cm_ready m < cm_observed m" using ready_commitD(8)[OF v] by simp
  then show ?thesis using assms(2-4) reg
    by (simp add: publish_ready_def steps[unfolded Let_def] ready_aggregate_matches commit_reply_def conf Let_def)
qed

lemma observed_tables [simp]:
  "sc_objects (observed_catalog e c) = sc_objects c" "sc_documents (observed_catalog e c) = sc_documents c"
  "sc_versions (observed_catalog e c) = sc_versions c" "sc_references (observed_catalog e c) = sc_references c"
  "sc_reps (observed_catalog e c) = sc_reps c" "sc_scopes (observed_catalog e c) = sc_scopes c"
  "sc_blocks (observed_catalog e c) = sc_blocks c" "sc_index (observed_catalog e c) = sc_index c"
  by (simp_all add: observed_catalog_def)

lemma observed_inv:
  assumes "rep_inv C c" "ready_scope c s" "(d = D_CACHE_HIT) \<noteq> parsed" "observed \<le> at" "\<not> head_conflict c s observed"
  shows "rep_inv C (observed_catalog (observed_event c s observed at d parsed) c)"
proof -
  let ?c = "observed_catalog (observed_event c s observed at d parsed) c"
  have k: "keeps_objects c ?c" by (rule keeps_objects_same) simp
  have "sources_ok ?c" using assms(1) by (intro sources_frame[OF _ k]) (simp_all add: rep_inv_def sources_ok_def)
  moreover have "reps_ok C ?c" using assms(1) by (intro reps_frame[OF _ k]) (simp_all add: rep_inv_def keeps_versions_same)
  moreover have "history_ok ?c" using assms by (intro history_observed) (simp_all add: rep_inv_def)
  ultimately show ?thesis by (simp add: rep_inv_def)
qed

lemma advance_cases:
  assumes "advance_head_and_event s observed at d parsed c = Inr (c', h, e)" "rep_inv C c" "ready_scope c s"
    "(d = D_CACHE_HIT) \<noteq> parsed"
  obtains "e = observed_event c s observed at d parsed" "c' = observed_catalog e c" "find_head c' (rs_document s) = Some h"
    "observed \<le> at" "\<not> head_conflict c s observed" "rep_inv C c'"
proof -
  have hist: "history_ok c" using assms(2) by (simp add: rep_inv_def)
  let ?e = "observed_event c s observed at d parsed"
  have r: "e = ?e" "c' = observed_catalog ?e c" "h = the (find_head c' (rs_document s))" "observed \<le> at" "\<not> head_conflict c s observed"
    using assms(1) unfolding advance_head_and_event_eq[OF hist assms(3,4)] Let_def by (auto split: if_splits)
  have "find_head (observed_catalog ?e c) (rs_document s) = replay_event ?e (find_head c (rs_document s))"
    using observed_head[of ?e c "rs_document s"] by (simp add: observed_event_def)
  moreover have "replay_event ?e (find_head c (rs_document s)) \<noteq> None"
    by (cases "find_head c (rs_document s)") (auto simp: replay_event_def observed_event_def)
  ultimately have "find_head c' (rs_document s) = Some h" using r(2,3) by auto
  then show ?thesis using that r observed_inv[OF assms(2-4) r(4,5)] by blast
qed

lemma ready_commit_cases:
  assumes "commit_ready_representation R m owner token expected d c = Inr (c', z)" "rep_inv (rk_canon R) c" "ready_commit_valid R m"
  obtains (replayed) r h where "c' = c" "find_rep c (cm_scope m) = Some r" "rw_state r = READY" "owner \<noteq> None \<or> expected \<noteq> None"
      "optional_row (rep_token_hash R) token = Inr (Some h)" "rw_last_token r = Some h" "ready_matches (cr_aggregate z) m"
      "required_representation (rk_canon R) c (cm_scope m) = Inr (cr_aggregate z)" "last_scope_event c (cm_scope m) = Inr (cr_event z)"
      "required_document_head c (rs_document (cm_scope m)) = Inr (cr_head z)" "rw_recipe r = cm_recipe m"
  | (reparsed) r e where "find_rep c (cm_scope m) = Some r" "rw_state r = READY" "owner = None" "expected = None" "d = D_FORCED_REPARSE"
      "e = observed_event c (cm_scope m) (cm_observed m) (cm_ready m) d True" "c' = observed_catalog e c" "cr_event z = e"
      "ready_matches (cr_aggregate z) m" "rep_inv (rk_canon R) c'"
  | (published) r owner' h expected' v k c1 e where "find_rep c (cm_scope m) = Some r" "owner = Some owner'" "expected = Some expected'"
      "optional_row (rep_token_hash R) token = Inr (Some h)" "assert_rep_lease r owner' h expected' (cm_ready m) = Inr ()"
      "load_version c (rs_document (cm_scope m)) (rs_version (cm_scope m)) = Inr (Some v)" "sv_source v = cm_native m"
      "commit_setting R m r k c c1" "list_all indexable (cm_blocks m)" "rw_created r \<le> cm_ready m"
      "\<not> head_conflict c (cm_scope m) (cm_observed m)"
      "e = observed_event (ready_tables R m h k c1) (cm_scope m) (cm_observed m) (cm_ready m) d True"
      "c' = observed_catalog e (ready_tables R m h k c1)" "cr_aggregate z = ready_aggregate m h r" "cr_event z = e" "d \<noteq> D_CACHE_HIT"
      "cr_head z = the (find_head c' (rs_document (cm_scope m)))"
proof -
  have nd: "d \<noteq> D_CACHE_HIT" using assms(1) by (auto simp: commit_ready_representation_def split: if_splits)
  obtain r a h where r: "find_rep c (cm_scope m) = Some r" "rw_recipe r = cm_recipe m"
      "required_representation (rk_canon R) c (cm_scope m) = Inr a" "optional_row (rep_token_hash R) token = Inr h"
    and rest: "(if rp_state (ag_rep a) = READY then commit_again m (owner \<noteq> None \<or> expected \<noteq> None) h d r a c
        else (case (owner, h, expected) of
          (Some o', Some h', Some n) \<Rightarrow>
            sbind (validate_rep_owner o') (\<lambda>_.
            sbind (assert_rep_lease r o' h' n (cm_ready m)) (\<lambda>_. publish_ready R m h' d c))
        | _ \<Rightarrow> Inl (RepLease ''ready commit requires representation lease''))) = Inr (c', z)"
    using assms(1) nd unfolding commit_ready_representation_def
    by (auto simp: sbind_Inr_iff required_rep_row_def need_Inr_iff assert_row_recipe_def ensure_Inr_iff)
  have ok: "reps_ok (rk_canon R) c" using assms(2) by (simp add: rep_inv_def)
  obtain a' where a': "required_representation (rk_canon R) c (cm_scope m) = Inr a'" "ag_rep a' = representation_of c r"
    using row_loads[OF ok r(1)] by metis
  then have a: "ag_rep a = representation_of c r" using r(3) by simp
  show ?thesis
  proof (cases "rw_state r = READY")
    case True
    then have rs: "ready_scope c (cm_scope m)" using r(1) by (simp add: ready_scope_def)
    from rest True a have again: "commit_again m (owner \<noteq> None \<or> expected \<noteq> None) h d r a c = Inr (c', z)" by simp
    show ?thesis
    proof (cases "owner \<noteq> None \<or> expected \<noteq> None")
      case fenced: True
      then show ?thesis using again r True by (auto simp: commit_again_def commit_reply_def sbind_Inr_iff split: if_splits intro: replayed)
    next
      case False
      then obtain x where x: "advance_head_and_event (cm_scope m) (cm_observed m) (cm_ready m) d True c = Inr x" "(c', z) = commit_reply a x"
        "d = D_FORCED_REPARSE" "ready_matches a m" using again by (auto simp: commit_again_def sbind_Inr_iff split: if_splits)
      obtain c2 hd e where x2: "x = (c2, hd, e)" by (cases x)
      from advance_cases[OF x(1)[unfolded x2] assms(2) rs] nd have
        "e = observed_event c (cm_scope m) (cm_observed m) (cm_ready m) d True" "c2 = observed_catalog e c" "rep_inv (rk_canon R) c2" by blast+
      then show ?thesis using reparsed[of r e] r True False x(2-4) x2 by (simp add: commit_reply_def)
    qed
  next
    case False
    then obtain o' h' n where o: "owner = Some o'" "h = Some h'" "expected = Some n" "assert_rep_lease r o' h' n (cm_ready m) = Inr ()"
      and pub: "publish_ready R m h' d c = Inr (c', z)" using rest a by (auto simp: sbind_Inr_iff split: option.splits)
    obtain v c1 where v: "load_version c (rs_document (cm_scope m)) (rs_version (cm_scope m)) = Inr (Some v)" "sv_source v = cm_native m"
      "save_objects (commit_objects m) c = Inr c1"
      using pub by (auto simp: publish_ready_def commit_objects_def sbind_Inr_iff split: if_splits)
    obtain k where "(k, cm_scope m) \<in> set (sc_scopes c)" using scope_key_exists[OF ok r(1)] .
    then have set: "commit_setting R m r k c c1" using assms(2,3) r(1,2) v(3) False by (simp add: commit_setting_def)
    from pub[unfolded publish_ready_eq[OF set v(1,2) nd] Let_def] show ?thesis
      by (intro published[OF r(1) o(1,3) _ o(4) v(1,2) set]) (use r(4) o(2) nd in \<open>auto split: if_splits\<close>)
  qed
qed

lemma publish_ready_inv:
  assumes set: "commit_setting R m r k c c1" and "rw_created r \<le> cm_ready m" "\<not> head_conflict c (cm_scope m) (cm_observed m)" "d \<noteq> D_CACHE_HIT"
  shows "rep_inv (rk_canon R) (observed_catalog (observed_event (ready_tables R m h k c1) (cm_scope m) (cm_observed m) (cm_ready m) d True)
    (ready_tables R m h k c1))"
proof -
  let ?c4 = "ready_tables R m h k c1"
  obtain ys where y: "c1 = c\<lparr>sc_objects := sc_objects c @ ys\<rparr>" "sources_ok c1" using setting_objects[OF set] by metis
  have inv: "rep_inv (rk_canon R) c" and v: "ready_commit_valid R m" and row: "find_rep c (cm_scope m) = Some r"
    using set by (simp_all add: commit_setting_def)
  have c1: "find_rep c1 = find_rep c" "sc_heads c1 = sc_heads c" "sc_events c1 = sc_events c"
    by (simp_all add: y find_rep_def fun_eq_iff)
  have same: "ready_scope c1 t = ready_scope c t" for t by (simp add: ready_scope_def c1)
  have row1: "find_rep c1 (cm_scope m) = Some r" using row by (simp add: c1)
  note rs = ready_tables_ready[OF row1, unfolded same]
  have "history_ok ?c4" using inv by (intro history_same[OF _ _ _ rs(2)]) (simp_all add: rep_inv_def c1)
  moreover have "sources_ok ?c4"
  proof (rule sources_frame[OF y(2)])
    show "keeps_objects c1 ?c4" by (rule keeps_objects_same) simp
    show "distinct (map so_id (sc_objects ?c4))" using y(2) by (simp add: sources_ok_def)
  qed simp_all
  moreover have "reps_ok (rk_canon R) ?c4" using setting_reps[OF set assms(2)] .
  ultimately have "rep_inv (rk_canon R) ?c4" by (simp add: rep_inv_def)
  moreover have "\<not> head_conflict ?c4 (cm_scope m) (cm_observed m)" using assms(3) by (simp add: head_conflict_def find_head_def c1)
  ultimately show ?thesis using observed_inv[OF _ rs(1), where C = "rk_canon R" and d = d and parsed = True] ready_commitD(8)[OF v] assms(4) by simp
qed

lemma commit_inv:
  assumes "commit_ready_representation R m owner token expected d c = Inr (c', z)" "rep_inv (rk_canon R) c" "ready_commit_valid R m"
  shows "rep_inv (rk_canon R) c'"
  using assms
proof (cases rule: ready_commit_cases)
  case (published r owner' h expected' v k c1 e)
  then show ?thesis using publish_ready_inv by simp
qed (use assms(2) in simp_all)

section \<open>Claims\<close>

lemma acquired_Inr: "acquired d p token c = Inr (c', z) \<Longrightarrow>
    c' = c \<and> ar_disposition z = d \<and> ar_rep z = p \<and> ar_lease z = (if d = A_CLAIMED then Some (p, token) else None)"
  by (auto simp: acquired_def Let_def split: if_splits)

lemma acquire_cases:
  assumes "acquire_representation R s recipe owner token now until c = Inr (c', z)"
  obtains (ready) r where "find_rep c s = Some r" "rw_state r = READY" "c' = c" "ar_disposition z = A_READY"
  | (held) r where "find_rep c s = Some r" "rw_state r = STAGING" "opt_all (\<lambda>t. now < t) (rw_lease r)" "c' = c"
      "ar_disposition z = (if rw_owner r = Some owner \<and> rw_token r = Some (rk_sha R token) then A_CLAIMED else A_BUSY)"
  | (taken) r a where "find_rep c s = Some r" "rw_state r = REP_FAILED \<or> rw_state r = STAGING \<and> \<not> opt_all (\<lambda>t. now < t) (rw_lease r)"
      "rw_updated r \<le> now" "rw_recipe r = recipe" "now < until" "update_rep s (taken_rep owner (rk_sha R token) now until) c = Inr c'"
      "required_representation (rk_canon R) c' s = Inr a" "ar_disposition z = A_CLAIMED" "ar_rep z = ag_rep a" "16 \<le> length token"
  | (fresh) a c1 where "find_rep c s = None" "now < until"
      "put_reps (sc_reps c @ [fresh_rep s recipe owner (rk_sha R token) now until]) c = Inr c1"
      "insert_scope s c1 = Inr c'" "required_representation (rk_canon R) c' s = Inr a" "ar_disposition z = A_CLAIMED" "ar_rep z = ag_rep a"
      "16 \<le> length token"
proof -
  have tok: "rep_token_hash R token = Inr (rk_sha R token)" "16 \<le> length token" "now < until"
    using assms by (auto simp: acquire_representation_def sbind_Inr_iff rep_token_hash_def split: if_splits)
  show ?thesis
  proof (cases "find_rep c s")
    case None
    then obtain c1 c2 a where "put_reps (sc_reps c @ [fresh_rep s recipe owner (rk_sha R token) now until]) c = Inr c1"
      "insert_scope s c1 = Inr c2" "required_representation (rk_canon R) c2 s = Inr a" "acquired A_CLAIMED (ag_rep a) token c2 = Inr (c', z)"
      using assms tok by (auto simp: acquire_representation_def sbind_Inr_iff split: if_splits)
    then show ?thesis using acquired_Inr fresh[OF None tok(3)] tok(2) by metis
  next
    case (Some r)
    then obtain p where p: "rw_recipe r = recipe" "representation_from_row (rk_canon R) c r = Inr p"
      and rest: "(if rp_state p = READY then acquired A_READY p token c
           else if rp_state p = STAGING \<and> opt_all (\<lambda>t. now < t) (rw_lease r)
           then (if rw_owner r = Some owner \<and> rw_token r = Some (rk_sha R token) then acquired A_CLAIMED p token c
                 else acquired A_BUSY p token c)
           else if now < rw_updated r then Inl (RepLease ''representation transition time regressed'')
           else sbind (update_rep s (taken_rep owner (rk_sha R token) now until) c) (\<lambda>c1.
             sbind (required_representation (rk_canon R) c1 s) (\<lambda>a. acquired A_CLAIMED (ag_rep a) token c1))) = Inr (c', z)"
      using assms tok by (auto simp: acquire_representation_def sbind_Inr_iff assert_row_recipe_def ensure_Inr_iff split: if_splits)
    have st: "rp_state p = rw_state r" using p(2) by (auto simp: representation_from_row_def split: if_splits)
    consider "rw_state r = READY" | "rw_state r = STAGING" "opt_all (\<lambda>t. now < t) (rw_lease r)"
      | "rw_state r \<noteq> READY" "\<not> (rw_state r = STAGING \<and> opt_all (\<lambda>t. now < t) (rw_lease r))" by blast
    then show ?thesis
    proof cases
      case 1
      then show ?thesis using rest st acquired_Inr ready[OF Some] by fastforce
    next
      case 2
      then show ?thesis using rest st held[OF Some 2] by (auto dest: acquired_Inr split: if_splits)
    next
      case 3
      then obtain c1 a where "update_rep s (taken_rep owner (rk_sha R token) now until) c = Inr c1" "rw_updated r \<le> now"
        "required_representation (rk_canon R) c1 s = Inr a" "acquired A_CLAIMED (ag_rep a) token c1 = Inr (c', z)"
        using rest st by (auto simp: sbind_Inr_iff split: if_splits)
      then show ?thesis using 3 acquired_Inr taken[OF Some _ _ p(1) tok(3)] tok(2) by (cases "rw_state r") (metis rep_state.distinct)+
    qed
  qed
qed

end
