(* ===== verification/Rep_Reach.thy ===== *)
theory Rep_Reach
  imports Rep_Steps
begin

text \<open>
  Claims, renewals, failures, observations and registrations keep the invariant; the transition system
  of the ingestion tables and its reachable catalogs.
\<close>

section \<open>Claims\<close>

lemma taken_rep_simps [simp]:
  "rw_scope (taken_rep owner h now until r) = rw_scope r" "rw_state (taken_rep owner h now until r) = STAGING"
  "rw_owner (taken_rep owner h now until r) = Some owner" "rw_token (taken_rep owner h now until r) = Some h"
  "rw_lease (taken_rep owner h now until r) = Some until" "rw_revision (taken_rep owner h now until r) = rw_revision r + 1"
  "rw_attempts (taken_rep owner h now until r) = rw_attempts r + 1" "rw_updated (taken_rep owner h now until r) = now"
  "rw_recipe (taken_rep owner h now until r) = rw_recipe r" "rw_created (taken_rep owner h now until r) = rw_created r"
  by (simp_all add: taken_rep_def)

lemma not_ready: "find_rep c s = Some r \<Longrightarrow> rw_state r \<noteq> READY \<Longrightarrow> \<not> ready_scope c s"
  by (simp add: ready_scope_def)

lemma insert_scope_rows:
  assumes "insert_scope s c1 = Inr c'" "list_all (block_row_check c1) (sc_blocks c1)"
  shows "c' = c1\<lparr>sc_scopes := sc_scopes c1 @ [(next_id (map fst (sc_scopes c1)), s)]\<rparr>" "s \<notin> set (map snd (sc_scopes c1))"
    "scope_rows c' t = scope_rows c1 t"
    "scopes_ok c1 \<longrightarrow> scopes_ok c'"
proof -
  let ?k = "next_id (map fst (sc_scopes c1))"
  show c': "c' = c1\<lparr>sc_scopes := sc_scopes c1 @ [(?k, s)]\<rparr>" and s: "s \<notin> set (map snd (sc_scopes c1))"
    using assms(1) by (simp_all add: insert_scope_def split: if_splits)
  have fresh: "?k \<notin> set (map fst (sc_scopes c1))" using next_id_above[of ?k "map fst (sc_scopes c1)"] by auto
  have "bw_key b \<in> set (map fst (sc_scopes c1))" if "b \<in> set (sc_blocks c1)" for b
    using assms(2) that by (simp add: list_all_iff block_row_check_def)
  with fresh have "bw_key b \<noteq> ?k" if "b \<in> set (sc_blocks c1)" for b using that by metis
  then show "scope_rows c' t = scope_rows c1 t" by (auto simp: scope_rows_def c' intro!: filter_cong)
  show "scopes_ok c1 \<longrightarrow> scopes_ok c'" using fresh s by (auto simp: scopes_ok_def c')
qed

lemma fresh_inv:
  assumes inv: "rep_inv C c" and none: "find_rep c s = None" and row: "rw_scope row = s"
    and put: "put_reps (sc_reps c @ [row]) c = Inr c1" and ins: "insert_scope s c1 = Inr c'"
    and load: "required_representation C c' s = Inr a"
  shows "rep_inv C c'"
proof -
  have c1: "c1 = c\<lparr>sc_reps := sc_reps c @ [row]\<rparr>" and k: "distinct (map rw_scope (sc_reps c1))" "distinct (held_tokens (sc_reps c1))"
    "list_all rep_row_check (sc_reps c1)" "list_all (rep_references_ok c) (sc_reps c1)"
    using put by (auto simp: put_reps_def split: if_splits)
  have ok: "reps_ok C c" "sources_ok c" "history_ok c" using inv by (simp_all add: rep_inv_def)
  have "block_row_check c1 = block_row_check c" by (simp add: c1 block_row_check_def fun_eq_iff)
  then have bc: "list_all (block_row_check c1) (sc_blocks c1)" using ok(1) by (simp add: reps_ok_def c1)
  note i = insert_scope_rows[OF ins bc]
  have sk: "scopes_ok c'" using i(4) ok(1) by (simp add: reps_ok_def c1 scopes_ok_def)
  have ko: "keeps_objects c c'" by (rule keeps_objects_same) (simp add: i(1) c1)
  have kv: "keeps_versions c c'" by (rule keeps_versions_same) (simp add: i(1) c1)
  have old: "\<exists>a. representation_aggregate C c' x = Inr a" if x: "x \<in> set (sc_reps c)" for x
  proof -
    have "rep_blocks_of c' (rw_scope x) = rep_blocks_of c (rw_scope x)"
    proof (rule rep_blocks_of_cong[OF ko])
      show "list_all (block_row_check c) (sc_blocks c)" using ok(1) by (simp add: reps_ok_def)
      show "scope_rows c' (rw_scope x) = scope_rows c (rw_scope x)" using i(3) by (simp add: scope_rows_def c1)
    qed (use sk ok(1) in \<open>simp_all add: reps_ok_def scopes_ok_def\<close>)
    then have "representation_aggregate C c' x = representation_aggregate C c x"
      using ok(1) x by (intro aggregate_cong[OF ko]) (simp_all add: reps_ok_def list_all_iff)
    then show ?thesis using ok(1) x by (simp add: reps_ok_def)
  qed
  have "find_rep c' s = Some row" using none row by (simp add: i(1) c1 find_rep_def find_append)
  then have new: "\<exists>a. representation_aggregate C c' row = Inr a" using load by (auto simp: required_representation_def required_rep_row_def)
  have scopes: "set (map snd (sc_scopes c')) = set (map rw_scope (sc_reps c'))" using ok(1) row by (simp add: i(1) c1 reps_ok_def)
  have refs: "list_all (rep_references_ok c') (sc_reps c')"
    using k(4) checks_frame(1)[OF ko _ kv] by (simp add: list_all_iff i(1) c1)
  have blocks: "list_all (block_row_check c') (sc_blocks c')"
    using bc by (auto simp: list_all_iff i(1) c1 block_row_check_def)
  have "reps_ok C c'" unfolding reps_ok_def
  proof (intro conjI)
    show "\<forall>r\<in>set (sc_reps c'). \<exists>a. representation_aggregate C c' r = Inr a" using old new by (simp add: i(1) c1)
    show "distinct (map rw_scope (sc_reps c'))" "distinct (held_tokens (sc_reps c'))" "list_all rep_row_check (sc_reps c')"
      using k(1-3) by (simp_all add: i(1))
    show "blocks_constraints (sc_blocks c')" "index_ok c'" using ok(1) by (simp_all add: reps_ok_def i(1) c1 index_ok_def)
  qed (use sk scopes refs blocks in simp_all)
  moreover have "sources_ok c'" using ok(2) by (intro sources_frame[OF ok(2) ko]) (simp_all add: i(1) c1 sources_ok_def)
  moreover have "ready_scope c' t" if "ready_scope c t" for t
    using that by (auto simp: ready_scope_def i(1) c1 find_rep_def find_append)
  then have "history_ok c'" using ok(3) history_same[OF ok(3)] by (simp add: i(1) c1)
  ultimately show ?thesis by (simp add: rep_inv_def)
qed

lemma acquire_inv:
  assumes "acquire_representation R s recipe owner token now until c = Inr (c', z)" "rep_inv (rk_canon R) c"
  shows "rep_inv (rk_canon R) c'"
  using assms(1)
proof (cases rule: acquire_cases)
  case (taken r a)
  then have "\<not> ready_scope c s" using not_ready by force
  then show ?thesis using update_rep_inv[OF assms(2) taken(6) _ taken(7)] by simp
next
  case (fresh a c1)
  then show ?thesis using fresh_inv[OF assms(2) fresh(1) _ fresh(3,4,5)] by (simp add: fresh_rep_def)
qed (use assms(2) in simp_all)

section \<open>Renewals and failures\<close>

lemma assert_rep_lease_Inr:
  "assert_rep_lease r owner h expected now = Inr () \<longleftrightarrow> rw_state r = STAGING \<and> rw_owner r = Some owner \<and> rw_token r = Some h \<and>
     opt_all (\<lambda>t. now < t) (rw_lease r) \<and> rw_revision r = expected"
  by (auto simp: assert_rep_lease_def opt_all_def split: option.splits)

lemma rep_token_hash_Inr: "rep_token_hash R token = Inr h \<longleftrightarrow> 16 \<le> length token \<and> h = rk_sha R token"
  by (auto simp: rep_token_hash_def)

lemma required_rep_row_Inr: "required_rep_row c s = Inr r \<longleftrightarrow> find_rep c s = Some r"
  by (simp add: required_rep_row_def need_Inr_iff)

lemma renew_cases:
  assumes "renew_representation R s owner token expected now until c = Inr (c', p, token')"
  obtains r a where "find_rep c s = Some r" "assert_rep_lease r owner (rk_sha R token) expected now = Inr ()" "rw_updated r \<le> now"
    "now < until" "update_rep s (renewed_rep now until) c = Inr c'" "required_representation (rk_canon R) c' s = Inr a" "p = ag_rep a" "token' = token"
proof -
  have "\<exists>h r u c1 a. rep_token_hash R token = Inr h \<and> \<not> until \<le> now \<and> required_rep_row c s = Inr r \<and>
    assert_rep_lease r owner h expected now = Inr u \<and> \<not> now < rw_updated r \<and> update_rep s (renewed_rep now until) c = Inr c1 \<and>
    required_representation (rk_canon R) c1 s = Inr a \<and>
    (if rep_lease_valid (ag_rep a, token) then Inr (c1, ag_rep a, token) else Inl RepInvalid) = Inr (c', p, token')"
    using assms unfolding renew_representation_def by (elim sbind_InrE guard_InrE, intro exI conjI)
  then obtain h r u c1 a where e: "rep_token_hash R token = Inr h" "\<not> until \<le> now" "required_rep_row c s = Inr r"
    "assert_rep_lease r owner h expected now = Inr u" "\<not> now < rw_updated r" "update_rep s (renewed_rep now until) c = Inr c1"
    "required_representation (rk_canon R) c1 s = Inr a"
    "(if rep_lease_valid (ag_rep a, token) then Inr (c1, ag_rep a, token) else Inl RepInvalid) = Inr (c', p, token')" by metis
  then have "c1 = c'" "p = ag_rep a" "token' = token" by (auto split: if_splits)
  then show ?thesis using e that[of r a] by (simp add: rep_token_hash_Inr required_rep_row_Inr)
qed

lemma fail_cases:
  assumes "fail_representation R s owner token expected now code c = Inr (c', a)"
  obtains (again) r where "find_rep c s = Some r" "rw_state r = REP_FAILED" "rw_last_token r = Some (rk_sha R token)"
      "rw_failure r = Some code" "c' = c" "required_representation (rk_canon R) c s = Inr a"
  | (failed) r where "find_rep c s = Some r" "assert_rep_lease r owner (rk_sha R token) expected now = Inr ()" "rw_updated r \<le> now"
      "machine_token code" "update_rep s (failed_rep (rk_sha R token) code now) c = Inr c'" "required_representation (rk_canon R) c' s = Inr a"
proof -
  let ?rest = "\<lambda>h r. (if rw_state r = REP_FAILED
     then (if rw_last_token r = Some h \<and> rw_failure r = Some code
           then sbind (required_representation (rk_canon R) c s) (\<lambda>a. Inr (c, a))
           else Inl (RepLease ''failed representation token does not match''))
     else sbind (assert_rep_lease r owner h expected now) (\<lambda>_.
       if now < rw_updated r then Inl (RepLease ''representation transition time regressed'')
       else sbind (update_rep s (failed_rep h code now) c) (\<lambda>c1.
         sbind (required_representation (rk_canon R) c1 s) (\<lambda>a. Inr (c1, a)))))"
  have "\<exists>u h r. ensure (machine_token code) RepBadFailure = Inr u \<and> rep_token_hash R token = Inr h \<and> required_rep_row c s = Inr r \<and>
    ?rest h r = Inr (c', a)"
    using assms unfolding fail_representation_def by (elim sbind_InrE, intro exI conjI)
  then obtain u h r where e: "ensure (machine_token code) RepBadFailure = Inr u" "rep_token_hash R token = Inr h" "required_rep_row c s = Inr r"
    and rest: "?rest h r = Inr (c', a)" by (elim exE conjE)
  have f: "find_rep c s = Some r" "h = rk_sha R token" "machine_token code"
    using e by (simp_all add: rep_token_hash_Inr required_rep_row_Inr ensure_Inr_iff)
  show ?thesis
  proof (cases "rw_state r = REP_FAILED")
    case True
    then have "rw_last_token r = Some h" "rw_failure r = Some code" "c' = c" "required_representation (rk_canon R) c s = Inr a"
      using rest by (auto simp: sbind_Inr_iff split: if_splits)
    then show ?thesis using again[OF f(1) True] f(2) by simp
  next
    case False
    then obtain u c1 where "assert_rep_lease r owner h expected now = Inr u" "\<not> now < rw_updated r"
      "update_rep s (failed_rep h code now) c = Inr c1" "required_representation (rk_canon R) c1 s = Inr a" "c1 = c'"
      using rest by (auto simp: sbind_Inr_iff split: if_splits)
    then show ?thesis using failed[OF f(1)] f(2,3) by simp
  qed
qed

lemma renew_inv:
  assumes "renew_representation R s owner token expected now until c = Inr (c', p, token')" "rep_inv (rk_canon R) c"
  shows "rep_inv (rk_canon R) c'"
  using assms(1)
proof (cases rule: renew_cases)
  case (1 r a)
  then have "\<not> ready_scope c s" using not_ready by (force simp: assert_rep_lease_Inr)
  then show ?thesis using update_rep_inv[OF assms(2) 1(5) _ 1(6)] by (simp add: renewed_rep_def)
qed

lemma fail_inv:
  assumes "fail_representation R s owner token expected now code c = Inr (c', a)" "rep_inv (rk_canon R) c"
  shows "rep_inv (rk_canon R) c'"
  using assms(1)
proof (cases rule: fail_cases)
  case (failed r)
  then have "\<not> ready_scope c s" using not_ready by (force simp: assert_rep_lease_Inr)
  then show ?thesis using update_rep_inv[OF assms(2) failed(5) _ failed(6)] by (simp add: failed_rep_def)
qed (use assms(2) in simp_all)

lemma record_cases:
  assumes "record_ready_ingest C s observed at d c = Inr (c', h, e)" "rep_inv C c"
  obtains "ready_scope c s" "d = D_CACHE_HIT" "e = observed_event c s observed at d False" "c' = observed_catalog e c"
    "find_head c' (rs_document s) = Some h" "\<not> head_conflict c s observed" "rep_inv C c'"
proof -
  obtain a where a: "d = D_CACHE_HIT" "required_representation C c s = Inr a" "rp_state (ag_rep a) = READY"
    "advance_head_and_event s observed at d False c = Inr (c', h, e)"
    using assms(1) by (auto simp: record_ready_ingest_def sbind_Inr_iff split: if_splits)
  obtain r where r: "find_rep c s = Some r" "representation_aggregate C c r = Inr a"
    using a(2) by (auto simp: required_representation_def sbind_Inr_iff required_rep_row_def need_Inr_iff)
  then have "ready_scope c s" using a(3) aggregate_InrE(1)[OF r(2)] by (simp add: ready_scope_def)
  then show ?thesis using advance_cases[OF a(4) assms(2)] a(1) that by blast
qed

section \<open>Registrations\<close>

lemma optional_row_Inr: "optional_row f x = Inr y \<longleftrightarrow> (case x of None \<Rightarrow> y = None | Some r \<Rightarrow> (\<exists>z. f r = Inr z \<and> y = Some z))"
  by (cases x) (auto simp: optional_row_def sbind_Inr_iff)

lemma document_from_row_Inr: "document_from_row d = Inr z \<longleftrightarrow> z = d \<and> source_key_valid (ld_connector d, ld_locator d)"
  by (auto simp: document_from_row_def)

lemma register_document_cases:
  assumes "register_document k i now c = Inr (c', d)"
  obtains (known) "c' = c" "d \<in> set (sc_documents c)" "(ld_connector d, ld_locator d) = k"
  | (new) "find (\<lambda>d. (ld_connector d, ld_locator d) = k) (sc_documents c) = None" "find (\<lambda>d. ld_id d = i) (sc_documents c) = None"
      "d = \<lparr>ld_id = i, ld_connector = fst k, ld_locator = snd k, ld_created = now\<rparr>" "source_key_valid k"
      "documents_constraints (sc_documents c @ [d])" "c' = c\<lparr>sc_documents := sc_documents c @ [d]\<rparr>"
proof (cases "find (\<lambda>d. (ld_connector d, ld_locator d) = k) (sc_documents c)")
  case (Some x)
  then have "c' = c \<and> d = x"
    using assms by (auto simp: register_document_def load_document_by_source_def optional_row_def sbind_Inr_iff document_from_row_Inr)
  then show ?thesis using known find_in[OF Some] by simp
next
  case None
  let ?d = "\<lparr>ld_id = i, ld_connector = fst k, ld_locator = snd k, ld_created = now\<rparr>"
  have src: "load_document_by_source c k = Inr None" using None by (simp add: load_document_by_source_def optional_row_def)
  have i: "find (\<lambda>d. ld_id d = i) (sc_documents c) = None"
    using assms src by (auto simp: register_document_def load_document_by_id_def optional_row_Inr sbind_Inr_iff split: option.splits if_splits)
  then have "load_document_by_id c i = Inr None" by (simp add: load_document_by_id_def optional_row_def)
  then obtain c1 where c1: "insert_document ?d c = Inr c1" "(case load_document_by_id c1 i of Inl e \<Rightarrow> Inl e
      | Inr None \<Rightarrow> Inl CatalogBroken | Inr (Some x) \<Rightarrow> Inr (c1, x)) = Inr (c', d)"
    using assms src by (auto simp: register_document_def sbind_Inr_iff split: option.splits)
  then have c1': "documents_constraints (sc_documents c @ [?d])" "c1 = c\<lparr>sc_documents := sc_documents c @ [?d]\<rparr>"
    by (auto simp: insert_document_def Let_def split: if_splits)
  have "load_document_by_id c1 i = optional_row document_from_row (Some ?d)"
    using i by (simp add: load_document_by_id_def c1'(2) find_append)
  then have "c' = c1" "d = ?d" "source_key_valid k"
    using c1(2) by (auto simp: optional_row_def document_from_row_def split: if_splits)
  then show ?thesis using new[OF None i] c1' by simp
qed

lemma load_version_at:
  assumes "find_version c' d v = find_version c d v" "object_of c' = object_of c" "version_references c' d v = version_references c d v"
  shows "load_version c' d v = load_version c d v"
  unfolding load_version_def assms by (rule refl)

lemma register_document_inv:
  assumes "register_document k i now c = Inr (c', d)" "rep_inv C c"
  shows "rep_inv C c'"
  using assms(1)
proof (cases rule: register_document_cases)
  case new
  have ok: "sources_ok c" "reps_ok C c" "history_ok c" using assms(2) by (simp_all add: rep_inv_def)
  have fv: "find_version c' = find_version c" by (rule find_version_cong) (simp add: new(6))
  have oc: "object_of c' = object_of c" by (rule object_of_cong) (simp add: new(6))
  have "version_references c' d v = version_references c d v" for d v unfolding version_references_def oc by (simp add: new(6))
  then have lv: "load_version c' = load_version c" by (intro ext load_version_at) (simp_all add: fv oc)
  have "sources_ok c'" using ok(1) new(3-5)
    by (simp add: sources_ok_def fv lv document_from_row_Inr) (simp add: new(6))
  moreover have "reps_ok C c'" using ok(2) by (rule reps_frame) (simp_all add: new(6) keeps_versions_same keeps_objects_same)
  moreover have "ready_scope c' = ready_scope c" by (simp add: new(6) ready_scope_def find_rep_def fun_eq_iff)
  then have "history_ok c'" using history_same[OF ok(3)] by (simp add: new(6))
  ultimately show ?thesis by (simp add: rep_inv_def)
qed (use assms(2) in simp)

lemma insert_references_frame:
  assumes "insert_references fs c = Inr c'"
  shows "c' = c\<lparr>sc_references := sc_references c @ fs\<rparr>"
    "\<forall>f\<in>set fs. object_of c (rf_object f) \<noteq> None \<and> find_version c (rf_document f) (rf_version f) \<noteq> None"
proof -
  have "c' = c\<lparr>sc_references := sc_references c @ fs\<rparr> \<and>
    (\<forall>f\<in>set fs. object_of c (rf_object f) \<noteq> None \<and> find_version c (rf_document f) (rf_version f) \<noteq> None)"
    using assms
  proof (induction fs arbitrary: c)
    case (Cons f fs)
    then obtain c1 where "insert_reference f c = Inr c1" "insert_references fs c1 = Inr c'" by (auto simp: sbind_Inr_iff)
    moreover from this(1) have "c1 = c\<lparr>sc_references := sc_references c @ [f]\<rparr>" "object_of c (rf_object f) \<noteq> None"
      "find_version c (rf_document f) (rf_version f) \<noteq> None" by (auto simp: insert_reference_def split: if_splits)
    moreover have "find_version (c\<lparr>sc_references := rs\<rparr>) = find_version c" for rs by (rule find_version_cong) simp
    ultimately show ?case using Cons.IH[of c1] by simp
  qed simp
  then show "c' = c\<lparr>sc_references := sc_references c @ fs\<rparr>"
    "\<forall>f\<in>set fs. object_of c (rf_object f) \<noteq> None \<and> find_version c (rf_document f) (rf_version f) \<noteq> None" by blast+
qed

lemma source_version_cases:
  assumes "commit_source_version w c = Inr (c', x)"
  obtains (known) v where "c' = c" "load_version c (sv_document w) (sv_version w) = Inr (Some v)" "versions_equivalent v w" "x = v"
  | (new) ys c2 where "c2 = c\<lparr>sc_objects := sc_objects c @ ys\<rparr>" "keeps_objects c c2"
      "distinct (map so_id (sc_objects c)) \<longrightarrow> distinct (map so_id (sc_objects c2))"
      "\<forall>y\<in>set (sv_source w # map object_of_ref (sv_references w)). object_of c2 (so_id y) = Some y"
      "find_version c (sv_document w) (sv_version w) = None" "sv_document w \<in> set (map ld_id (sc_documents c))"
      "sv_version w = so_id (sv_source w)"
      "insert_references (map (row_of_reference w) (sv_references w)) (c2\<lparr>sc_versions := sc_versions c @ [row_of_version w]\<rparr>) = Inr c'"
      "load_version c' (sv_document w) (sv_version w) = Inr (Some x)"
proof -
  obtain e where e: "load_version c (sv_document w) (sv_version w) = Inr e"
    using assms by (auto simp: commit_source_version_def sbind_Inr_iff split: if_splits)
  show ?thesis
  proof (cases e)
    case (Some v)
    then show ?thesis using assms e known by (auto simp: commit_source_version_def sbind_Inr_iff split: if_splits)
  next
    case None
    then obtain c1 c2 c3 v where s: "save_object (sv_source w) c = Inr c1" "save_objects (map object_of_ref (sv_references w)) c1 = Inr c2"
      "insert_version (row_of_version w) c2 = Inr c3" "insert_references (map (row_of_reference w) (sv_references w)) c3 = Inr c'"
      "load_version c' (sv_document w) (sv_version w) = Inr (Some x)"
      using assms e by (auto simp: commit_source_version_def sbind_Inr_iff split: if_splits option.splits)
    then have "save_objects (sv_source w # map object_of_ref (sv_references w)) c = Inr c2" by simp
    from save_objects_frame[OF this] obtain ys where y: "c2 = c\<lparr>sc_objects := sc_objects c @ ys\<rparr>" "keeps_objects c c2"
      "\<forall>y\<in>set (sv_source w # map object_of_ref (sv_references w)). object_of c2 (so_id y) = Some y"
      "distinct (map so_id (sc_objects c)) \<longrightarrow> distinct (map so_id (sc_objects c2))" by metis
    have fv: "find_version c2 = find_version c" by (rule find_version_cong) (simp add: y(1))
    have v: "c3 = c2\<lparr>sc_versions := sc_versions c @ [row_of_version w]\<rparr>" "find_version c (sv_document w) (sv_version w) = None"
      "sv_document w \<in> set (map ld_id (sc_documents c))" "sv_version w = so_id (sv_source w)"
      using s(3) unfolding insert_version_def fv by (auto simp: row_of_version_def y(1) split: if_splits)
    show ?thesis by (rule new[OF y(1,2,4,3) v(2-4)]) (use s(4,5) v(1) in simp_all)
  qed
qed

lemma source_version_inv:
  assumes "commit_source_version w c = Inr (c', x)" "rep_inv C c"
  shows "rep_inv C c'"
  using assms(1)
proof (cases rule: source_version_cases)
  case (new ys c2)
  have ok: "sources_ok c" "reps_ok C c" "history_ok c" using assms(2) by (simp_all add: rep_inv_def)
  let ?c3 = "c2\<lparr>sc_versions := sc_versions c @ [row_of_version w]\<rparr>"
  let ?fs = "map (row_of_reference w) (sv_references w)"
  note i = insert_references_frame[OF new(8)]
  have c': "c' = c\<lparr>sc_objects := sc_objects c @ ys, sc_versions := sc_versions c @ [row_of_version w], sc_references := sc_references c @ ?fs\<rparr>"
    by (simp add: i(1) new(1))
  have oc: "object_of c' = object_of c2" by (rule object_of_cong) (simp add: c' new(1))
  then have ko: "keeps_objects c c'" using new(2) by (simp add: keeps_objects_def)
  have fv: "find_version c' d v = (if d = sv_document w \<and> v = sv_version w then Some (row_of_version w) else find_version c d v)" for d v
    using new(5) by (auto simp: c' find_version_def find_append row_of_version_def split: option.splits)
  then have kv: "keeps_versions c c'" by (simp add: keeps_versions_def)
  have old: "load_version c' (vr_document r) (vr_version r) = load_version c (vr_document r) (vr_version r)"
    if r: "r \<in> set (sc_versions c)" for r
  proof -
    have ne: "\<not> (vr_document r = sv_document w \<and> vr_version r = sv_version w)" using version_found[OF ok(1) r] new(5) by auto
    have refs: "filter (\<lambda>f. rf_document f = vr_document r \<and> rf_version f = vr_version r) (sc_references c') =
        filter (\<lambda>f. rf_document f = vr_document r \<and> rf_version f = vr_version r) (sc_references c)"
      using ne by (auto simp: c' filter_empty_conv row_of_reference_def)
    have "load_version (c2\<lparr>sc_references := sc_references c\<rparr>) (vr_document r) (vr_version r) = load_version c (vr_document r) (vr_version r)"
      using ok(1) version_found[OF ok(1) r] new(2) by (intro load_version_cong) (simp_all add: new(1) keeps_objects_def)
    moreover have "load_version c' (vr_document r) (vr_version r) = load_version (c2\<lparr>sc_references := sc_references c\<rparr>) (vr_document r) (vr_version r)"
    proof (rule load_version_at)
      show "object_of c' = object_of (c2\<lparr>sc_references := sc_references c\<rparr>)" by (simp add: oc)
      then show "version_references c' (vr_document r) (vr_version r) =
          version_references (c2\<lparr>sc_references := sc_references c\<rparr>) (vr_document r) (vr_version r)"
        unfolding version_references_def refs by simp
      have "find_version (c2\<lparr>sc_references := sc_references c\<rparr>) = find_version c" by (rule find_version_cong) (simp add: new(1))
      then show "find_version c' (vr_document r) (vr_version r) =
          find_version (c2\<lparr>sc_references := sc_references c\<rparr>) (vr_document r) (vr_version r)" using ne by (auto simp: fv)
    qed
    ultimately show ?thesis by simp
  qed
  have "sources_ok c'" unfolding sources_ok_def
  proof (intro conjI ballI)
    show "distinct (map so_id (sc_objects c'))" using ok(1) new(3) by (simp add: sources_ok_def c' new(1))
    show "distinct (map (\<lambda>r. (vr_document r, vr_version r)) (sc_versions c'))" using ok(1) new(5)
      by (auto simp: sources_ok_def c' row_of_version_def find_version_def find_None_iff)
    fix r assume r: "r \<in> set (sc_versions c')"
    show "\<exists>w. load_version c' (vr_document r) (vr_version r) = Inr (Some w)"
      using r old ok(1) new(9) by (auto simp: c' sources_ok_def row_of_version_def)
    show "vr_document r \<in> set (map ld_id (sc_documents c'))" using r ok(1) new(6) by (auto simp: c' sources_ok_def row_of_version_def)
  next
    fix f assume f: "f \<in> set (sc_references c')"
    have "f \<in> set (sc_references c) \<or> f \<in> set ?fs" using f by (simp add: c')
    moreover have "object_of c' i \<noteq> None" if "object_of c i \<noteq> None" for i using that keeps_objectsD[OF ko] by auto
    moreover have "object_of ?c3 = object_of c'" "find_version ?c3 = find_version c'"
      by (simp add: oc) (rule find_version_cong, simp add: c')
    ultimately show "object_of c' (rf_object f) \<noteq> None" "find_version c' (rf_document f) (rf_version f) \<noteq> None"
      using ok(1) i(2) kv by (auto simp: sources_ok_def keeps_versions_def)
  qed (use ok(1) in \<open>simp_all add: sources_ok_def c'\<close>)
  moreover have "reps_ok C c'" using ok(2) ko kv by (rule reps_frame) (simp_all add: c')
  moreover have "ready_scope c' = ready_scope c" by (simp add: c' ready_scope_def find_rep_def fun_eq_iff)
  then have "history_ok c'" using history_same[OF ok(3)] by (simp add: c')
  ultimately show ?thesis by (simp add: rep_inv_def)
qed (use assms(2) in simp)

section \<open>The transition system\<close>

text \<open>Every other transaction of the catalog shares the table of objects and may add to it.\<close>

lemma share_inv:
  assumes "rep_inv C c" "distinct (map so_id (sc_objects c @ xs))"
  shows "rep_inv C (c\<lparr>sc_objects := sc_objects c @ xs\<rparr>)"
proof -
  let ?c = "c\<lparr>sc_objects := sc_objects c @ xs\<rparr>"
  have k: "keeps_objects c ?c" by (simp add: keeps_objects_def object_of_def find_append)
  have ok: "sources_ok c" "reps_ok C c" "history_ok c" using assms(1) by (simp_all add: rep_inv_def)
  have "sources_ok ?c" by (rule sources_frame[OF ok(1) k]) (use assms(2) in simp_all)
  moreover have "reps_ok C ?c" by (rule reps_frame[OF ok(2) k]) (simp_all add: keeps_versions_same)
  moreover have "history_ok ?c"
  proof (rule history_same[OF ok(3)])
    show "ready_scope ?c s" if "ready_scope c s" for s using that by (simp add: ready_scope_def find_rep_def)
  qed simp_all
  ultimately show ?thesis by (simp add: rep_inv_def)
qed

inductive rep_step :: "rcanon \<Rightarrow> rep_catalog \<Rightarrow> rep_catalog \<Rightarrow> bool" for R where
  register: "source_key_valid k \<Longrightarrow> register_document k i now c = Inr (c', d) \<Longrightarrow> rep_step R c c'"
| version: "source_version_valid w \<Longrightarrow> commit_source_version w c = Inr (c', v) \<Longrightarrow> rep_step R c c'"
| acquire: "parser_recipe_valid recipe \<Longrightarrow> acquire_representation R s recipe owner token now until c = Inr (c', z) \<Longrightarrow> rep_step R c c'"
| renew: "renew_representation R s owner token expected now until c = Inr (c', p, token') \<Longrightarrow> rep_step R c c'"
| give_up: "fail_representation R s owner token expected now code c = Inr (c', a) \<Longrightarrow> rep_step R c c'"
| publish: "ready_commit_valid R m \<Longrightarrow> commit_ready_representation R m owner' token' expected' d c = Inr (c', y) \<Longrightarrow> rep_step R c c'"
| observe: "record_ready_ingest (rk_canon R) s observed at d c = Inr (c', h, e) \<Longrightarrow> rep_step R c c'"
| share: "distinct (map so_id (sc_objects c @ xs)) \<Longrightarrow> rep_step R c (c\<lparr>sc_objects := sc_objects c @ xs\<rparr>)"

definition empty_reps :: rep_catalog where
  "empty_reps = \<lparr>sc_maintenance = False, sc_objects = [], sc_documents = [], sc_versions = [], sc_references = [], sc_reps = [],
     sc_scopes = [], sc_blocks = [], sc_index = [], sc_heads = [], sc_events = []\<rparr>"

abbreviation rep_reach :: "rcanon \<Rightarrow> rep_catalog \<Rightarrow> bool" where
  "rep_reach R c \<equiv> (rep_step R)\<^sup>*\<^sup>* empty_reps c"

lemma empty_reps_inv: "rep_inv C empty_reps"
  by (simp add: rep_inv_def sources_ok_def reps_ok_def history_ok_def empty_reps_def documents_constraints_def held_tokens_def
      scopes_ok_def blocks_constraints_def index_ok_def doc_events_def replay_def find_head_def List.map_filter_simps)

lemma rep_step_inv: "rep_step R c c' \<Longrightarrow> rep_inv (rk_canon R) c \<Longrightarrow> rep_inv (rk_canon R) c'"
proof (induction rule: rep_step.induct)
  case (observe s observed at d c c' h e)
  then show ?case by (elim record_cases)
qed (blast intro: register_document_inv source_version_inv acquire_inv renew_inv fail_inv commit_inv share_inv)+

lemma rep_reach_inv: "rep_reach R c \<Longrightarrow> rep_inv (rk_canon R) c"
  by (induction rule: rtranclp_induct) (simp_all add: empty_reps_inv rep_step_inv)

end
