(* ===== verification/Rep_Lifecycle.thy ===== *)
theory Rep_Lifecycle
  imports Rep_Reach
begin

text \<open>
  The lifecycle of a representation as a graph on its row, and that every transaction moves one row
  along one edge of it and leaves the blocks of every other representation and of ready ones alone.
\<close>

section \<open>The lifecycle\<close>

definition same_claim :: "rep_row \<Rightarrow> rep_row \<Rightarrow> bool" where
  "same_claim x y \<longleftrightarrow> rw_scope y = rw_scope x \<and> rw_recipe y = rw_recipe x \<and> rw_created y = rw_created x \<and>
     rw_revision y = rw_revision x + 1"

inductive rep_edge :: "rep_row option \<Rightarrow> rep_row option \<Rightarrow> bool" where
  stay: "rep_edge a a"
| claim: "rw_state y = STAGING \<Longrightarrow> rw_attempts y = 1 \<Longrightarrow> rw_revision y = 1 \<Longrightarrow> rep_edge None (Some y)"
| take_over: "same_claim x y \<Longrightarrow> rw_state x = REP_FAILED \<or> rw_state x = STAGING \<and> opt_all (\<lambda>t. t \<le> rw_updated y) (rw_lease x) \<Longrightarrow>
    rw_state y = STAGING \<Longrightarrow> rw_attempts y = rw_attempts x + 1 \<Longrightarrow> rw_updated x \<le> rw_updated y \<Longrightarrow> rep_edge (Some x) (Some y)"
| prolong: "same_claim x y \<Longrightarrow> rw_state x = STAGING \<Longrightarrow> rw_state y = STAGING \<Longrightarrow> rw_attempts y = rw_attempts x \<Longrightarrow>
    rw_owner y = rw_owner x \<Longrightarrow> rw_token y = rw_token x \<Longrightarrow> rw_updated x \<le> rw_updated y \<Longrightarrow>
    opt_all (\<lambda>t. rw_updated y < t) (rw_lease x) \<Longrightarrow> rep_edge (Some x) (Some y)"
| settle: "same_claim x y \<Longrightarrow> rw_state x = STAGING \<Longrightarrow> rw_state y \<noteq> STAGING \<Longrightarrow> rw_attempts y = rw_attempts x \<Longrightarrow>
    rw_last_token y = rw_token x \<Longrightarrow> opt_all (\<lambda>t. rw_updated y < t) (rw_lease x) \<Longrightarrow> rep_edge (Some x) (Some y)"

inductive_cases rep_edge_from: "rep_edge (Some x) b"

lemma rep_edge_ready: "rep_edge (Some x) b \<Longrightarrow> rw_state x = READY \<Longrightarrow> b = Some x"
  by (erule rep_edge_from) simp_all

lemma rep_edge_kept: "rep_edge (Some x) b \<Longrightarrow> \<exists>y. b = Some y \<and> rw_scope y = rw_scope x \<and> rw_recipe y = rw_recipe x \<and>
    rw_revision x \<le> rw_revision y \<and> rw_attempts x \<le> rw_attempts y"
  by (erule rep_edge_from) (simp_all add: same_claim_def)

text \<open>What a transaction on the representation \<open>t\<close> does.\<close>

definition moves :: "rep_catalog \<Rightarrow> rep_catalog \<Rightarrow> rep_scope \<Rightarrow> bool" where
  "moves c c' t \<longleftrightarrow> keeps_objects c c' \<and> rep_edge (find_rep c t) (find_rep c' t) \<and>
     (\<forall>s. s \<noteq> t \<longrightarrow> find_rep c' s = find_rep c s) \<and>
     (\<forall>s. s \<noteq> t \<or> ready_scope c s \<longrightarrow> scope_rows c' s = scope_rows c s)"

lemma moves_same_reps:
  assumes "keeps_objects c c'" "sc_reps c' = sc_reps c" "sc_scopes c' = sc_scopes c" "sc_blocks c' = sc_blocks c"
  shows "moves c c' t"
  using assms by (simp add: moves_def find_rep_def scope_rows_def stay)

lemma moves_refl: "moves c c t"
  by (rule moves_same_reps) simp_all

lemma moves_update:
  assumes "update_rep s f c = Inr c'" "\<And>r. rw_scope (f r) = rw_scope r" "find_rep c s = Some r" "rep_edge (Some r) (Some (f r))"
  shows "moves c c' s"
proof -
  note u = update_rep_cases[OF assms(1,2)]
  have "keeps_objects c c'" by (rule keeps_objects_same) (simp add: u(1))
  moreover have "scope_rows c' t = scope_rows c t" for t by (simp add: u(1) scope_rows_def)
  ultimately show ?thesis using assms(3,4) u(2) by (auto simp: moves_def option.map_ident)
qed

lemma moves_observed: "moves c c' t \<Longrightarrow> moves c (observed_catalog e c') t"
  by (simp add: moves_def find_rep_def scope_rows_def keeps_objects_def object_of_def)

section \<open>Every transaction moves one row\<close>

lemma acquire_moves:
  assumes "acquire_representation R s recipe owner token now until c = Inr (c', z)" "rep_inv (rk_canon R) c"
  shows "moves c c' s"
  using assms(1)
proof (cases rule: acquire_cases)
  case (taken r a)
  have "rw_state r = STAGING \<Longrightarrow> opt_all (\<lambda>t. t \<le> now) (rw_lease r)" using taken(2) by (auto simp: opt_all_def split: option.splits)
  then have "rep_edge (Some r) (Some (taken_rep owner (rk_sha R token) now until r))"
    using taken(2,3) by (intro take_over) (auto simp: same_claim_def)
  then show ?thesis using moves_update[OF taken(6) _ taken(1)] by simp
next
  case (fresh a c1)
  let ?row = "fresh_rep s recipe owner (rk_sha R token) now until"
  have row: "rw_scope ?row = s" by (simp add: fresh_rep_def)
  have c1: "c1 = c\<lparr>sc_reps := sc_reps c @ [?row]\<rparr>" using fresh(3) by (auto simp: put_reps_def split: if_splits)
  have ok: "reps_ok (rk_canon R) c" using assms(2) by (simp add: rep_inv_def)
  have "block_row_check c1 = block_row_check c" by (simp add: c1 block_row_check_def fun_eq_iff)
  then have bc: "list_all (block_row_check c1) (sc_blocks c1)" using ok by (simp add: reps_ok_def c1)
  note i = insert_scope_rows[OF fresh(4) bc]
  have "find_rep c' t = (if t = s then Some ?row else find_rep c t)" for t
    using fresh(1) row by (auto simp: i(1) c1 find_rep_def find_append split: option.split)
  moreover have "scope_rows c' t = scope_rows c t" for t using i(3)[of t] by (simp add: scope_rows_def c1)
  moreover have "rep_edge None (Some ?row)" by (rule claim) (simp_all add: fresh_rep_def)
  moreover have "keeps_objects c c'" by (rule keeps_objects_same) (simp add: i(1) c1)
  ultimately show ?thesis using fresh(1) by (simp add: moves_def)
qed (simp_all add: moves_refl)

lemma renew_moves:
  assumes "renew_representation R s owner token expected now until c = Inr (c', p, token')"
  shows "moves c c' s"
  using assms
proof (cases rule: renew_cases)
  case (1 r a)
  then have "rep_edge (Some r) (Some (renewed_rep now until r))"
    by (intro prolong) (simp_all add: same_claim_def renewed_rep_def assert_rep_lease_Inr)
  then show ?thesis using moves_update[OF 1(5) _ 1(1)] by (simp add: renewed_rep_def)
qed

lemma fail_moves:
  assumes "fail_representation R s owner token expected now code c = Inr (c', a)"
  shows "moves c c' s"
  using assms
proof (cases rule: fail_cases)
  case (failed r)
  then have "rep_edge (Some r) (Some (failed_rep (rk_sha R token) code now r))"
    by (intro settle) (simp_all add: same_claim_def failed_rep_def assert_rep_lease_Inr)
  then show ?thesis using moves_update[OF failed(5) _ failed(1)] by (simp add: failed_rep_def)
qed (simp add: moves_refl)

lemma setting_moves:
  assumes set: "commit_setting R m r k c c1" and edge: "rep_edge (Some r) (Some (ready_rep h m r))"
  shows "moves c (ready_tables R m h k c1) (cm_scope m)"
proof -
  let ?c = "ready_tables R m h k c1"
  obtain ys where y: "c1 = c\<lparr>sc_objects := sc_objects c @ ys\<rparr>" "keeps_objects c c1" using setting_objects[OF set] by metis
  note i = setting_insertable[OF set]
  have row: "find_rep c (cm_scope m) = Some r" "rw_state r \<noteq> READY" using set by (simp_all add: commit_setting_def)
  have same: "find_rep c1 = find_rep c" by (simp add: y(1) find_rep_def fun_eq_iff)
  have "scope_rows ?c s = scope_rows c s" if s: "s \<noteq> cm_scope m" for s
  proof -
    have "(k, s) \<notin> set (sc_scopes c1)" using scope_key_unique(2)[OF i(1,2)] s by simp
    then have "filter (\<lambda>b. (bw_key b, s) \<in> set (sc_scopes c1)) (indexed_rows R at n k ps) = []" for at n ps
      using in_indexed_rows[of _ R at n k ps] by (fastforce simp: filter_empty_conv)
    then show ?thesis by (simp add: scope_rows_def ready_tables_def Let_def) (simp add: y(1))
  qed
  moreover have "\<not> ready_scope c (cm_scope m)" using not_ready[OF row] .
  moreover have "keeps_objects c ?c" using y(2) by (simp add: keeps_objects_def)
  ultimately show ?thesis using row edge by (auto simp: moves_def ready_tables_rep same option.map_ident)
qed

lemma commit_moves:
  assumes "commit_ready_representation R m owner token expected d c = Inr (c', z)" "rep_inv (rk_canon R) c" "ready_commit_valid R m"
  shows "moves c c' (cm_scope m)"
  using assms
proof (cases rule: ready_commit_cases)
  case (published r owner' h expected' v k c1 e)
  have l: "rw_state r = STAGING" "rw_token r = Some h" "opt_all (\<lambda>t. cm_ready m < t) (rw_lease r)"
    using published(5) by (simp_all add: assert_rep_lease_Inr)
  then have "rep_edge (Some r) (Some (ready_rep h m r))" by (intro settle) (simp_all add: same_claim_def)
  then show ?thesis using setting_moves[OF published(8)] moves_observed unfolding published(13) by blast
qed (simp_all add: moves_refl moves_observed)

lemma step_moves:
  assumes "rep_step R c c'" "rep_inv (rk_canon R) c"
  shows "\<exists>t. moves c c' t"
  using assms
proof (induction rule: rep_step.induct)
  case (register k i now c c' d)
  from register(2) show ?case
  proof (cases rule: register_document_cases)
    case new
    have "keeps_objects c c'" by (rule keeps_objects_same) (simp add: new(6))
    then show ?thesis by (intro exI moves_same_reps) (simp_all add: new(6))
  qed (auto simp: moves_refl)
next
  case (version w c c' v)
  from version(2) show ?case
  proof (cases rule: source_version_cases)
    case (new ys c2)
    note i = insert_references_frame(1)[OF new(8)]
    have "keeps_objects c c'" using new(2) by (simp add: i keeps_objects_def object_of_def)
    then show ?thesis by (intro exI moves_same_reps) (simp_all add: i new(1))
  qed (auto simp: moves_refl)
next
  case (observe s observed at d c c' h e)
  then show ?case using moves_observed[OF moves_refl[of c s]] by (elim record_cases) blast+
next
  case (share c xs)
  have "keeps_objects c (c\<lparr>sc_objects := sc_objects c @ xs\<rparr>)" by (simp add: keeps_objects_def object_of_def find_append)
  then show ?case by (intro exI moves_same_reps) simp_all
qed (blast intro: acquire_moves renew_moves fail_moves commit_moves)+

section \<open>Ready representations\<close>

lemma moves_aggregate:
  assumes "moves c c' t" "rep_inv C c" "rep_inv C c'" "find_rep c s = Some r" "s \<noteq> t \<or> rw_state r = READY"
  shows "representation_aggregate C c' r = representation_aggregate C c r"
proof -
  have rs: "s \<noteq> t \<or> ready_scope c s" using assms(4,5) by (auto simp: ready_scope_def)
  have ok: "reps_ok C c" "reps_ok C c'" using assms(2,3) by (simp_all add: rep_inv_def)
  have r: "r \<in> set (sc_reps c)" "rw_scope r = s" using find_rep_Some[OF assms(4)] by simp_all
  have "scope_rows c' s = scope_rows c s" "keeps_objects c c'" using assms(1) rs unfolding moves_def by blast+
  then have "rep_blocks_of c' s = rep_blocks_of c s" using ok by (intro rep_blocks_of_cong) (simp_all add: reps_ok_def scopes_ok_def)
  then show ?thesis
    using assms(1) ok(1) r by (intro aggregate_cong) (simp_all add: moves_def reps_ok_def list_all_iff)
qed

lemma moves_ready:
  assumes "moves c c' t" "find_rep c s = Some r" "rw_state r = READY"
  shows "find_rep c' s = Some r"
proof (cases "s = t")
  case True
  then show ?thesis using rep_edge_ready[of r "find_rep c' t"] assms by (simp add: moves_def)
qed (use assms in \<open>simp add: moves_def\<close>)

text \<open>The representations that a transaction does not move read the same afterwards.\<close>

lemma moves_others:
  assumes "moves c c' t" "rep_inv C c" "rep_inv C c'" "s \<noteq> t"
  shows "load_representation C s c' = load_representation C s c"
proof (cases "find_rep c s")
  case None
  then show ?thesis using assms(1,4) by (simp add: load_representation_def optional_row_def moves_def)
next
  case (Some r)
  then show ?thesis using moves_aggregate[OF assms(1-3) Some] assms(1,4)
    by (simp add: load_representation_def optional_row_def moves_def)
qed

lemma ready_kept:
  assumes "(rep_step R)\<^sup>*\<^sup>* c c'" "rep_inv (rk_canon R) c" "find_rep c s = Some r" "rw_state r = READY"
  shows "rep_inv (rk_canon R) c' \<and> find_rep c' s = Some r \<and>
    representation_aggregate (rk_canon R) c' r = representation_aggregate (rk_canon R) c r"
  using assms(1)
proof (induction rule: rtranclp_induct)
  case (step y z)
  then obtain t where "moves y z t" using step_moves by blast
  then show ?case using step moves_ready[of y z t s r] moves_aggregate[of y z t _ s r] rep_step_inv[OF step.hyps(2)] assms(4) by metis
qed (use assms in simp)

end
