(* ===== verification/Rep_Growth.thy ===== *)
theory Rep_Growth
  imports Rep_Lifecycle "HOL-Library.Sublist"
begin

text \<open>
  What no transaction on the ingestion tables takes back: objects, documents, versions, references and
  events are only appended, and a stored document or version reads the same for ever.
\<close>

definition tables_grow :: "rep_catalog \<Rightarrow> rep_catalog \<Rightarrow> bool" where
  "tables_grow c c' \<longleftrightarrow> sc_maintenance c' = sc_maintenance c \<and> prefix (sc_objects c) (sc_objects c') \<and>
     prefix (sc_documents c) (sc_documents c') \<and> prefix (sc_versions c) (sc_versions c') \<and>
     prefix (sc_events c) (sc_events c') \<and>
     (\<exists>fs. sc_references c' = sc_references c @ fs \<and> (\<forall>f\<in>set fs. find_version c (rf_document f) (rf_version f) = None))"

lemma tables_grow_rest:
  assumes "sc_maintenance c' = sc_maintenance c" "prefix (sc_objects c) (sc_objects c')" "sc_documents c' = sc_documents c"
    "sc_versions c' = sc_versions c" "sc_references c' = sc_references c" "prefix (sc_events c) (sc_events c')"
  shows "tables_grow c c'"
  using assms by (simp add: tables_grow_def)

lemma tables_grow_refl [simp]: "tables_grow c c"
  by (rule tables_grow_rest) simp_all

lemma find_in_prefix: "prefix xs ys \<Longrightarrow> find P xs = Some x \<Longrightarrow> find P ys = Some x"
  by (auto simp: prefix_def find_append)

lemma tables_grow_find_version: "tables_grow c c' \<Longrightarrow> find_version c d v = Some r \<Longrightarrow> find_version c' d v = Some r"
  unfolding tables_grow_def find_version_def using find_in_prefix[of "sc_versions c" "sc_versions c'"] by blast

lemma tables_grow_trans:
  assumes "tables_grow a b" "tables_grow b c"
  shows "tables_grow a c"
proof -
  have "find_version a d v = None" if "find_version b d v = None" for d v
    using tables_grow_find_version[OF assms(1), of d v] that by (cases "find_version a d v") simp_all
  then show ?thesis using assms unfolding tables_grow_def by (fastforce intro: prefix_order.trans)
qed

lemma tables_grow_update: "update_rep s f c = Inr c' \<Longrightarrow> tables_grow c c'"
  by (rule tables_grow_rest) (auto simp: update_rep_def put_reps_def split: if_splits)

lemma tables_grow_observed: "tables_grow c c' \<Longrightarrow> tables_grow c (observed_catalog e c')"
  by (auto simp: tables_grow_def observed_catalog_def prefix_def)

lemma acquire_grows: "acquire_representation R s recipe owner token now until c = Inr (c', z) \<Longrightarrow> tables_grow c c'"
proof (erule acquire_cases)
  fix c1 assume "put_reps (sc_reps c @ [fresh_rep s recipe owner (rk_sha R token) now until]) c = Inr c1" "insert_scope s c1 = Inr c'"
  then show "tables_grow c c'" by (intro tables_grow_rest) (auto simp: put_reps_def insert_scope_def split: if_splits)
qed (simp_all add: tables_grow_update)

lemma commit_grows:
  assumes "commit_ready_representation R m owner token expected d c = Inr (c', z)" "rep_inv (rk_canon R) c" "ready_commit_valid R m"
  shows "tables_grow c c'"
  using assms
proof (cases rule: ready_commit_cases)
  case (published r owner' h expected' v k c1 e)
  obtain ys where "c1 = c\<lparr>sc_objects := sc_objects c @ ys\<rparr>" using setting_objects[OF published(8)] by metis
  then have "tables_grow c (ready_tables R m h k c1)" by (intro tables_grow_rest) (simp_all add: ready_tables_def Let_def)
  then show ?thesis unfolding published(13) by (rule tables_grow_observed)
qed (simp_all add: tables_grow_observed)

lemma step_grows:
  assumes "rep_step R c c'" "rep_inv (rk_canon R) c"
  shows "tables_grow c c'"
  using assms
proof (induction rule: rep_step.induct)
  case (register k i now c c' d)
  from register(2) show ?case by (cases rule: register_document_cases) (simp_all add: tables_grow_def)
next
  case (version w c c' v)
  from version(2) show ?case
  proof (cases rule: source_version_cases)
    case (new ys c2)
    then show ?thesis using insert_references_frame(1)[OF new(8)]
      by (simp add: tables_grow_def row_of_reference_def)
  qed simp
next
  case (observe s observed at d c c' h e)
  then show ?case by (elim record_cases) (simp_all add: tables_grow_observed)
next
  case (renew s owner token expected now until c c' p token')
  from renew(1) show ?case by (cases rule: renew_cases) (rule tables_grow_update)
next
  case (give_up s owner token expected now code c c' a)
  from give_up(1) show ?case by (cases rule: fail_cases) (simp_all add: tables_grow_update)
next
  case (share c xs)
  show ?case by (rule tables_grow_rest) simp_all
qed (blast intro: acquire_grows commit_grows)+

lemma steps_grow:
  assumes "(rep_step R)\<^sup>*\<^sup>* c c'" "rep_inv (rk_canon R) c"
  shows "tables_grow c c' \<and> rep_inv (rk_canon R) c'"
  using assms(1)
proof (induction rule: rtranclp_induct)
  case (step y z)
  then show ?case using step_grows[OF step.hyps(2)] rep_step_inv[OF step.hyps(2)] tables_grow_trans by blast
qed (use assms(2) in simp)

section \<open>Sources\<close>

lemma find_keeps: "tables_grow c c' \<Longrightarrow> keeps_objects c c'"
  unfolding tables_grow_def keeps_objects_def object_of_def using find_in_prefix[of "sc_objects c" "sc_objects c'"] by blast

lemma tables_grow_version:
  assumes "tables_grow c c'" "sources_ok c" "load_version c d v = Inr (Some w)"
  shows "load_version c' d v = Inr (Some w)"
proof -
  let ?c = "c\<lparr>sc_objects := sc_objects c'\<rparr>"
  obtain r where r: "find_version c d v = Some r" using assms(3) by (auto simp: load_version_def split: option.splits)
  have o: "object_of c' = object_of ?c" by (rule object_of_cong) simp
  obtain fs where fs: "sc_references c' = sc_references c @ fs" "\<forall>f\<in>set fs. find_version c (rf_document f) (rf_version f) = None"
    using assms(1) by (auto simp: tables_grow_def)
  have "keeps_objects c ?c" using find_keeps[OF assms(1)] by (simp add: keeps_objects_def o)
  then have "load_version ?c d v = load_version c d v" using assms(2) r by (intro load_version_cong) simp_all
  moreover have "load_version c' d v = load_version ?c d v"
  proof (rule load_version_at[OF _ o])
    show "find_version c' d v = find_version ?c d v" using tables_grow_find_version[OF assms(1) r] r by (simp add: find_version_def)
    have "filter (\<lambda>f. rf_document f = d \<and> rf_version f = v) fs = []" using fs(2) r by (auto simp: filter_empty_conv)
    then show "version_references c' d v = version_references ?c d v" by (simp add: version_references_def o fs(1))
  qed
  ultimately show ?thesis using assms(3) by simp
qed

lemma tables_grow_document:
  assumes "tables_grow c c'" "get_document_by_source k c = Inr (Some d)"
  shows "get_document_by_source k c' = Inr (Some d)"
proof -
  obtain r where r: "find (\<lambda>d. (ld_connector d, ld_locator d) = k) (sc_documents c) = Some r" "document_from_row r = Inr d"
    using assms(2) by (auto simp: get_document_by_source_def load_document_by_source_def optional_row_Inr split: option.splits)
  then show ?thesis using find_in_prefix[OF _ r(1), of "sc_documents c'"] assms(1)
    by (simp add: get_document_by_source_def load_document_by_source_def optional_row_def tables_grow_def)
qed

section \<open>Events\<close>

text \<open>The parse that made a representation ready is in the log.\<close>

definition parse_logged :: "rep_catalog \<Rightarrow> rep_scope \<Rightarrow> bool" where
  "parse_logged c s \<longleftrightarrow> (\<exists>e\<in>set (sc_events c). ie_scope e = s \<and> ie_parsed e)"

lemma tables_grow_logged: "tables_grow c c' \<Longrightarrow> parse_logged c s \<Longrightarrow> parse_logged c' s"
  by (auto simp: tables_grow_def parse_logged_def prefix_def)

end
