(* ===== verification/Rep_Store.thy ===== *)
theory Rep_Store
  imports Rep_Growth Evidence_System
begin

text \<open>
  The two halves of the catalog together: the ingestion tables, and the tables of derivations and
  reconciliations, which share the objects and read the representations, blocks and heads.  Every
  transaction on the ingestion tables is a step the evidence tables allow for, and the other way round,
  so what was proved of each half holds in the whole.
\<close>

section \<open>The shared tables\<close>

definition projected :: "rep_catalog \<Rightarrow> block_ref list" where
  "projected c = map (\<lambda>(s, b). \<lparr>br_scope = s, br_block = bw_block b\<rparr>) (projections c)"

definition shared :: "rep_catalog \<Rightarrow> evidence_catalog \<Rightarrow> evidence_catalog" where
  "shared c e = e\<lparr>ec_objects := sc_objects c, ec_blocks := projected c,
     ec_ready := map (\<lambda>r. (rw_scope r, rw_ready r)) (sc_reps c), ec_heads := map dh_scope (sc_heads c)\<rparr>"

inductive store_step :: "rcanon \<Rightarrow> dcanon \<Rightarrow> rep_catalog \<times> evidence_catalog \<Rightarrow> rep_catalog \<times> evidence_catalog \<Rightarrow> bool"
  for R D where
  ingests: "rep_step R c c' \<Longrightarrow> store_step R D (c, e) (c', shared c' e)"
| derives: "publication_valid D p \<Longrightarrow> publish_derivation D p e = Inr (e', r) \<Longrightarrow>
    store_step R D (c, e) (c\<lparr>sc_objects := ec_objects e'\<rparr>, e')"
| reconciles: "plan_complete e p \<Longrightarrow> commit_reconciliation D v p e = Inr (e', z) \<Longrightarrow>
    store_step R D (c, e) (c\<lparr>sc_objects := ec_objects e'\<rparr>, e')"

abbreviation store_reach :: "rcanon \<Rightarrow> dcanon \<Rightarrow> rep_catalog \<times> evidence_catalog \<Rightarrow> bool" where
  "store_reach R D \<equiv> (store_step R D)\<^sup>*\<^sup>* (empty_reps, empty_evidence)"

section \<open>Projections\<close>

text \<open>A transaction projects new blocks for its own representation only, and only before it is ready.\<close>

definition projects :: "rep_catalog \<Rightarrow> rep_catalog \<Rightarrow> bool" where
  "projects c c' \<longleftrightarrow> (\<exists>bs. projections c' = projections c @ bs \<and> (\<forall>p\<in>set bs. \<not> ready_scope c (fst p)))"

lemma projects_same: "sc_scopes c' = sc_scopes c \<Longrightarrow> sc_blocks c' = sc_blocks c \<Longrightarrow> projects c c'"
  by (simp add: projects_def projections_def)

lemma projections_new_scope:
  assumes "\<forall>b\<in>set bs. bw_key b \<noteq> k"
  shows "concat (map (\<lambda>b. map (\<lambda>(k, s). (s, b)) (filter (\<lambda>(k, s). k = bw_key b) (scopes @ [(k, s)]))) bs) =
    concat (map (\<lambda>b. map (\<lambda>(k, s). (s, b)) (filter (\<lambda>(k, s). k = bw_key b) scopes)) bs)"
  using assms by (induction bs) auto

lemma acquire_projects:
  assumes "acquire_representation R s recipe owner token now until c = Inr (c', z)" "reps_ok (rk_canon R) c"
  shows "projects c c'"
  using assms(1)
proof (cases rule: acquire_cases)
  case (taken r a)
  from update_rep_cases(1)[OF taken(6)] show ?thesis by (intro projects_same) simp_all
next
  case (fresh a c1)
  have c1: "sc_scopes c1 = sc_scopes c" "sc_blocks c1 = sc_blocks c" using fresh(3) by (auto simp: put_reps_def split: if_splits)
  let ?k = "next_id (map fst (sc_scopes c1))"
  have c': "sc_scopes c' = sc_scopes c @ [(?k, s)]" "sc_blocks c' = sc_blocks c"
    using fresh(4) c1 by (auto simp: insert_scope_def split: if_splits)
  have "\<forall>b\<in>set (sc_blocks c). bw_key b \<in> set (map fst (sc_scopes c))"
    using assms(2) by (auto simp: reps_ok_def list_all_iff block_row_check_def)
  moreover have "?k \<notin> set (map fst (sc_scopes c))" using next_id_above[of ?k "map fst (sc_scopes c1)"] by (auto simp: c1)
  ultimately have "\<forall>b\<in>set (sc_blocks c). bw_key b \<noteq> ?k" by metis
  then have "projections c' = projections c" unfolding projections_def c' by (rule projections_new_scope)
  then show ?thesis by (simp add: projects_def)
qed (simp_all add: projects_same)

lemma commit_projects:
  assumes "commit_ready_representation R m owner token expected d c = Inr (c', z)" "rep_inv (rk_canon R) c" "ready_commit_valid R m"
  shows "projects c c'"
  using assms
proof (cases rule: ready_commit_cases)
  case (published r owner' h expected' v k c1 e)
  obtain ys where y: "c1 = c\<lparr>sc_objects := sc_objects c @ ys\<rparr>" using setting_objects[OF published(8)] by metis
  note i = setting_insertable[OF published(8)]
  let ?bs = "indexed_rows R (cm_ready m) (next_id (map bw_entry (sc_blocks c1))) k (cm_blocks m)"
  let ?ps = "concat (map (\<lambda>b. map (\<lambda>(k, s). (s, b)) (filter (\<lambda>(k, s). k = bw_key b) (sc_scopes c))) ?bs)"
  have eq: "projections c' = projections c @ ?ps"
    by (simp add: published(13) projections_def ready_tables_def Let_def) (simp add: y)
  have own: "fst p = cm_scope m" if p: "p \<in> set ?ps" for p
  proof -
    from p obtain b j t where b: "b \<in> set ?bs" "(j, t) \<in> set (sc_scopes c)" "j = bw_key b" "p = (t, b)" by auto
    then have "j = k" using in_indexed_rows[OF b(1)] by auto
    then show ?thesis using scope_key_unique(2)[OF i(1,2)] b y by auto
  qed
  have "\<not> ready_scope c (cm_scope m)" using published(8) not_ready by (auto simp: commit_setting_def)
  then have "\<forall>p\<in>set ?ps. \<not> ready_scope c (fst p)" using own by simp
  with eq show ?thesis unfolding projects_def by (intro exI conjI)
next
  case (replayed r h)
  show ?thesis by (rule projects_same) (simp_all add: replayed(1))
next
  case (reparsed r e)
  show ?thesis by (rule projects_same) (simp_all add: reparsed(7))
qed

lemma step_projects:
  assumes "rep_step R c c'" "rep_inv (rk_canon R) c"
  shows "projects c c'"
  using assms
proof (induction rule: rep_step.induct)
  case (register k i now c c' d)
  from register(2) show ?case by (cases rule: register_document_cases) (simp_all add: projects_same)
next
  case (version w c c' v)
  from version(2) show ?case
  proof (cases rule: source_version_cases)
    case (new ys c2)
    then show ?thesis using insert_references_frame(1)[OF new(8)] by (simp add: projects_same)
  qed (simp add: projects_same)
next
  case (acquire recipe s owner token now until c c' z)
  then show ?case using acquire_projects by (simp add: rep_inv_def)
next
  case (observe s observed at d c c' h e)
  then show ?case by (elim record_cases) (simp_all add: projects_same)
next
  case (renew s owner token expected now until c c' p token')
  from renew(1) show ?case
    by (cases rule: renew_cases) (auto dest!: update_rep_cases(1) simp: renewed_rep_def intro: projects_same)
next
  case (give_up s owner token expected now code c c' a)
  from give_up(1) show ?case
    by (cases rule: fail_cases) (auto dest!: update_rep_cases(1) simp: failed_rep_def intro: projects_same)
qed (simp_all add: commit_projects projects_same)

section \<open>Ingestion as the evidence tables see it\<close>

lemma shared_ready:
  assumes "reps_ok C c"
  shows "ready_at (shared c e) s = Option.bind (find_rep c s) rw_ready"
proof -
  have "map_of (map (\<lambda>r. (rw_scope r, rw_ready r)) rs) s = map_option rw_ready (find (\<lambda>r. rw_scope r = s) rs)"
    for rs :: "rep_row list" by (induction rs) auto
  then show ?thesis by (cases "find_rep c s") (simp_all add: ready_at_def shared_def find_rep_def)
qed

lemma ready_exactly:
  assumes "reps_ok C c" "find_rep c s = Some r"
  shows "rw_ready r \<noteq> None \<longleftrightarrow> rw_state r = READY"
  using assms find_rep_Some[OF assms(2)]
  by (cases "rw_state r") (auto simp: reps_ok_def list_all_iff rep_row_check_def shape_check_def)

lemma step_ingestion:
  assumes "rep_step R c c'" "rep_inv (rk_canon R) c"
  shows "ingestion (shared c e) (shared c' e)"
proof -
  have ok: "reps_ok (rk_canon R) c" "rep_inv (rk_canon R) c'" "reps_ok (rk_canon R) c'"
    using rep_step_inv[OF assms] assms(2) by (simp_all add: rep_inv_def)
  obtain t where t: "moves c c' t" using step_moves[OF assms] by blast
  obtain xs where xs: "sc_objects c' = sc_objects c @ xs" using step_grows[OF assms] by (auto simp: tables_grow_def prefix_def)
  obtain bs where bs: "projections c' = projections c @ bs" "\<forall>p\<in>set bs. \<not> ready_scope c (fst p)"
    using step_projects[OF assms] by (auto simp: projects_def)
  let ?bs = "map (\<lambda>(s, b). \<lparr>br_scope = s, br_block = bw_block b\<rparr>) bs"
  have "distinct (map so_id (sc_objects c @ xs))" using ok(2) xs by (simp add: rep_inv_def sources_ok_def)
  moreover have "ready_at (shared c e) (br_scope b) = None" if b: "b \<in> set ?bs" for b
  proof -
    have "\<not> ready_scope c (br_scope b)" using b bs(2) by auto
    then show ?thesis using ready_exactly[OF ok(1), of "br_scope b"] unfolding shared_ready[OF ok(1)] ready_scope_def
      by (cases "find_rep c (br_scope b)") fastforce+
  qed
  moreover have "ready_at (shared c' e) s = Some at" if r: "ready_at (shared c e) s = Some at" for s at
  proof -
    obtain r where "find_rep c s = Some r" "rw_ready r = Some at" using r unfolding shared_ready[OF ok(1)] by (auto split: bind_splits)
    then show ?thesis using moves_ready[OF t, of s r] ready_exactly[OF ok(1), of s r] unfolding shared_ready[OF ok(3)] by simp
  qed
  moreover have "projected c' = projected c @ ?bs" by (simp add: projected_def bs(1))
  ultimately show ?thesis unfolding ingestion_def
    by (intro exI[of _ xs] exI[of _ ?bs] exI[of _ "ec_ready (shared c' e)"] exI[of _ "ec_heads (shared c' e)"])
      (simp add: shared_def xs)
qed

section \<open>The whole catalog\<close>

lemma shared_again [simp]: "shared c (shared c' e) = shared c e"
  by (simp add: shared_def)

lemma evidence_shares:
  assumes "e = shared c e" "same_reads e e'"
  shows "e' = shared (c\<lparr>sc_objects := ec_objects e'\<rparr>) e'"
proof -
  have "ec_blocks e = projected c" "ec_ready e = map (\<lambda>r. (rw_scope r, rw_ready r)) (sc_reps c)" "ec_heads e = map dh_scope (sc_heads c)"
    by (subst assms(1), simp add: shared_def)+
  then show ?thesis using assms(2) by (simp add: shared_def same_reads_def projected_def projections_def)
qed

lemma evidence_shares_step:
  assumes "rep_reach R c" "evidence_step D e e'" "system_inv D e" "e = shared c e"
  shows "rep_reach R (c\<lparr>sc_objects := ec_objects e'\<rparr>)"
proof -
  have o: "ec_objects e = sc_objects c" by (subst assms(4)) (simp add: shared_def)
  have "system_inv D e'" "extends e e'" using step_inv[OF assms(2,3)] by blast+
  then obtain xs where xs: "ec_objects e' = sc_objects c @ xs" "distinct (map so_id (ec_objects e'))"
    using o by (auto simp: extends_def prefix_def system_inv_def evidence_inv_def rows_inv_def)
  have "rep_step R c (c\<lparr>sc_objects := sc_objects c @ xs\<rparr>)" using xs by (intro rep_step.share) simp
  then show ?thesis using assms(1) xs(1) by simp
qed

definition in_step :: "rcanon \<Rightarrow> dcanon \<Rightarrow> rep_catalog \<times> evidence_catalog \<Rightarrow> bool" where
  "in_step R D x \<longleftrightarrow> rep_reach R (fst x) \<and> evidence_reach D (snd x) \<and> snd x = shared (fst x) (snd x)"

lemma store_step_keeps:
  assumes "store_step R D x y" "in_step R D x"
  shows "in_step R D y"
  using assms
proof (induction rule: store_step.induct)
  case (ingests c c' e)
  then have r: "rep_reach R c" "evidence_reach D e" "e = shared c e" by (simp_all add: in_step_def)
  have "evidence_step D e (shared c' e)"
    using step_ingestion[OF ingests(1) rep_reach_inv[OF r(1)], of e] r(3) by (intro evidence_step.ingest) simp
  then show ?case using r ingests(1) unfolding in_step_def by (auto intro: rtranclp.rtrancl_into_rtrancl)
next
  case (derives p e e' r c)
  then have r: "rep_reach R c" "evidence_reach D e" "e = shared c e" by (simp_all add: in_step_def)
  have s: "evidence_step D e e'" using derives(1,2) by (rule evidence_step.publish)
  have "same_reads e e'" using publish_tables[OF derives(2)] by simp
  then show ?case using evidence_shares_step[OF r(1) s reach_inv[OF r(2)] r(3)] evidence_shares[OF r(3)] r(2) s
    unfolding in_step_def by (auto intro: rtranclp.rtrancl_into_rtrancl)
next
  case (reconciles e p v e' z c)
  then have r: "rep_reach R c" "evidence_reach D e" "e = shared c e" by (simp_all add: in_step_def)
  have s: "evidence_step D e e'" using reconciles(1,2) by (rule evidence_step.reconcile)
  have "same_reads e e'" using commit_reads[OF reconciles(2)] reach_inv[OF r(2)] by (simp add: system_inv_def)
  then show ?case using evidence_shares_step[OF r(1) s reach_inv[OF r(2)] r(3)] evidence_shares[OF r(3)] r(2) s
    unfolding in_step_def by (auto intro: rtranclp.rtrancl_into_rtrancl)
qed

lemma store_reach_in_step: "store_reach R D x \<Longrightarrow> in_step R D x"
proof (induction rule: rtranclp_induct)
  case base
  show ?case by (simp add: in_step_def shared_def empty_reps_def empty_evidence_def projected_def projections_def)
qed (rule store_step_keeps)

end
