(* ===== verification/Rep_Hierarchy.thy ===== *)
theory Rep_Hierarchy
  imports Rep_Domain
begin

text \<open>
  The walk that a ready commit makes from each block to its root is a test for cycles: it succeeds for
  every block exactly when the parent relation of the blocks is acyclic.
\<close>

definition up :: "(pystr \<times> pystr option) list \<Rightarrow> (pystr \<times> pystr) set" where
  "up ps = {(b, p). map_of ps b = Some (Some p)}"

declare climb.simps(2) [simp del]

lemma climb_seen: "climb ps seen (Some b) \<Longrightarrow> b \<notin> seen"
  by (simp add: climb.simps(2) split: if_splits)

lemma climb_up: "climb ps seen (Some b) \<Longrightarrow> (b, p) \<in> up ps \<Longrightarrow> climb ps (insert b seen) (Some p)"
  by (simp add: climb.simps(2)[of ps seen b] up_def split: if_splits)

lemma climb_stops: "\<not> climb ps seen (Some b) \<Longrightarrow> b \<notin> seen \<Longrightarrow> \<exists>p. (b, p) \<in> up ps \<and> \<not> climb ps (insert b seen) (Some p)"
  by (cases "case map_of ps b of None \<Rightarrow> None | Some p \<Rightarrow> p")
    (simp_all add: climb.simps(2)[of ps seen b] up_def split: option.splits)

text \<open>A walk that ends met nothing it had seen before.\<close>

lemma climb_avoids:
  assumes "(b, x) \<in> (up ps)\<^sup>*" "climb ps seen (Some b)"
  shows "x \<notin> seen"
  using assms
proof (induction arbitrary: seen rule: converse_rtrancl_induct)
  case base
  then show ?case by (rule climb_seen)
next
  case (step b p)
  have "climb ps (insert b seen) (Some p)" using step.prems step.hyps(1) by (rule climb_up)
  from step.IH[OF this] show ?case by blast
qed

text \<open>A walk that does not end met its past, or a cycle.\<close>

lemma climb_fails:
  assumes "\<not> climb ps seen cur"
  shows "\<exists>b x. cur = Some b \<and> (b, x) \<in> (up ps)\<^sup>* \<and> (x \<in> seen \<or> (x, x) \<in> (up ps)\<^sup>+)"
  using assms
proof (induction ps seen cur rule: climb.induct)
  case (2 ps seen b)
  show ?case
  proof (cases "b \<in> seen")
    case False
    then obtain p where p: "(b, p) \<in> up ps" "\<not> climb ps (insert b seen) (Some p)" using climb_stops[OF "2.prems" False] by blast
    then have n: "(case map_of ps b of None \<Rightarrow> None | Some q \<Rightarrow> q) = Some p" by (simp add: up_def)
    obtain x where x: "(p, x) \<in> (up ps)\<^sup>*" "x \<in> insert b seen \<or> (x, x) \<in> (up ps)\<^sup>+"
      using "2.IH"[OF False, unfolded n] p(2) by blast
    have "(b, b) \<in> (up ps)\<^sup>+" if "x = b" using p(1) x(1) that by (simp add: rtrancl_into_trancl2)
    moreover have "(b, x) \<in> (up ps)\<^sup>*" using p(1) x(1) by (rule converse_rtrancl_into_rtrancl)
    ultimately show ?thesis using x(2) by blast
  qed blast
qed simp

text \<open>The walk from every block to its root is an exact test for cycles: with the parents of the
  blocks as a dictionary it succeeds if and only if the parent relation is acyclic, and it always ends.\<close>

lemma hierarchy_check_is_exact: "hierarchy_ok ps \<longleftrightarrow> acyclic (up ps)"
proof
  assume h: "hierarchy_ok ps"
  show "acyclic (up ps)" unfolding acyclic_def
  proof (intro allI notI)
    fix b assume c: "(b, b) \<in> (up ps)\<^sup>+"
    then obtain p where p: "(b, p) \<in> up ps" "(p, b) \<in> (up ps)\<^sup>*" by (meson tranclD)
    then have "b \<in> set (map fst ps)" by (force simp: up_def dest: map_of_SomeD)
    then have "climb ps {} (Some b)" using h unfolding hierarchy_ok_def list_all_iff by blast
    then have "climb ps {b} (Some p)" using p(1) by (rule climb_up)
    then show False using climb_avoids[OF p(2)] by blast
  qed
next
  assume "acyclic (up ps)"
  then show "hierarchy_ok ps" using climb_fails[of ps "{}"] by (fastforce simp: hierarchy_ok_def list_all_iff acyclic_def)
qed

end
