(* ===== verification/Rep_Replay.thy ===== *)
theory Rep_Replay
  imports Rep_Growth
begin

text \<open>
  Commits by the holder of a claim: when they succeed, what they leave, and that the same call again
  finds its own result.
\<close>

lemma reach_open: "rep_reach R c \<Longrightarrow> open_write c = Inr ()"
  using steps_grow[OF _ empty_reps_inv, of R c] by (simp add: tables_grow_def empty_reps_def open_write_def ensure_def)

text \<open>The caller holds the claim on a row at a time.\<close>

definition holds_claim :: "rcanon \<Rightarrow> rep_row \<Rightarrow> pystr \<Rightarrow> pystr \<Rightarrow> nat \<Rightarrow> int \<Rightarrow> bool" where
  "holds_claim R r owner token expected now \<longleftrightarrow> rw_state r = STAGING \<and> rw_owner r = Some owner \<and>
     rw_token r = Some (rk_sha R token) \<and> opt_all (\<lambda>t. now < t) (rw_lease r) \<and> rw_revision r = expected"

section \<open>First commits\<close>

lemma version_there:
  assumes "rep_inv C c" "find_rep c s = Some r"
  obtains v where "load_version c (rs_document s) (rs_version s) = Inr (Some v)"
proof -
  have "rep_references_ok c r" "rw_scope r = s" using assms find_rep_Some[OF assms(2)]
    by (auto simp: rep_inv_def reps_ok_def list_all_iff)
  then obtain x where x: "find_version c (rs_document s) (rs_version s) = Some x" by (auto simp: rep_references_ok_def)
  then have "x \<in> set (sc_versions c)" "vr_document x = rs_document s" "vr_version x = rs_version s"
    by (auto simp: find_version_def dest: find_in)
  then show thesis using that assms(1) by (auto simp: rep_inv_def sources_ok_def)
qed

lemma commit_held:
  assumes inv: "rep_inv (rk_canon R) c" and "open_write c = Inr ()" and row: "find_rep c (cm_scope m) = Some r"
    and "holds_claim R r owner token expected (cm_ready m)" "16 \<le> length token" "rw_recipe r = cm_recipe m" "d \<noteq> D_CACHE_HIT"
  shows "commit_ready_representation R m (Some owner) (Some token) (Some expected) d c = publish_ready R m (rk_sha R token) d c"
proof -
  have ok: "reps_ok (rk_canon R) c" using inv by (simp add: rep_inv_def)
  obtain a where a: "required_representation (rk_canon R) c (cm_scope m) = Inr a" "ag_rep a = representation_of c r"
    using row_loads[OF ok row] by metis
  have "list_all rep_row_check (sc_reps c)" "r \<in> set (sc_reps c)" using ok find_rep_Some[OF row] by (simp_all add: reps_ok_def)
  then have "validate_rep_owner owner = Inr ()" using assms(4)
    by (auto simp: list_all_iff rep_row_check_def opt_all_def holds_claim_def validate_rep_owner_def ensure_def)
  moreover have "assert_rep_lease r owner (rk_sha R token) expected (cm_ready m) = Inr ()"
    using assms(4) by (simp add: assert_rep_lease_Inr holds_claim_def)
  moreover have "required_rep_row c (cm_scope m) = Inr r" using row by (simp add: required_rep_row_Inr)
  moreover have "rp_state (ag_rep a) \<noteq> READY" using assms(4) a(2) by (simp add: holds_claim_def)
  ultimately show ?thesis using assms(2,5-7) a(1)
    by (simp add: commit_ready_representation_def assert_row_recipe_def ensure_def optional_row_def rep_token_hash_def)
qed

text \<open>What a commit needs beyond the claim.\<close>

definition committable :: "ready_commit \<Rightarrow> rep_row \<Rightarrow> rep_catalog \<Rightarrow> bool" where
  "committable m r c \<longleftrightarrow> rw_recipe r = cm_recipe m \<and> rw_created r \<le> cm_ready m \<and>
     (\<exists>v. load_version c (rs_document (cm_scope m)) (rs_version (cm_scope m)) = Inr (Some v) \<and> sv_source v = cm_native m) \<and>
     lengths_agree (commit_objects m) c \<and> list_all indexable (cm_blocks m) \<and> \<not> head_conflict c (cm_scope m) (cm_observed m)"

lemma held_commit_iff:
  assumes inv: "rep_inv (rk_canon R) c" and "open_write c = Inr ()" and v: "ready_commit_valid R m"
    and row: "find_rep c (cm_scope m) = Some r" and hold: "holds_claim R r owner token expected (cm_ready m)"
    and token: "16 \<le> length token" and d: "d \<noteq> D_CACHE_HIT"
  shows "(\<exists>x. commit_ready_representation R m (Some owner) (Some token) (Some expected) d c = Inr x) \<longleftrightarrow> committable m r c"
proof (cases "rw_recipe r = cm_recipe m")
  case False
  have "required_rep_row c (cm_scope m) = Inr r" using row by (simp add: required_rep_row_Inr)
  then show ?thesis using False assms(2)
    by (simp add: commit_ready_representation_def assert_row_recipe_def ensure_def committable_def)
next
  case True
  note eq = commit_held[OF inv assms(2) row hold token True d]
  obtain w where w: "load_version c (rs_document (cm_scope m)) (rs_version (cm_scope m)) = Inr (Some w)"
    using version_there[OF inv row] .
  show ?thesis
  proof (cases "sv_source w = cm_native m \<and> lengths_agree (commit_objects m) c")
    case False
    then show ?thesis unfolding eq using w save_objects_succeeds[of "commit_objects m" c]
      by (auto simp: publish_ready_def committable_def commit_objects_def sbind_Inr_iff)
  next
    case ok: True
    then obtain c1 where c1: "save_objects (commit_objects m) c = Inr c1" using save_objects_succeeds by blast
    have "reps_ok (rk_canon R) c" using inv by (simp add: rep_inv_def)
    then obtain k where k: "(k, cm_scope m) \<in> set (sc_scopes c)" using scope_key_exists[OF _ row] by metis
    have set: "commit_setting R m r k c c1" using inv v row True c1 k hold by (simp add: commit_setting_def holds_claim_def)
    show ?thesis unfolding eq publish_ready_eq[OF set w conjunct1[OF ok] d] committable_def using ok w True by (auto simp: Let_def)
  qed
qed

section \<open>The same commit again\<close>

lemma last_scope_event_there:
  assumes "history_ok c" "parse_logged c s"
  obtains e where "last_scope_event c s = Inr e"
proof -
  let ?es = "filter (\<lambda>e. ie_scope e = s \<and> ie_parsed e) (sc_events c)"
  have "?es \<noteq> []" using assms(2) by (auto simp: parse_logged_def filter_empty_conv)
  from this[folded first_by_Some_iff_ne[of "\<lambda>e. - int (ie_sequence e)"]]
  obtain e where e: "first_by (\<lambda>e. - int (ie_sequence e)) ?es = Some e" by (elim exE)
  then have "ingest_event_valid e" using assms(1) first_by_in[OF e] by (auto simp: history_ok_def)
  then show thesis using that[of e] e by (simp add: last_scope_event_def event_from_row_def)
qed

lemma head_there:
  assumes "history_ok c" "parse_logged c s"
  obtains h where "required_document_head c (rs_document s) = Inr h" "find_head c (rs_document s) = Some h"
proof -
  obtain e where e: "e \<in> set (sc_events c)" "ie_scope e = s" using assms(2) by (auto simp: parse_logged_def)
  then have "rs_document s = ie_document e" using assms(1) by (auto simp: history_ok_def ingest_event_valid_def)
  then have "doc_events c (rs_document s) \<noteq> []" using e(1) by (auto simp: doc_events_def filter_empty_conv)
  then obtain h where h: "find_head c (rs_document s) = Some h" using assms(1) replay_facts[of "doc_events c (rs_document s)"]
    by (cases "find_head c (rs_document s)") (auto simp: history_ok_def)
  then show thesis using that history_head(1)[OF assms(1) h]
    by (simp add: required_document_head_def need_def head_from_row_def)
qed

lemma ready_commit_again:
  assumes inv: "rep_inv (rk_canon R) c" and "open_write c = Inr ()" and row: "find_rep c (cm_scope m) = Some r"
    and "rw_state r = READY" "rw_last_token r = Some (rk_sha R token)" "rw_recipe r = cm_recipe m" "16 \<le> length token" "d \<noteq> D_CACHE_HIT"
    and agg: "representation_aggregate (rk_canon R) c r = Inr a" "ready_matches a m" and logged: "parse_logged c (cm_scope m)"
  obtains e h where "last_scope_event c (cm_scope m) = Inr e" "find_head c (rs_document (cm_scope m)) = Some h"
    "commit_ready_representation R m (Some owner) (Some token) (Some expected) d c =
      Inr (c, \<lparr>cr_aggregate = a, cr_head = h, cr_event = e\<rparr>)"
proof -
  have hist: "history_ok c" using inv by (simp add: rep_inv_def)
  obtain e where e: "last_scope_event c (cm_scope m) = Inr e" using last_scope_event_there[OF hist logged] .
  obtain h where h: "required_document_head c (rs_document (cm_scope m)) = Inr h" "find_head c (rs_document (cm_scope m)) = Some h"
    using head_there[OF hist logged] .
  have "rp_state (ag_rep a) = READY" using aggregate_InrE(1)[OF agg(1)] assms(4) by simp
  moreover have "required_rep_row c (cm_scope m) = Inr r" using row by (simp add: required_rep_row_Inr)
  ultimately have "commit_ready_representation R m (Some owner) (Some token) (Some expected) d c =
      Inr (c, \<lparr>cr_aggregate = a, cr_head = h, cr_event = e\<rparr>)" using assms(2,5-8) agg e h(1)
    by (simp add: commit_ready_representation_def assert_row_recipe_def ensure_def optional_row_def rep_token_hash_def
        required_representation_def commit_again_def commit_reply_def)
  then show thesis using that e h(2) by blast
qed

text \<open>What a commit leaves behind.\<close>

definition committed_by :: "rcanon \<Rightarrow> ready_commit \<Rightarrow> pystr \<Rightarrow> aggregate \<Rightarrow> rep_catalog \<Rightarrow> bool" where
  "committed_by R m token a c \<longleftrightarrow> (\<exists>r. find_rep c (cm_scope m) = Some r \<and> rw_state r = READY \<and>
     rw_last_token r = Some (rk_sha R token) \<and> rw_recipe r = cm_recipe m \<and>
     representation_aggregate (rk_canon R) c r = Inr a \<and> ready_matches a m \<and> parse_logged c (cm_scope m))"

lemma committed_by_kept:
  assumes "committed_by R m token a c" "rep_inv (rk_canon R) c" "(rep_step R)\<^sup>*\<^sup>* c c'"
  shows "committed_by R m token a c'"
proof -
  obtain r where r: "find_rep c (cm_scope m) = Some r" "rw_state r = READY" "rw_last_token r = Some (rk_sha R token)"
    "rw_recipe r = cm_recipe m" "representation_aggregate (rk_canon R) c r = Inr a" "ready_matches a m" "parse_logged c (cm_scope m)"
    using assms(1) by (auto simp: committed_by_def)
  have "parse_logged c' (cm_scope m)" using tables_grow_logged steps_grow[OF assms(3,2)] r(7) by blast
  then show ?thesis using ready_kept[OF assms(3,2) r(1,2)] r unfolding committed_by_def by auto
qed

lemma setting_aggregate_row:
  assumes "commit_setting R m r k c c1" "rw_created r \<le> cm_ready m"
  shows "representation_aggregate (rk_canon R) (ready_tables R m h k c1) (ready_rep h m r) = Inr (ready_aggregate m h r)"
proof -
  obtain ys where "c1 = c\<lparr>sc_objects := sc_objects c @ ys\<rparr>" "find_rep c1 = find_rep c" using setting_objects[OF assms(1)] by metis
  then have "find_rep (ready_tables R m h k c1) (cm_scope m) = Some (ready_rep h m r)"
    using assms(1) by (simp add: ready_tables_rep commit_setting_def)
  then show ?thesis using setting_aggregate[OF assms(1), where h = h] assms(2)
    by (simp add: required_representation_def required_rep_row_def need_def)
qed

lemma commit_leaves:
  assumes "commit_ready_representation R m (Some owner) (Some token) (Some expected) d c = Inr (c', z)"
    "rep_inv (rk_canon R) c" "ready_commit_valid R m"
  shows "committed_by R m token (cr_aggregate z) c'"
  using assms
proof (cases rule: ready_commit_cases)
  case (replayed r h)
  have h: "h = rk_sha R token" using replayed(5) by (auto simp: optional_row_Inr rep_token_hash_Inr)
  have "representation_aggregate (rk_canon R) c r = Inr (cr_aggregate z)" using replayed(2,8)
    by (simp add: required_representation_def required_rep_row_def need_def)
  moreover have "\<exists>e\<in>set (sc_events c). ie_scope e = cm_scope m \<and> ie_parsed e"
    using replayed(9) first_by_in by (fastforce simp: last_scope_event_def split: option.splits)
  ultimately show ?thesis using replayed h unfolding committed_by_def parse_logged_def by blast
next
  case (published r owner' h expected' v k c1 e)
  have h: "h = rk_sha R token" using published(4) by (auto simp: optional_row_Inr rep_token_hash_Inr)
  obtain ys where y: "c1 = c\<lparr>sc_objects := sc_objects c @ ys\<rparr>" "find_rep c1 = find_rep c" using setting_objects[OF published(8)] by metis
  have row: "find_rep c' (cm_scope m) = Some (ready_rep h m r)" using published(1) y(2)
    by (simp add: published(13) find_rep_def) (simp add: find_rep_def[symmetric] ready_tables_rep)
  have "representation_aggregate (rk_canon R) c' (ready_rep h m r) = Inr (cr_aggregate z)"
    using setting_aggregate_row[OF published(8,10), where h = h] same_tables_aggregate[of c' "ready_tables R m h k c1"]
    by (simp add: published(13,14))
  moreover have "parse_logged c' (cm_scope m)" by (simp add: published(13,12) observed_catalog_def parse_logged_def)
  moreover have "rw_recipe r = cm_recipe m" using published(8) by (simp add: commit_setting_def)
  ultimately show ?thesis using row ready_aggregate_matches[of m h r] unfolding committed_by_def published(14) h by auto
qed simp_all

text \<open>Immediately after, the last parse of the representation in the log is this one.\<close>

lemma last_event_fresh:
  assumes "history_ok c" "ie_parsed e" "ie_scope e = s" "ingest_event_valid e" "ie_sequence e = next_event_sequence c (rs_document s)"
  shows "last_scope_event (observed_catalog e c) s = Inr e"
proof -
  let ?es = "filter (\<lambda>e. ie_scope e = s \<and> ie_parsed e) (sc_events c @ [e])"
  have less: "ie_sequence x < ie_sequence e" if x: "x \<in> set (sc_events c)" "ie_scope x = s" for x
  proof -
    have "ie_document x = rs_document s" using assms(1) x by (auto simp: history_ok_def ingest_event_valid_def)
    then have "x \<in> set (doc_events c (rs_document s))" using x(1) by (simp add: doc_events_def)
    then have "ie_sequence x \<in> set (map ie_sequence (doc_events c (rs_document s)))" by simp
    moreover have "map ie_sequence (doc_events c (rs_document s)) = [1..<Suc (length (doc_events c (rs_document s)))]"
      using assms(1) unfolding history_ok_def by blast
    ultimately show ?thesis using assms(5) history_sequence[OF assms(1)] by (simp del: upt_Suc)
  qed
  obtain y where y: "first_by (\<lambda>e. - int (ie_sequence e)) ?es = Some y" using first_by_Some_iff_ne[of _ ?es] assms(2,3) by auto
  have "ie_sequence e \<le> ie_sequence y" using first_by_le[OF y, of e] assms(2,3) by simp
  moreover have "y \<in> set ?es" using y by (rule first_by_in)
  ultimately have "y = e" using less[of y] by (auto split: if_splits)
  then show ?thesis using y assms(4) by (simp add: last_scope_event_def observed_catalog_def event_from_row_def)
qed

section \<open>What a commit does\<close>

text \<open>The texts that the lexical index gets.\<close>

definition indexed_texts :: "ready_commit \<Rightarrow> pystr list" where
  "indexed_texts m = map (\<lambda>p. case kb_text (pk_block p) of None \<Rightarrow> [] | Some t \<Rightarrow> t) (cm_blocks m)"

lemma index_rows_texts: "map snd (index_rows n (cm_blocks m)) = indexed_texts m"
proof -
  have "map snd (index_rows n ps) = map (\<lambda>p. case kb_text (pk_block p) of None \<Rightarrow> [] | Some t \<Rightarrow> t) ps" for ps
    by (induction ps arbitrary: n) simp_all
  then show ?thesis by (simp add: indexed_texts_def)
qed

lemma commit_effect:
  assumes "commit_ready_representation R m (Some owner) (Some token) (Some expected) d c = Inr (c', z)"
    "rep_inv (rk_canon R) c" "ready_commit_valid R m" "find_rep c (cm_scope m) = Some r" "rw_state r = STAGING"
  shows "sc_events c' = sc_events c @ [cr_event z] \<and> ie_scope (cr_event z) = cm_scope m \<and> ie_parsed (cr_event z) \<and>
    ie_at (cr_event z) = cm_ready m \<and> ie_observed (cr_event z) = cm_observed m \<and> ie_disposition (cr_event z) = d \<and>
    find_head c' (rs_document (cm_scope m)) = Some (cr_head z) \<and>
    map snd (sc_index c') = map snd (sc_index c) @ indexed_texts m \<and>
    last_scope_event c' (cm_scope m) = Inr (cr_event z)"
  using assms(1-3)
proof (cases rule: ready_commit_cases)
  case (published r' owner' h expected' v k c1 e)
  let ?c = "ready_tables R m h k c1"
  obtain ys where y: "c1 = c\<lparr>sc_objects := sc_objects c @ ys\<rparr>" using setting_objects[OF published(8)] by metis
  have e: "ie_scope e = cm_scope m" "ie_parsed e" "ie_at e = cm_ready m" "ie_observed e = cm_observed m" "ie_disposition e = d"
    by (simp_all add: published(12))
  have ev: "sc_events c' = sc_events c @ [cr_event z]" by (simp add: published(13,15) observed_catalog_def) (simp add: y)
  have inv: "rep_inv (rk_canon R) c'" using commit_inv[OF assms(1-3)] .
  then have hist: "history_ok c'" by (simp add: rep_inv_def)
  have "parse_logged c' (cm_scope m)" using ev e by (auto simp: parse_logged_def published(15))
  then obtain x where "find_head c' (rs_document (cm_scope m)) = Some x" using head_there[OF hist] by metis
  then have hd: "find_head c' (rs_document (cm_scope m)) = Some (cr_head z)" by (simp add: published(17))
  have ix: "map snd (sc_index c') = map snd (sc_index c) @ indexed_texts m"
    by (simp add: published(13) ready_tables_def Let_def index_rows_texts) (simp add: y)
  have row1: "find_rep c1 (cm_scope m) = Some r'" using published(1) by (simp add: y find_rep_def)
  have c1: "sc_heads ?c = sc_heads c" "sc_events ?c = sc_events c" by (simp_all add: y)
  have "ready_scope c1 s = ready_scope c s" for s by (simp add: ready_scope_def y find_rep_def)
  then have "history_ok ?c" using assms(2) ready_tables_ready(2)[OF row1, where k = k and h = h and R = R]
    by (intro history_same[OF _ c1]) (simp_all add: rep_inv_def)
  moreover have "ingest_event_valid e" using hist ev by (simp add: history_ok_def published(15))
  ultimately have "last_scope_event (observed_catalog e ?c) (cm_scope m) = Inr e"
    using e by (intro last_event_fresh) (simp_all add: published(12) observed_event_sequence)
  then have "last_scope_event c' (cm_scope m) = Inr (cr_event z)" by (simp add: published(13,15))
  then show ?thesis using ev hd ix e published(15) by blast
qed (use assms(4,5) in simp_all)

end
