(* ===== verification/Rep_Example.thy ===== *)
theory Rep_Example
  imports Rep_Lifecycle Evidence_Example
begin

text \<open>
  A small history of the ingestion tables that the witnesses evaluate: a document with two versions, of
  which the first is committed at once, while the second is claimed, taken over, renewed, given up and
  committed in a later attempt, after which the first one is observed again.
\<close>

definition xr_canon :: rcanon where
  "xr_canon = \<lparr>rk_canon = ex_canon, rk_block = (\<lambda>b. U ''block'' @ kb_id b), rk_manifest = (\<lambda>m. U ''manifest'' @ mf_sha256 m),
     rk_sha = (\<lambda>t. t)\<rparr>"

definition xr_recipe :: parser_recipe where
  "xr_recipe = \<lparr>pa_name = U ''text'', pa_version = U ''1'', pa_profile = U ''p'', pa_config = U ''c'', pa_schema = schema_version\<rparr>"

definition xr_scope :: "string \<Rightarrow> rep_scope" where
  "xr_scope v = (let w = U ''sha256:'' @ U v in
     \<lparr>rs_document = U ''d'', rs_version = w, rs_representation = representation_id_for ex_canon xr_recipe w\<rparr>)"

definition xr_native :: "string \<Rightarrow> stored_object" where
  "xr_native v = \<lparr>so_id = rs_version (xr_scope v), so_length = 4\<rparr>"

definition xr_version :: "string \<Rightarrow> int \<Rightarrow> source_version" where
  "xr_version v at = \<lparr>sv_document = U ''d'', sv_version = rs_version (xr_scope v), sv_source = xr_native v, sv_media = U ''text/plain'',
     sv_modified = None, sv_references = [], sv_committed = at\<rparr>"

definition xr_block :: "string \<Rightarrow> string \<Rightarrow> string option \<Rightarrow> nat \<Rightarrow> nat \<Rightarrow> prepared_block" where
  "xr_block v i parent order n = (let
     lines = JObj [(U ''line_start'', JInt (int n + 1)), (U ''line_end'', JInt (int n + 1))];
     b = \<lparr>kb_id = U i, kb_scope = xr_scope v, kb_parent = map_option U parent, kb_kind = PARAGRAPH, kb_order = order,
       kb_text = Some (U i), kb_structured = None, kb_asset = None,
       kb_hash = block_content_hash ex_canon PARAGRAPH (Some (U i)) None None,
       kb_extensions = [(U ''openardp.text'', lines)], kb_zone = MODEL_DERIVED, kb_rest = JNull\<rparr>
     in \<lparr>pk_block = b, pk_object = text_object xr_canon (rk_block xr_canon b), pk_ordinal = n, pk_start = n + 1, pk_end = n + 1\<rparr>)"

definition xr_manifest :: "string \<Rightarrow> int \<Rightarrow> manifest" where
  "xr_manifest v at = \<lparr>mf_scope = xr_scope v, mf_state = M_READY, mf_connector = U ''file'', mf_locator = U ''a.txt'',
     mf_media = U ''text/plain'', mf_length = 4, mf_sha256 = U v, mf_modified = None, mf_recipe = xr_recipe, mf_title = None,
     mf_created = at\<rparr>"

definition xr_commit :: "string \<Rightarrow> int \<Rightarrow> int \<Rightarrow> ready_commit" where
  "xr_commit v observed at = (let mf = xr_manifest v at in
     \<lparr>cm_scope = xr_scope v, cm_recipe = xr_recipe, cm_manifest = mf, cm_manifest_object = text_object xr_canon (rk_manifest xr_canon mf),
      cm_native = xr_native v, cm_blocks = [xr_block v ''1'' None 0 0, xr_block v ''2'' (Some ''1'') 0 1, xr_block v ''3'' None 1 2],
      cm_warnings = [U ''w''], cm_observed = observed, cm_ready = at\<rparr>)"

definition xr_owner :: pystr where "xr_owner = U ''worker''"
definition xr_token :: "string \<Rightarrow> pystr" where "xr_token k = U ''0123456789abcdef'' @ U k"

definition xr_then :: "rep_error + rep_catalog \<times> 'r \<Rightarrow> rep_catalog" where
  "xr_then x = (case x of Inl e \<Rightarrow> empty_reps | Inr (c, r) \<Rightarrow> c)"

text \<open>The document and its two versions.\<close>

definition xr_sources :: rep_catalog where
  "xr_sources = xr_then (commit_source_version (xr_version ''2'' 3) (xr_then (commit_source_version (xr_version ''1'' 2)
     (xr_then (register_document (U ''file'', U ''a.txt'') (U ''d'') 1 empty_reps)))))"

definition xr_acquire :: "string \<Rightarrow> string \<Rightarrow> int \<Rightarrow> int \<Rightarrow> rep_catalog \<Rightarrow> rep_error + rep_catalog \<times> acquire_result" where
  "xr_acquire v k = acquire_representation xr_canon (xr_scope v) xr_recipe xr_owner (xr_token k)"

definition xr_publish :: "string \<Rightarrow> string \<Rightarrow> nat \<Rightarrow> int \<Rightarrow> int \<Rightarrow> rep_catalog \<Rightarrow> rep_error + rep_catalog \<times> commit_result" where
  "xr_publish v k n observed at = commit_ready_representation xr_canon (xr_commit v observed at) (Some xr_owner) (Some (xr_token k))
     (Some n) D_COMMITTED"

definition xr_claimed :: rep_catalog where "xr_claimed = xr_then (xr_acquire ''1'' ''a'' 10 100 xr_sources)"
definition xr_first :: rep_catalog where "xr_first = xr_then (xr_publish ''1'' ''a'' 1 5 20 xr_claimed)"
definition xr_taken :: rep_catalog where
  "xr_taken = xr_then (xr_acquire ''2'' ''c'' 60 100 (xr_then (xr_acquire ''2'' ''b'' 30 50 xr_first)))"
definition xr_renewed :: rep_catalog where
  "xr_renewed = xr_then (renew_representation xr_canon (xr_scope ''2'') xr_owner (xr_token ''c'') 2 65 120 xr_taken)"
definition xr_failed :: rep_catalog where
  "xr_failed = xr_then (fail_representation xr_canon (xr_scope ''2'') xr_owner (xr_token ''c'') 3 70 (U ''parser_failed'') xr_renewed)"
definition xr_again :: rep_catalog where "xr_again = xr_then (xr_acquire ''2'' ''e'' 80 120 xr_failed)"
definition xr_second :: rep_catalog where "xr_second = xr_then (xr_publish ''2'' ''e'' 5 40 90 xr_again)"
definition xr_last :: rep_catalog where
  "xr_last = xr_then (record_ready_ingest ex_canon (xr_scope ''1'') 5 95 D_CACHE_HIT xr_second)"

section \<open>The history is a run of the system\<close>

lemma xr_then_Inr: "\<not> isl x \<Longrightarrow> \<exists>r. x = Inr (xr_then x, r)"
  by (cases x) (auto simp: xr_then_def)

lemma xr_sources_reach: "rep_reach xr_canon xr_sources"
proof -
  let ?a = "register_document (U ''file'', U ''a.txt'') (U ''d'') 1 empty_reps"
  let ?b = "commit_source_version (xr_version ''1'' 2) (xr_then ?a)"
  let ?c = "commit_source_version (xr_version ''2'' 3) (xr_then ?b)"
  have "\<not> isl ?a" "\<not> isl ?b" "\<not> isl ?c" by code_simp+
  then obtain x y z where "?a = Inr (xr_then ?a, x)" "?b = Inr (xr_then ?b, y)" "?c = Inr (xr_sources, z)"
    unfolding xr_sources_def using xr_then_Inr by meson
  moreover have "source_key_valid (U ''file'', U ''a.txt'')" "source_version_valid (xr_version ''1'' 2)"
    "source_version_valid (xr_version ''2'' 3)" by code_simp+
  ultimately show ?thesis
    by (meson rep_step.register rep_step.version rtranclp.rtrancl_into_rtrancl rtranclp.rtrancl_refl)
qed

lemma xr_acquire_step: "\<not> isl (xr_acquire v k now until c) \<Longrightarrow> rep_step xr_canon c (xr_then (xr_acquire v k now until c))"
proof -
  have "parser_recipe_valid xr_recipe" by code_simp
  then show "\<not> isl (xr_acquire v k now until c) \<Longrightarrow> rep_step xr_canon c (xr_then (xr_acquire v k now until c))"
    using xr_then_Inr[of "xr_acquire v k now until c"] rep_step.acquire unfolding xr_acquire_def by metis
qed

lemma xr_commits_valid: "ready_commit_valid xr_canon (xr_commit ''1'' 5 20)" "ready_commit_valid xr_canon (xr_commit ''2'' 40 90)"
  "ready_commit_valid xr_canon (xr_commit ''2'' 5 70)"
  by code_simp+

lemma xr_publish_step: "ready_commit_valid xr_canon (xr_commit v observed at) \<Longrightarrow> \<not> isl (xr_publish v k n observed at c) \<Longrightarrow>
    rep_step xr_canon c (xr_then (xr_publish v k n observed at c))"
  using xr_then_Inr[of "xr_publish v k n observed at c"] rep_step.publish unfolding xr_publish_def by metis

lemma xr_steps: "\<not> isl (xr_acquire ''1'' ''a'' 10 100 xr_sources)" "\<not> isl (xr_publish ''1'' ''a'' 1 5 20 xr_claimed)"
  "\<not> isl (xr_acquire ''2'' ''b'' 30 50 xr_first)" "\<not> isl (xr_acquire ''2'' ''c'' 60 100 (xr_then (xr_acquire ''2'' ''b'' 30 50 xr_first)))"
  "\<not> isl (renew_representation xr_canon (xr_scope ''2'') xr_owner (xr_token ''c'') 2 65 120 xr_taken)"
  "\<not> isl (fail_representation xr_canon (xr_scope ''2'') xr_owner (xr_token ''c'') 3 70 (U ''parser_failed'') xr_renewed)"
  "\<not> isl (xr_acquire ''2'' ''e'' 80 120 xr_failed)" "\<not> isl (xr_publish ''2'' ''e'' 5 40 90 xr_again)"
  "\<not> isl (record_ready_ingest ex_canon (xr_scope ''1'') 5 95 D_CACHE_HIT xr_second)"
  by code_simp+

lemma xr_first_reach: "rep_reach xr_canon xr_claimed" "rep_reach xr_canon xr_first"
proof -
  have "rep_step xr_canon xr_sources xr_claimed" using xr_acquire_step[OF xr_steps(1)] by (simp add: xr_claimed_def)
  then show c: "rep_reach xr_canon xr_claimed" using xr_sources_reach by (rule rtranclp.rtrancl_into_rtrancl[rotated])
  have "rep_step xr_canon xr_claimed xr_first"
    using xr_publish_step[OF xr_commits_valid(1) xr_steps(2)] by (simp add: xr_first_def)
  then show "rep_reach xr_canon xr_first" using c by (rule rtranclp.rtrancl_into_rtrancl[rotated])
qed

lemma xr_taken_steps: "(rep_step xr_canon)\<^sup>*\<^sup>* xr_first xr_taken"
  using xr_acquire_step[OF xr_steps(3)] xr_acquire_step[OF xr_steps(4)] unfolding xr_taken_def
  by (meson rtranclp.rtrancl_into_rtrancl rtranclp.rtrancl_refl)

lemma xr_failed_steps: "(rep_step xr_canon)\<^sup>*\<^sup>* xr_taken xr_renewed" "(rep_step xr_canon)\<^sup>*\<^sup>* xr_renewed xr_failed"
proof -
  obtain p where "renew_representation xr_canon (xr_scope ''2'') xr_owner (xr_token ''c'') 2 65 120 xr_taken = Inr (xr_renewed, p)"
    using xr_then_Inr[OF xr_steps(5)] unfolding xr_renewed_def by blast
  then show "(rep_step xr_canon)\<^sup>*\<^sup>* xr_taken xr_renewed" by (cases p) (auto intro: rep_step.renew)
  obtain a where "fail_representation xr_canon (xr_scope ''2'') xr_owner (xr_token ''c'') 3 70 (U ''parser_failed'') xr_renewed = Inr (xr_failed, a)"
    using xr_then_Inr[OF xr_steps(6)] unfolding xr_failed_def by blast
  then show "(rep_step xr_canon)\<^sup>*\<^sup>* xr_renewed xr_failed" by (blast intro: rep_step.give_up)
qed

lemma xr_last_steps: "(rep_step xr_canon)\<^sup>*\<^sup>* xr_failed xr_again" "(rep_step xr_canon)\<^sup>*\<^sup>* xr_again xr_last"
proof -
  show "(rep_step xr_canon)\<^sup>*\<^sup>* xr_failed xr_again" using xr_acquire_step[OF xr_steps(7)] unfolding xr_again_def by blast
  have "rep_step xr_canon xr_again xr_second"
    using xr_publish_step[OF xr_commits_valid(2) xr_steps(8)] by (simp add: xr_second_def)
  moreover obtain r where "record_ready_ingest ex_canon (xr_scope ''1'') 5 95 D_CACHE_HIT xr_second = Inr (xr_last, r)"
    using xr_then_Inr[OF xr_steps(9)] unfolding xr_last_def by blast
  then have "rep_step xr_canon xr_second xr_last" by (cases r) (auto simp: xr_canon_def intro: rep_step.observe)
  ultimately show "(rep_step xr_canon)\<^sup>*\<^sup>* xr_again xr_last" by (meson rtranclp.rtrancl_into_rtrancl rtranclp.rtrancl_refl)
qed

lemmas xr_reach = xr_first_reach rtranclp_trans[OF xr_first_reach(2) xr_taken_steps]

lemma xr_late_reach: "rep_reach xr_canon xr_renewed" "rep_reach xr_canon xr_failed" "rep_reach xr_canon xr_again" "rep_reach xr_canon xr_last"
  using xr_reach(3) xr_failed_steps xr_last_steps by (meson rtranclp_trans)+

end
