(* ===== verification/Rep_Properties.thy ===== *)
theory Rep_Properties
  imports Rep_Store Rep_Hierarchy Rep_Replay Rep_Example
begin

text \<open>
  The properties of the ingestion tables.  Each rests on the invariant of the reachable catalogs
  (\<open>Rep_Reach\<close>), on the lifecycle (\<open>Rep_Lifecycle\<close>) or on what the tables keep (\<open>Rep_Growth\<close>).
\<close>

section \<open>Consistency\<close>

text \<open>C20.  In every reachable catalog each representation loads, with exactly the blocks it promises when it
  is ready and none before, identities and held tokens are unique, and the lexical index has one entry
  for each block.\<close>

theorem representations_stay_consistent:
  assumes "rep_reach R c"
  shows "distinct (map rw_scope (sc_reps c)) \<and> distinct (held_tokens (sc_reps c)) \<and>
    (\<forall>r\<in>set (sc_reps c). \<exists>a. load_representation (rk_canon R) (rw_scope r) c = Inr (Some a) \<and>
       representation_valid (rk_canon R) (ag_rep a) \<and> rp_state (ag_rep a) = rw_state r \<and>
       list_all rep_block_valid (ag_blocks a) \<and>
       length (ag_blocks a) = (if rw_state r = READY then rw_blocks r else 0)) \<and>
    map fst (sc_index c) = map bw_entry (sc_blocks c) \<and> distinct (map fst (sc_index c))"
proof -
  have ok: "reps_ok (rk_canon R) c" using rep_reach_inv[OF assms] by (simp add: rep_inv_def)
  have "\<exists>a. load_representation (rk_canon R) (rw_scope r) c = Inr (Some a) \<and>
      representation_valid (rk_canon R) (ag_rep a) \<and> rp_state (ag_rep a) = rw_state r \<and>
      list_all rep_block_valid (ag_blocks a) \<and> length (ag_blocks a) = (if rw_state r = READY then rw_blocks r else 0)"
    if r: "r \<in> set (sc_reps c)" for r
  proof -
    obtain a where a: "representation_aggregate (rk_canon R) c r = Inr a" using ok r by (auto simp: reps_ok_def)
    then show ?thesis using find_rep_unique[OF ok r] aggregate_InrE[OF a]
      by (intro exI[of _ a]) (simp add: load_representation_def optional_row_def aggregate_valid_def split: if_splits)
  qed
  then show ?thesis using ok by (auto simp: reps_ok_def index_ok_def blocks_constraints_def)
qed

theorem representations_stay_consistent_witness:
  "map rw_state (sc_reps xr_again) = [READY, STAGING] \<and> map fst (sc_index xr_again) = map bw_entry (sc_blocks xr_again) \<and>
   length (sc_index xr_again) = 3"
proof -
  have "map rw_state (sc_reps xr_again) = [READY, STAGING]" "length (sc_index xr_again) = 3" by code_simp+
  then show ?thesis using representations_stay_consistent[OF xr_late_reach(3)] by blast
qed



section \<open>Lifecycle\<close>

text \<open>C22.  A ready representation loads as the same header and blocks after any sequence of transactions.\<close>

theorem ready_representations_never_change:
  assumes "rep_reach R c" "load_representation (rk_canon R) s c = Inr (Some a)" "rp_state (ag_rep a) = READY"
    "(rep_step R)\<^sup>*\<^sup>* c c'"
  shows "load_representation (rk_canon R) s c' = Inr (Some a)"
proof -
  obtain r where r: "find_rep c s = Some r" "representation_aggregate (rk_canon R) c r = Inr a"
    using assms(2) by (auto simp: load_representation_def optional_row_Inr split: option.splits)
  then have "rw_state r = READY" using aggregate_InrE(1)[OF r(2)] assms(3) by simp
  then show ?thesis using ready_kept[OF assms(4) rep_reach_inv[OF assms(1)] r(1)] r(2)
    by (simp add: load_representation_def optional_row_def)
qed

lemma xr_ready: "\<exists>a. load_representation ex_canon (xr_scope ''1'') xr_first = Inr (Some a) \<and> rp_state (ag_rep a) = READY \<and>
    map bk_id (ag_blocks a) = [U ''1'', U ''2'', U ''3'']"
proof -
  have "case load_representation ex_canon (xr_scope ''1'') xr_first of
      Inr (Some a) \<Rightarrow> rp_state (ag_rep a) = READY \<and> map bk_id (ag_blocks a) = [U ''1'', U ''2'', U ''3''] | _ \<Rightarrow> False"
    by code_simp
  then show ?thesis by (auto split: sum.splits option.splits)
qed

lemma xr_canon_simps [simp]: "rk_canon xr_canon = ex_canon"
  by (simp add: xr_canon_def)

theorem ready_representations_never_change_witness:
  "\<exists>a. load_representation ex_canon (xr_scope ''1'') xr_last = Inr (Some a) \<and> map bk_id (ag_blocks a) = [U ''1'', U ''2'', U ''3'']"
proof -
  obtain a where a: "load_representation ex_canon (xr_scope ''1'') xr_first = Inr (Some a)" "rp_state (ag_rep a) = READY"
    "map bk_id (ag_blocks a) = [U ''1'', U ''2'', U ''3'']" using xr_ready by (elim exE conjE)
  note late = rtranclp_trans[OF rtranclp_trans[OF xr_taken_steps xr_failed_steps(1)] rtranclp_trans[OF xr_failed_steps(2)
      rtranclp_trans[OF xr_last_steps]]]
  then show ?thesis using ready_representations_never_change[OF xr_reach(2) _ _ late, of "xr_scope ''1''" a] a by auto
qed

text \<open>C23.  Every transaction moves at most one representation, along one edge of its lifecycle, and every other
  one loads as before.\<close>

theorem representation_step_refines_lifecycle:
  assumes "rep_reach R c" "rep_step R c c'"
  shows "\<exists>t. rep_edge (find_rep c t) (find_rep c' t) \<and>
    (\<forall>s. s \<noteq> t \<longrightarrow> load_representation (rk_canon R) s c' = load_representation (rk_canon R) s c)"
proof -
  have inv: "rep_inv (rk_canon R) c" "rep_inv (rk_canon R) c'" using rep_reach_inv[OF assms(1)] rep_step_inv[OF assms(2)] by simp_all
  obtain t where t: "moves c c' t" using step_moves[OF assms(2) inv(1)] by blast
  then show ?thesis using moves_others[OF t inv] by (intro exI[of _ t]) (simp add: moves_def)
qed

theorem representation_step_refines_lifecycle_witness:
  "rep_edge (find_rep xr_again (xr_scope ''2'')) (find_rep xr_second (xr_scope ''2'')) \<and>
   load_representation ex_canon (xr_scope ''1'') xr_second = load_representation ex_canon (xr_scope ''1'') xr_again"
proof -
  have "rep_step xr_canon xr_again xr_second"
    using xr_publish_step[OF xr_commits_valid(2) xr_steps(8)] by (simp add: xr_second_def)
  from representation_step_refines_lifecycle[OF xr_late_reach(3) this] obtain t where
    t: "rep_edge (find_rep xr_again t) (find_rep xr_second t)"
      "s \<noteq> t \<Longrightarrow> load_representation ex_canon s xr_second = load_representation ex_canon s xr_again" for s by auto
  have "load_representation ex_canon (xr_scope ''2'') xr_second \<noteq> load_representation ex_canon (xr_scope ''2'') xr_again"
    "xr_scope ''1'' \<noteq> xr_scope ''2''" by code_simp+
  then show ?thesis using t by metis
qed

text \<open>C24.  While a representation is being parsed only the holder of its claim can renew, fail or commit it, and
  as long as the lease lasts everybody else who asks for it is told that it is busy.\<close>

theorem staging_is_fenced:
  assumes "rep_reach R c" "find_rep c s = Some r" "rw_state r = STAGING"
  shows "(\<forall>owner token expected now until x. renew_representation R s owner token expected now until c = Inr x \<longrightarrow>
      holds_claim R r owner token expected now) \<and>
    (\<forall>owner token expected now code x. fail_representation R s owner token expected now code c = Inr x \<longrightarrow>
      holds_claim R r owner token expected now) \<and>
    (\<forall>m owner token expected d x. ready_commit_valid R m \<and> cm_scope m = s \<and>
       commit_ready_representation R m owner token expected d c = Inr x \<longrightarrow>
      (\<exists>w t n. owner = Some w \<and> token = Some t \<and> expected = Some n \<and> holds_claim R r w t n (cm_ready m))) \<and>
    (\<forall>recipe owner token now until c' z. opt_all (\<lambda>t. now < t) (rw_lease r) \<and>
       acquire_representation R s recipe owner token now until c = Inr (c', z) \<longrightarrow> c' = c \<and>
       ar_disposition z = (if rw_owner r = Some owner \<and> rw_token r = Some (rk_sha R token) then A_CLAIMED else A_BUSY))"
    (is "?renew \<and> ?fail \<and> ?commit \<and> ?acquire")
proof (intro conjI)
  show ?renew
  proof (intro allI impI)
    fix owner token expected now until x
    assume "renew_representation R s owner token expected now until c = Inr x"
    then obtain c' p t where "renew_representation R s owner token expected now until c = Inr (c', p, t)" by (cases x) blast
    then show "holds_claim R r owner token expected now"
      by (cases rule: renew_cases) (use assms(2) in \<open>simp add: holds_claim_def assert_rep_lease_Inr\<close>)
  qed
  show ?fail
  proof (intro allI impI)
    fix owner token expected now code x
    assume "fail_representation R s owner token expected now code c = Inr x"
    then obtain c' a where "fail_representation R s owner token expected now code c = Inr (c', a)" by (cases x) blast
    then show "holds_claim R r owner token expected now"
      by (cases rule: fail_cases) (use assms(2,3) in \<open>simp_all add: holds_claim_def assert_rep_lease_Inr\<close>)
  qed
  show ?commit
  proof (intro allI impI, elim conjE)
    fix m owner token expected d x
    assume m: "ready_commit_valid R m" "cm_scope m = s" and "commit_ready_representation R m owner token expected d c = Inr x"
    then obtain c' z where "commit_ready_representation R m owner token expected d c = Inr (c', z)" by (cases x) blast
    then show "\<exists>w t n. owner = Some w \<and> token = Some t \<and> expected = Some n \<and> holds_claim R r w t n (cm_ready m)"
      using rep_reach_inv[OF assms(1)] m(1)
    proof (cases rule: ready_commit_cases)
      case (published r' owner' h expected' v k c1 e)
      then have "r' = r" using m(2) assms(2) by simp
      then show ?thesis using published(2-5)
        by (auto simp: holds_claim_def assert_rep_lease_Inr optional_row_Inr rep_token_hash_Inr split: option.splits)
    qed (use assms(2,3) m(2) in simp_all)
  qed
  show ?acquire
  proof (intro allI impI, elim conjE)
    fix recipe owner token now until c' z
    assume live: "opt_all (\<lambda>t. now < t) (rw_lease r)" and "acquire_representation R s recipe owner token now until c = Inr (c', z)"
    then show "c' = c \<and> ar_disposition z = (if rw_owner r = Some owner \<and> rw_token r = Some (rk_sha R token) then A_CLAIMED else A_BUSY)"
      by (elim acquire_cases) (use assms(2,3) in simp_all)
  qed
qed

lemma xr_again_row: "\<exists>r. find_rep xr_again (xr_scope ''2'') = Some r \<and> rw_state r = STAGING \<and> rw_lease r = Some 120 \<and>
    rw_owner r = Some xr_owner \<and> rw_token r = Some (xr_token ''e'')"
proof -
  have "case find_rep xr_again (xr_scope ''2'') of Some r \<Rightarrow> rw_state r = STAGING \<and> rw_lease r = Some 120 \<and>
    rw_owner r = Some xr_owner \<and> rw_token r = Some (xr_token ''e'') | None \<Rightarrow> False" by code_simp
  then show ?thesis by (auto split: option.splits)
qed

theorem staging_is_fenced_witness:
  "(\<forall>n x. renew_representation xr_canon (xr_scope ''2'') xr_owner (xr_token ''c'') n 100 130 xr_again \<noteq> Inr x) \<and>
   (\<exists>z. xr_acquire ''2'' ''a'' 100 130 xr_again = Inr (xr_again, z) \<and> ar_disposition z = A_BUSY)"
proof -
  obtain r where r: "find_rep xr_again (xr_scope ''2'') = Some r" "rw_state r = STAGING" "rw_lease r = Some 120"
    "rw_owner r = Some xr_owner" "rw_token r = Some (xr_token ''e'')" using xr_again_row by blast
  have t: "xr_token ''e'' \<noteq> rk_sha xr_canon (xr_token ''c'')" "xr_token ''e'' \<noteq> rk_sha xr_canon (xr_token ''a'')" by code_simp+
  note f = staging_is_fenced[OF xr_late_reach(3) r(1,2)]
  have "renew_representation xr_canon (xr_scope ''2'') xr_owner (xr_token ''c'') n 100 130 xr_again \<noteq> Inr x" for n x
    using f[THEN conjunct1, rule_format, of xr_owner "xr_token ''c''" n 100 130 x] r(5) t(1) by (auto simp: holds_claim_def)
  moreover have "\<not> isl (xr_acquire ''2'' ''a'' 100 130 xr_again)" by code_simp
  then obtain c' z where z: "xr_acquire ''2'' ''a'' 100 130 xr_again = Inr (c', z)" using xr_then_Inr by blast
  have "c' = xr_again \<and> ar_disposition z = A_BUSY"
    using f[THEN conjunct2, THEN conjunct2, THEN conjunct2, rule_format, of 100 xr_recipe xr_owner "xr_token ''a''" 130 c' z]
      z r t(2) by (simp add: xr_acquire_def opt_all_def)
  ultimately show ?thesis using z by blast
qed

section \<open>Commits\<close>

text \<open>C25.  A valid commit by the holder of a claim succeeds exactly if the recipe and the native object are those
  registered, no object is stored with another length, every text is short enough for the index, its
  time is not before the claim was created and its observation does not contradict the head.  It then
  leaves the representation ready with exactly the candidate's blocks, texts and objects, appends one event and
  updates the head.\<close>

theorem commit_publishes_exactly:
  assumes "rep_reach R c" "ready_commit_valid R m" "find_rep c (cm_scope m) = Some r"
    "holds_claim R r owner token expected (cm_ready m)" "16 \<le> length token" "d \<noteq> D_CACHE_HIT"
  shows "((\<exists>x. commit_ready_representation R m (Some owner) (Some token) (Some expected) d c = Inr x) \<longleftrightarrow> committable m r c) \<and>
    (\<forall>c' z. commit_ready_representation R m (Some owner) (Some token) (Some expected) d c = Inr (c', z) \<longrightarrow>
      load_representation (rk_canon R) (cm_scope m) c' = Inr (Some (cr_aggregate z)) \<and> ready_matches (cr_aggregate z) m \<and>
      map snd (sc_index c') = map snd (sc_index c) @ indexed_texts m \<and>
      sc_events c' = sc_events c @ [cr_event z] \<and> ie_scope (cr_event z) = cm_scope m \<and> ie_disposition (cr_event z) = d \<and>
      find_head c' (rs_document (cm_scope m)) = Some (cr_head z))"
proof (intro conjI allI impI)
  note inv = rep_reach_inv[OF assms(1)]
  show "(\<exists>x. commit_ready_representation R m (Some owner) (Some token) (Some expected) d c = Inr x) \<longleftrightarrow> committable m r c"
    by (rule held_commit_iff[OF inv reach_open[OF assms(1)] assms(2-6)])
  fix c' z
  assume c: "commit_ready_representation R m (Some owner) (Some token) (Some expected) d c = Inr (c', z)"
  from commit_leaves[OF c inv assms(2)] obtain r' where "find_rep c' (cm_scope m) = Some r'"
    "representation_aggregate (rk_canon R) c' r' = Inr (cr_aggregate z)" and m: "ready_matches (cr_aggregate z) m"
    by (auto simp: committed_by_def)
  then show "load_representation (rk_canon R) (cm_scope m) c' = Inr (Some (cr_aggregate z))"
    by (simp add: load_representation_def optional_row_def)
  show "ready_matches (cr_aggregate z) m" by (rule m)
  have "rw_state r = STAGING" using assms(4) by (simp add: holds_claim_def)
  note e = commit_effect[OF c inv assms(2,3) this]
  show "map snd (sc_index c') = map snd (sc_index c) @ indexed_texts m" "sc_events c' = sc_events c @ [cr_event z]"
    "ie_scope (cr_event z) = cm_scope m" "ie_disposition (cr_event z) = d"
    "find_head c' (rs_document (cm_scope m)) = Some (cr_head z)" using e by blast+
qed

theorem commit_publishes_exactly_witness:
  "\<exists>r. find_rep xr_again (xr_scope ''2'') = Some r \<and> committable (xr_commit ''2'' 40 90) r xr_again \<and>
    (\<exists>x. xr_publish ''2'' ''e'' 5 40 90 xr_again = Inr x)"
proof -
  have s: "cm_scope (xr_commit ''2'' 40 90) = xr_scope ''2''" "cm_ready (xr_commit ''2'' 40 90) = 90" by code_simp+
  have "case find_rep xr_again (xr_scope ''2'') of Some r \<Rightarrow> holds_claim xr_canon r xr_owner (xr_token ''e'') 5 90 | None \<Rightarrow> False"
    "16 \<le> length (xr_token ''e'')" by code_simp+
  then obtain r where r: "find_rep xr_again (xr_scope ''2'') = Some r" "holds_claim xr_canon r xr_owner (xr_token ''e'') 5 90"
    "16 \<le> length (xr_token ''e'')" by (auto split: option.splits)
  note p = commit_publishes_exactly[OF xr_late_reach(3) xr_commits_valid(2), unfolded s, OF r, of D_COMMITTED]
  have "\<exists>x. xr_publish ''2'' ''e'' 5 40 90 xr_again = Inr x" using xr_then_Inr[OF xr_steps(8)] by blast
  then show ?thesis using p r(1) by (auto simp: xr_publish_def)
qed

text \<open>C26.  A commit that is sent again by the holder of the claim finds its own result: immediately after it the
  same reply and no change, and at any later time the same header and blocks, again with no change.\<close>

theorem commit_is_idempotent:
  assumes "rep_reach R c" "ready_commit_valid R m"
    "commit_ready_representation R m (Some owner) (Some token) (Some expected) d c = Inr (c', z)" "(rep_step R)\<^sup>*\<^sup>* c' c''"
  shows "commit_ready_representation R m (Some owner) (Some token) (Some expected) d c' = Inr (c', z) \<and>
    (\<exists>z'. commit_ready_representation R m (Some owner) (Some token) (Some expected) d c'' = Inr (c'', z') \<and>
      cr_aggregate z' = cr_aggregate z)"
proof -
  note inv = rep_reach_inv[OF assms(1)]
  have step: "rep_step R c c'" using assms(2,3) by (rule rep_step.publish)
  then have r': "rep_reach R c'" using assms(1) by (rule rtranclp.rtrancl_into_rtrancl[rotated])
  have d: "d \<noteq> D_CACHE_HIT" using assms(3) by (auto simp: commit_ready_representation_def)
  have token: "16 \<le> length token" using assms(3)
    by (auto simp: commit_ready_representation_def sbind_Inr_iff optional_row_Inr rep_token_hash_Inr split: if_splits)
  have again: "\<exists>e h. last_scope_event x (cm_scope m) = Inr e \<and> find_head x (rs_document (cm_scope m)) = Some h \<and>
      commit_ready_representation R m (Some owner) (Some token) (Some expected) d x =
        Inr (x, \<lparr>cr_aggregate = cr_aggregate z, cr_head = h, cr_event = e\<rparr>)" if x: "(rep_step R)\<^sup>*\<^sup>* c' x" for x
  proof -
    have reach: "rep_reach R x" using r' x by (rule rtranclp_trans)
    obtain r where r: "find_rep x (cm_scope m) = Some r" "rw_state r = READY" "rw_last_token r = Some (rk_sha R token)"
      "rw_recipe r = cm_recipe m" "representation_aggregate (rk_canon R) x r = Inr (cr_aggregate z)"
      "ready_matches (cr_aggregate z) m" "parse_logged x (cm_scope m)"
      using committed_by_kept[OF commit_leaves[OF assms(3) inv assms(2)] rep_reach_inv[OF r'] x] by (auto simp: committed_by_def)
    show ?thesis using ready_commit_again[OF rep_reach_inv[OF reach] reach_open[OF reach] r(1-4) token d r(5-7)] by metis
  qed
  have "commit_ready_representation R m (Some owner) (Some token) (Some expected) d c' = Inr (c', z)"
    using assms(3) inv assms(2)
  proof (cases rule: ready_commit_cases)
    case (replayed r h)
    then show ?thesis using assms(3) by simp
  next
    case (published r owner' h expected' v k c1 e)
    have "rw_state r = STAGING" using published(5) by (simp add: assert_rep_lease_Inr)
    note e = commit_effect[OF assms(3) inv assms(2) published(1) this]
    obtain h where "commit_ready_representation R m (Some owner) (Some token) (Some expected) d c' =
        Inr (c', \<lparr>cr_aggregate = cr_aggregate z, cr_head = h, cr_event = cr_event z\<rparr>)"
      "find_head c' (rs_document (cm_scope m)) = Some h" using again[of c'] e by auto
    then show ?thesis using e by simp
  qed simp_all
  then show ?thesis using again[OF assms(4)] by force
qed

theorem commit_is_idempotent_witness:
  "(\<exists>z. xr_publish ''1'' ''a'' 1 5 20 xr_first = Inr (xr_first, z)) \<and> (\<exists>z. xr_publish ''1'' ''a'' 1 5 20 xr_last = Inr (xr_last, z))"
proof -
  obtain z where z: "xr_publish ''1'' ''a'' 1 5 20 xr_claimed = Inr (xr_first, z)"
    using xr_then_Inr[OF xr_steps(2)] unfolding xr_first_def by (elim exE)
  note late = rtranclp_trans[OF rtranclp_trans[OF xr_taken_steps xr_failed_steps(1)] rtranclp_trans[OF xr_failed_steps(2)
      rtranclp_trans[OF xr_last_steps]]]
  from commit_is_idempotent[OF xr_first_reach(1) xr_commits_valid(1) z[unfolded xr_publish_def] late]
  show ?thesis by (auto simp: xr_publish_def)
qed

section \<open>Sources and the whole catalog\<close>

text \<open>C27.  What is known of a source never changes: a registered source keeps its document, whatever identity a
  later registration proposes, and a version keeps its record, while a later commit of other
  facts for it is refused.\<close>

theorem stored_sources_never_change:
  assumes "rep_reach R c" "(rep_step R)\<^sup>*\<^sup>* c c'"
  shows "(\<forall>k x. get_document_by_source k c = Inr (Some x) \<longrightarrow>
      get_document_by_source k c' = Inr (Some x) \<and> (\<forall>i now. register_document k i now c' = Inr (c', x))) \<and>
    (\<forall>d v w. get_version d v c = Inr (Some w) \<longrightarrow> get_version d v c' = Inr (Some w) \<and>
      (\<forall>x. sv_document x = d \<and> sv_version x = v \<longrightarrow> commit_source_version x c' =
        (if versions_equivalent w x then Inr (c', w) else Inl VersionConflict)))"
proof (intro conjI allI impI)
  note inv = rep_reach_inv[OF assms(1)]
  have g: "tables_grow c c'" and inv': "rep_inv (rk_canon R) c'" using steps_grow[OF assms(2) inv] by simp_all
  have op: "open_write c' = Inr ()" using reach_open[OF rtranclp_trans[OF assms]] .
  {
    fix k x assume k: "get_document_by_source k c = Inr (Some x)"
    show k': "get_document_by_source k c' = Inr (Some x)" using g k by (rule tables_grow_document)
    fix i now
    show "register_document k i now c' = Inr (c', x)"
      using k' op by (simp add: register_document_def get_document_by_source_def)
  }
  fix d v w assume v: "get_version d v c = Inr (Some w)"
  show v': "get_version d v c' = Inr (Some w)"
    using tables_grow_version[OF g _ v[unfolded get_version_def]] inv by (simp add: get_version_def rep_inv_def)
  fix x :: source_version assume x: "sv_document x = d \<and> sv_version x = v"
  obtain r where "find_version c' d v = Some r" using v' by (auto simp: get_version_def load_version_def split: option.splits)
  then have "r \<in> set (sc_versions c')" "vr_document r = d" by (auto simp: find_version_def dest: find_in)
  then have "d \<in> set (map ld_id (sc_documents c'))" using inv' by (auto simp: rep_inv_def sources_ok_def)
  then obtain y where y: "find (\<lambda>z. ld_id z = d) (sc_documents c') = Some y"
    by (cases "find (\<lambda>z. ld_id z = d) (sc_documents c')") (auto simp: find_None_iff)
  then have "y \<in> set (sc_documents c')" by (auto dest: find_in)
  then have "load_document_by_id c' d = Inr (Some y)" using inv' y
    by (simp add: load_document_by_id_def optional_row_def rep_inv_def sources_ok_def)
  then show "commit_source_version x c' = (if versions_equivalent w x then Inr (c', w) else Inl VersionConflict)"
    using x v' op by (simp add: commit_source_version_def get_version_def)
qed

theorem stored_sources_never_change_witness:
  "get_version (U ''d'') (rs_version (xr_scope ''1'')) xr_last = Inr (Some (xr_version ''1'' 2)) \<and>
   commit_source_version ((xr_version ''1'' 2)\<lparr>sv_media := U ''text/html''\<rparr>) xr_last = Inl VersionConflict"
proof -
  have f: "get_version (U ''d'') (rs_version (xr_scope ''1'')) xr_first = Inr (Some (xr_version ''1'' 2))"
    "\<not> versions_equivalent (xr_version ''1'' 2) ((xr_version ''1'' 2)\<lparr>sv_media := U ''text/html''\<rparr>)" by code_simp+
  note late = rtranclp_trans[OF rtranclp_trans[OF xr_taken_steps xr_failed_steps(1)] rtranclp_trans[OF xr_failed_steps(2)
      rtranclp_trans[OF xr_last_steps]]]
  note w = stored_sources_never_change[OF xr_reach(2) late, THEN conjunct2, rule_format, OF f(1)]
  show ?thesis using w f(2) by (auto simp: xr_version_def)
qed

text \<open>C28.  The two halves of the catalog compose: starting empty, whatever ingestion, publications of derivations and
  reconciliations do one after the other, the ingestion tables are as their own transactions alone
  could have left them and so are the evidence tables, which see exactly the objects, ready
  representations, projected blocks and heads of ingestion.\<close>

theorem catalog_parts_compose:
  assumes "store_reach R D (c, e)"
  shows "rep_reach R c \<and> evidence_reach D e \<and> e = shared c e"
  using store_reach_in_step[OF assms] by (simp add: in_step_def)

lemma ingests_reach:
  assumes "(rep_step R)\<^sup>*\<^sup>* empty_reps c"
  shows "\<exists>e. store_reach R D (c, e)"
  using assms
proof (induction rule: rtranclp_induct)
  case (step y z)
  then show ?case by (meson rtranclp.rtrancl_into_rtrancl store_step.ingests)
qed blast

theorem catalog_parts_compose_witness:
  "\<exists>e. evidence_reach ex_dcanon e \<and> length (ec_blocks e) = 6 \<and> ec_heads e = [xr_scope ''2'']"
proof -
  obtain e where e: "store_reach xr_canon ex_dcanon (xr_last, e)" using ingests_reach[OF xr_late_reach(4)] by blast
  have "length (projected xr_last) = 6" "map dh_scope (sc_heads xr_last) = [xr_scope ''2'']" by code_simp+
  moreover note catalog_parts_compose[OF e]
  moreover have "ec_blocks (shared xr_last e) = projected xr_last" "ec_heads (shared xr_last e) = map dh_scope (sc_heads xr_last)"
    by (simp_all add: shared_def)
  ultimately show ?thesis by metis
qed

end
