(* ===== verification/Spec2Isabelle.thy ===== *)
theory Spec2Isabelle
  imports Job_Properties Watch_Properties Watch_Cycle Graph_Properties Context_Properties Recon_Properties Evidence_Properties
    Rep_Properties
begin

text \<open>
  OpenARDP keeps a local, reproducible document store for agents: documents are ingested into a
  content-addressed store with a SQLite catalog, watched folders are turned into ingestion jobs,
  remote drives are synchronised through a delta protocol, and bounded evidence bundles are compiled
  from the catalog for a task.  This development models the parts that hold the program's own
  state machines and accounting.  Paths below are relative to \<open>src/openardp\<close>.

  \<^bold>\<open>Prelude.\<close>  \<open>Ardp_Prelude\<close>: texts as lists of code points, computations that may
  raise (\<open>sbind\<close>, \<open>ensure\<close>, \<open>need\<close>), tables as lists of rows, canonical JSON values.
  \<open>Binary64\<close>: the part of IEEE double arithmetic behind the watcher's millisecond computation.

  \<^bold>\<open>Job catalog\<close> (\<open>domain/storage.py\<close>, \<open>adapters/sqlite_catalog_jobs.py\<close>, the schema
  in \<open>adapters/sqlite_migrations_operations.py\<close>).  \<open>Job_Domain\<close> has the records and
  validators, \<open>Job_Catalog\<close> the tables, their constraints and every transaction as a function from
  a catalog to an error or a new catalog with a result.  A transaction that raises rolls back, so an
  error carries no catalog.  \<open>Job_Invariant\<close> proves that every transaction keeps \<open>cat_inv\<close>
  (row constraints, valid rows, an event log per job that replays to the row), \<open>Job_Steps\<close>
  gives the step relation of the catalog, its reachable states and the refinement of the job
  lifecycle, \<open>Job_Properties\<close> the claims: fencing, recovery, idempotence, claim order.

  \<^bold>\<open>Watcher\<close> (\<open>domain/watcher.py\<close>, \<open>adapters/sqlite_catalog_watch.py\<close>,
  \<open>adapters/sqlite_catalog_watch_records.py\<close>, \<open>services/watcher.py\<close>).
  \<open>Watch_Domain\<close> has the records, \<open>Watch_Catalog\<close> root registration and scan reconciliation
  on the same catalog, \<open>Watch_Invariant\<close> and \<open>Watch_Observations\<close> their effect,
  \<open>Watch_Service\<close> the service over any port of catalog operations, with scanner, ingestion,
  clock and identifiers as an environment, \<open>Watch_Worker\<close> what one job run does to the catalog,
  \<open>Watch_Cycle\<close> the claims about a whole cycle.  The bound on jobs per cycle is the
  configuration's; there is no fuel.

  \<^bold>\<open>Graph synchronisation\<close> (\<open>domain/graph.py\<close>, \<open>services/graph_sync.py\<close>,
  \<open>ports/graph.py\<close>, \<open>adapters/mock_graph.py\<close>).  \<open>Graph_Sync\<close> is the service over
  a port; its locales \<open>graph_store\<close>, \<open>graph_reader\<close> and \<open>graph_meter\<close> are the
  contracts of the store, of a client that only reads and of counting requests, interpreted in
  \<open>Graph_Store\<close> on the repository's adapters.  The page loop recurses over the configured page
  bound and the retry loop over the retry bound, exactly as many rounds as the code's \<open>range\<close>.

  \<^bold>\<open>Context compiler\<close> (\<open>domain/context_compilation.py\<close>, \<open>services/context_ranking.py\<close>,
  \<open>domain/context_ranking.py\<close>, \<open>adapters/context_estimators.py\<close>,
  \<open>services/context_compiler.py\<close>, \<open>services/context_evidence.py\<close>,
  \<open>services/context_relevance.py\<close>).  \<open>Context_Domain\<close> has the records, \<open>Context_Ranking\<close>
  classification and allocation as partitions of the discovered candidates, \<open>Context_Budget\<close>
  the estimators, the fixed points (eight rounds, as in the code; \<open>additive_converges\<close> shows that
  four are enough) and the locales \<open>estimator\<close>, \<open>canonical_json\<close> and \<open>budgeted\<close>,
  interpreted on the three estimators and on the RFC 8785 encoder \<open>jcs\<close>.  \<open>Context_Compiler\<close>
  is the service, \<open>Context_Selection\<close> proves both budgeting modes equal and accounts for every
  candidate, \<open>Context_Properties\<close> has the claims and \<open>Context_Example\<close> a compilation
  evaluated on concrete data.

  \<^bold>\<open>Block reconciliation\<close> (\<open>domain/reconciliation.py\<close>).  \<open>Recon_Domain\<close> has blocks,
  matches and plans, \<open>Recon_Match\<close> the bounded matcher that carries logical identity from one version
  of a document to the next, in the code's five phases; the phases of unique keys end because each
  pass that makes progress uses up a block.  \<open>Recon_Invariant\<close> proves the invariant of a matching
  phase by phase (the locale \<open>key_phase\<close> is what the three phases of unique keys share),
  \<open>Recon_Properties\<close> the claims about plans and about an unchanged document.

  \<^bold>\<open>Derivations and the reconciliation catalog\<close> (\<open>domain/derivation.py\<close>,
  \<open>domain/derivation_lifecycle.py\<close>, \<open>adapters/sqlite_catalog_derivations.py\<close>,
  \<open>adapters/sqlite_catalog_reconciliation.py\<close>, \<open>adapters/sqlite_migrations_evidence.py\<close>).
  \<open>Derivation_Domain\<close> has generation records, dependencies, slots and nodes, \<open>Derivation_Catalog\<close>
  their tables and transactions, \<open>Recon_Catalog\<close> the publication and loading of reconciliation plans
  with the lifecycle they drive: current nodes that rest on an inactive binding become stale, and stale nodes
  whose inputs are back become current again.  \<open>Derivation_Invariant\<close>, \<open>Derivation_Lifecycle\<close>,
  \<open>Derivation_Publish\<close>, \<open>Derivation_Steps\<close> and \<open>Recon_Steps\<close> prove what each step
  keeps; the locale \<open>keeping\<close> is what the loops over memberships and matches share.  \<open>recurse\<close>
  ends because dependencies are a finite set of nodes each visited once, and \<open>reactivate\<close> because a pass that
  makes progress leaves fewer stale nodes.  \<open>Evidence_System\<close> is the transition system, in which
  ingestion may be anything that only adds objects, blocks of representations that are not ready, ready representations and heads;
  \<open>Evidence_Example\<close> is a history for the witnesses, \<open>Evidence_Properties\<close> has the claims.
  The table \<open>lineage_block_keys\<close>, a copy that only foreign keys read, is left out.

  \<^bold>\<open>Ingestion tables\<close> (\<open>domain/ingestion.py\<close>, \<open>domain/block.py\<close>,
  \<open>domain/manifest.py\<close>, \<open>adapters/sqlite_catalog_core.py\<close>,
  \<open>adapters/sqlite_catalog_representations.py\<close>, \<open>adapters/sqlite_migrations_foundation.py\<close>).
  \<open>Rep_Domain\<close> has the records with their validators, among them the one of a ready commit with its
  walk from every block to its root, \<open>Source_Catalog\<close> the tables (one field of \<open>rep_catalog\<close> per
  table) with documents and source versions, \<open>Rep_Catalog\<close> the lifecycle of representations: claim, renewal,
  failure, commit with its lexical index entries, heads and events.  Times are integers, microseconds
  of a clock, since their stored texts have one width and are ordered as they are; identifiers are
  opaque texts.  \<open>Rep_Invariant\<close>, \<open>Rep_Publish\<close> and \<open>Rep_System\<close> give the invariant
  \<open>rep_inv\<close>, \<open>Rep_History\<close> the event log as a fold whose value is the head, \<open>Rep_Commit\<close>
  and \<open>Rep_Steps\<close> the cases of each transaction, \<open>Rep_Reach\<close> the transition system,
  \<open>Rep_Lifecycle\<close> the refinement of the lifecycle graph \<open>rep_edge\<close>, \<open>Rep_Growth\<close> what only
  grows, \<open>Rep_Replay\<close> commits and their repetition, \<open>Rep_Hierarchy\<close> that the walk is an exact
  test for cycles.  \<open>Rep_Store\<close> puts these tables and the evidence tables together: each half is an
  environment the other one allows for.  \<open>Rep_Example\<close> is a history for the witnesses and
  \<open>Rep_Properties\<close> has the claims.

  \<^bold>\<open>Parameters.\<close>  Hashing, canonical encoding of hashed records, UUID generation, file
  scanning, parsing of stored bytes and the object store are arguments of the model.

  \<^bold>\<open>Not modelled.\<close>  Pure input and output (CLI, MCP server, SQLite connections, file system
  stores, subprocess isolation), adapters of third-party libraries (Docling, PDFium, E5, BagIt
  packaging), release and benchmark tooling under \<open>scripts/\<close>, and the parts of the modelled
  packages that the manifest lists: the persistence and replay of compilations, rich parse attempts
  (which append events of their own), maintenance and backup, search and agent views, document
  queries, and the services of ingestion, reconciliation and derivation around the modelled transactions.
\<close>

end
